(* ===== verification/PW_Prelude.thy ===== *)
theory PW_Prelude
  imports Complex_Main
begin

text \<open>
  Vocabulary shared by every component: instants and durations, Python's floating-point values
  with both of the orders the program uses (Python's comparisons in the threshold checks,
  PostgreSQL's float8 order in \<open>min\<close>/\<open>max\<close>), the exceptions and HTTP errors the handlers
  raise, and a table of rows with an autoincrement key together with the four SQL statements
  the source issues on it. The generic lemmas on tables are the ones the component theories
  share; the collection \<open>table_simps\<close> unfolds the statements.
\<close>

named_theorems table_simps \<open>the SQL statements as list operations\<close>

section \<open>Time\<close>

text \<open>
  A timezone-aware datetime is the number of microseconds since the epoch, the resolution of
  both Python's \<open>datetime\<close> and PostgreSQL's \<open>timestamptz\<close>. Every datetime of the program is
  in UTC.
\<close>

type_synonym time = int

abbreviation secs :: "int \<Rightarrow> time" where
  "secs n \<equiv> n * 1000000"

abbreviation minutes :: "int \<Rightarrow> time" where
  "minutes n \<equiv> secs (n * 60)"

abbreviation hours :: "int \<Rightarrow> time" where
  "hours n \<equiv> secs (n * 3600)"

abbreviation days :: "int \<Rightarrow> time" where
  "days n \<equiv> secs (n * 86400)"

section \<open>Floating-point values\<close>

text \<open>
  A binary64 value is one of the infinities, NaN, or a finite value, which is a rational
  number; comparing two finite values compares the rationals. (The two zeros are equal in
  every comparison the program makes, so they are one value here.)
\<close>

datatype pyfloat = NegInf | Fin rat | PosInf | NaN

fun py_lt :: "pyfloat \<Rightarrow> pyfloat \<Rightarrow> bool" where
  "py_lt (Fin a) (Fin b) = (a < b)"
| "py_lt NegInf (Fin _) = True"
| "py_lt NegInf PosInf = True"
| "py_lt (Fin _) PosInf = True"
| "py_lt _ _ = False"

fun py_eq :: "pyfloat \<Rightarrow> pyfloat \<Rightarrow> bool" where
  "py_eq (Fin a) (Fin b) = (a = b)"
| "py_eq NegInf NegInf = True"
| "py_eq PosInf PosInf = True"
| "py_eq _ _ = False"

definition py_le :: "pyfloat \<Rightarrow> pyfloat \<Rightarrow> bool" where
  "py_le a b = (py_lt a b \<or> py_eq a b)"

lemma py_lt_irrefl [simp]: "\<not> py_lt a a"
  by (cases a) auto

lemma py_lt_NaN [simp]: "\<not> py_lt NaN a" "\<not> py_lt a NaN"
  by (cases a; simp)+

lemma py_eq_NaN [simp]: "\<not> py_eq NaN a" "\<not> py_eq a NaN"
  by (cases a; simp)+

lemma py_le_NaN [simp]: "\<not> py_le NaN a" "\<not> py_le a NaN"
  by (simp_all add: py_le_def)

lemma py_eq_iff: "py_eq a b \<longleftrightarrow> a = b \<and> a \<noteq> NaN"
  by (cases a; cases b) auto

lemma py_lt_trichotomy: "a \<noteq> NaN \<Longrightarrow> b \<noteq> NaN \<Longrightarrow> py_lt a b \<or> py_eq a b \<or> py_lt b a"
  by (cases a; cases b) auto

lemma py_lt_asym: "py_lt a b \<Longrightarrow> \<not> py_lt b a \<and> \<not> py_eq a b \<and> \<not> py_eq b a"
  by (cases a; cases b) auto

lemma py_not_lt: "a \<noteq> NaN \<Longrightarrow> b \<noteq> NaN \<Longrightarrow> \<not> py_lt a b \<longleftrightarrow> py_le b a"
  by (cases a; cases b) (auto simp: py_le_def)

text \<open>
  PostgreSQL orders float8 totally, NaN above every other value; \<open>min\<close>, \<open>max\<close> and
  \<open>ORDER BY\<close> use this order.
\<close>

fun float_rank :: "pyfloat \<Rightarrow> nat" where
  "float_rank NegInf = 0"
| "float_rank (Fin _) = 1"
| "float_rank PosInf = 2"
| "float_rank NaN = 3"

fun float_le :: "pyfloat \<Rightarrow> pyfloat \<Rightarrow> bool" where
  "float_le (Fin a) (Fin b) = (a \<le> b)"
| "float_le a b = (float_rank a \<le> float_rank b)"

instantiation pyfloat :: linorder
begin

definition less_eq_pyfloat :: "pyfloat \<Rightarrow> pyfloat \<Rightarrow> bool" where
  "a \<le> b \<longleftrightarrow> float_le a b"

definition less_pyfloat :: "pyfloat \<Rightarrow> pyfloat \<Rightarrow> bool" where
  "a < b \<longleftrightarrow> float_le a b \<and> \<not> float_le b a"

instance
proof
  fix a b c :: pyfloat
  show "a < b \<longleftrightarrow> a \<le> b \<and> \<not> b \<le> a"
    by (simp add: less_eq_pyfloat_def less_pyfloat_def)
  show "a \<le> a"
    by (cases a) (auto simp: less_eq_pyfloat_def)
  show "a \<le> b \<Longrightarrow> b \<le> c \<Longrightarrow> a \<le> c"
    by (cases a; cases b; cases c) (auto simp: less_eq_pyfloat_def)
  show "a \<le> b \<Longrightarrow> b \<le> a \<Longrightarrow> a = b"
    by (cases a; cases b) (auto simp: less_eq_pyfloat_def)
  show "a \<le> b \<or> b \<le> a"
    by (cases a; cases b) (auto simp: less_eq_pyfloat_def)
qed

end

lemma float_le_Fin [simp]: "Fin a \<le> Fin b \<longleftrightarrow> a \<le> b" "Fin a < Fin b \<longleftrightarrow> a < b"
  by (auto simp: less_eq_pyfloat_def less_pyfloat_def)

text \<open>Below NaN the two orders agree.\<close>

lemma float_order_agrees:
  "a \<noteq> NaN \<Longrightarrow> b \<noteq> NaN \<Longrightarrow> py_lt a b \<longleftrightarrow> a < b"
  "a \<noteq> NaN \<Longrightarrow> b \<noteq> NaN \<Longrightarrow> py_le a b \<longleftrightarrow> a \<le> b"
  by (cases a; cases b; auto simp: less_pyfloat_def less_eq_pyfloat_def py_le_def)+

section \<open>Exceptions and HTTP errors\<close>

text \<open>
  The exceptions the handlers can meet. \<open>DataError\<close> is PostgreSQL refusing a value too long or
  too large for its column, \<open>IntegrityError\<close> a violated UNIQUE, NOT NULL or FOREIGN KEY
  constraint, \<open>MultipleResultsFound\<close> what \<open>scalar_one_or_none\<close> raises on two rows,
  \<open>MissingGreenlet\<close> what reading an attribute of a row raises after its session was rolled back
  (the rollback expires the row and an implicit reload is not possible in async code),
  \<open>BrokerError\<close> what putting a task into an unreachable Celery broker raises,
  \<open>RuntimeError\<close> what the code itself raises when the Redis client or a bot token is not set.
\<close>

datatype exc =
    IntegrityError
  | DataError
  | MultipleResultsFound
  | TypeError
  | ValueError
  | KeyError
  | MissingGreenlet
  | BrokerError
  | RuntimeError

text \<open>The \<open>detail\<close> of an HTTPException, one constructor per message of the source.\<close>

datatype detail =
    EmailTaken
  | ServerNameTaken
  | BadCredentials
  | TotpRequired
  | InvalidTotpCode
  | InvalidRefreshToken
  | RefreshReuseDetected
  | PasswordTooShort
  | ResetTokenInvalid
  | UserMissing
  | TotpNotInitialised
  | WrongTotpCode
  | WrongPassword
  | CouldNotValidate
  | InvalidApiKey
  | ServerNotFound
  | RuleNotFound
  | EventNotFound
  | EndNotAfterStart
  | PeriodTooLong
  | UnprocessableEntity

datatype http_error = HTTPException int detail | Unhandled exc

text \<open>An operation that may raise returns \<open>Inl\<close> of the error.\<close>

type_synonym 'a result = "http_error + 'a"

text \<open>An exception no handler catches ends the request with status 500.\<close>

fun uncaught :: "exc + 'a \<Rightarrow> 'a result" where
  "uncaught (Inl x) = Inl (Unhandled x)"
| "uncaught (Inr v) = Inr v"

section \<open>Tables\<close>

text \<open>
  A table is its rows in insertion order and the next value of its id sequence. The statements
  the source builds with SQLAlchemy are list operations on the rows: \<open>SELECT ... WHERE\<close> is
  \<open>filter\<close>, \<open>UPDATE ... WHERE\<close> maps the matching rows, \<open>DELETE ... WHERE\<close> drops them and
  \<open>INSERT\<close> appends a row that carries the next id.
\<close>

record 'a table =
  rows :: "'a list"
  seq :: int

definition empty_table :: "'a table" where
  "empty_table = \<lparr>rows = [], seq = 1\<rparr>"

definition select :: "('a \<Rightarrow> bool) \<Rightarrow> 'a table \<Rightarrow> 'a list" where
  [table_simps]: "select P t = filter P (rows t)"

definition insert_row :: "(int \<Rightarrow> 'a) \<Rightarrow> 'a table \<Rightarrow> 'a table" where
  [table_simps]: "insert_row mk t = t\<lparr>rows := rows t @ [mk (seq t)], seq := seq t + 1\<rparr>"

definition update_where :: "('a \<Rightarrow> bool) \<Rightarrow> ('a \<Rightarrow> 'a) \<Rightarrow> 'a table \<Rightarrow> 'a table" where
  [table_simps]: "update_where P f t = t\<lparr>rows := map (\<lambda>r. if P r then f r else r) (rows t)\<rparr>"

definition delete_where :: "('a \<Rightarrow> bool) \<Rightarrow> 'a table \<Rightarrow> 'a table" where
  [table_simps]: "delete_where P t = t\<lparr>rows := filter (\<lambda>r. \<not> P r) (rows t)\<rparr>"

text \<open>Several new rows flushed together take consecutive ids, in their order.\<close>

fun new_rows :: "(int \<Rightarrow> 'a) list \<Rightarrow> int \<Rightarrow> 'a list" where
  "new_rows [] i = []"
| "new_rows (mk # mks) i = mk i # new_rows mks (i + 1)"

definition insert_all :: "(int \<Rightarrow> 'a) list \<Rightarrow> 'a table \<Rightarrow> 'a table" where
  "insert_all mks t =
     t\<lparr>rows := rows t @ new_rows mks (seq t), seq := seq t + int (length mks)\<rparr>"

text \<open>\<open>scalar_one_or_none()\<close>: the only row, None, or an exception when there are several.\<close>

fun scalar_one_or_none :: "'a list \<Rightarrow> exc + 'a option" where
  "scalar_one_or_none [] = Inr None"
| "scalar_one_or_none [r] = Inr (Some r)"
| "scalar_one_or_none _ = Inl MultipleResultsFound"

text \<open>
  \<open>ORDER BY k DESC\<close> and \<open>LIMIT n\<close>. SQL leaves the order of rows with equal keys open; the
  model keeps them in insertion order.
\<close>

definition order_by_desc :: "('a \<Rightarrow> int) \<Rightarrow> 'a list \<Rightarrow> 'a list" where
  "order_by_desc k xs = sort_key (\<lambda>x. - k x) xs"

definition latest_by :: "('a \<Rightarrow> int) \<Rightarrow> 'a list \<Rightarrow> 'a option" where
  "latest_by k xs = (case take 1 (order_by_desc k xs) of [] \<Rightarrow> None | x # _ \<Rightarrow> Some x)"

text \<open>The primary-key invariant of a table: ids are distinct and below the sequence.\<close>

definition keyed :: "('a \<Rightarrow> int) \<Rightarrow> 'a table \<Rightarrow> bool" where
  "keyed k t \<longleftrightarrow> distinct (map k (rows t)) \<and> (\<forall>r \<in> set (rows t). k r < seq t)"

lemma keyed_empty [simp, intro]: "keyed k empty_table"
  by (simp add: keyed_def empty_table_def)

lemma keyed_insert [intro]:
  assumes "keyed k t" and "k (mk (seq t)) = seq t"
  shows "keyed k (insert_row mk t)"
  using assms by (fastforce simp: keyed_def table_simps)

lemma keyed_update [intro]:
  assumes "keyed k t" and "\<And>r. k (f r) = k r"
  shows "keyed k (update_where P f t)"
proof -
  have "map (k \<circ> (\<lambda>r. if P r then f r else r)) (rows t) = map k (rows t)"
    using assms(2) by simp
  with assms show ?thesis
    unfolding keyed_def update_where_def by (auto simp del: map_eq_conv)
qed

lemma keyed_seq: "keyed k t \<Longrightarrow> seq t \<le> n \<Longrightarrow> keyed k (t\<lparr>seq := n\<rparr>)"
  by (fastforce simp: keyed_def)

lemma seq_update_where [simp]: "seq (update_where P f t) = seq t"
  by (simp add: update_where_def)

lemma keyed_delete [intro]: "keyed k t \<Longrightarrow> keyed k (delete_where P t)"
  by (auto simp: keyed_def table_simps distinct_map_filter)

lemma length_new_rows [simp]: "length (new_rows mks i) = length mks"
  by (induction mks i rule: new_rows.induct) auto

lemma new_rows_nth:
  "j < length mks \<Longrightarrow> new_rows mks i ! j = (mks ! j) (i + int j)"
  by (induction mks i arbitrary: j rule: new_rows.induct) (auto simp: nth_Cons algebra_simps split: nat.split)

lemma new_rows_map:
  "(\<And>mk i. mk \<in> set mks \<Longrightarrow> g (mk i) = h mk) \<Longrightarrow> map g (new_rows mks i) = map h mks"
  by (induction mks i rule: new_rows.induct) auto

lemma new_rows_all:
  "(\<And>mk i. mk \<in> set mks \<Longrightarrow> P (mk i)) \<Longrightarrow> r \<in> set (new_rows mks i) \<Longrightarrow> P r"
  by (induction mks i rule: new_rows.induct) auto

lemma new_rows_from:
  "r \<in> set (new_rows mks i) \<Longrightarrow> \<exists>mk \<in> set mks. \<exists>j. r = mk j"
  by (induction mks i rule: new_rows.induct) auto

lemma new_rows_ids:
  assumes "\<And>mk i. mk \<in> set mks \<Longrightarrow> k (mk i) = i"
  shows "map k (new_rows mks i) = map (\<lambda>j. i + int j) [0..<length mks]"
  by (rule nth_equalityI) (simp_all add: new_rows_nth assms)

lemma rows_insert_all [simp]: "rows (insert_all mks t) = rows t @ new_rows mks (seq t)"
  by (simp add: insert_all_def)

lemma insert_all_Nil [simp]: "insert_all [] t = t"
  by (simp add: insert_all_def)

lemma keyed_insert_all [intro]:
  assumes "keyed k t" and ids: "\<And>mk i. mk \<in> set mks \<Longrightarrow> k (mk i) = i"
  shows "keyed k (insert_all mks t)"
proof -
  have m: "map k (new_rows mks (seq t)) = map (\<lambda>j. seq t + int j) [0..<length mks]"
    using ids by (rule new_rows_ids)
  then have s: "k ` set (new_rows mks (seq t)) = (\<lambda>j. seq t + int j) ` {0..<length mks}"
    by (metis atLeast_upt list.set_map atLeast0LessThan)
  have "distinct (map k (new_rows mks (seq t)))"
    unfolding m by (simp add: distinct_map inj_on_def)
  moreover have "k ` set (rows t) \<inter> k ` set (new_rows mks (seq t)) = {}"
    using assms(1) unfolding s by (fastforce simp: keyed_def)
  moreover have "\<forall>x \<in> k ` set (new_rows mks (seq t)). x < seq t + int (length mks)"
    unfolding s by simp
  moreover have "\<forall>r \<in> set (rows t). k r < seq t + int (length mks)"
    using assms(1) by (auto simp: keyed_def)
  ultimately show ?thesis
    using assms(1) by (auto simp: keyed_def insert_all_def)
qed

lemma keyed_inj:
  assumes "keyed k t" and "r \<in> set (rows t)" and "r' \<in> set (rows t)" and "k r = k r'"
  shows "r = r'"
  using assms unfolding keyed_def by (metis distinct_map inj_on_def)

lemma filter_key_unique:
  assumes "distinct (map k xs)" and "x \<in> set xs"
  shows "filter (\<lambda>r. k r = k x \<and> P r) xs = (if P x then [x] else [])"
  using assms
proof (induction xs)
  case Nil
  then show ?case by simp
next
  case (Cons y ys)
  show ?case
  proof (cases "x = y")
    case True
    with Cons.prems have "k x \<notin> k ` set ys" by simp
    then have "\<forall>r \<in> set ys. k r \<noteq> k x" by (metis image_eqI)
    then have "filter (\<lambda>r. k r = k x \<and> P r) ys = []"
      by (simp add: filter_empty_conv)
    with True show ?thesis by simp
  next
    case False
    with Cons show ?thesis by auto
  qed
qed

lemma concat_map_filter:
  "(\<And>x. x \<in> set xs \<Longrightarrow> \<not> P x \<Longrightarrow> f x = []) \<Longrightarrow> concat (map f (filter P xs)) = concat (map f xs)"
  by (induction xs) auto

lemma find_filter: "find P xs = (case filter P xs of [] \<Rightarrow> None | x # _ \<Rightarrow> Some x)"
  by (induction xs) auto

text \<open>A lookup by primary key meets at most one row, so \<open>scalar_one_or_none\<close> returns.\<close>

lemma lookup_by_key:
  assumes "keyed k t"
  shows "scalar_one_or_none (select (\<lambda>r. k r = i \<and> P r) t) =
    Inr (find (\<lambda>r. k r = i \<and> P r) (rows t))"
proof (cases "\<exists>x \<in> set (rows t). k x = i \<and> P x")
  case True
  then obtain x where x: "x \<in> set (rows t)" "k x = i" "P x" by blast
  have d: "distinct (map k (rows t))" using assms by (simp add: keyed_def)
  from filter_key_unique [OF d x(1), of P] x
  have f: "filter (\<lambda>r. k r = i \<and> P r) (rows t) = [x]" by simp
  have "find (\<lambda>r. k r = i \<and> P r) (rows t) = Some x"
    by (simp add: find_filter f)
  with f show ?thesis by (simp add: table_simps)
next
  case False
  then have "filter (\<lambda>r. k r = i \<and> P r) (rows t) = []" and
    "find (\<lambda>r. k r = i \<and> P r) (rows t) = None"
    by (auto simp: filter_empty_conv find_None_iff)
  then show ?thesis by (simp add: table_simps)
qed

lemma scalar_one_or_none_None [simp]: "scalar_one_or_none xs = Inr None \<longleftrightarrow> xs = []"
  by (cases xs rule: scalar_one_or_none.cases) auto

lemma scalar_one_or_none_Some [simp]: "scalar_one_or_none xs = Inr (Some x) \<longleftrightarrow> xs = [x]"
  by (cases xs rule: scalar_one_or_none.cases) auto

lemma scalar_one_or_none_Inl: "scalar_one_or_none xs = Inl e \<Longrightarrow> 2 \<le> length xs"
  by (cases xs rule: scalar_one_or_none.cases) auto

lemma set_order_by_desc [simp]: "set (order_by_desc k xs) = set xs"
  by (simp add: order_by_desc_def)

lemma latest_by_None [simp]: "latest_by k xs = None \<longleftrightarrow> xs = []"
proof -
  have "order_by_desc k xs = [] \<longleftrightarrow> xs = []"
    using set_order_by_desc [of k xs] by (metis set_empty)
  then show ?thesis
    by (cases "order_by_desc k xs") (auto simp: latest_by_def)
qed

lemma latest_by_Some:
  assumes "latest_by k xs = Some x"
  shows "x \<in> set xs" and "\<forall>y \<in> set xs. k y \<le> k x"
proof -
  obtain ys where ys: "order_by_desc k xs = x # ys"
    using assms by (cases "order_by_desc k xs") (auto simp: latest_by_def)
  have "sorted (map (\<lambda>x. - k x) (order_by_desc k xs))"
    by (simp add: order_by_desc_def)
  with ys have "\<forall>y \<in> set ys. k y \<le> k x" by simp
  then show "\<forall>y \<in> set xs. k y \<le> k x"
    using ys set_order_by_desc [of k xs] by (metis order_refl set_ConsD)
  show "x \<in> set xs"
    using ys set_order_by_desc [of k xs] by (metis list.set_intros(1))
qed

end
