(* ===== verification/PW_Text.thy ===== *)
theory PW_Text
  imports PW_Prelude
begin

text \<open>
  The operations of Python's \<open>str\<close> that the source uses: the character classes behind
  \<open>isspace\<close>, \<open>isdigit\<close> and the regular expressions' \<open>\s\<close>, \<open>\d\<close>, \<open>\w\<close>; \<open>strip\<close>, \<open>lstrip\<close>,
  \<open>lower\<close>, \<open>startswith\<close>, \<open>split\<close> at the first separator, \<open>str\<close> of an integer and \<open>int\<close> of a
  string. A \<open>char\<close> is one code point, so the text of the model ranges over U+0000 to U+00FF,
  on which every class below is exact (the superscripts two, three and one are digits for
  \<open>isdigit\<close> but not decimal digits, so \<open>int\<close> rejects them).
\<close>

section \<open>Character classes\<close>

definition code_point :: "char \<Rightarrow> nat" where
  "code_point c = of_char c"

definition is_space :: "char \<Rightarrow> bool" where
  "is_space c \<longleftrightarrow> (let n = code_point c in
     9 \<le> n \<and> n \<le> 13 \<or> 28 \<le> n \<and> n \<le> 32 \<or> n = 133 \<or> n = 160)"

definition is_decimal :: "char \<Rightarrow> bool" where
  "is_decimal c \<longleftrightarrow> 48 \<le> code_point c \<and> code_point c \<le> 57"

definition is_digit :: "char \<Rightarrow> bool" where
  "is_digit c \<longleftrightarrow> is_decimal c \<or> code_point c \<in> {178, 179, 185}"

definition is_letter :: "char \<Rightarrow> bool" where
  "is_letter c \<longleftrightarrow> (let n = code_point c in
     65 \<le> n \<and> n \<le> 90 \<or> 97 \<le> n \<and> n \<le> 122 \<or> n \<in> {170, 181, 186}
     \<or> 192 \<le> n \<and> n \<le> 255 \<and> n \<noteq> 215 \<and> n \<noteq> 247)"

definition is_word :: "char \<Rightarrow> bool" where
  "is_word c \<longleftrightarrow> is_letter c \<or> is_digit c \<or> code_point c \<in> {95, 188, 189, 190}"

definition lower_char :: "char \<Rightarrow> char" where
  "lower_char c = (let n = code_point c in
     if 65 \<le> n \<and> n \<le> 90 \<or> 192 \<le> n \<and> n \<le> 222 \<and> n \<noteq> 215 then char_of (n + 32) else c)"

section \<open>String methods\<close>

definition lower :: "string \<Rightarrow> string" where
  "lower s = map lower_char s"

definition rstrip_class :: "(char \<Rightarrow> bool) \<Rightarrow> string \<Rightarrow> string" where
  "rstrip_class P s = rev (dropWhile P (rev s))"

definition strip :: "string \<Rightarrow> string" where
  "strip s = rstrip_class is_space (dropWhile is_space s)"

text \<open>\<open>str.isdigit()\<close>: not empty and every character a digit.\<close>

definition isdigit :: "string \<Rightarrow> bool" where
  "isdigit s \<longleftrightarrow> s \<noteq> [] \<and> list_all is_digit s"

fun startswith :: "string \<Rightarrow> string \<Rightarrow> bool" where
  "startswith s [] = True"
| "startswith [] (_ # _) = False"
| "startswith (c # s) (p # ps) = (c = p \<and> startswith s ps)"

text \<open>\<open>s.split(sep, 1)\<close> unpacked into two names: None stands for the ValueError.\<close>

definition split_once :: "char \<Rightarrow> string \<Rightarrow> (string \<times> string) option" where
  "split_once sep s = (case dropWhile (\<lambda>c. c \<noteq> sep) s of
     [] \<Rightarrow> None
   | _ # r \<Rightarrow> Some (takeWhile (\<lambda>c. c \<noteq> sep) s, r))"

section \<open>Integers as text\<close>

definition digit_char :: "nat \<Rightarrow> char" where
  "digit_char k = ''0123456789'' ! k"

definition digit_val :: "char \<Rightarrow> int" where
  "digit_val c = int (code_point c) - 48"

fun str_nat :: "nat \<Rightarrow> string" where
  "str_nat n = (if n < 10 then [digit_char n] else str_nat (n div 10) @ [digit_char (n mod 10)])"

declare str_nat.simps [simp del]

definition str_int :: "int \<Rightarrow> string" where
  "str_int i = (if i < 0 then CHR ''-'' # str_nat (nat (- i)) else str_nat (nat i))"

text \<open>
  \<open>int(s)\<close>: surrounding white space, an optional sign, then decimal digits with single
  underscores allowed between them; None stands for the ValueError.
\<close>

fun int_digits :: "int \<Rightarrow> string \<Rightarrow> int option" where
  "int_digits n [] = Some n"
| "int_digits n (c # cs) =
     (if is_decimal c then int_digits (10 * n + digit_val c) cs
      else if c = CHR ''_'' then
        (case cs of
           [] \<Rightarrow> None
         | d # ds \<Rightarrow> if is_decimal d then int_digits (10 * n + digit_val d) ds else None)
      else None)"

fun int_unsigned :: "string \<Rightarrow> int option" where
  "int_unsigned [] = None"
| "int_unsigned (c # cs) = (if is_decimal c then int_digits (digit_val c) cs else None)"

definition py_int :: "string \<Rightarrow> int option" where
  "py_int s = (case strip s of
     [] \<Rightarrow> None
   | c # cs \<Rightarrow>
       if c = CHR ''-'' then map_option uminus (int_unsigned cs)
       else if c = CHR ''+'' then int_unsigned cs
       else int_unsigned (c # cs))"

section \<open>Lemmas on classes\<close>

lemma less_10_cases:
  "(n::nat) < 10 \<Longrightarrow> n \<in> {0, 1, 2, 3, 4, 5, 6, 7, 8, 9}"
  by auto

lemma code_digit_char [simp]: "n < 10 \<Longrightarrow> code_point (digit_char n) = 48 + n"
  by (drule less_10_cases) (auto simp: code_point_def digit_char_def)

lemma is_decimal_digit_char [simp]: "n < 10 \<Longrightarrow> is_decimal (digit_char n)"
  by (simp add: is_decimal_def)

lemma digit_val_digit_char [simp]: "n < 10 \<Longrightarrow> digit_val (digit_char n) = int n"
  by (simp add: digit_val_def)

lemma decimal_not_space: "is_decimal c \<Longrightarrow> \<not> is_space c"
  by (auto simp: is_decimal_def is_space_def Let_def)

lemma decimal_is_digit [simp]: "is_decimal c \<Longrightarrow> is_digit c"
  by (simp add: is_digit_def)

lemma digit_is_word: "is_digit c \<Longrightarrow> is_word c"
  by (simp add: is_word_def)

lemma word_not_space: "is_word c \<Longrightarrow> \<not> is_space c"
  by (auto simp: is_word_def is_letter_def is_digit_def is_decimal_def is_space_def Let_def)

section \<open>Lemmas on strings\<close>

lemma strip_no_space [simp]: "list_all (\<lambda>c. \<not> is_space c) s \<Longrightarrow> strip s = s"
proof -
  assume a: "list_all (\<lambda>c. \<not> is_space c) s"
  then have l: "dropWhile is_space s = s"
    by (cases s) auto
  from a have "list_all (\<lambda>c. \<not> is_space c) (rev s)" by simp
  then have "dropWhile is_space (rev s) = rev s"
    by (cases "rev s") auto
  with l show ?thesis by (simp add: strip_def rstrip_class_def)
qed

lemma startswith_append [simp]: "startswith (p @ s) p"
  by (induction p) auto

lemma startswith_iff: "startswith s p \<longleftrightarrow> (\<exists>t. s = p @ t)"
  by (induction s p rule: startswith.induct) auto

lemma split_once_append:
  assumes "sep \<notin> set a"
  shows "split_once sep (a @ sep # b) = Some (a, b)"
proof -
  have n: "\<And>c. c \<in> set a \<Longrightarrow> c \<noteq> sep" using assms by auto
  show ?thesis
    by (simp add: split_once_def dropWhile_append2 [of a "\<lambda>c. c \<noteq> sep", OF n]
        takeWhile_append2 [of a "\<lambda>c. c \<noteq> sep", OF n])
qed

section \<open>Printing and reading integers\<close>

lemma str_nat_decimal: "list_all is_decimal (str_nat n)"
proof (induction n rule: str_nat.induct)
  case (1 n)
  then show ?case by (subst str_nat.simps) auto
qed

lemma str_nat_not_Nil [simp]: "str_nat n \<noteq> []"
  by (subst str_nat.simps) simp

lemma int_digits_append:
  "list_all is_decimal s \<Longrightarrow> is_decimal c \<Longrightarrow>
   int_digits n (s @ [c]) = map_option (\<lambda>m. 10 * m + digit_val c) (int_digits n s)"
  by (induction s arbitrary: n) auto

lemma int_unsigned_str_nat [simp]: "int_unsigned (str_nat n) = Some (int n)"
proof (induction n rule: str_nat.induct)
  case (1 n)
  show ?case
  proof (cases "n < 10")
    case True
    then show ?thesis by (subst str_nat.simps) simp
  next
    case False
    with 1 have IH: "int_unsigned (str_nat (n div 10)) = Some (int (n div 10))" by simp
    obtain c cs where c: "str_nat (n div 10) = c # cs"
      by (cases "str_nat (n div 10)") auto
    have d: "is_decimal c" "list_all is_decimal cs"
      using str_nat_decimal [of "n div 10"] c by auto
    from IH c d have "int_digits (digit_val c) cs = Some (int (n div 10))" by simp
    with d have "int_digits (digit_val c) (cs @ [digit_char (n mod 10)]) =
        Some (10 * int (n div 10) + int (n mod 10))"
      by (simp add: int_digits_append)
    also have "10 * int (n div 10) + int (n mod 10) = int n"
      by presburger
    finally have "int_digits (digit_val c) (cs @ [digit_char (n mod 10)]) = Some (int n)" .
    with False c d show ?thesis by (subst str_nat.simps) simp
  qed
qed

lemma minus_not_decimal: "\<not> is_decimal (CHR ''-'')" "\<not> is_space (CHR ''-'')"
  by (simp_all add: is_decimal_def is_space_def code_point_def)

lemma plus_not_decimal: "\<not> is_decimal (CHR ''+'')" "\<not> is_space (CHR ''+'')"
  by (simp_all add: is_decimal_def is_space_def code_point_def)

lemma strip_decimal: "list_all is_decimal s \<Longrightarrow> strip s = s"
  by (rule strip_no_space) (auto simp: list_all_iff decimal_not_space)

lemma strip_str_int [simp]: "strip (str_int i) = str_int i"
proof (rule strip_no_space)
  show "list_all (\<lambda>c. \<not> is_space c) (str_int i)"
    using str_nat_decimal minus_not_decimal(2)
    by (auto simp: str_int_def list_all_iff decimal_not_space)
qed

text \<open>\<open>int(str(i)) == i\<close>.\<close>

lemma py_int_str_int [simp]: "py_int (str_int i) = Some i"
proof (cases "i < 0")
  case True
  then show ?thesis
    unfolding py_int_def strip_str_int by (simp add: str_int_def)
next
  case False
  obtain c cs where c: "str_nat (nat i) = c # cs"
    by (cases "str_nat (nat i)") auto
  have "is_decimal c" using str_nat_decimal [of "nat i"] c by simp
  then have "c \<noteq> CHR ''-''" and "c \<noteq> CHR ''+''"
    using minus_not_decimal plus_not_decimal by auto
  moreover have "int_unsigned (c # cs) = Some i"
    using False int_unsigned_str_nat [of "nat i"] c by simp
  ultimately show ?thesis
    unfolding py_int_def strip_str_int using False c by (simp add: str_int_def)
qed

lemma str_int_inject [simp]: "str_int i = str_int j \<longleftrightarrow> i = j"
  by (metis option.inject py_int_str_int)

text \<open>A printed integer holds no character that is neither a digit nor a minus sign.\<close>

lemma str_int_chars: "c \<in> set (str_int i) \<Longrightarrow> is_decimal c \<or> c = CHR ''-''"
  using str_nat_decimal by (auto simp: str_int_def list_all_iff split: if_splits)

lemma str_int_not_in [simp]:
  "CHR ''.'' \<notin> set (str_int i)" "CHR '':'' \<notin> set (str_int i)"
  using str_int_chars [of "CHR ''.''" i] str_int_chars [of "CHR '':''" i]
  by (auto simp: is_decimal_def code_point_def)

lemma str_int_not_Nil [simp]: "str_int i \<noteq> []"
  by (simp add: str_int_def)

text \<open>Two strings joined by a separator that the first part does not hold split one way only.\<close>

lemma sep_append_inject:
  fixes sep :: char
  assumes "sep \<notin> set a" and "sep \<notin> set a'"
  shows "a @ sep # b = a' @ sep # b' \<longleftrightarrow> a = a' \<and> b = b'"
proof
  assume "a @ sep # b = a' @ sep # b'"
  then have "split_once sep (a @ sep # b) = split_once sep (a' @ sep # b')" by simp
  with assms show "a = a' \<and> b = b'" by (simp add: split_once_append)
qed simp

lemma takeWhile_replicate_eq:
  "takeWhile (\<lambda>x. x = c) xs = replicate (length (takeWhile (\<lambda>x. x = c) xs)) c"
  by (induction xs) auto

end
