(* ===== verification/PW_Schema.thy ===== *)
theory PW_Schema
  imports PW_Text
begin

text \<open>
  The relational schema (\<open>app/models\<close>): one record per mapped class with the columns in the
  order of the class, the enumerations, the column constraints PostgreSQL checks when a row
  is written, and the database as one table per class. \<open>delete_server\<close> is the row deletion
  with the cascades the foreign keys declare. \<open>db_ok\<close> is the invariant the constraints
  maintain: primary keys, the two UNIQUE constraints and every foreign key.
  \<open>env\<close> holds what a request reads from outside the program and \<open>app\<close> the state the
  processes share: the database, the Redis store, the Celery queue and what was published.
\<close>

section \<open>Mapped classes\<close>

record user =
  usr_id :: int
  usr_email :: string
  usr_password_hash :: string
  usr_created_at :: time
  usr_is_active :: bool
  usr_telegram_chat_id :: "string option"
  usr_email_alerts_enabled :: bool
  usr_totp_secret :: "string option"
  usr_totp_enabled :: bool

record server =
  srv_id :: int
  srv_name :: string
  srv_api_key_hash :: string
  srv_owner_id :: int
  srv_created_at :: time
  srv_last_seen_at :: "time option"
  srv_is_active :: bool
  srv_agent_version :: "string option"
  srv_paused :: bool

record metric =
  met_id :: int
  met_server_id :: int
  met_cpu_percent :: pyfloat
  met_memory_percent :: pyfloat
  met_disk_percent :: pyfloat
  met_collected_at :: time

record docker_metric =
  dm_id :: int
  dm_server_id :: int
  dm_container_id :: string
  dm_container_name :: string
  dm_image :: string
  dm_status :: string
  dm_cpu_percent :: pyfloat
  dm_memory_usage_mb :: pyfloat
  dm_memory_limit_mb :: "pyfloat option"
  dm_collected_at :: time

datatype period_type = Fivemin | Hourly | Daily

record metric_aggregate =
  ma_id :: int
  ma_server_id :: int
  ma_period_type :: period_type
  ma_period_start :: time
  ma_period_end :: time
  ma_avg_cpu :: pyfloat
  ma_min_cpu :: pyfloat
  ma_max_cpu :: pyfloat
  ma_avg_memory :: pyfloat
  ma_min_memory :: pyfloat
  ma_max_memory :: pyfloat
  ma_avg_disk :: pyfloat
  ma_min_disk :: pyfloat
  ma_max_disk :: pyfloat
  ma_sample_count :: int
  ma_created_at :: time
  ma_updated_at :: time

record docker_aggregate =
  da_id :: int
  da_server_id :: int
  da_container_name :: string
  da_period_type :: period_type
  da_period_start :: time
  da_period_end :: time
  da_avg_cpu :: pyfloat
  da_min_cpu :: pyfloat
  da_max_cpu :: pyfloat
  da_avg_memory_usage :: pyfloat
  da_max_memory_usage :: pyfloat
  da_total_rx_bytes :: int
  da_total_tx_bytes :: int
  da_sample_count :: int
  da_created_at :: time
  da_updated_at :: time

datatype metric_type = System | Docker

datatype threshold_operator = Gt | Gte | Lt | Lte | Eq | Neq

record alert_rule =
  rule_id :: int
  rule_server_id :: int
  rule_owner_id :: int
  rule_name :: string
  rule_metric_type :: metric_type
  rule_metric_field :: string
  rule_operator :: threshold_operator
  rule_threshold_value :: pyfloat
  rule_container_name :: "string option"
  rule_cooldown_seconds :: int
  rule_is_active :: bool
  rule_notification_channels :: "string list"
  rule_last_triggered_at :: "time option"
  rule_created_at :: time
  rule_updated_at :: time

record alert_event =
  ev_id :: int
  ev_rule_id :: int
  ev_server_id :: int
  ev_metric_value :: pyfloat
  ev_threshold_value :: pyfloat
  ev_message :: string
  ev_container_name :: "string option"
  ev_created_at :: time
  ev_resolved_at :: "time option"

text \<open>The \<open>meta\<close> column is JSON; the source writes three shapes of it.\<close>

datatype audit_meta = MetaEmail string | MetaReason string | MetaFields "string list"

record audit_log =
  aud_id :: int
  aud_user_id :: "int option"
  aud_action :: string
  aud_resource_type :: "string option"
  aud_resource_id :: "int option"
  aud_ip_address :: "string option"
  aud_meta :: "audit_meta option"
  aud_created_at :: time

record log_entry =
  log_id :: int
  log_server_id :: int
  log_message :: string
  log_created_at :: time

text \<open>The values of the enumerations, as they are stored and as clients send them.\<close>

fun operator_value :: "threshold_operator \<Rightarrow> string" where
  "operator_value Gt = ''gt''"
| "operator_value Gte = ''gte''"
| "operator_value Lt = ''lt''"
| "operator_value Lte = ''lte''"
| "operator_value Eq = ''eq''"
| "operator_value Neq = ''neq''"

fun metric_type_value :: "metric_type \<Rightarrow> string" where
  "metric_type_value System = ''system''"
| "metric_type_value Docker = ''docker''"

section \<open>The database\<close>

record db =
  users :: "user table"
  servers :: "server table"
  metrics :: "metric table"
  docker_metrics :: "docker_metric table"
  metric_aggregates :: "metric_aggregate table"
  docker_aggregates :: "docker_aggregate table"
  alert_rules :: "alert_rule table"
  alert_events :: "alert_event table"
  audit_logs :: "audit_log table"
  logs :: "log_entry table"

definition empty_db :: db where
  "empty_db = \<lparr>users = empty_table, servers = empty_table, metrics = empty_table,
     docker_metrics = empty_table, metric_aggregates = empty_table,
     docker_aggregates = empty_table, alert_rules = empty_table, alert_events = empty_table,
     audit_logs = empty_table, logs = empty_table\<rparr>"

text \<open>
  Column limits: \<open>String(n)\<close> refuses a longer value and \<open>Integer\<close> is 32 bits wide. A row that
  breaks one is refused with a DataError when it is flushed.
\<close>

definition int32 :: "int \<Rightarrow> bool" where
  "int32 i \<longleftrightarrow> - 2147483648 \<le> i \<and> i \<le> 2147483647"

definition fits :: "nat \<Rightarrow> string option \<Rightarrow> bool" where
  "fits n s = (case s of None \<Rightarrow> True | Some t \<Rightarrow> length t \<le> n)"

definition user_fits :: "user \<Rightarrow> bool" where
  "user_fits u \<longleftrightarrow> fits 64 (usr_telegram_chat_id u) \<and> fits 64 (usr_totp_secret u)"

definition server_fits :: "server \<Rightarrow> bool" where
  "server_fits s \<longleftrightarrow> fits 64 (srv_agent_version s)"

definition rule_fits :: "alert_rule \<Rightarrow> bool" where
  "rule_fits r \<longleftrightarrow> length (rule_name r) \<le> 255 \<and> length (rule_metric_field r) \<le> 100
     \<and> fits 255 (rule_container_name r) \<and> int32 (rule_cooldown_seconds r)"

definition event_fits :: "alert_event \<Rightarrow> bool" where
  "event_fits e \<longleftrightarrow> length (ev_message e) \<le> 500 \<and> fits 255 (ev_container_name e)"

text \<open>
  Deleting a server deletes, by \<open>ON DELETE CASCADE\<close>, its metrics, aggregates, log lines, rules
  and events, and the events of the deleted rules.
\<close>

definition rule_ids_of :: "int \<Rightarrow> db \<Rightarrow> int list" where
  "rule_ids_of i d = map rule_id (select (\<lambda>r. rule_server_id r = i) (alert_rules d))"

definition delete_server :: "int \<Rightarrow> db \<Rightarrow> db" where
  "delete_server i d = d\<lparr>
     servers := delete_where (\<lambda>s. srv_id s = i) (servers d),
     metrics := delete_where (\<lambda>m. met_server_id m = i) (metrics d),
     docker_metrics := delete_where (\<lambda>m. dm_server_id m = i) (docker_metrics d),
     metric_aggregates := delete_where (\<lambda>a. ma_server_id a = i) (metric_aggregates d),
     docker_aggregates := delete_where (\<lambda>a. da_server_id a = i) (docker_aggregates d),
     alert_rules := delete_where (\<lambda>r. rule_server_id r = i) (alert_rules d),
     alert_events := delete_where
       (\<lambda>e. ev_server_id e = i \<or> ev_rule_id e \<in> set (rule_ids_of i d)) (alert_events d),
     logs := delete_where (\<lambda>l. log_server_id l = i) (logs d)\<rparr>"

text \<open>
  A lookup by id. The driver encodes an integer parameter in 32 bits and raises a DataError
  for a wider one.
\<close>

definition fetch_by_id :: "('a \<Rightarrow> int) \<Rightarrow> int \<Rightarrow> ('a \<Rightarrow> bool) \<Rightarrow> 'a table \<Rightarrow> exc + 'a option" where
  "fetch_by_id k i P t =
     (if int32 i then scalar_one_or_none (select (\<lambda>r. k r = i \<and> P r) t) else Inl DataError)"

section \<open>The invariant of the constraints\<close>

definition user_ids :: "db \<Rightarrow> int set" where
  "user_ids d = usr_id ` set (rows (users d))"

definition server_ids :: "db \<Rightarrow> int set" where
  "server_ids d = srv_id ` set (rows (servers d))"

definition rule_ids :: "db \<Rightarrow> int set" where
  "rule_ids d = rule_id ` set (rows (alert_rules d))"

definition keys_ok :: "db \<Rightarrow> bool" where
  "keys_ok d \<longleftrightarrow> keyed usr_id (users d) \<and> keyed srv_id (servers d) \<and> keyed met_id (metrics d)
     \<and> keyed dm_id (docker_metrics d) \<and> keyed ma_id (metric_aggregates d)
     \<and> keyed da_id (docker_aggregates d) \<and> keyed rule_id (alert_rules d)
     \<and> keyed ev_id (alert_events d) \<and> keyed aud_id (audit_logs d) \<and> keyed log_id (logs d)"

definition uniques_ok :: "db \<Rightarrow> bool" where
  "uniques_ok d \<longleftrightarrow> distinct (map usr_email (rows (users d)))
     \<and> distinct (map (\<lambda>s. (srv_owner_id s, srv_name s)) (rows (servers d)))"

definition foreign_keys_ok :: "db \<Rightarrow> bool" where
  "foreign_keys_ok d \<longleftrightarrow>
     srv_owner_id ` set (rows (servers d)) \<subseteq> user_ids d
     \<and> met_server_id ` set (rows (metrics d)) \<subseteq> server_ids d
     \<and> dm_server_id ` set (rows (docker_metrics d)) \<subseteq> server_ids d
     \<and> ma_server_id ` set (rows (metric_aggregates d)) \<subseteq> server_ids d
     \<and> da_server_id ` set (rows (docker_aggregates d)) \<subseteq> server_ids d
     \<and> rule_server_id ` set (rows (alert_rules d)) \<subseteq> server_ids d
     \<and> rule_owner_id ` set (rows (alert_rules d)) \<subseteq> user_ids d
     \<and> ev_rule_id ` set (rows (alert_events d)) \<subseteq> rule_ids d
     \<and> ev_server_id ` set (rows (alert_events d)) \<subseteq> server_ids d
     \<and> log_server_id ` set (rows (logs d)) \<subseteq> server_ids d
     \<and> aud_user_id ` set (rows (audit_logs d)) \<subseteq> insert None (Some ` user_ids d)"

definition db_ok :: "db \<Rightarrow> bool" where
  "db_ok d \<longleftrightarrow> keys_ok d \<and> uniques_ok d \<and> foreign_keys_ok d"

lemma fetch_by_id_keyed:
  assumes "keyed k t" and "int32 i"
  shows "fetch_by_id k i P t = Inr (find (\<lambda>r. k r = i \<and> P r) (rows t))"
  using assms by (simp add: fetch_by_id_def lookup_by_key)

lemma fetch_by_id_Some:
  "fetch_by_id k i P t = Inr (Some r) \<Longrightarrow> r \<in> set (rows t) \<and> k r = i \<and> P r"
proof -
  assume "fetch_by_id k i P t = Inr (Some r)"
  then have "filter (\<lambda>r. k r = i \<and> P r) (rows t) = [r]"
    by (simp add: fetch_by_id_def table_simps split: if_splits)
  then have "r \<in> set (filter (\<lambda>r. k r = i \<and> P r) (rows t))" by simp
  then show ?thesis by simp
qed

lemma fetch_by_id_row:
  assumes "keyed k t" and "r \<in> set (rows t)" and "k r = i" and "P r" and "int32 i"
  shows "fetch_by_id k i P t = Inr (Some r)"
  using assms filter_key_unique [of k "rows t" r P]
  by (simp add: fetch_by_id_def table_simps keyed_def)

lemma fetch_by_id_None:
  "int32 i \<Longrightarrow> fetch_by_id k i P t = Inr None \<longleftrightarrow> (\<forall>r \<in> set (rows t). k r = i \<longrightarrow> \<not> P r)"
  by (auto simp: fetch_by_id_def table_simps filter_empty_conv)

lemma db_ok_empty [simp]: "db_ok empty_db"
  by (simp add: db_ok_def keys_ok_def uniques_ok_def foreign_keys_ok_def empty_db_def)
     (simp add: empty_table_def)

text \<open>Writing one table: what the new rows have to satisfy.\<close>

lemmas ok_defs = db_ok_def keys_ok_def uniques_ok_def foreign_keys_ok_def
lemmas id_defs = user_ids_def server_ids_def rule_ids_def

lemma db_ok_users:
  assumes "db_ok d" and "keyed usr_id t" and "distinct (map usr_email (rows t))"
    and "user_ids d \<subseteq> usr_id ` set (rows t)"
  shows "db_ok (d\<lparr>users := t\<rparr>)"
proof -
  have "insert None (Some ` user_ids d) \<subseteq> insert None (Some ` usr_id ` set (rows t))" using assms(4) by auto
  then show ?thesis
    using assms by (simp add: ok_defs id_defs subset_trans [OF _ assms(4) [unfolded user_ids_def]]
        subset_trans [of _ "insert None (Some ` usr_id ` set (rows (users d)))"])
qed

lemma db_ok_servers:
  assumes "db_ok d" and "keyed srv_id t"
    and "distinct (map (\<lambda>s. (srv_owner_id s, srv_name s)) (rows t))"
    and "srv_owner_id ` set (rows t) \<subseteq> user_ids d" and "server_ids d \<subseteq> srv_id ` set (rows t)"
  shows "db_ok (d\<lparr>servers := t\<rparr>)"
  using assms by (simp add: ok_defs id_defs subset_trans [OF _ assms(5) [unfolded server_ids_def]])

lemma db_ok_metrics:
  assumes "db_ok d" and "keyed met_id t" and "met_server_id ` set (rows t) \<subseteq> server_ids d"
  shows "db_ok (d\<lparr>metrics := t\<rparr>)"
  using assms by (simp add: ok_defs id_defs)

lemma db_ok_docker_metrics:
  assumes "db_ok d" and "keyed dm_id t" and "dm_server_id ` set (rows t) \<subseteq> server_ids d"
  shows "db_ok (d\<lparr>docker_metrics := t\<rparr>)"
  using assms by (simp add: ok_defs id_defs)

lemma db_ok_metric_aggregates:
  assumes "db_ok d" and "keyed ma_id t" and "ma_server_id ` set (rows t) \<subseteq> server_ids d"
  shows "db_ok (d\<lparr>metric_aggregates := t\<rparr>)"
  using assms by (simp add: ok_defs id_defs)

lemma db_ok_docker_aggregates:
  assumes "db_ok d" and "keyed da_id t" and "da_server_id ` set (rows t) \<subseteq> server_ids d"
  shows "db_ok (d\<lparr>docker_aggregates := t\<rparr>)"
  using assms by (simp add: ok_defs id_defs)

lemma db_ok_alert_rules:
  assumes "db_ok d" and "keyed rule_id t" and "rule_server_id ` set (rows t) \<subseteq> server_ids d"
    and "rule_owner_id ` set (rows t) \<subseteq> user_ids d" and "rule_ids d \<subseteq> rule_id ` set (rows t)"
  shows "db_ok (d\<lparr>alert_rules := t\<rparr>)"
  using assms by (simp add: ok_defs id_defs subset_trans [OF _ assms(5) [unfolded rule_ids_def]])

lemma db_ok_alert_events:
  assumes "db_ok d" and "keyed ev_id t" and "ev_rule_id ` set (rows t) \<subseteq> rule_ids d"
    and "ev_server_id ` set (rows t) \<subseteq> server_ids d"
  shows "db_ok (d\<lparr>alert_events := t\<rparr>)"
  using assms by (simp add: ok_defs id_defs)

lemma db_ok_audit_logs:
  assumes "db_ok d" and "keyed aud_id t" and "aud_user_id ` set (rows t) \<subseteq> insert None (Some ` user_ids d)"
  shows "db_ok (d\<lparr>audit_logs := t\<rparr>)"
  using assms by (simp add: ok_defs id_defs)

lemma db_ok_logs:
  assumes "db_ok d" and "keyed log_id t" and "log_server_id ` set (rows t) \<subseteq> server_ids d"
  shows "db_ok (d\<lparr>logs := t\<rparr>)"
  using assms by (simp add: ok_defs id_defs)

lemmas db_ok_write =
  db_ok_users db_ok_servers db_ok_metrics db_ok_docker_metrics db_ok_metric_aggregates
  db_ok_docker_aggregates db_ok_alert_rules db_ok_alert_events db_ok_audit_logs db_ok_logs

text \<open>The parts of the invariant the component proofs read.\<close>

lemma db_ok_keyed:
  assumes "db_ok d"
  shows "keyed usr_id (users d)" "keyed srv_id (servers d)" "keyed met_id (metrics d)"
    "keyed dm_id (docker_metrics d)" "keyed ma_id (metric_aggregates d)"
    "keyed da_id (docker_aggregates d)" "keyed rule_id (alert_rules d)"
    "keyed ev_id (alert_events d)" "keyed aud_id (audit_logs d)" "keyed log_id (logs d)"
  using assms by (simp_all add: db_ok_def keys_ok_def)

lemma db_ok_fk:
  assumes "db_ok d"
  shows "srv_owner_id ` set (rows (servers d)) \<subseteq> user_ids d"
    "met_server_id ` set (rows (metrics d)) \<subseteq> server_ids d"
    "dm_server_id ` set (rows (docker_metrics d)) \<subseteq> server_ids d"
    "ma_server_id ` set (rows (metric_aggregates d)) \<subseteq> server_ids d"
    "da_server_id ` set (rows (docker_aggregates d)) \<subseteq> server_ids d"
    "rule_server_id ` set (rows (alert_rules d)) \<subseteq> server_ids d"
    "rule_owner_id ` set (rows (alert_rules d)) \<subseteq> user_ids d"
    "ev_rule_id ` set (rows (alert_events d)) \<subseteq> rule_ids d"
    "ev_server_id ` set (rows (alert_events d)) \<subseteq> server_ids d"
    "log_server_id ` set (rows (logs d)) \<subseteq> server_ids d"
    "aud_user_id ` set (rows (audit_logs d)) \<subseteq> insert None (Some ` user_ids d)"
  using assms by (simp_all add: db_ok_def foreign_keys_ok_def)

lemma db_ok_unique:
  assumes "db_ok d"
  shows "distinct (map usr_email (rows (users d)))"
    "distinct (map (\<lambda>s. (srv_owner_id s, srv_name s)) (rows (servers d)))"
  using assms by (simp_all add: db_ok_def uniques_ok_def)

text \<open>An update that leaves a column alone leaves its image alone.\<close>

lemma map_update_where:
  "(\<And>r. g (f r) = g r) \<Longrightarrow> map g (rows (update_where P f t)) = map g (rows t)"
  by (simp add: table_simps)

lemma image_update_where:
  "(\<And>r. g (f r) = g r) \<Longrightarrow> g ` set (rows (update_where P f t)) = g ` set (rows t)"
  using map_update_where [of g f P t] by (metis set_map)

lemma image_insert_row [simp]:
  "g ` set (rows (insert_row mk t)) = insert (g (mk (seq t))) (g ` set (rows t))"
  by (simp add: table_simps)

lemma delete_server_keys: "keys_ok d \<Longrightarrow> keys_ok (delete_server i d)"
  by (auto simp: keys_ok_def delete_server_def)

lemma delete_server_uniques: "uniques_ok d \<Longrightarrow> uniques_ok (delete_server i d)"
  by (simp add: uniques_ok_def delete_server_def delete_where_def distinct_map_filter)

lemma user_ids_delete_server [simp]: "user_ids (delete_server i d) = user_ids d"
  by (simp add: user_ids_def delete_server_def)

lemma server_ids_delete_server [simp]: "server_ids (delete_server i d) = server_ids d - {i}"
  by (auto simp: server_ids_def delete_server_def table_simps)

lemma rule_ids_delete_server: "rule_ids d - set (rule_ids_of i d) \<subseteq> rule_ids (delete_server i d)"
  by (auto simp: rule_ids_def rule_ids_of_def delete_server_def table_simps)

text \<open>Dropping from a table exactly the rows that refer to \<open>i\<close> keeps a foreign key.\<close>

lemma cascade:
  assumes "f ` set (rows t) \<subseteq> A" and "\<And>r. f r = i \<Longrightarrow> P r"
  shows "f ` set (rows (delete_where P t)) \<subseteq> A - {i}"
  using assms by (auto simp: table_simps)

lemma delete_server_foreign_keys:
  assumes fk: "foreign_keys_ok d"
  shows "foreign_keys_ok (delete_server i d)"
proof -
  note fk' = fk [unfolded foreign_keys_ok_def]
  have "ev_rule_id ` set (rows (alert_events (delete_server i d))) \<subseteq> rule_ids d - set (rule_ids_of i d)"
    using fk' by (auto simp: delete_server_def table_simps)
  then have ev: "ev_rule_id ` set (rows (alert_events (delete_server i d))) \<subseteq> rule_ids (delete_server i d)"
    using rule_ids_delete_server by blast
  have aud: "aud_user_id ` set (rows (audit_logs (delete_server i d))) \<subseteq> insert None (Some ` user_ids d)"
    using fk' by (simp add: delete_server_def)
  have own: "srv_owner_id ` set (rows (servers (delete_server i d))) \<subseteq> user_ids d"
    and rown: "rule_owner_id ` set (rows (alert_rules (delete_server i d))) \<subseteq> user_ids d"
    using fk' by (auto simp: delete_server_def table_simps)
  have c: "met_server_id ` set (rows (metrics (delete_server i d))) \<subseteq> server_ids d - {i}"
    "dm_server_id ` set (rows (docker_metrics (delete_server i d))) \<subseteq> server_ids d - {i}"
    "ma_server_id ` set (rows (metric_aggregates (delete_server i d))) \<subseteq> server_ids d - {i}"
    "da_server_id ` set (rows (docker_aggregates (delete_server i d))) \<subseteq> server_ids d - {i}"
    "rule_server_id ` set (rows (alert_rules (delete_server i d))) \<subseteq> server_ids d - {i}"
    "ev_server_id ` set (rows (alert_events (delete_server i d))) \<subseteq> server_ids d - {i}"
    "log_server_id ` set (rows (logs (delete_server i d))) \<subseteq> server_ids d - {i}"
    using fk' by (simp_all add: delete_server_def cascade)
  show ?thesis
    unfolding foreign_keys_ok_def user_ids_delete_server server_ids_delete_server
    by (intro conjI own rown ev c aud)
qed

lemma delete_server_ok: "db_ok d \<Longrightarrow> db_ok (delete_server i d)"
  by (simp add: db_ok_def delete_server_keys delete_server_uniques delete_server_foreign_keys)

section \<open>What a request reads, and the shared state\<close>

text \<open>
  \<open>clock\<close> is the process clock (\<open>datetime.now(UTC)\<close>) and \<open>db_clock\<close> the database's \<open>now()\<close>;
  \<open>float_repr\<close> is how Python prints a float; \<open>audit_ok\<close>, \<open>enqueue_ok\<close> and \<open>publish_ok\<close> say
  whether the best-effort writes of this request (to the audit table, the broker and Pub/Sub)
  go through.
\<close>

datatype task =
    SendTelegramAlert int
  | SendEmailAlert int
  | SendHeartbeatDown int
  | SendHeartbeatRecovery int

record env =
  clock :: time
  db_clock :: time
  client_ip :: "string option"
  float_repr :: "pyfloat \<Rightarrow> string"
  audit_ok :: bool
  enqueue_ok :: "task \<Rightarrow> bool"
  publish_ok :: bool

record docker_item =
  di_container_id :: string
  di_container_name :: string
  di_image :: string
  di_status :: string
  di_cpu_percent :: pyfloat
  di_memory_usage_mb :: pyfloat
  di_memory_limit_mb :: "pyfloat option"

record alert_data =
  al_event_id :: int
  al_rule_id :: int
  al_rule_name :: string
  al_container_name :: "string option"
  al_metric_value :: pyfloat
  al_threshold_value :: pyfloat
  al_message :: string
  al_created_at :: time

datatype payload =
    MetricPayload int metric
  | DockerPayload int "docker_item list"
  | AlertPayload int alert_data

record 'r app =
  app_db :: db
  app_rd :: 'r
  app_tasks :: "task list"
  app_pub :: "(string \<times> payload) list"

end
