(* ===== verification/PW_Config.thy ===== *)
theory PW_Config
  imports PW_Schema
begin

text \<open>
  The settings (\<open>app/config.py\<close>): the fields the modelled code reads, with the defaults of the
  class. The other fields address the database, the broker and the SMTP host. \<open>settings_ok\<close>
  says that the durations are positive, which every deployment has to keep: Redis refuses an
  expiry that is not positive.
\<close>

record settings =
  access_token_expire_minutes :: int
  refresh_token_expire_days :: int
  telegram_bot_token :: "string option"
  telegram_api_url :: string
  telegram_bot_username :: "string option"
  admin_telegram_chat_id :: "string option"
  smtp_host :: "string option"
  smtp_user :: "string option"
  smtp_from_address :: "string option"
  log_retention_days :: int
  frontend_base_url :: string
  password_reset_token_ttl_seconds :: int

definition default_settings :: settings where
  "default_settings = \<lparr>
     access_token_expire_minutes = 30,
     refresh_token_expire_days = 7,
     telegram_bot_token = None,
     telegram_api_url = ''https://api.telegram.org'',
     telegram_bot_username = None,
     admin_telegram_chat_id = None,
     smtp_host = None,
     smtp_user = None,
     smtp_from_address = None,
     log_retention_days = 14,
     frontend_base_url = ''http://localhost:8000'',
     password_reset_token_ttl_seconds = 3600\<rparr>"

text \<open>The truth value of an optional string.\<close>

definition set_to :: "string option \<Rightarrow> bool" where
  "set_to v \<longleftrightarrow> v \<noteq> None \<and> v \<noteq> Some []"

definition settings_ok :: "settings \<Rightarrow> bool" where
  "settings_ok S \<longleftrightarrow> 0 < access_token_expire_minutes S \<and> 0 < refresh_token_expire_days S
     \<and> 0 < log_retention_days S \<and> 0 < password_reset_token_ttl_seconds S"

lemma default_settings_ok [simp]: "settings_ok default_settings"
  by (simp add: settings_ok_def default_settings_def)

end
