(* ===== verification/PW_Security.thy ===== *)
theory PW_Security
  imports PW_Config
begin

text \<open>
  Passwords, tokens and the three ways a request is authenticated (\<open>app/core/security.py\<close>,
  \<open>app/api/deps.py\<close>), and the audit helper (\<open>app/services/audit.py\<close>). bcrypt, the JWT library
  and pyotp are not part of the repository: \<open>crypto\<close> is the record of the calls the code
  makes, and the locale \<open>crypto_service\<close> states what their documentation promises.
\<close>

section \<open>The libraries\<close>

text \<open>The claims of a token; the \<open>exp\<close> claim is in whole seconds.\<close>

record claims =
  cl_exp :: int
  cl_sub :: "string option"
  cl_type :: "string option"
  cl_jti :: "string option"

text \<open>
  \<open>hashpw C p salt\<close> and \<open>checkpw C p h\<close> may raise (bcrypt refuses a password of more than 72
  bytes); \<open>jwt_decode C now tok\<close> is None where the library raises JWTError.
\<close>

record crypto =
  hashpw :: "string \<Rightarrow> string \<Rightarrow> exc + string"
  checkpw :: "string \<Rightarrow> string \<Rightarrow> exc + bool"
  jwt_encode :: "claims \<Rightarrow> string"
  jwt_decode :: "time \<Rightarrow> string \<Rightarrow> claims option"
  totp_verify :: "string \<Rightarrow> time \<Rightarrow> string \<Rightarrow> bool"

section \<open>security.py\<close>

definition hash_password :: "crypto \<Rightarrow> string \<Rightarrow> string \<Rightarrow> exc + string" where
  "hash_password C salt password = hashpw C password salt"

definition verify_password :: "crypto \<Rightarrow> string \<Rightarrow> string \<Rightarrow> exc + bool" where
  "verify_password C plain_password hashed_password = checkpw C plain_password hashed_password"

text \<open>The library stores a datetime as its whole second.\<close>

definition to_seconds :: "time \<Rightarrow> int" where
  "to_seconds t = t div 1000000"

definition create_access_token :: "crypto \<Rightarrow> settings \<Rightarrow> time \<Rightarrow> int \<Rightarrow> time option \<Rightarrow> string" where
  "create_access_token C S now subject expires_delta =
     (let expire = (case expires_delta of
          Some d \<Rightarrow> now + d
        | None \<Rightarrow> now + minutes (access_token_expire_minutes S))
      in jwt_encode C \<lparr>cl_exp = to_seconds expire, cl_sub = Some (str_int subject),
           cl_type = Some ''access'', cl_jti = None\<rparr>)"

text \<open>\<open>jti\<close> is the fresh random value \<open>secrets.token_urlsafe(16)\<close> returned.\<close>

definition create_refresh_token :: "crypto \<Rightarrow> settings \<Rightarrow> time \<Rightarrow> string \<Rightarrow> int \<Rightarrow> string \<times> string" where
  "create_refresh_token C S now jti subject =
     (let expire = now + days (refresh_token_expire_days S)
      in (jwt_encode C \<lparr>cl_exp = to_seconds expire, cl_sub = Some (str_int subject),
            cl_type = Some ''refresh'', cl_jti = Some jti\<rparr>, jti))"

text \<open>
  The outer None is a JWTError, which every caller handles; a subject that is no integer
  raises ValueError, which none does.
\<close>

definition decode_refresh_token :: "crypto \<Rightarrow> time \<Rightarrow> string \<Rightarrow> (exc + int \<times> string) option" where
  "decode_refresh_token C now token = (case jwt_decode C now token of
     None \<Rightarrow> None
   | Some pl \<Rightarrow>
       if cl_type pl \<noteq> Some ''refresh'' then None
       else (case (cl_sub pl, cl_jti pl) of
         (Some sub, Some jti) \<Rightarrow>
           (case py_int sub of None \<Rightarrow> Some (Inl ValueError) | Some i \<Rightarrow> Some (Inr (i, jti)))
       | _ \<Rightarrow> None))"

section \<open>deps.py\<close>

definition get_current_user :: "crypto \<Rightarrow> time \<Rightarrow> string \<Rightarrow> db \<Rightarrow> user result" where
  "get_current_user C now token d =
     (let creds_exc = Inl (HTTPException 401 CouldNotValidate) in
      case jwt_decode C now token of
        None \<Rightarrow> creds_exc
      | Some pl \<Rightarrow>
          if cl_type pl = Some ''refresh'' then creds_exc
          else (case cl_sub pl of
            None \<Rightarrow> creds_exc
          | Some sub \<Rightarrow>
              (case py_int sub of
                 None \<Rightarrow> Inl (Unhandled ValueError)
               | Some i \<Rightarrow>
                   (case fetch_by_id usr_id i (\<lambda>_. True) (users d) of
                      Inl x \<Rightarrow> Inl (Unhandled x)
                    | Inr None \<Rightarrow> creds_exc
                    | Inr (Some u) \<Rightarrow> Inr u))))"

definition verify_api_key :: "crypto \<Rightarrow> string option \<Rightarrow> db \<Rightarrow> server result" where
  "verify_api_key C api_key d =
     (let invalid_key_exc = Inl (HTTPException 401 InvalidApiKey) in
      case api_key of
        None \<Rightarrow> invalid_key_exc
      | Some k \<Rightarrow>
          if k = [] then invalid_key_exc
          else (case split_once (CHR ''.'') k of
            None \<Rightarrow> invalid_key_exc
          | Some (server_id_str, secret) \<Rightarrow>
              (case py_int server_id_str of
                 None \<Rightarrow> invalid_key_exc
               | Some server_id \<Rightarrow>
                   (case fetch_by_id srv_id server_id (\<lambda>_. True) (servers d) of
                      Inl x \<Rightarrow> Inl (Unhandled x)
                    | Inr None \<Rightarrow> invalid_key_exc
                    | Inr (Some s) \<Rightarrow>
                        if \<not> srv_is_active s then invalid_key_exc
                        else (case verify_password C secret (srv_api_key_hash s) of
                          Inl x \<Rightarrow> Inl (Unhandled x)
                        | Inr ok \<Rightarrow> if ok then Inr s else invalid_key_exc)))))"

definition authenticate_ws_user :: "crypto \<Rightarrow> time \<Rightarrow> string option \<Rightarrow> db \<Rightarrow> exc + user option" where
  "authenticate_ws_user C now token d = (case token of
     None \<Rightarrow> Inr None
   | Some tok \<Rightarrow>
       if tok = [] then Inr None
       else (case jwt_decode C now tok of
         None \<Rightarrow> Inr None
       | Some pl \<Rightarrow>
           if cl_type pl = Some ''refresh'' then Inr None
           else (case cl_sub pl of
             None \<Rightarrow> Inr None
           | Some sub \<Rightarrow>
               (case py_int sub of
                  None \<Rightarrow> Inl ValueError
                | Some i \<Rightarrow> fetch_by_id usr_id i (\<lambda>_. True) (users d)))))"

definition authenticate_ws_agent :: "crypto \<Rightarrow> string option \<Rightarrow> db \<Rightarrow> exc + server option" where
  "authenticate_ws_agent C api_key d = (case api_key of
     None \<Rightarrow> Inr None
   | Some k \<Rightarrow>
       if k = [] then Inr None
       else (case split_once (CHR ''.'') k of
         None \<Rightarrow> Inr None
       | Some (server_id_str, secret) \<Rightarrow>
           (case py_int server_id_str of
              None \<Rightarrow> Inr None
            | Some server_id \<Rightarrow>
                (case fetch_by_id srv_id server_id (\<lambda>_. True) (servers d) of
                   Inl x \<Rightarrow> Inl x
                 | Inr None \<Rightarrow> Inr None
                 | Inr (Some s) \<Rightarrow>
                     if \<not> srv_is_active s then Inr None
                     else (case verify_password C secret (srv_api_key_hash s) of
                       Inl x \<Rightarrow> Inl x
                     | Inr ok \<Rightarrow> if ok then Inr (Some s) else Inr None)))))"

text \<open>A handler that depends on \<open>get_current_user\<close>.\<close>

definition authed :: "crypto \<Rightarrow> env \<Rightarrow> string \<Rightarrow> (user \<Rightarrow> 'r app \<Rightarrow> 'a result \<times> 'r app)
    \<Rightarrow> 'r app \<Rightarrow> 'a result \<times> 'r app" where
  "authed C e token handler a = (case get_current_user C (clock e) token (app_db a) of
     Inl x \<Rightarrow> (Inl x, a)
   | Inr u \<Rightarrow> handler u a)"

section \<open>The audit helper\<close>

text \<open>
  \<open>record_audit\<close> adds one row in its own transaction and swallows every error. When the write
  fails, the rollback expires the rows of the session, so a handler that returns one of them
  afterwards cannot be serialised: \<open>after_audit\<close> is that outcome. Some callers do not pass the
  request, so their rows carry no address.
\<close>

definition client_ip_of :: "env \<Rightarrow> bool \<Rightarrow> string option" where
  "client_ip_of e request = (if request then client_ip e else None)"

definition record_audit :: "env \<Rightarrow> string \<Rightarrow> int option \<Rightarrow> string option \<Rightarrow> int option
    \<Rightarrow> bool \<Rightarrow> audit_meta option \<Rightarrow> db \<Rightarrow> db" where
  "record_audit e action user_id resource_type resource_id request meta d =
     (if audit_ok e then
        d\<lparr>audit_logs := insert_row (\<lambda>i. \<lparr>aud_id = i, aud_user_id = user_id, aud_action = action,
            aud_resource_type = resource_type, aud_resource_id = resource_id,
            aud_ip_address = client_ip_of e request, aud_meta = meta, aud_created_at = db_clock e\<rparr>)
          (audit_logs d)\<rparr>
      else d)"

definition after_audit :: "env \<Rightarrow> 'a \<Rightarrow> 'a result" where
  "after_audit e row = (if audit_ok e then Inr row else Inl (Unhandled MissingGreenlet))"

text \<open>\<open>GET /audit/me\<close> (\<open>app/api/audit.py\<close>).\<close>

definition list_my_audit :: "int \<Rightarrow> user \<Rightarrow> db \<Rightarrow> audit_log list result" where
  "list_my_audit limit u d =
     (if limit < 1 \<or> 500 < limit then Inl (HTTPException 422 UnprocessableEntity)
      else Inr (take (nat limit)
        (order_by_desc aud_created_at (select (\<lambda>r. aud_user_id r = Some (usr_id u)) (audit_logs d)))))"

section \<open>Lemmas on the audit trail\<close>

lemma record_audit_tables [simp]:
  "users (record_audit e ac u rt ri rq m d) = users d"
  "servers (record_audit e ac u rt ri rq m d) = servers d"
  "alert_rules (record_audit e ac u rt ri rq m d) = alert_rules d"
  "alert_events (record_audit e ac u rt ri rq m d) = alert_events d"
  "metrics (record_audit e ac u rt ri rq m d) = metrics d"
  "logs (record_audit e ac u rt ri rq m d) = logs d"
  by (simp_all add: record_audit_def)

lemma record_audit_ok:
  assumes "db_ok d" and "u \<in> insert None (Some ` user_ids d)"
  shows "db_ok (record_audit e ac u rt ri rq m d)"
proof -
  have "db_ok (d\<lparr>audit_logs := insert_row mk (audit_logs d)\<rparr>)"
    if "\<And>i. aud_id (mk i) = i" and "\<And>i. aud_user_id (mk i) = u" for mk
    by (intro db_ok_audit_logs keyed_insert)
      (use assms that db_ok_keyed(9) [OF assms(1)] db_ok_fk(11) [OF assms(1)] in auto)
  with assms(1) show ?thesis by (simp add: record_audit_def)
qed

lemma audit_user_ok [intro]: "u \<in> set (rows (users d)) \<Longrightarrow> Some (usr_id u) \<in> insert None (Some ` user_ids d)"
  by (simp add: user_ids_def)

lemma list_my_audit_sound:
  assumes "list_my_audit n u d = Inr rs" and "r \<in> set rs"
  shows "r \<in> set (rows (audit_logs d))" and "aud_user_id r = Some (usr_id u)" and "length rs \<le> nat n"
proof -
  from assms have "rs = take (nat n) (order_by_desc aud_created_at
      (select (\<lambda>r. aud_user_id r = Some (usr_id u)) (audit_logs d)))"
    by (simp add: list_my_audit_def split: if_splits)
  with assms(2) have "r \<in> set (order_by_desc aud_created_at
      (select (\<lambda>r. aud_user_id r = Some (usr_id u)) (audit_logs d)))" and "length rs \<le> nat n"
    by (auto dest: in_set_takeD)
  then show "r \<in> set (rows (audit_logs d))" and "aud_user_id r = Some (usr_id u)" and
    "length rs \<le> nat n"
    by (simp_all add: table_simps)
qed

section \<open>The contract of the libraries\<close>

text \<open>
  A password verifies against its own hash; a token decodes to the claims it was made of until
  the second of its deadline has passed. Nothing is assumed of other passwords or of tokens
  the library did not make.
\<close>

locale crypto_service =
  fixes C :: crypto
  assumes check_hash: "hashpw C p salt = Inr h \<Longrightarrow> checkpw C p h = Inr True"
    and decode_encode:
      "jwt_decode C now (jwt_encode C c) = (if to_seconds now \<le> cl_exp c then Some c else None)"
begin

lemma verify_hash: "hash_password C salt p = Inr h \<Longrightarrow> verify_password C p h = Inr True"
  by (simp add: hash_password_def verify_password_def check_hash)

lemma decode_refresh:
  "decode_refresh_token C now (fst (create_refresh_token C S t jti u)) =
    (if to_seconds now \<le> to_seconds (t + days (refresh_token_expire_days S))
     then Some (Inr (u, jti)) else None)"
  by (simp add: decode_refresh_token_def create_refresh_token_def decode_encode)

lemma decode_access_as_refresh: "decode_refresh_token C now (create_access_token C S t u dl) = None"
  by (simp add: decode_refresh_token_def create_access_token_def decode_encode Let_def)

lemma refresh_is_no_access:
  "get_current_user C now (fst (create_refresh_token C S t jti u)) d =
    Inl (HTTPException 401 CouldNotValidate)"
  by (simp add: get_current_user_def create_refresh_token_def decode_encode Let_def)

lemma access_token_user:
  "get_current_user C now (create_access_token C S t u dl) d =
    (if to_seconds now \<le> to_seconds (t + (case dl of Some x \<Rightarrow> x
          | None \<Rightarrow> minutes (access_token_expire_minutes S)))
     then (case fetch_by_id usr_id u (\<lambda>_. True) (users d) of
         Inl x \<Rightarrow> Inl (Unhandled x)
       | Inr None \<Rightarrow> Inl (HTTPException 401 CouldNotValidate)
       | Inr (Some r) \<Rightarrow> Inr r)
     else Inl (HTTPException 401 CouldNotValidate))"
  by (simp add: get_current_user_def create_access_token_def decode_encode Let_def
      split: option.split)

end

lemma to_seconds_mono: "s \<le> t \<Longrightarrow> to_seconds s \<le> to_seconds t"
  by (simp add: to_seconds_def zdiv_mono1)

section \<open>API keys\<close>

text \<open>What the agent is given at creation and rotation: the id, a dot and the secret.\<close>

definition api_key_of :: "int \<Rightarrow> string \<Rightarrow> string" where
  "api_key_of server_id secret = str_int server_id @ ''.'' @ secret"

lemma split_api_key: "split_once (CHR ''.'') (api_key_of i secret) = Some (str_int i, secret)"
  by (simp add: api_key_of_def split_once_append)

lemma api_key_not_Nil [simp]: "api_key_of i secret \<noteq> []"
  by (simp add: api_key_of_def)

lemma verify_api_key_of:
  assumes "keyed srv_id (servers d)" and "s \<in> set (rows (servers d))" and "int32 (srv_id s)"
  shows "verify_api_key C (Some (api_key_of (srv_id s) secret)) d =
    (if srv_is_active s then
       (case verify_password C secret (srv_api_key_hash s) of
          Inl x \<Rightarrow> Inl (Unhandled x)
        | Inr ok \<Rightarrow> if ok then Inr s else Inl (HTTPException 401 InvalidApiKey))
     else Inl (HTTPException 401 InvalidApiKey))"
  using fetch_by_id_row [OF assms(1,2) refl, of "\<lambda>_. True"] assms(3)
  by (simp add: verify_api_key_def split_api_key Let_def)

text \<open>The REST and the WebSocket check of an API key accept the same keys.\<close>

lemma ws_agent_agrees: "authenticate_ws_agent C k d = Inr (Some s) \<longleftrightarrow> verify_api_key C k d = Inr s"
  by (auto simp: authenticate_ws_agent_def verify_api_key_def Let_def
      split: option.splits sum.splits prod.splits if_splits)

lemma verify_api_key_active:
  assumes "verify_api_key C k d = Inr s"
  shows "srv_is_active s" and "s \<in> set (rows (servers d))"
  using assms
  by (auto simp: verify_api_key_def Let_def dest: fetch_by_id_Some
      split: option.splits sum.splits prod.splits if_splits)

lemma get_current_user_row:
  assumes "get_current_user C now tok d = Inr u"
  shows "u \<in> set (rows (users d))"
  using assms
  by (auto simp: get_current_user_def Let_def dest: fetch_by_id_Some
      split: option.splits sum.splits if_splits)

section \<open>Concrete libraries\<close>

text \<open>
  An instance of the contract: the hash is the password behind a mark (and passwords of more
  than 72 characters are refused, as bcrypt does), a token is its claims written out.
\<close>

definition enc_opt :: "string option \<Rightarrow> string" where
  "enc_opt s = (case s of None \<Rightarrow> ''-1:'' | Some t \<Rightarrow> str_int (int (length t)) @ '':'' @ t)"

definition dec_opt :: "string \<Rightarrow> (string option \<times> string) option" where
  "dec_opt s = (case split_once (CHR '':'') s of
     None \<Rightarrow> None
   | Some (n, r) \<Rightarrow> (case py_int n of
       None \<Rightarrow> None
     | Some k \<Rightarrow> if k < 0 then Some (None, r) else Some (Some (take (nat k) r), drop (nat k) r)))"

definition enc_claims :: "claims \<Rightarrow> string" where
  "enc_claims c = str_int (cl_exp c) @ '':'' @ enc_opt (cl_sub c) @ enc_opt (cl_type c) @ enc_opt (cl_jti c)"

definition dec_claims :: "string \<Rightarrow> claims option" where
  "dec_claims s = (case split_once (CHR '':'') s of
     None \<Rightarrow> None
   | Some (n, r) \<Rightarrow> (case (py_int n, dec_opt r) of
       (Some ex, Some (sub, r1)) \<Rightarrow> (case dec_opt r1 of
         None \<Rightarrow> None
       | Some (ty, r2) \<Rightarrow> (case dec_opt r2 of
           None \<Rightarrow> None
         | Some (j, _) \<Rightarrow> Some \<lparr>cl_exp = ex, cl_sub = sub, cl_type = ty, cl_jti = j\<rparr>))
     | _ \<Rightarrow> None))"

definition plain_crypto :: crypto where
  "plain_crypto = \<lparr>
     hashpw = (\<lambda>p salt. if length p > 72 then Inl ValueError else Inr (CHR ''#'' # p)),
     checkpw = (\<lambda>p h. if length p > 72 then Inl ValueError else Inr (h = CHR ''#'' # p)),
     jwt_encode = enc_claims,
     jwt_decode = (\<lambda>now s. case dec_claims s of
        None \<Rightarrow> None
      | Some c \<Rightarrow> if to_seconds now \<le> cl_exp c then Some c else None),
     totp_verify = (\<lambda>secret now code. code = secret)\<rparr>"

lemma py_int_minus_one: "py_int ''-1'' = Some (- 1)"
  using py_int_str_int [of "- 1"]
  by (simp add: str_int_def str_nat.simps digit_char_def)

lemma dec_enc_opt: "dec_opt (enc_opt s @ r) = Some (s, r)"
proof (cases s)
  case None
  have "split_once (CHR '':'') (''-1'' @ CHR '':'' # r) = Some (''-1'', r)"
    by (rule split_once_append) simp
  with None show ?thesis
    using py_int_minus_one by (simp add: dec_opt_def enc_opt_def)
next
  case (Some t)
  then show ?thesis by (simp add: dec_opt_def enc_opt_def split_once_append)
qed

lemma dec_enc_claims: "dec_claims (enc_claims c) = Some c"
  using dec_enc_opt [of "cl_jti c" "[]"]
  by (simp add: dec_claims_def enc_claims_def split_once_append dec_enc_opt)

interpretation plain: crypto_service plain_crypto
  by unfold_locales (auto simp: plain_crypto_def dec_enc_claims split: if_splits)

lemma plain_service [simp, intro]: "crypto_service plain_crypto"
  by (rule plain.crypto_service_axioms)

end
