(* ===== verification/PW_RedisClient.thy ===== *)
theory PW_RedisClient
  imports PW_Schema
begin

text \<open>
  The Redis client module (\<open>app/redis_client.py\<close>). The Redis server is not part of the
  repository: \<open>redis\<close> is the record of the commands the module issues, a parameter of every
  operation, and the locale \<open>redis_service\<close> states what Redis documents of them (expiry at
  the EX deadline, DEL and EXISTS counts, TTL, SCAN over live keys). Inside it the operations
  of the module get their laws; \<open>one_time_store\<close> is the interface the binding codes and the
  password-reset tokens share, and the module's two pairs of operations are shown to be
  instances of it. A store that satisfies the contract ends the theory.
\<close>

section \<open>The commands of the Redis server\<close>

record 'r redis =
  rd_get :: "'r \<Rightarrow> time \<Rightarrow> string \<Rightarrow> string option"
  rd_exists :: "'r \<Rightarrow> time \<Rightarrow> string \<Rightarrow> int"
  rd_ttl :: "'r \<Rightarrow> time \<Rightarrow> string \<Rightarrow> int"
  rd_set :: "'r \<Rightarrow> time \<Rightarrow> string \<Rightarrow> string \<Rightarrow> int \<Rightarrow> 'r"
  rd_del :: "'r \<Rightarrow> time \<Rightarrow> string \<Rightarrow> int \<times> 'r"
  rd_scan :: "'r \<Rightarrow> time \<Rightarrow> string \<Rightarrow> string list"

text \<open>
  \<open>rd_set R s t k v n\<close> is \<open>SET k v EX n\<close> at time \<open>t\<close>; \<open>rd_scan R s t p\<close> lists the keys
  \<open>SCAN MATCH p*\<close> returns.
\<close>

section \<open>Pub/Sub publications\<close>

definition publish_metric :: "int \<Rightarrow> metric \<Rightarrow> string \<times> payload" where
  "publish_metric server_id data = (''metrics:'' @ str_int server_id, MetricPayload server_id data)"

definition publish_docker_metric :: "int \<Rightarrow> docker_item list \<Rightarrow> string \<times> payload" where
  "publish_docker_metric server_id data =
     (''docker_metrics:'' @ str_int server_id, DockerPayload server_id data)"

definition publish_alert :: "int \<Rightarrow> alert_data \<Rightarrow> string \<times> payload" where
  "publish_alert server_id data = (''alerts:'' @ str_int server_id, AlertPayload server_id data)"

section \<open>Dashboard cache\<close>

definition dashboard_key :: "int \<Rightarrow> string" where
  "dashboard_key user_id = ''dashboard:'' @ str_int user_id"

definition cache_dashboard :: "'r redis \<Rightarrow> 'r \<Rightarrow> time \<Rightarrow> int \<Rightarrow> string \<Rightarrow> int \<Rightarrow> 'r" where
  "cache_dashboard R s t user_id data ttl = rd_set R s t (dashboard_key user_id) data ttl"

definition get_cached_dashboard :: "'r redis \<Rightarrow> 'r \<Rightarrow> time \<Rightarrow> int \<Rightarrow> string option" where
  "get_cached_dashboard R s t user_id = rd_get R s t (dashboard_key user_id)"

section \<open>Telegram binding codes\<close>

definition TG_LINK_CODE_TTL_SECONDS :: int where
  "TG_LINK_CODE_TTL_SECONDS = 600"

definition tg_link_key :: "string \<Rightarrow> string" where
  "tg_link_key code = ''tg:linkcode:'' @ code"

definition store_tg_link_code :: "'r redis \<Rightarrow> 'r \<Rightarrow> time \<Rightarrow> string \<Rightarrow> int \<Rightarrow> 'r" where
  "store_tg_link_code R s t code user_id =
     rd_set R s t (tg_link_key code) (str_int user_id) TG_LINK_CODE_TTL_SECONDS"

text \<open>
  The pipeline runs GET and DEL together. \<open>int(raw)\<close> raises ValueError on a value that is no
  integer.
\<close>

definition int_of_raw :: "string option \<Rightarrow> exc + int option" where
  "int_of_raw raw = (case raw of
     None \<Rightarrow> Inr None
   | Some v \<Rightarrow> (case py_int v of None \<Rightarrow> Inl ValueError | Some i \<Rightarrow> Inr (Some i)))"

definition consume_tg_link_code :: "'r redis \<Rightarrow> 'r \<Rightarrow> time \<Rightarrow> string \<Rightarrow> (exc + int option) \<times> 'r" where
  "consume_tg_link_code R s t code =
     (let key = tg_link_key code; raw_user_id = rd_get R s t key; (_, s') = rd_del R s t key
      in (int_of_raw raw_user_id, s'))"

section \<open>Per-channel mute\<close>

definition MUTE_CHANNELS :: "string list" where
  "MUTE_CHANNELS = [''telegram'', ''email'']"

definition mute_key :: "int \<Rightarrow> string \<Rightarrow> string" where
  "mute_key server_id channel = ''mute:'' @ str_int server_id @ '':'' @ channel"

definition set_channel_mute :: "'r redis \<Rightarrow> 'r \<Rightarrow> time \<Rightarrow> int \<Rightarrow> string \<Rightarrow> int \<Rightarrow> 'r" where
  "set_channel_mute R s t server_id channel mins =
     rd_set R s t (mute_key server_id channel) ''1'' (mins * 60)"

definition is_channel_muted :: "'r redis \<Rightarrow> 'r \<Rightarrow> time \<Rightarrow> int \<Rightarrow> string \<Rightarrow> bool" where
  "is_channel_muted R s t server_id channel \<longleftrightarrow> rd_exists R s t (mute_key server_id channel) = 1"

definition get_channel_mute_ttl :: "'r redis \<Rightarrow> 'r \<Rightarrow> time \<Rightarrow> int \<Rightarrow> string \<Rightarrow> int option" where
  "get_channel_mute_ttl R s t server_id channel =
     (let ttl = rd_ttl R s t (mute_key server_id channel) in if ttl > 0 then Some ttl else None)"

section \<open>Pending deletions of the bot\<close>

definition PENDING_DELETE_TTL_SECONDS :: int where
  "PENDING_DELETE_TTL_SECONDS = 60"

definition pending_delete_key :: "int \<Rightarrow> string" where
  "pending_delete_key chat_id = ''pending_delete:'' @ str_int chat_id"

definition set_pending_delete :: "'r redis \<Rightarrow> 'r \<Rightarrow> time \<Rightarrow> int \<Rightarrow> int \<Rightarrow> 'r" where
  "set_pending_delete R s t chat_id server_id =
     rd_set R s t (pending_delete_key chat_id) (str_int server_id) PENDING_DELETE_TTL_SECONDS"

definition consume_pending_delete ::
    "'r redis \<Rightarrow> 'r \<Rightarrow> time \<Rightarrow> int \<Rightarrow> int \<Rightarrow> (exc + bool) \<times> 'r" where
  "consume_pending_delete R s t chat_id server_id =
     (let key = pending_delete_key chat_id; raw = rd_get R s t key; (_, s') = rd_del R s t key
      in (case int_of_raw raw of
            Inl e \<Rightarrow> Inl e
          | Inr None \<Rightarrow> Inr False
          | Inr (Some i) \<Rightarrow> Inr (i = server_id), s'))"

section \<open>Refresh tokens\<close>

definition refresh_key :: "int \<Rightarrow> string \<Rightarrow> string" where
  "refresh_key user_id jti = ''refresh:'' @ str_int user_id @ '':'' @ jti"

definition refresh_used_key :: "int \<Rightarrow> string \<Rightarrow> string" where
  "refresh_used_key user_id jti = ''refresh_used:'' @ str_int user_id @ '':'' @ jti"

definition store_refresh_jti :: "'r redis \<Rightarrow> 'r \<Rightarrow> time \<Rightarrow> int \<Rightarrow> string \<Rightarrow> int \<Rightarrow> 'r" where
  "store_refresh_jti R s t user_id jti ttl_seconds =
     rd_set R s t (refresh_key user_id jti) ''1'' ttl_seconds"

definition is_refresh_jti_valid :: "'r redis \<Rightarrow> 'r \<Rightarrow> time \<Rightarrow> int \<Rightarrow> string \<Rightarrow> bool" where
  "is_refresh_jti_valid R s t user_id jti \<longleftrightarrow> rd_exists R s t (refresh_key user_id jti) = 1"

definition is_refresh_jti_used :: "'r redis \<Rightarrow> 'r \<Rightarrow> time \<Rightarrow> int \<Rightarrow> string \<Rightarrow> bool" where
  "is_refresh_jti_used R s t user_id jti \<longleftrightarrow> rd_exists R s t (refresh_used_key user_id jti) = 1"

definition revoke_refresh_jti :: "'r redis \<Rightarrow> 'r \<Rightarrow> time \<Rightarrow> int \<Rightarrow> string \<Rightarrow> 'r" where
  "revoke_refresh_jti R s t user_id jti = snd (rd_del R s t (refresh_key user_id jti))"

definition rotate_refresh_jti ::
    "'r redis \<Rightarrow> 'r \<Rightarrow> time \<Rightarrow> int \<Rightarrow> string \<Rightarrow> string \<Rightarrow> int \<Rightarrow> bool \<times> 'r" where
  "rotate_refresh_jti R s t user_id old_jti new_jti ttl_seconds =
     (let (deleted, s1) = rd_del R s t (refresh_key user_id old_jti);
          s2 = rd_set R s1 t (refresh_key user_id new_jti) ''1'' ttl_seconds
      in if deleted = 1
         then (True, rd_set R s2 t (refresh_used_key user_id old_jti) ''1'' ttl_seconds)
         else (False, s2))"

fun del_keys :: "'r redis \<Rightarrow> 'r \<Rightarrow> time \<Rightarrow> string list \<Rightarrow> int \<times> 'r" where
  "del_keys R s t [] = (0, s)"
| "del_keys R s t (k # ks) = (let (n, s') = del_keys R (snd (rd_del R s t k)) t ks in (n + 1, s'))"

definition refresh_pattern :: "int \<Rightarrow> string" where
  "refresh_pattern user_id = ''refresh:'' @ str_int user_id @ '':''"

definition revoke_all_refresh_for_user :: "'r redis \<Rightarrow> 'r \<Rightarrow> time \<Rightarrow> int \<Rightarrow> int \<times> 'r" where
  "revoke_all_refresh_for_user R s t user_id =
     del_keys R s t (rd_scan R s t (refresh_pattern user_id))"

section \<open>Drafts of \<open>/createrule\<close>\<close>

text \<open>
  A draft travels as JSON: \<open>dumps\<close> and \<open>loads\<close> are the codec. An empty string is falsy, so
  it reads as no draft.
\<close>

definition RULE_DRAFT_TTL_SECONDS :: int where
  "RULE_DRAFT_TTL_SECONDS = 600"

definition rule_draft_key :: "int \<Rightarrow> string" where
  "rule_draft_key chat_id = ''rule_draft:'' @ str_int chat_id"

definition set_rule_draft :: "'r redis \<Rightarrow> ('d \<Rightarrow> string) \<Rightarrow> 'r \<Rightarrow> time \<Rightarrow> int \<Rightarrow> 'd \<Rightarrow> 'r" where
  "set_rule_draft R dumps s t chat_id draft =
     rd_set R s t (rule_draft_key chat_id) (dumps draft) RULE_DRAFT_TTL_SECONDS"

definition get_rule_draft :: "'r redis \<Rightarrow> (string \<Rightarrow> 'd) \<Rightarrow> 'r \<Rightarrow> time \<Rightarrow> int \<Rightarrow> 'd option" where
  "get_rule_draft R loads s t chat_id =
     (case rd_get R s t (rule_draft_key chat_id) of
        None \<Rightarrow> None
      | Some raw \<Rightarrow> if raw = [] then None else Some (loads raw))"

definition clear_rule_draft :: "'r redis \<Rightarrow> 'r \<Rightarrow> time \<Rightarrow> int \<Rightarrow> 'r" where
  "clear_rule_draft R s t chat_id = snd (rd_del R s t (rule_draft_key chat_id))"

section \<open>Password-reset tokens\<close>

definition password_reset_key :: "string \<Rightarrow> string" where
  "password_reset_key token = ''pwd_reset:'' @ token"

definition store_password_reset_token ::
    "'r redis \<Rightarrow> 'r \<Rightarrow> time \<Rightarrow> string \<Rightarrow> int \<Rightarrow> int \<Rightarrow> 'r" where
  "store_password_reset_token R s t token user_id ttl_seconds =
     rd_set R s t (password_reset_key token) (str_int user_id) ttl_seconds"

definition consume_password_reset_token ::
    "'r redis \<Rightarrow> 'r \<Rightarrow> time \<Rightarrow> string \<Rightarrow> (exc + int option) \<times> 'r" where
  "consume_password_reset_token R s t token =
     (let key = password_reset_key token; raw = rd_get R s t key; (_, s') = rd_del R s t key
      in (int_of_raw raw, s'))"

section \<open>Keys\<close>

text \<open>
  The families of keys do not meet: a printed id holds no colon, so a pair of an id and a
  suffix is read back from its key, and the families differ in their first characters.
\<close>

lemmas key_defs =
  dashboard_key_def tg_link_key_def mute_key_def pending_delete_key_def refresh_key_def
  refresh_used_key_def rule_draft_key_def password_reset_key_def

lemma colon_inject [simp]:
  "str_int i @ CHR '':'' # a = str_int j @ CHR '':'' # b \<longleftrightarrow> i = j \<and> a = b"
  by (simp add: sep_append_inject)

lemma keys_inject [simp]:
  "mute_key i c = mute_key j d \<longleftrightarrow> i = j \<and> c = d"
  "refresh_key i c = refresh_key j d \<longleftrightarrow> i = j \<and> c = d"
  "refresh_used_key i c = refresh_used_key j d \<longleftrightarrow> i = j \<and> c = d"
  "pending_delete_key i = pending_delete_key j \<longleftrightarrow> i = j"
  "rule_draft_key i = rule_draft_key j \<longleftrightarrow> i = j"
  "dashboard_key i = dashboard_key j \<longleftrightarrow> i = j"
  "tg_link_key c = tg_link_key d \<longleftrightarrow> c = d"
  "password_reset_key c = password_reset_key d \<longleftrightarrow> c = d"
  by (simp_all add: key_defs)

lemma refresh_used_differs [simp]:
  "refresh_key i c \<noteq> refresh_used_key j d" "refresh_used_key i c \<noteq> refresh_key j d"
  by (simp_all add: key_defs)

lemma refresh_prefix:
  "startswith (refresh_key i c) (refresh_pattern j) \<longleftrightarrow> i = j"
  "\<not> startswith (refresh_used_key i c) (refresh_pattern j)"
  by (auto simp: startswith_iff key_defs refresh_pattern_def)

text \<open>The eight families of keys are pairwise disjoint.\<close>

lemma key_families:
  "mute_key i c \<noteq> refresh_key j d" "mute_key i c \<noteq> refresh_used_key j d"
  "mute_key i c \<noteq> pending_delete_key j" "mute_key i c \<noteq> rule_draft_key j"
  "mute_key i c \<noteq> dashboard_key j" "mute_key i c \<noteq> tg_link_key d"
  "mute_key i c \<noteq> password_reset_key d" "refresh_key i c \<noteq> pending_delete_key j"
  "refresh_key i c \<noteq> rule_draft_key j" "refresh_key i c \<noteq> dashboard_key j"
  "refresh_key i c \<noteq> tg_link_key d" "refresh_key i c \<noteq> password_reset_key d"
  "refresh_used_key i c \<noteq> pending_delete_key j" "refresh_used_key i c \<noteq> rule_draft_key j"
  "refresh_used_key i c \<noteq> dashboard_key j" "refresh_used_key i c \<noteq> tg_link_key d"
  "refresh_used_key i c \<noteq> password_reset_key d" "pending_delete_key i \<noteq> rule_draft_key j"
  "pending_delete_key i \<noteq> dashboard_key j" "pending_delete_key i \<noteq> tg_link_key d"
  "pending_delete_key i \<noteq> password_reset_key d" "rule_draft_key i \<noteq> dashboard_key j"
  "rule_draft_key i \<noteq> tg_link_key d" "rule_draft_key i \<noteq> password_reset_key d"
  "dashboard_key i \<noteq> tg_link_key d" "dashboard_key i \<noteq> password_reset_key d"
  "tg_link_key c \<noteq> password_reset_key d"
  by (simp_all add: key_defs)

lemma int_of_raw_str_int [simp]: "int_of_raw (Some (str_int i)) = Inr (Some i)"
  by (simp add: int_of_raw_def)

lemma int_of_raw_None [simp]: "int_of_raw None = Inr None"
  by (simp add: int_of_raw_def)

section \<open>The contract of the server\<close>

locale redis_service =
  fixes R :: "'r redis"
  assumes get_set: "0 < n \<Longrightarrow> t \<le> t' \<Longrightarrow>
      rd_get R (rd_set R s t k v n) t' k = (if t' < t + secs n then Some v else None)"
    and get_set_other: "0 < n \<Longrightarrow> t \<le> t' \<Longrightarrow> k' \<noteq> k \<Longrightarrow>
      rd_get R (rd_set R s t k v n) t' k' = rd_get R s t' k'"
    and get_del: "t \<le> t' \<Longrightarrow>
      rd_get R (snd (rd_del R s t k)) t' k' = (if k' = k then None else rd_get R s t' k')"
    and del_count: "fst (rd_del R s t k) = (if rd_get R s t k = None then 0 else 1)"
    and exists_get: "rd_exists R s t k = (if rd_get R s t k = None then 0 else 1)"
    and stays_expired: "t \<le> t' \<Longrightarrow> rd_get R s t k = None \<Longrightarrow> rd_get R s t' k = None"
    and ttl_absent: "rd_get R s t k = None \<Longrightarrow> rd_ttl R s t k = - 2"
    and ttl_set: "0 < n \<Longrightarrow> t \<le> t' \<Longrightarrow> t' < t + secs n \<Longrightarrow>
      0 \<le> rd_ttl R (rd_set R s t k v n) t' k \<and> rd_ttl R (rd_set R s t k v n) t' k \<le> n"
    and scan_live: "set (rd_scan R s t p) = {k. rd_get R s t k \<noteq> None \<and> startswith k p}"

text \<open>
  A store of one-time secrets: a stored secret is consumed by the first matching attempt
  before its deadline, by no later one, and attempts with other secrets do not touch it.
\<close>

locale one_time_store =
  fixes store :: "'r \<Rightarrow> time \<Rightarrow> string \<Rightarrow> int \<Rightarrow> int \<Rightarrow> 'r"
    and consume :: "'r \<Rightarrow> time \<Rightarrow> string \<Rightarrow> (exc + int option) \<times> 'r"
    and valid_ttl :: "int \<Rightarrow> bool"
  assumes consume_stored: "valid_ttl n \<Longrightarrow> t \<le> t' \<Longrightarrow>
      fst (consume (store s t c u n) t' c) = Inr (if t' < t + secs n then Some u else None)"
    and consume_other: "valid_ttl n \<Longrightarrow> t \<le> t' \<Longrightarrow> c' \<noteq> c \<Longrightarrow>
      fst (consume (store s t c u n) t' c') = fst (consume s t' c')"
    and consumed: "t \<le> t' \<Longrightarrow> fst (consume (snd (consume s t c)) t' c) = Inr None"
    and consume_frame: "t \<le> t' \<Longrightarrow> c' \<noteq> c \<Longrightarrow>
      fst (consume (snd (consume s t c)) t' c') = fst (consume s t' c')"
    and stays_gone: "t \<le> t' \<Longrightarrow> fst (consume s t c) = Inr None \<Longrightarrow> fst (consume s t' c) = Inr None"

text \<open>The results of a sequence of attempts, each at its time with its secret.\<close>

fun attempts :: "('r \<Rightarrow> time \<Rightarrow> string \<Rightarrow> (exc + int option) \<times> 'r) \<Rightarrow> 'r \<Rightarrow> (time \<times> string) list
    \<Rightarrow> (string \<times> (exc + int option)) list" where
  "attempts consume s [] = []"
| "attempts consume s ((t, c) # as) =
     (c, fst (consume s t c)) # attempts consume (snd (consume s t c)) as"

definition hits :: "string \<Rightarrow> (string \<times> (exc + int option)) list \<Rightarrow> nat" where
  "hits c rs = length (filter (\<lambda>(c', r). c' = c \<and> r \<noteq> Inr None) rs)"

lemma hits_simps [simp]:
  "hits c [] = 0"
  "hits c ((c', r) # rs) = (if c' = c \<and> r \<noteq> Inr None then Suc (hits c rs) else hits c rs)"
  by (simp_all add: hits_def)

context one_time_store begin

lemma no_hits_when_gone:
  "fst (consume s t c) = Inr None \<Longrightarrow> sorted (t # map fst as) \<Longrightarrow> hits c (attempts consume s as) = 0"
proof (induction as arbitrary: s t)
  case Nil
  then show ?case by simp
next
  case (Cons a as)
  obtain t' c' where a: "a = (t', c')" by force
  from Cons.prems a have t: "t \<le> t'" by simp
  then have gone: "fst (consume s t' c) = Inr None"
    using Cons.prems(1) stays_gone by blast
  have "fst (consume (snd (consume s t' c')) t' c) = Inr None"
    using gone consumed consume_frame by (cases "c' = c") auto
  then have "hits c (attempts consume (snd (consume s t' c')) as) = 0"
    using Cons.IH [of _ t'] Cons.prems(2) a by auto
  with gone a show ?case by auto
qed

lemma at_most_one_hit:
  "sorted (map fst as) \<Longrightarrow> hits c (attempts consume s as) \<le> 1"
proof (induction as arbitrary: s)
  case Nil
  then show ?case by simp
next
  case (Cons a as)
  obtain t' c' where a: "a = (t', c')" by force
  show ?case
  proof (cases "c' = c")
    case True
    have "fst (consume (snd (consume s t' c)) t' c) = Inr None"
      by (rule consumed) simp
    with True a Cons.prems have "hits c (attempts consume (snd (consume s t' c)) as) = 0"
      using no_hits_when_gone [of _ t' c as] by simp
    with True a show ?thesis by simp
  next
    case False
    with a Cons show ?thesis by simp
  qed
qed

lemma stored_then_used_once:
  assumes "valid_ttl n" and "t \<le> t'" and "t' < t + secs n" and "t' \<le> t''"
  shows "fst (consume (store s t c u n) t' c) = Inr (Some u)"
    and "fst (consume (snd (consume (store s t c u n) t' c)) t'' c) = Inr None"
  using assms consume_stored consumed by auto

end

section \<open>The module over any server that keeps the contract\<close>

context redis_service begin

lemmas get_simps = get_set get_set_other get_del

lemma muted_iff:
  assumes "0 < m" and "t \<le> t'"
  shows "is_channel_muted R (set_channel_mute R s t i c m) t' i' c' \<longleftrightarrow>
    (if i' = i \<and> c' = c then t' < t + minutes m else is_channel_muted R s t' i' c')"
  using assms by (auto simp: is_channel_muted_def set_channel_mute_def exists_get get_simps)

lemma mute_ttl_muted:
  "get_channel_mute_ttl R s t i c = Some n \<Longrightarrow> 0 < n \<and> is_channel_muted R s t i c"
  using ttl_absent [of s t "mute_key i c"]
  by (auto simp: get_channel_mute_ttl_def is_channel_muted_def exists_get Let_def split: if_splits)

lemma refresh_valid_get: "is_refresh_jti_valid R s t u j \<longleftrightarrow> rd_get R s t (refresh_key u j) \<noteq> None"
  by (simp add: is_refresh_jti_valid_def exists_get)

lemma refresh_used_get: "is_refresh_jti_used R s t u j \<longleftrightarrow> rd_get R s t (refresh_used_key u j) \<noteq> None"
  by (simp add: is_refresh_jti_used_def exists_get)

lemmas refresh_get = refresh_valid_get refresh_used_get

lemma store_refresh_valid:
  assumes "0 < n" and "t \<le> t'"
  shows "is_refresh_jti_valid R (store_refresh_jti R s t u j n) t' u' j' \<longleftrightarrow>
    (if u' = u \<and> j' = j then t' < t + secs n else is_refresh_jti_valid R s t' u' j')"
  using assms by (auto simp: refresh_get store_refresh_jti_def get_simps)

lemma store_refresh_used:
  assumes "0 < n" and "t \<le> t'"
  shows "is_refresh_jti_used R (store_refresh_jti R s t u j n) t' u' j' =
    is_refresh_jti_used R s t' u' j'"
  using assms by (auto simp: refresh_get store_refresh_jti_def get_simps)

lemma revoke_refresh_valid:
  assumes "t \<le> t'"
  shows "is_refresh_jti_valid R (revoke_refresh_jti R s t u j) t' u' j' \<longleftrightarrow>
    (u', j') \<noteq> (u, j) \<and> is_refresh_jti_valid R s t' u' j'"
  using assms by (auto simp: refresh_get revoke_refresh_jti_def get_simps)

lemma revoke_refresh_used:
  assumes "t \<le> t'"
  shows "is_refresh_jti_used R (revoke_refresh_jti R s t u j) t' u' j' =
    is_refresh_jti_used R s t' u' j'"
  using assms by (auto simp: refresh_get revoke_refresh_jti_def get_simps)

lemma rotate_result:
  "fst (rotate_refresh_jti R s t u old new n) \<longleftrightarrow> is_refresh_jti_valid R s t u old"
  using del_count [of s t "refresh_key u old"]
  by (simp add: rotate_refresh_jti_def refresh_get split_beta Let_def)

lemma rotate_valid:
  assumes "0 < n" and "t \<le> t'" and "new \<noteq> old"
  shows "is_refresh_jti_valid R (snd (rotate_refresh_jti R s t u old new n)) t' u' j' \<longleftrightarrow>
    (if u' = u \<and> j' = new then t' < t + secs n
     else (u', j') \<noteq> (u, old) \<and> is_refresh_jti_valid R s t' u' j')"
proof (cases "rd_del R s t (refresh_key u old)")
  case (Pair d s1)
  have "rd_get R s1 t' k = (if k = refresh_key u old then None else rd_get R s t' k)" for k
    using get_del [OF assms(2), of s "refresh_key u old" k] Pair by simp
  with Pair assms show ?thesis
    by (auto simp: rotate_refresh_jti_def refresh_get get_simps Let_def)
qed

lemma rotate_used:
  assumes "0 < n" and "t \<le> t'"
  shows "is_refresh_jti_used R (snd (rotate_refresh_jti R s t u old new n)) t' u' j' \<longleftrightarrow>
    (if u' = u \<and> j' = old \<and> is_refresh_jti_valid R s t u old then t' < t + secs n
     else is_refresh_jti_used R s t' u' j')"
proof (cases "rd_del R s t (refresh_key u old)")
  case (Pair d s1)
  have g: "rd_get R s1 t' k = (if k = refresh_key u old then None else rd_get R s t' k)" for k
    using get_del [OF assms(2), of s "refresh_key u old" k] Pair by simp
  have "d = (if rd_get R s t (refresh_key u old) = None then 0 else 1)"
    using del_count [of s t "refresh_key u old"] Pair by simp
  with g Pair assms show ?thesis
    by (auto simp: rotate_refresh_jti_def refresh_get get_simps Let_def)
qed

lemma get_del_keys:
  "t \<le> t' \<Longrightarrow> rd_get R (snd (del_keys R s t ks)) t' k = (if k \<in> set ks then None else rd_get R s t' k)"
  by (induction ks arbitrary: s) (auto simp: get_del split_beta)

lemma scan_refresh:
  "refresh_key u' j \<in> set (rd_scan R s t (refresh_pattern u)) \<longleftrightarrow>
     u' = u \<and> is_refresh_jti_valid R s t u j"
  "refresh_used_key u' j \<notin> set (rd_scan R s t (refresh_pattern u))"
  by (simp_all only: scan_live refresh_get refresh_prefix mem_Collect_eq) auto

lemma revoke_all_valid:
  assumes "t \<le> t'"
  shows "is_refresh_jti_valid R (snd (revoke_all_refresh_for_user R s t u)) t' u' j \<longleftrightarrow>
    u' \<noteq> u \<and> is_refresh_jti_valid R s t' u' j"
  using assms stays_expired [OF assms, of s]
  by (auto simp: revoke_all_refresh_for_user_def refresh_valid_get get_del_keys
      scan_refresh [unfolded refresh_valid_get])

lemma revoke_all_used:
  assumes "t \<le> t'"
  shows "is_refresh_jti_used R (snd (revoke_all_refresh_for_user R s t u)) t' u' j =
    is_refresh_jti_used R s t' u' j"
  using assms by (simp add: revoke_all_refresh_for_user_def refresh_used_get get_del_keys scan_refresh)

end

text \<open>Pending deletions: one per chat, consumed by any answer, good for one server.\<close>

context redis_service begin

lemma pending_delete_result:
  assumes "t \<le> t'"
  shows "fst (consume_pending_delete R (set_pending_delete R s t chat i) t' chat' i') =
    (if chat' = chat then Inr (t' < t + secs 60 \<and> i' = i)
     else fst (consume_pending_delete R s t' chat' i'))"
  using assms
  by (auto simp: consume_pending_delete_def set_pending_delete_def get_simps split_beta Let_def
      PENDING_DELETE_TTL_SECONDS_def)

lemma pending_delete_consumed:
  assumes "t \<le> t'"
  shows "fst (consume_pending_delete R (snd (consume_pending_delete R s t chat i)) t' chat i') = Inr False"
  using assms by (simp add: consume_pending_delete_def get_simps split_beta Let_def)

text \<open>Drafts: what was stored is what is read, until the deadline or a clear.\<close>

lemma draft_stored:
  assumes "t \<le> t'" and "\<And>d. loads (dumps d) = d" and "\<And>d. dumps d \<noteq> []"
  shows "get_rule_draft R loads (set_rule_draft R dumps s t chat d) t' chat' =
    (if chat' = chat then (if t' < t + secs 600 then Some d else None)
     else get_rule_draft R loads s t' chat')"
  using assms
  by (auto simp: get_rule_draft_def set_rule_draft_def get_simps RULE_DRAFT_TTL_SECONDS_def)

lemma draft_cleared:
  assumes "t \<le> t'"
  shows "get_rule_draft R loads (clear_rule_draft R s t chat) t' chat' =
    (if chat' = chat then None else get_rule_draft R loads s t' chat')"
  using assms by (simp add: get_rule_draft_def clear_rule_draft_def get_simps)

end

section \<open>The two stores of one-time secrets\<close>

sublocale redis_service \<subseteq> link:
  one_time_store "\<lambda>s t c u n. store_tg_link_code R s t c u" "consume_tg_link_code R"
    "\<lambda>n. n = TG_LINK_CODE_TTL_SECONDS"
proof
  fix s and t t' :: time and c :: string and u n :: int
  assume "n = TG_LINK_CODE_TTL_SECONDS" and "t \<le> t'"
  then show "fst (consume_tg_link_code R (store_tg_link_code R s t c u) t' c) =
      Inr (if t' < t + secs n then Some u else None)"
    by (simp add: consume_tg_link_code_def store_tg_link_code_def get_simps split_beta Let_def
        TG_LINK_CODE_TTL_SECONDS_def)
next
  fix s and t t' :: time and c c' :: string and u n :: int
  assume "n = TG_LINK_CODE_TTL_SECONDS" and "t \<le> t'" and "c' \<noteq> c"
  then show "fst (consume_tg_link_code R (store_tg_link_code R s t c u) t' c') =
      fst (consume_tg_link_code R s t' c')"
    by (simp add: consume_tg_link_code_def store_tg_link_code_def get_simps split_beta Let_def
        TG_LINK_CODE_TTL_SECONDS_def)
next
  fix s and t t' :: time and c :: string
  assume t: "t \<le> t'"
  then show "fst (consume_tg_link_code R (snd (consume_tg_link_code R s t c)) t' c) = Inr None"
    by (simp add: consume_tg_link_code_def get_simps split_beta Let_def)
  show "fst (consume_tg_link_code R s t c) = Inr None \<Longrightarrow> fst (consume_tg_link_code R s t' c) = Inr None"
    using t stays_expired [OF t]
    by (auto simp: consume_tg_link_code_def split_beta Let_def int_of_raw_def split: option.splits)
next
  fix s and t t' :: time and c c' :: string
  assume "t \<le> t'" and "c' \<noteq> c"
  then show "fst (consume_tg_link_code R (snd (consume_tg_link_code R s t c)) t' c') =
      fst (consume_tg_link_code R s t' c')"
    by (simp add: consume_tg_link_code_def get_simps split_beta Let_def)
qed

sublocale redis_service \<subseteq> pwreset:
  one_time_store "store_password_reset_token R" "consume_password_reset_token R" "\<lambda>n. 0 < n"
proof
  fix s and t t' :: time and c :: string and u n :: int
  assume "0 < n" and "t \<le> t'"
  then show "fst (consume_password_reset_token R (store_password_reset_token R s t c u n) t' c) =
      Inr (if t' < t + secs n then Some u else None)"
    by (simp add: consume_password_reset_token_def store_password_reset_token_def get_simps
        split_beta Let_def)
next
  fix s and t t' :: time and c c' :: string and u n :: int
  assume "0 < n" and "t \<le> t'" and "c' \<noteq> c"
  then show "fst (consume_password_reset_token R (store_password_reset_token R s t c u n) t' c') =
      fst (consume_password_reset_token R s t' c')"
    by (simp add: consume_password_reset_token_def store_password_reset_token_def get_simps
        split_beta Let_def)
next
  fix s and t t' :: time and c :: string
  assume t: "t \<le> t'"
  then show "fst (consume_password_reset_token R (snd (consume_password_reset_token R s t c)) t' c) = Inr None"
    by (simp add: consume_password_reset_token_def get_simps split_beta Let_def)
  show "fst (consume_password_reset_token R s t c) = Inr None \<Longrightarrow>
      fst (consume_password_reset_token R s t' c) = Inr None"
    using t stays_expired [OF t]
    by (auto simp: consume_password_reset_token_def split_beta Let_def int_of_raw_def
        split: option.splits)
next
  fix s and t t' :: time and c c' :: string
  assume "t \<le> t'" and "c' \<noteq> c"
  then show "fst (consume_password_reset_token R (snd (consume_password_reset_token R s t c)) t' c') =
      fst (consume_password_reset_token R s t' c')"
    by (simp add: consume_password_reset_token_def get_simps split_beta Let_def)
qed

section \<open>A store that keeps the contract\<close>

text \<open>The key space as a list of keys, values and deadlines, the newest binding first.\<close>

type_synonym kv = "(string \<times> string \<times> time) list"

definition kv_get :: "kv \<Rightarrow> time \<Rightarrow> string \<Rightarrow> string option" where
  "kv_get s t k = (case map_of s k of None \<Rightarrow> None | Some (v, e) \<Rightarrow> if t < e then Some v else None)"

definition kv_ttl :: "kv \<Rightarrow> time \<Rightarrow> string \<Rightarrow> int" where
  "kv_ttl s t k = (case map_of s k of
     None \<Rightarrow> - 2
   | Some (v, e) \<Rightarrow> if t < e then (e - t) div 1000000 else - 2)"

definition kv_set :: "kv \<Rightarrow> time \<Rightarrow> string \<Rightarrow> string \<Rightarrow> int \<Rightarrow> kv" where
  "kv_set s t k v n = (k, v, t + secs n) # s"

definition kv_del :: "kv \<Rightarrow> time \<Rightarrow> string \<Rightarrow> int \<times> kv" where
  "kv_del s t k = (if kv_get s t k = None then 0 else 1, filter (\<lambda>b. fst b \<noteq> k) s)"

definition kv_scan :: "kv \<Rightarrow> time \<Rightarrow> string \<Rightarrow> string list" where
  "kv_scan s t p = filter (\<lambda>k. kv_get s t k \<noteq> None \<and> startswith k p) (remdups (map fst s))"

definition kv_redis :: "kv redis" where
  "kv_redis = \<lparr>rd_get = kv_get,
     rd_exists = (\<lambda>s t k. if kv_get s t k = None then 0 else 1),
     rd_ttl = kv_ttl, rd_set = kv_set, rd_del = kv_del, rd_scan = kv_scan\<rparr>"

lemmas kv_defs =
  kv_redis_def kv_get_def kv_ttl_def kv_set_def kv_del_def kv_scan_def

lemma map_of_filter_neq: "map_of (filter (\<lambda>b. fst b \<noteq> k) s) k' = (if k' = k then None else map_of s k')"
  by (induction s) auto

lemma kv_get_in_keys: "kv_get s t k \<noteq> None \<Longrightarrow> k \<in> fst ` set s"
  by (auto simp: kv_get_def split: option.splits prod.splits dest: map_of_SomeD intro: rev_image_eqI)

interpretation kv: redis_service kv_redis
proof
  fix s :: kv and t t' :: time and k v :: string and n :: int
  assume "0 < n" and "t \<le> t'" and "t' < t + secs n"
  then show "0 \<le> rd_ttl kv_redis (rd_set kv_redis s t k v n) t' k \<and>
      rd_ttl kv_redis (rd_set kv_redis s t k v n) t' k \<le> n"
    by (auto simp: kv_defs)
next
  fix s :: kv and t :: time and p :: string
  show "set (rd_scan kv_redis s t p) = {k. rd_get kv_redis s t k \<noteq> None \<and> startswith k p}"
    using kv_get_in_keys [of s t] by (auto simp: kv_redis_def kv_scan_def)
qed (auto simp: kv_defs map_of_filter_neq split: option.splits prod.splits if_splits)

lemma kv_service [simp, intro]: "redis_service kv_redis"
  by (rule kv.redis_service_axioms)

end
