(* ===== verification/PW_Fixtures.thy ===== *)
theory PW_Fixtures
  imports PW_RedisClient PW_Config
begin

text \<open>
  Concrete inputs on which the witnesses evaluate the operations: a request whose best-effort
  writes go through, and a database with one user, one server and two rules.
\<close>

text \<open>A request at a given instant. Every float prints as \<open>0.0\<close> in it.\<close>

definition env_at :: "time \<Rightarrow> env" where
  "env_at t = \<lparr>clock = t, db_clock = t, client_ip = Some ''127.0.0.1'', float_repr = (\<lambda>_. ''0.0''),
     audit_ok = True, enqueue_ok = (\<lambda>_. True), publish_ok = True\<rparr>"

lemma env_at_simps [simp]:
  "clock (env_at t) = t" "db_clock (env_at t) = t" "client_ip (env_at t) = Some ''127.0.0.1''"
  "float_repr (env_at t) x = ''0.0''" "audit_ok (env_at t)" "enqueue_ok (env_at t) k"
  "publish_ok (env_at t)"
  by (simp_all add: env_at_def)

definition demo_user :: user where
  "demo_user = \<lparr>usr_id = 1, usr_email = ''a@x.org'', usr_password_hash = ''#secret'',
     usr_created_at = 0, usr_is_active = True, usr_telegram_chat_id = None,
     usr_email_alerts_enabled = True, usr_totp_secret = None, usr_totp_enabled = False\<rparr>"

definition demo_server :: server where
  "demo_server = \<lparr>srv_id = 1, srv_name = ''web'', srv_api_key_hash = ''#key'', srv_owner_id = 1,
     srv_created_at = 0, srv_last_seen_at = None, srv_is_active = True, srv_agent_version = None,
     srv_paused = False\<rparr>"

definition demo_rule :: alert_rule where
  "demo_rule = \<lparr>rule_id = 1, rule_server_id = 1, rule_owner_id = 1, rule_name = ''cpu'',
     rule_metric_type = System, rule_metric_field = ''cpu_percent'', rule_operator = Gt,
     rule_threshold_value = Fin 80, rule_container_name = None, rule_cooldown_seconds = 300,
     rule_is_active = True, rule_notification_channels = [''telegram'', ''email''],
     rule_last_triggered_at = None, rule_created_at = 0, rule_updated_at = 0\<rparr>"

definition demo_docker_rule :: alert_rule where
  "demo_docker_rule = demo_rule\<lparr>rule_id := 2, rule_name := ''box'', rule_metric_type := Docker,
     rule_container_name := Some ''nginx''\<rparr>"

definition demo_db :: db where
  "demo_db = empty_db\<lparr>users := \<lparr>rows = [demo_user], seq = 2\<rparr>,
     servers := \<lparr>rows = [demo_server], seq = 2\<rparr>,
     alert_rules := \<lparr>rows = [demo_rule, demo_docker_rule], seq = 3\<rparr>\<rparr>"

definition demo_state :: "kv app" where
  "demo_state = \<lparr>app_db = demo_db, app_rd = [], app_tasks = [], app_pub = []\<rparr>"

lemmas demo_defs = demo_user_def demo_server_def demo_rule_def demo_docker_rule_def

lemma demo_state_simps [simp]:
  "app_db demo_state = demo_db" "app_rd demo_state = []" "app_tasks demo_state = []"
  "app_pub demo_state = []"
  by (simp_all add: demo_state_def)

lemma demo_db_simps [simp]:
  "users demo_db = \<lparr>rows = [demo_user], seq = 2\<rparr>"
  "servers demo_db = \<lparr>rows = [demo_server], seq = 2\<rparr>"
  "alert_rules demo_db = \<lparr>rows = [demo_rule, demo_docker_rule], seq = 3\<rparr>"
  "alert_events demo_db = empty_table" "metrics demo_db = empty_table"
  "docker_metrics demo_db = empty_table" "metric_aggregates demo_db = empty_table"
  "docker_aggregates demo_db = empty_table" "audit_logs demo_db = empty_table"
  "logs demo_db = empty_table"
  by (simp_all add: demo_db_def empty_db_def)

lemma demo_db_ok [simp]: "db_ok demo_db"
  by (simp add: ok_defs id_defs keyed_def demo_defs) (simp add: empty_table_def)

end
