(* ===== verification/PW_Auth.thy ===== *)
theory PW_Auth
  imports PW_Security PW_Fixtures
begin

text \<open>
  Accounts and sessions (\<open>app/api/auth.py\<close>, \<open>app/schemas/user.py\<close>): registration, login with
  the optional second factor, rotation of refresh tokens with reuse detection, password reset,
  logout, the profile and the second factor. A handler takes the settings, the libraries, the
  Redis commands, the environment of the request and the fresh random values it draws, and
  maps the shared state to a result and the next state.
\<close>

record token_pair =
  access_token :: string
  refresh_token :: string

definition REFRESH_TTL_SECONDS :: "settings \<Rightarrow> int" where
  "REFRESH_TTL_SECONDS S = refresh_token_expire_days S * 24 * 60 * 60"

abbreviation map_db :: "(db \<Rightarrow> db) \<Rightarrow> 'r app \<Rightarrow> 'r app" where
  "map_db f a \<equiv> a\<lparr>app_db := f (app_db a)\<rparr>"

section \<open>Registration\<close>

text \<open>
  The commit fails with IntegrityError when a concurrent request has registered the address
  since the check; \<open>register_commit\<close> runs on the database of that moment.
\<close>

definition new_user_row :: "env \<Rightarrow> string \<Rightarrow> string \<Rightarrow> int \<Rightarrow> user" where
  "new_user_row e email h i = \<lparr>usr_id = i, usr_email = email, usr_password_hash = h,
     usr_created_at = db_clock e, usr_is_active = True, usr_telegram_chat_id = None,
     usr_email_alerts_enabled = True, usr_totp_secret = None, usr_totp_enabled = False\<rparr>"

definition register_commit :: "env \<Rightarrow> string \<Rightarrow> string \<Rightarrow> db \<Rightarrow> exc + user \<times> db" where
  "register_commit e email h d =
     (if \<exists>u \<in> set (rows (users d)). usr_email u = email then Inl IntegrityError
      else let new_user = new_user_row e email h
           in Inr (new_user (seq (users d)), d\<lparr>users := insert_row new_user (users d)\<rparr>))"

definition register_check :: "string \<Rightarrow> db \<Rightarrow> unit result" where
  "register_check email d = (case scalar_one_or_none (select (\<lambda>u. usr_email u = email) (users d)) of
     Inl x \<Rightarrow> Inl (Unhandled x)
   | Inr (Some _) \<Rightarrow> Inl (HTTPException 409 EmailTaken)
   | Inr None \<Rightarrow> Inr ())"

definition register_user :: "crypto \<Rightarrow> env \<Rightarrow> string \<Rightarrow> string \<Rightarrow> string \<Rightarrow> 'r app \<Rightarrow> user result \<times> 'r app" where
  "register_user C e salt email password a =
     (case register_check email (app_db a) of
        Inl x \<Rightarrow> (Inl x, a)
      | Inr _ \<Rightarrow>
          (case hash_password C salt password of
             Inl x \<Rightarrow> (Inl (Unhandled x), a)
           | Inr h \<Rightarrow>
               (case register_commit e email h (app_db a) of
                  Inl _ \<Rightarrow> (Inl (HTTPException 409 EmailTaken), a)
                | Inr (new_user, d) \<Rightarrow>
                    (after_audit e new_user,
                     a\<lparr>app_db := record_audit e ''register'' (Some (usr_id new_user)) None None True None d\<rparr>))))"

section \<open>Login\<close>

text \<open>\<open>second_factor\<close> is step 2.5: None when the login goes on.\<close>

definition second_factor :: "crypto \<Rightarrow> env \<Rightarrow> user \<Rightarrow> string option \<Rightarrow> detail option" where
  "second_factor C e u totp_code = (case usr_totp_secret u of
     Some secret \<Rightarrow>
       if usr_totp_enabled u \<and> secret \<noteq> [] then
         (case totp_code of
            None \<Rightarrow> Some TotpRequired
          | Some code \<Rightarrow>
              if code = [] then Some TotpRequired
              else if totp_verify C secret (clock e) code then None else Some InvalidTotpCode)
       else None
   | None \<Rightarrow> None)"

definition login :: "settings \<Rightarrow> crypto \<Rightarrow> 'r redis \<Rightarrow> env \<Rightarrow> string \<Rightarrow> string \<Rightarrow> string
    \<Rightarrow> string option \<Rightarrow> 'r app \<Rightarrow> token_pair result \<times> 'r app" where
  "login S C R e jti username password totp_code a =
     (let d = app_db a;
          failed = (\<lambda>uid meta. a\<lparr>app_db := record_audit e ''login_failed'' uid None None True (Some meta) d\<rparr>);
          bad_credentials = (\<lambda>uid. (Inl (HTTPException 401 BadCredentials), failed uid (MetaEmail username)))
      in case scalar_one_or_none (select (\<lambda>u. usr_email u = username) (users d)) of
        Inl x \<Rightarrow> (Inl (Unhandled x), a)
      | Inr None \<Rightarrow> bad_credentials None
      | Inr (Some u) \<Rightarrow>
          (case verify_password C password (usr_password_hash u) of
             Inl x \<Rightarrow> (Inl (Unhandled x), a)
           | Inr ok \<Rightarrow>
               if \<not> ok then bad_credentials (Some (usr_id u))
               else (case second_factor C e u totp_code of
                 Some TotpRequired \<Rightarrow> (Inl (HTTPException 401 TotpRequired), a)
               | Some det \<Rightarrow> (Inl (HTTPException 401 det),
                   failed (Some (usr_id u)) (MetaReason ''invalid_totp''))
               | None \<Rightarrow>
                   (let access = create_access_token C S (clock e) (usr_id u) None;
                        (refresh, jti') = create_refresh_token C S (clock e) jti (usr_id u);
                        r = store_refresh_jti R (app_rd a) (clock e) (usr_id u) jti' (REFRESH_TTL_SECONDS S)
                    in (Inr \<lparr>access_token = access, refresh_token = refresh\<rparr>,
                        a\<lparr>app_db := record_audit e ''login'' (Some (usr_id u)) None None True None d,
                          app_rd := r\<rparr>)))))"

section \<open>Rotation\<close>

text \<open>
  On reuse the handler also tries to warn the user's chat; every error of that attempt is
  swallowed. \<open>reuse_warning\<close> is the chat it writes to.
\<close>

definition reuse_warning :: "int \<Rightarrow> db \<Rightarrow> string option" where
  "reuse_warning user_id d = (case fetch_by_id usr_id user_id (\<lambda>_. True) (users d) of
     Inr (Some u) \<Rightarrow>
       (case usr_telegram_chat_id u of
          Some chat \<Rightarrow> if chat = [] then None else Some chat
        | None \<Rightarrow> None)
   | _ \<Rightarrow> None)"

definition refresh_tokens :: "settings \<Rightarrow> crypto \<Rightarrow> 'r redis \<Rightarrow> env \<Rightarrow> string \<Rightarrow> string
    \<Rightarrow> 'r app \<Rightarrow> token_pair result \<times> 'r app" where
  "refresh_tokens S C R e fresh_jti token a =
     (let t = clock e; s = app_rd a; creds_exc = Inl (HTTPException 401 InvalidRefreshToken) in
      case decode_refresh_token C t token of
        None \<Rightarrow> (creds_exc, a)
      | Some (Inl x) \<Rightarrow> (Inl (Unhandled x), a)
      | Some (Inr (user_id, old_jti)) \<Rightarrow>
          if is_refresh_jti_used R s t user_id old_jti then
            (Inl (HTTPException 401 RefreshReuseDetected),
             a\<lparr>app_rd := snd (revoke_all_refresh_for_user R s t user_id)\<rparr>)
          else
            (let new_access = create_access_token C S t user_id None;
                 (new_refresh, new_jti) = create_refresh_token C S t fresh_jti user_id;
                 (rotated, s') = rotate_refresh_jti R s t user_id old_jti new_jti (REFRESH_TTL_SECONDS S)
             in if \<not> rotated
                then (creds_exc, a\<lparr>app_rd := revoke_refresh_jti R s' t user_id new_jti\<rparr>)
                else (Inr \<lparr>access_token = new_access, refresh_token = new_refresh\<rparr>,
                      a\<lparr>app_rd := s'\<rparr>)))"

definition logout :: "crypto \<Rightarrow> 'r redis \<Rightarrow> env \<Rightarrow> string \<Rightarrow> 'r app \<Rightarrow> unit result \<times> 'r app" where
  "logout C R e token a = (case decode_refresh_token C (clock e) token of
     None \<Rightarrow> (Inr (), a)
   | Some (Inl x) \<Rightarrow> (Inl (Unhandled x), a)
   | Some (Inr (user_id, jti)) \<Rightarrow>
       (Inr (), a\<lparr>app_rd := revoke_refresh_jti R (app_rd a) (clock e) user_id jti\<rparr>))"

section \<open>Password reset\<close>

text \<open>The second component is the link of the letter the handler tries to send.\<close>

definition forgot_password :: "settings \<Rightarrow> 'r redis \<Rightarrow> env \<Rightarrow> string \<Rightarrow> string
    \<Rightarrow> 'r app \<Rightarrow> (unit result \<times> (string \<times> string) option) \<times> 'r app" where
  "forgot_password S R e token email a =
     (case scalar_one_or_none (select (\<lambda>u. usr_email u = email) (users (app_db a))) of
        Inl x \<Rightarrow> ((Inl (Unhandled x), None), a)
      | Inr None \<Rightarrow> ((Inr (), None), a)
      | Inr (Some u) \<Rightarrow>
          ((Inr (), Some (usr_email u, frontend_base_url S @ ''/reset-password?token='' @ token)),
           a\<lparr>app_rd := store_password_reset_token R (app_rd a) (clock e) token (usr_id u)
               (password_reset_token_ttl_seconds S)\<rparr>))"

definition set_user :: "int \<Rightarrow> (user \<Rightarrow> user) \<Rightarrow> db \<Rightarrow> db" where
  "set_user i f d = d\<lparr>users := update_where (\<lambda>u. usr_id u = i) f (users d)\<rparr>"

definition reset_password :: "crypto \<Rightarrow> 'r redis \<Rightarrow> env \<Rightarrow> string \<Rightarrow> string \<Rightarrow> string
    \<Rightarrow> 'r app \<Rightarrow> unit result \<times> 'r app" where
  "reset_password C R e salt token new_password a =
     (if length new_password < 6 then (Inl (HTTPException 422 PasswordTooShort), a)
      else let (consumed, s') = consume_password_reset_token R (app_rd a) (clock e) token;
               a' = a\<lparr>app_rd := s'\<rparr>
      in case consumed of
        Inl x \<Rightarrow> (Inl (Unhandled x), a')
      | Inr None \<Rightarrow> (Inl (HTTPException 400 ResetTokenInvalid), a')
      | Inr (Some user_id) \<Rightarrow>
          (case fetch_by_id usr_id user_id (\<lambda>_. True) (users (app_db a)) of
             Inl x \<Rightarrow> (Inl (Unhandled x), a')
           | Inr None \<Rightarrow> (Inl (HTTPException 400 UserMissing), a')
           | Inr (Some u) \<Rightarrow>
               (case hash_password C salt new_password of
                  Inl x \<Rightarrow> (Inl (Unhandled x), a')
                | Inr h \<Rightarrow>
                    (Inr (),
                     a\<lparr>app_db := record_audit e ''password_reset'' (Some user_id) None None True None
                         (set_user user_id (\<lambda>u. u\<lparr>usr_password_hash := h\<rparr>) (app_db a)),
                       app_rd := snd (revoke_all_refresh_for_user R s' (clock e) user_id)\<rparr>))))"

section \<open>The profile\<close>

definition validate_chat_id :: "string option \<Rightarrow> exc + string option" where
  "validate_chat_id v = (case v of
     None \<Rightarrow> Inr None
   | Some v \<Rightarrow>
       let v = strip v in
       if v = [] then Inl ValueError
       else if \<not> (isdigit (dropWhile (\<lambda>c. c = CHR ''-'') v) \<and> v \<noteq> ''-'') then Inl ValueError
       else Inr (Some v))"

text \<open>An update of the current user's row, refused when a column does not hold the value.\<close>

definition commit_user :: "(user \<Rightarrow> user) \<Rightarrow> user \<Rightarrow> 'r app \<Rightarrow> user result \<times> 'r app" where
  "commit_user f u a =
     (if user_fits (f u) then (Inr (f u), map_db (set_user (usr_id u) f) a)
      else (Inl (Unhandled DataError), a))"

definition link_telegram :: "string option \<Rightarrow> user \<Rightarrow> 'r app \<Rightarrow> user result \<times> 'r app" where
  "link_telegram chat_id current_user a = (case validate_chat_id chat_id of
     Inl _ \<Rightarrow> (Inl (HTTPException 422 UnprocessableEntity), a)
   | Inr v \<Rightarrow> commit_user (\<lambda>u. u\<lparr>usr_telegram_chat_id := v\<rparr>) current_user a)"

definition toggle_email_alerts :: "bool \<Rightarrow> user \<Rightarrow> 'r app \<Rightarrow> user result \<times> 'r app" where
  "toggle_email_alerts enabled current_user a =
     commit_user (\<lambda>u. u\<lparr>usr_email_alerts_enabled := enabled\<rparr>) current_user a"

section \<open>The second factor\<close>

definition setup_totp :: "string \<Rightarrow> user \<Rightarrow> 'r app \<Rightarrow> user result \<times> 'r app" where
  "setup_totp secret current_user a =
     commit_user (\<lambda>u. u\<lparr>usr_totp_secret := Some secret, usr_totp_enabled := False\<rparr>) current_user a"

definition enable_totp :: "crypto \<Rightarrow> env \<Rightarrow> string \<Rightarrow> user \<Rightarrow> 'r app \<Rightarrow> user result \<times> 'r app" where
  "enable_totp C e code current_user a = (case usr_totp_secret current_user of
     None \<Rightarrow> (Inl (HTTPException 400 TotpNotInitialised), a)
   | Some secret \<Rightarrow>
       if secret = [] then (Inl (HTTPException 400 TotpNotInitialised), a)
       else if \<not> totp_verify C secret (clock e) code then (Inl (HTTPException 400 WrongTotpCode), a)
       else commit_user (\<lambda>u. u\<lparr>usr_totp_enabled := True\<rparr>) current_user a)"

definition disable_totp :: "crypto \<Rightarrow> string \<Rightarrow> user \<Rightarrow> 'r app \<Rightarrow> user result \<times> 'r app" where
  "disable_totp C password current_user a =
     (case verify_password C password (usr_password_hash current_user) of
        Inl x \<Rightarrow> (Inl (Unhandled x), a)
      | Inr ok \<Rightarrow>
          if \<not> ok then (Inl (HTTPException 401 WrongPassword), a)
          else commit_user (\<lambda>u. u\<lparr>usr_totp_secret := None, usr_totp_enabled := False\<rparr>) current_user a)"

text \<open>\<open>code\<close> is the fresh \<open>secrets.token_hex(4)\<close>; the answer holds the code and the deep link.\<close>

definition create_telegram_link_code :: "settings \<Rightarrow> 'r redis \<Rightarrow> env \<Rightarrow> string \<Rightarrow> user
    \<Rightarrow> 'r app \<Rightarrow> (string \<times> string option) result \<times> 'r app" where
  "create_telegram_link_code S R e code current_user a =
     (Inr (code, case telegram_bot_username S of
          None \<Rightarrow> None
        | Some name \<Rightarrow> if name = [] then None else Some (''https://t.me/'' @ name @ ''?start='' @ code)),
      a\<lparr>app_rd := store_tg_link_code R (app_rd a) (clock e) code (usr_id current_user)\<rparr>)"

section \<open>What the handlers keep\<close>

lemma set_user_tables [simp]:
  "servers (set_user i f d) = servers d" "metrics (set_user i f d) = metrics d"
  "docker_metrics (set_user i f d) = docker_metrics d"
  "metric_aggregates (set_user i f d) = metric_aggregates d"
  "docker_aggregates (set_user i f d) = docker_aggregates d"
  "alert_rules (set_user i f d) = alert_rules d" "alert_events (set_user i f d) = alert_events d"
  "audit_logs (set_user i f d) = audit_logs d" "logs (set_user i f d) = logs d"
  by (simp_all add: set_user_def)

text \<open>Updates of other columns of a user keep the constraints.\<close>

lemma set_user_ok:
  assumes "db_ok d" and "\<And>u. usr_id (f u) = usr_id u" and "\<And>u. usr_email (f u) = usr_email u"
  shows "db_ok (set_user i f d)"
  unfolding set_user_def
  by (rule db_ok_users)
    (use assms db_ok_keyed [OF assms(1)] db_ok_unique [OF assms(1)] in
      \<open>auto simp: map_update_where image_update_where user_ids_def keyed_update\<close>)

lemma commit_user_ok:
  assumes "db_ok (app_db a)" and "\<And>u. usr_id (f u) = usr_id u" and "\<And>u. usr_email (f u) = usr_email u"
  shows "db_ok (app_db (snd (commit_user f u a)))"
  using assms by (simp add: commit_user_def set_user_ok)

lemma register_commit_ok:
  assumes "register_commit e email h d = Inr (u, d')" and "db_ok d"
  shows "db_ok d'"
proof -
  from assms(1) have fresh: "email \<notin> usr_email ` set (rows (users d))"
    by (auto simp: register_commit_def Let_def split: if_splits)
  define mk where "mk = new_user_row e email h"
  then have mk: "\<And>i. usr_id (mk i) = i" "\<And>i. usr_email (mk i) = email"
    by (simp_all add: new_user_row_def)
  from assms(1) have d': "d' = d\<lparr>users := insert_row mk (users d)\<rparr>"
    by (simp add: register_commit_def Let_def mk_def split: if_splits)
  have "db_ok (d\<lparr>users := insert_row mk (users d)\<rparr>)"
    by (rule db_ok_users)
      (use assms(2) db_ok_keyed [OF assms(2)] db_ok_unique [OF assms(2)] fresh mk in
        \<open>auto simp: user_ids_def keyed_insert, simp add: table_simps\<close>)
  with d' show ?thesis by simp
qed

lemma register_user_ok:
  assumes "db_ok (app_db a)"
  shows "db_ok (app_db (snd (register_user C e salt email password a)))"
proof -
  have "db_ok (record_audit e ac (Some (usr_id u)) None None True None d)"
    if "register_commit e email h (app_db a) = Inr (u, d)" for ac h u d
  proof (rule record_audit_ok [OF register_commit_ok [OF that assms]])
    show "Some (usr_id u) \<in> insert None (Some ` user_ids d)"
      using that by (auto simp: register_commit_def Let_def user_ids_def table_simps split: if_splits)
  qed
  then show ?thesis using assms by (auto simp: register_user_def split: sum.splits prod.splits)
qed

lemma login_db_ok:
  assumes "db_ok (app_db a)"
  shows "db_ok (app_db (snd (login S C R e jti name pw code a)))"
proof -
  have anonymous: "db_ok (record_audit e ac None None None True m (app_db a))" for ac m
    by (rule record_audit_ok [OF assms]) simp
  have "db_ok (record_audit e ac (Some (usr_id u)) None None True m (app_db a))"
    if "select (\<lambda>u. usr_email u = name) (users (app_db a)) = [u]" for ac u m
  proof -
    have "u \<in> set (select (\<lambda>u. usr_email u = name) (users (app_db a)))" using that by simp
    then show ?thesis by (intro record_audit_ok [OF assms] audit_user_ok) (simp add: table_simps)
  qed
  then show ?thesis
    using assms anonymous by (auto simp: login_def Let_def
        split: sum.splits option.splits prod.splits detail.splits)
qed

lemma reset_password_db_ok:
  assumes "db_ok (app_db a)"
  shows "db_ok (app_db (snd (reset_password C R e salt token pw a)))"
proof -
  have "db_ok (record_audit e ac (Some i) None None True None (set_user i (\<lambda>u. u\<lparr>usr_password_hash := h\<rparr>) (app_db a)))"
    if "fetch_by_id usr_id i (\<lambda>_. True) (users (app_db a)) = Inr (Some u)" for ac i h u
  proof (rule record_audit_ok [OF set_user_ok [OF assms]])
    show "Some i \<in> insert None (Some ` user_ids (set_user i (\<lambda>u. u\<lparr>usr_password_hash := h\<rparr>) (app_db a)))"
      using fetch_by_id_Some [OF that] by (auto simp: user_ids_def set_user_def image_update_where)
  qed simp_all
  then show ?thesis
    using assms by (auto simp: reset_password_def Let_def split: sum.splits option.splits prod.splits)
qed

lemma profile_db_ok:
  assumes "db_ok (app_db a)"
  shows "db_ok (app_db (snd (link_telegram v u a)))"
    and "db_ok (app_db (snd (toggle_email_alerts b u a)))"
    and "db_ok (app_db (snd (setup_totp secret u a)))"
    and "db_ok (app_db (snd (enable_totp C e code u a)))"
    and "db_ok (app_db (snd (disable_totp C pw u a)))"
  using assms
  by (auto simp: link_telegram_def toggle_email_alerts_def setup_totp_def enable_totp_def
      disable_totp_def commit_user_ok split: sum.splits option.splits)

section \<open>Sessions\<close>

text \<open>
  The interface of the session logic: the Redis commands, the libraries and the settings, under
  their contracts. \<open>valid\<close> and \<open>used\<close> of the Redis module are what the laws speak of.
\<close>

locale auth_service = redis_service R + crypto_service C
  for R :: "'r redis" and C :: crypto +
  fixes S :: settings
  assumes settings: "settings_ok S"
begin

lemma ttl_pos: "0 < REFRESH_TTL_SECONDS S"
  using settings by (simp add: REFRESH_TTL_SECONDS_def settings_ok_def)

lemma ttl_days: "secs (REFRESH_TTL_SECONDS S) = days (refresh_token_expire_days S)"
  by (simp add: REFRESH_TTL_SECONDS_def)

text \<open>A successful login: the row it is about, the tokens it issues, the state it leaves.\<close>

lemma login_success:
  assumes "login S C R e jti name pw code a = (Inr tok, a')"
  obtains u where "select (\<lambda>u. usr_email u = name) (users (app_db a)) = [u]"
    and "verify_password C pw (usr_password_hash u) = Inr True"
    and "second_factor C e u code = None"
    and "access_token tok = create_access_token C S (clock e) (usr_id u) None"
    and "refresh_token tok = fst (create_refresh_token C S (clock e) jti (usr_id u))"
    and "app_rd a' = store_refresh_jti R (app_rd a) (clock e) (usr_id u) jti (REFRESH_TTL_SECONDS S)"
    and "app_db a' = record_audit e ''login'' (Some (usr_id u)) None None True None (app_db a)"
  using assms
  by (auto simp: login_def Let_def create_refresh_token_def
      split: sum.splits option.splits prod.splits if_splits detail.splits)

text \<open>A refresh token decodes until its deadline.\<close>

lemma decode_in_time:
  assumes "t' \<le> t + days (refresh_token_expire_days S)"
  shows "decode_refresh_token C t' (fst (create_refresh_token C S t jti u)) = Some (Inr (u, jti))"
  using to_seconds_mono [OF assms] by (simp add: decode_refresh)

lemma refresh_valid:
  assumes "decode_refresh_token C (clock e) tok = Some (Inr (u, old))"
    and "\<not> is_refresh_jti_used R (app_rd a) (clock e) u old"
    and "is_refresh_jti_valid R (app_rd a) (clock e) u old"
  shows "refresh_tokens S C R e jti tok a =
    (Inr \<lparr>access_token = create_access_token C S (clock e) u None,
          refresh_token = fst (create_refresh_token C S (clock e) jti u)\<rparr>,
     a\<lparr>app_rd := snd (rotate_refresh_jti R (app_rd a) (clock e) u old jti (REFRESH_TTL_SECONDS S))\<rparr>)"
  using assms rotate_result [of "app_rd a" "clock e" u old jti "REFRESH_TTL_SECONDS S"]
  by (auto simp: refresh_tokens_def create_refresh_token_def Let_def split: prod.splits)

lemma refresh_success:
  assumes "refresh_tokens S C R e jti tok a = (Inr tok', a')"
  obtains u old where "decode_refresh_token C (clock e) tok = Some (Inr (u, old))"
    and "\<not> is_refresh_jti_used R (app_rd a) (clock e) u old"
    and "is_refresh_jti_valid R (app_rd a) (clock e) u old"
    and "a' = a\<lparr>app_rd := snd (rotate_refresh_jti R (app_rd a) (clock e) u old jti (REFRESH_TTL_SECONDS S))\<rparr>"
    and "refresh_token tok' = fst (create_refresh_token C S (clock e) jti u)"
proof -
  from assms obtain u old where d: "decode_refresh_token C (clock e) tok = Some (Inr (u, old))"
    and n: "\<not> is_refresh_jti_used R (app_rd a) (clock e) u old"
    by (auto simp: refresh_tokens_def Let_def split: option.splits sum.splits prod.splits if_splits)
  with assms have v: "is_refresh_jti_valid R (app_rd a) (clock e) u old"
    using rotate_result [of "app_rd a" "clock e" u old jti "REFRESH_TTL_SECONDS S"]
    by (auto simp: refresh_tokens_def create_refresh_token_def Let_def split: prod.splits if_splits)
  with assms refresh_valid [OF d n v, of jti] that [OF d n v] show ?thesis by auto
qed

text \<open>A spent token is answered by closing every session of its user.\<close>

lemma refresh_reuse:
  assumes "decode_refresh_token C (clock e) tok = Some (Inr (u, old))"
    and "is_refresh_jti_used R (app_rd a) (clock e) u old"
  shows "refresh_tokens S C R e jti tok a =
    (Inl (HTTPException 401 RefreshReuseDetected),
     a\<lparr>app_rd := snd (revoke_all_refresh_for_user R (app_rd a) (clock e) u)\<rparr>)"
  using assms by (simp add: refresh_tokens_def Let_def)

text \<open>A token that is neither live nor spent leaves the valid sessions as they were.\<close>

lemma refresh_unknown:
  assumes "decode_refresh_token C (clock e) tok = Some (Inr (u, old))"
    and "\<not> is_refresh_jti_used R (app_rd a) (clock e) u old"
    and "\<not> is_refresh_jti_valid R (app_rd a) (clock e) u old"
    and "jti \<noteq> old" and "clock e \<le> t"
  shows "fst (refresh_tokens S C R e jti tok a) = Inl (HTTPException 401 InvalidRefreshToken)"
    and "is_refresh_jti_valid R (app_rd (snd (refresh_tokens S C R e jti tok a))) t u' j' \<longleftrightarrow>
      (u', j') \<noteq> (u, jti) \<and> is_refresh_jti_valid R (app_rd a) t u' j'"
proof -
  let ?n = "REFRESH_TTL_SECONDS S"
  obtain s' where r: "rotate_refresh_jti R (app_rd a) (clock e) u old jti ?n = (False, s')"
    using rotate_result [of "app_rd a" "clock e" u old jti ?n] assms(3)
    by (cases "rotate_refresh_jti R (app_rd a) (clock e) u old jti ?n") simp
  have eq: "refresh_tokens S C R e jti tok a =
      (Inl (HTTPException 401 InvalidRefreshToken),
       a\<lparr>app_rd := revoke_refresh_jti R s' (clock e) u jti\<rparr>)"
    using assms r by (simp add: refresh_tokens_def create_refresh_token_def Let_def)
  then show "fst (refresh_tokens S C R e jti tok a) = Inl (HTTPException 401 InvalidRefreshToken)"
    by simp
  have "\<not> is_refresh_jti_valid R (app_rd a) t u old"
    using assms(3,5) stays_expired by (auto simp: refresh_valid_get)
  then show "is_refresh_jti_valid R (app_rd (snd (refresh_tokens S C R e jti tok a))) t u' j' \<longleftrightarrow>
      (u', j') \<noteq> (u, jti) \<and> is_refresh_jti_valid R (app_rd a) t u' j'"
    using rotate_valid [OF ttl_pos assms(5,4), of "app_rd a" u u' j'] r assms(5)
    by (auto simp: eq revoke_refresh_valid)
qed

lemma reset_success:
  assumes "reset_password C R e salt token pw a = (Inr (), a')"
  obtains u s' h where "consume_password_reset_token R (app_rd a) (clock e) token = (Inr (Some (usr_id u)), s')"
    and "u \<in> set (rows (users (app_db a)))" and "hash_password C salt pw = Inr h" and "6 \<le> length pw"
    and "app_rd a' = snd (revoke_all_refresh_for_user R s' (clock e) (usr_id u))"
    and "app_db a' = record_audit e ''password_reset'' (Some (usr_id u)) None None True None
      (set_user (usr_id u) (\<lambda>u. u\<lparr>usr_password_hash := h\<rparr>) (app_db a))"
proof -
  from assms obtain i s' u h where *:
    "consume_password_reset_token R (app_rd a) (clock e) token = (Inr (Some i), s')"
    "fetch_by_id usr_id i (\<lambda>_. True) (users (app_db a)) = Inr (Some u)"
    "hash_password C salt pw = Inr h" "6 \<le> length pw"
    "a' = a\<lparr>app_db := record_audit e ''password_reset'' (Some i) None None True None
         (set_user i (\<lambda>u. u\<lparr>usr_password_hash := h\<rparr>) (app_db a)),
       app_rd := snd (revoke_all_refresh_for_user R s' (clock e) i)\<rparr>"
    by (auto simp: reset_password_def Let_def split: if_splits prod.splits sum.splits option.splits)
  from fetch_by_id_Some [OF *(2)] * that show ?thesis by auto
qed

end

lemma auth_serviceI [intro]:
  "redis_service R \<Longrightarrow> crypto_service C \<Longrightarrow> settings_ok S \<Longrightarrow> auth_service R C S"
  by (simp add: auth_service_def auth_service_axioms_def)

interpretation plain_auth: auth_service kv_redis plain_crypto default_settings
  by (intro auth_serviceI kv_service plain_service default_settings_ok)

section \<open>Properties\<close>

text \<open>Concrete inputs for the witnesses: one account that has just registered.\<close>

definition demo_app :: "kv app" where
  "demo_app = \<lparr>app_db = empty_db\<lparr>users := \<lparr>rows = [demo_user], seq = 2\<rparr>\<rparr>, app_rd = [],
     app_tasks = [], app_pub = []\<rparr>"

lemma demo_check [simp]: "verify_password plain_crypto ''secret'' ''#secret'' = Inr True"
  by (simp add: verify_password_def plain_crypto_def)

lemma demo_app_ok: "db_ok (app_db demo_app)"
  by (simp add: demo_app_def ok_defs id_defs empty_db_def empty_table_def keyed_def demo_user_def)

definition demo_token :: "string \<Rightarrow> time \<Rightarrow> token_pair" where
  "demo_token jti t = \<lparr>access_token = create_access_token plain_crypto default_settings t 1 None,
     refresh_token = fst (create_refresh_token plain_crypto default_settings t jti 1)\<rparr>"

definition demo_session :: "kv app" where
  "demo_session = demo_app\<lparr>
     app_db := record_audit (env_at 0) ''login'' (Some 1) None None True None (app_db demo_app),
     app_rd := store_refresh_jti kv_redis [] 0 1 ''j1'' 604800\<rparr>"

lemma demo_login:
  "login default_settings plain_crypto kv_redis (env_at 0) ''j1'' ''a@x.org'' ''secret'' None demo_app =
    (Inr (demo_token ''j1'' 0), demo_session)"
  by (simp add: login_def demo_session_def demo_app_def demo_user_def table_simps empty_db_def
      second_factor_def create_refresh_token_def demo_token_def REFRESH_TTL_SECONDS_def
      default_settings_def)

lemma demo_ttl [simp]: "refresh_token_expire_days default_settings = 7"
  "REFRESH_TTL_SECONDS default_settings = 604800"
  by (simp_all add: default_settings_def REFRESH_TTL_SECONDS_def)

lemma demo_used [simp]: "\<not> is_refresh_jti_used kv_redis [] t u j"
  "\<not> is_refresh_jti_used kv_redis (app_rd demo_session) t u j"
  by (simp_all add: is_refresh_jti_used_def demo_session_def store_refresh_jti_def kv_redis_def
      kv_get_def kv_set_def)

definition demo_rotated :: "kv app" where
  "demo_rotated = demo_session\<lparr>app_rd :=
     snd (rotate_refresh_jti kv_redis (app_rd demo_session) (secs 60) 1 ''j1'' ''j2'' 604800)\<rparr>"

lemma demo_decode:
  "t \<le> days 7 \<Longrightarrow> decode_refresh_token plain_crypto t (refresh_token (demo_token j 0)) = Some (Inr (1, j))"
  by (simp add: demo_token_def plain_auth.decode_in_time)

lemma demo_exchange:
  "refresh_tokens default_settings plain_crypto kv_redis (env_at (secs 60)) ''j2''
     (refresh_token (demo_token ''j1'' 0)) demo_session = (Inr (demo_token ''j2'' (secs 60)), demo_rotated)"
proof -
  have "is_refresh_jti_valid kv_redis (app_rd demo_session) (secs 60) 1 ''j1''"
    using kv.store_refresh_valid [of 604800 0 "secs 60" "[]" 1 "''j1''" 1 "''j1''"]
    by (simp add: demo_session_def)
  then show ?thesis
    using plain_auth.refresh_valid [of "env_at (secs 60)" "refresh_token (demo_token ''j1'' 0)"
        1 "''j1''" demo_session "''j2''"] demo_decode [of "secs 60" "''j1''"]
    by (simp add: demo_token_def demo_rotated_def)
qed

text \<open>C4: the refresh token a login issued is exchanged, within its lifetime, for a new pair;
  the exchange spends it (its id is no longer live and is marked as used), makes the new one
  live, and changes nothing in the database.\<close>

theorem refresh_rotation:
  assumes "redis_service R" and "crypto_service C" and "settings_ok S"
    and login: "login S C R e jti name pw code a = (Inr tok, a1)"
    and time: "clock e \<le> clock e'" "clock e' < clock e + days (refresh_token_expire_days S)"
    and fresh: "\<forall>u. \<not> is_refresh_jti_used R (app_rd a) (clock e') u jti" "jti' \<noteq> jti"
  shows "\<exists>tok' a2. refresh_tokens S C R e' jti' (refresh_token tok) a1 = (Inr tok', a2)
    \<and> app_db a2 = app_db a1
    \<and> (\<exists>u \<in> set (rows (users (app_db a))). usr_email u = name
        \<and> \<not> is_refresh_jti_valid R (app_rd a2) (clock e') (usr_id u) jti
        \<and> is_refresh_jti_used R (app_rd a2) (clock e') (usr_id u) jti
        \<and> is_refresh_jti_valid R (app_rd a2) (clock e') (usr_id u) jti')"
proof -
  note auth = auth_serviceI [OF assms(1-3)]
  let ?n = "REFRESH_TTL_SECONDS S"
  note n = auth_service.ttl_pos [OF auth]
  obtain u where u: "select (\<lambda>u. usr_email u = name) (users (app_db a)) = [u]"
    and tok: "refresh_token tok = fst (create_refresh_token C S (clock e) jti (usr_id u))"
    and rd: "app_rd a1 = store_refresh_jti R (app_rd a) (clock e) (usr_id u) jti ?n"
    using auth_service.login_success [OF auth login] by metis
  from u have row: "u \<in> set (rows (users (app_db a)))" "usr_email u = name"
    by (auto simp: table_simps filter_eq_Cons_iff)
  have dec: "decode_refresh_token C (clock e') (refresh_token tok) = Some (Inr (usr_id u, jti))"
    using auth_service.decode_in_time [OF auth] time tok by simp
  have unused: "\<not> is_refresh_jti_used R (app_rd a1) (clock e') (usr_id u) jti"
    using fresh(1) redis_service.store_refresh_used [OF assms(1) n time(1)] rd by simp
  have live: "is_refresh_jti_valid R (app_rd a1) (clock e') (usr_id u) jti"
    using redis_service.store_refresh_valid [OF assms(1) n time(1)] time(2) rd
      auth_service.ttl_days [OF auth] by simp
  let ?a2 = "a1\<lparr>app_rd := snd (rotate_refresh_jti R (app_rd a1) (clock e') (usr_id u) jti jti' ?n)\<rparr>"
  have "\<exists>tok'. refresh_tokens S C R e' jti' (refresh_token tok) a1 = (Inr tok', ?a2)"
    using auth_service.refresh_valid [OF auth dec unused live] by blast
  moreover have "\<not> is_refresh_jti_valid R (app_rd ?a2) (clock e') (usr_id u) jti"
    and "is_refresh_jti_valid R (app_rd ?a2) (clock e') (usr_id u) jti'"
    using redis_service.rotate_valid [OF assms(1) n order_refl fresh(2)] fresh(2) n by auto
  moreover have "is_refresh_jti_used R (app_rd ?a2) (clock e') (usr_id u) jti"
    using redis_service.rotate_used [OF assms(1) n order_refl] live n by auto
  ultimately show ?thesis using row by fastforce
qed

theorem refresh_rotation_witness:
  "\<exists>tok' a2. refresh_tokens default_settings plain_crypto kv_redis (env_at (secs 60)) ''j2''
      (refresh_token (demo_token ''j1'' 0)) demo_session = (Inr tok', a2)
    \<and> app_db a2 = app_db demo_session
    \<and> (\<exists>u \<in> set (rows (users (app_db demo_app))). usr_email u = ''a@x.org''
        \<and> \<not> is_refresh_jti_valid kv_redis (app_rd a2) (clock (env_at (secs 60))) (usr_id u) ''j1''
        \<and> is_refresh_jti_used kv_redis (app_rd a2) (clock (env_at (secs 60))) (usr_id u) ''j1''
        \<and> is_refresh_jti_valid kv_redis (app_rd a2) (clock (env_at (secs 60))) (usr_id u) ''j2'')"
  by (rule refresh_rotation [OF kv_service plain_service default_settings_ok demo_login])
     (simp_all add: demo_app_def)

text \<open>C5: presenting a refresh token again after it was exchanged is answered with the
  reuse error and closes every session of its user, and of nobody else: no refresh id of that
  user is live from then on, every other user's ids are live exactly as before, and the
  database is untouched.\<close>

theorem refresh_reuse_closes_sessions:
  assumes "redis_service R" and "crypto_service C" and "settings_ok S"
    and exchange: "refresh_tokens S C R e jti1 tok a = (Inr tok1, a1)" and "jti1 \<noteq> jti2"
    and time: "clock e \<le> clock e'" "clock e' < clock e + days (refresh_token_expire_days S)"
    and token: "decode_refresh_token C (clock e') tok = Some (Inr (u, j))"
      "decode_refresh_token C (clock e) tok = Some (Inr (u, j))"
  shows "\<exists>a2. refresh_tokens S C R e' jti2 tok a1 = (Inl (HTTPException 401 RefreshReuseDetected), a2)
    \<and> app_db a2 = app_db a1
    \<and> (\<forall>t u' j'. clock e' \<le> t \<longrightarrow> is_refresh_jti_valid R (app_rd a2) t u' j' =
        (u' \<noteq> u \<and> is_refresh_jti_valid R (app_rd a1) t u' j'))"
proof -
  note auth = auth_serviceI [OF assms(1-3)]
  let ?n = "REFRESH_TTL_SECONDS S"
  have live: "is_refresh_jti_valid R (app_rd a) (clock e) u j"
    and a1: "a1 = a\<lparr>app_rd := snd (rotate_refresh_jti R (app_rd a) (clock e) u j jti1 ?n)\<rparr>"
    using auth_service.refresh_success [OF auth exchange] token(2) by (metis option.inject sum.inject(2) prod.inject)+
  have "is_refresh_jti_used R (app_rd a1) (clock e') u j"
    using redis_service.rotate_used [OF assms(1) auth_service.ttl_pos [OF auth] time(1)] live time(2)
      auth_service.ttl_days [OF auth] by (simp add: a1)
  from auth_service.refresh_reuse [OF auth token(1) this]
  show ?thesis
    using redis_service.revoke_all_valid [OF assms(1)] by auto
qed

theorem refresh_reuse_witness:
  "\<exists>a2. refresh_tokens default_settings plain_crypto kv_redis (env_at (secs 120)) ''j3''
      (refresh_token (demo_token ''j1'' 0)) demo_rotated = (Inl (HTTPException 401 RefreshReuseDetected), a2)
    \<and> app_db a2 = app_db demo_rotated
    \<and> (\<forall>t u' j'. clock (env_at (secs 120)) \<le> t \<longrightarrow> is_refresh_jti_valid kv_redis (app_rd a2) t u' j' =
        (u' \<noteq> 1 \<and> is_refresh_jti_valid kv_redis (app_rd demo_rotated) t u' j'))"
  by (rule refresh_reuse_closes_sessions [OF kv_service plain_service default_settings_ok demo_exchange])
     (simp_all add: demo_decode)

text \<open>
  the two kinds of token are not interchangeable: whatever the instants, a refresh
  token authenticates no request and no WebSocket, and an access token neither refreshes nor
  logs out a session.\<close>

theorem token_kinds_separate:
  assumes "crypto_service C"
  shows "get_current_user C now (fst (create_refresh_token C S t jti u)) d =
      Inl (HTTPException 401 CouldNotValidate)
    \<and> authenticate_ws_user C now (Some (fst (create_refresh_token C S t jti u))) d = Inr None
    \<and> refresh_tokens S C R e jti (create_access_token C S t u None) a =
      (Inl (HTTPException 401 InvalidRefreshToken), a)
    \<and> logout C R e (create_access_token C S t u None) a = (Inr (), a)"
  using crypto_service.refresh_is_no_access [OF assms] crypto_service.decode_access_as_refresh [OF assms]
    crypto_service.decode_encode [OF assms]
  by (simp add: refresh_tokens_def logout_def authenticate_ws_user_def create_refresh_token_def Let_def)

theorem token_kinds_separate_witness:
  "get_current_user plain_crypto 5 (fst (create_refresh_token plain_crypto default_settings 0 ''j'' 1))
      (app_db demo_app) = Inl (HTTPException 401 CouldNotValidate)"
  using token_kinds_separate [OF plain_service, of 5 default_settings 0 "''j''" 1 "app_db demo_app"]
  by blast

text \<open>C13: a completed password reset installs the hash of the new password, spends its token
  (any later use of it is refused, at any later time) and ends every session of the account
  while the sessions of other accounts go on.\<close>

theorem reset_password_effect:
  assumes "redis_service R" and "crypto_service C" and "settings_ok S"
    and reset: "reset_password C R e salt token pw a = (Inr (), a1)"
    and later: "clock e \<le> clock e'" and "6 \<le> length pw'" and "keyed usr_id (users (app_db a))"
  shows "\<exists>u \<in> set (rows (users (app_db a))).
    (\<exists>u1 \<in> set (rows (users (app_db a1))). usr_id u1 = usr_id u
        \<and> usr_email u1 = usr_email u \<and> verify_password C pw (usr_password_hash u1) = Inr True)
    \<and> fst (reset_password C R e' salt' token pw' a1) = Inl (HTTPException 400 ResetTokenInvalid)
    \<and> (\<forall>t u' j. clock e \<le> t \<longrightarrow> is_refresh_jti_valid R (app_rd a1) t u' j =
        (u' \<noteq> usr_id u \<and> is_refresh_jti_valid R (app_rd a) t u' j))"
proof -
  note auth = auth_serviceI [OF assms(1-3)]
  obtain u s' h where c: "consume_password_reset_token R (app_rd a) (clock e) token = (Inr (Some (usr_id u)), s')"
    and u: "u \<in> set (rows (users (app_db a)))" and h: "hash_password C salt pw = Inr h"
    and rd: "app_rd a1 = snd (revoke_all_refresh_for_user R s' (clock e) (usr_id u))"
    and db: "app_db a1 = record_audit e ''password_reset'' (Some (usr_id u)) None None True None
      (set_user (usr_id u) (\<lambda>u. u\<lparr>usr_password_hash := h\<rparr>) (app_db a))"
    using auth_service.reset_success [OF auth reset] by metis
  let ?u1 = "u\<lparr>usr_password_hash := h\<rparr>"
  have s': "s' = snd (rd_del R (app_rd a) (clock e) (password_reset_key token))"
    using c by (simp add: consume_password_reset_token_def Let_def split_beta)
  have gone: "rd_get R (app_rd a1) (clock e') (password_reset_key token) = None"
    using redis_service.get_del_keys [OF assms(1) later] redis_service.get_del [OF assms(1) later]
    by (simp add: rd s' revoke_all_refresh_for_user_def)
  then have "fst (reset_password C R e' salt' token pw' a1) = Inl (HTTPException 400 ResetTokenInvalid)"
    using assms(6) by (simp add: reset_password_def consume_password_reset_token_def Let_def split_beta)
  moreover have "is_refresh_jti_valid R (app_rd a1) t u' j \<longleftrightarrow>
      u' \<noteq> usr_id u \<and> is_refresh_jti_valid R (app_rd a) t u' j" if "clock e \<le> t" for t u' j
    using redis_service.revoke_all_valid [OF assms(1) that] redis_service.get_del [OF assms(1) that]
      key_families by (simp add: rd s' redis_service.refresh_valid_get [OF assms(1)])
  moreover have "?u1 \<in> set (rows (users (app_db a1)))"
    using u by (force simp: db set_user_def table_simps)
  moreover have "verify_password C pw (usr_password_hash ?u1) = Inr True"
    using crypto_service.verify_hash [OF assms(2) h] by simp
  ultimately show ?thesis using u by force
qed

definition demo_reset :: "kv app" where
  "demo_reset = snd (forgot_password default_settings kv_redis (env_at 0) ''tok'' ''a@x.org'' demo_app)"

lemma demo_reset_done:
  "fst (reset_password plain_crypto kv_redis (env_at (secs 60)) ''s'' ''tok'' ''secret2'' demo_reset) = Inr ()"
proof -
  have "fst (consume_password_reset_token kv_redis (app_rd demo_reset) (secs 60) ''tok'') = Inr (Some 1)"
    using kv.pwreset.consume_stored [of 3600 0 "secs 60" "[]" "''tok''" 1]
    by (simp add: demo_reset_def forgot_password_def demo_app_def demo_user_def table_simps
        default_settings_def)
  then obtain s' where "consume_password_reset_token kv_redis (app_rd demo_reset) (secs 60) ''tok'' = (Inr (Some 1), s')"
    by (metis prod.collapse)
  moreover have "users (app_db demo_reset) = \<lparr>rows = [demo_user], seq = 2\<rparr>"
    by (simp add: demo_reset_def forgot_password_def demo_app_def demo_user_def table_simps)
  ultimately show ?thesis
    by (simp add: reset_password_def fetch_by_id_def int32_def table_simps demo_user_def
        hash_password_def plain_crypto_def)
qed

theorem reset_password_witness:
  "\<exists>a1. reset_password plain_crypto kv_redis (env_at (secs 60)) ''s'' ''tok'' ''secret2'' demo_reset = (Inr (), a1)
    \<and> fst (reset_password plain_crypto kv_redis (env_at (secs 90)) ''s'' ''tok'' ''secret3'' a1)
        = Inl (HTTPException 400 ResetTokenInvalid)"
proof -
  obtain a1 where a1: "reset_password plain_crypto kv_redis (env_at (secs 60)) ''s'' ''tok'' ''secret2'' demo_reset = (Inr (), a1)"
    using demo_reset_done by (metis prod.collapse)
  have "keyed usr_id (users (app_db demo_reset))"
    by (simp add: demo_reset_def forgot_password_def demo_app_def demo_user_def table_simps keyed_def)
  with reset_password_effect [OF kv_service plain_service default_settings_ok a1,
      of "env_at (secs 90)" "''secret3''" "''s''"] a1
  show ?thesis by auto
qed

text \<open>C14: an account whose second factor is on yields tokens only to a request that carries a
  code its secret accepts at that moment.\<close>

theorem second_factor_guards_login:
  assumes "login S C R e jti name pw code a = (Inr tok, a1)"
    and "select (\<lambda>u. usr_email u = name) (users (app_db a)) = [u]"
    and "usr_totp_enabled u" and "usr_totp_secret u = Some secret" and "secret \<noteq> []"
  shows "verify_password C pw (usr_password_hash u) = Inr True
    \<and> (\<exists>c. code = Some c \<and> c \<noteq> [] \<and> totp_verify C secret (clock e) c)"
  using assms
  by (auto simp: login_def Let_def second_factor_def split: sum.splits option.splits prod.splits
      if_splits detail.splits)

definition demo_totp_user :: user where
  "demo_totp_user = demo_user\<lparr>usr_totp_secret := Some ''ABC'', usr_totp_enabled := True\<rparr>"

definition demo_totp_app :: "kv app" where
  "demo_totp_app = map_db (\<lambda>d. d\<lparr>users := \<lparr>rows = [demo_totp_user], seq = 2\<rparr>\<rparr>) demo_app"

theorem second_factor_witness:
  "verify_password plain_crypto ''secret'' (usr_password_hash demo_totp_user) = Inr True
    \<and> (\<exists>c. Some ''ABC'' = Some c \<and> c \<noteq> [] \<and> totp_verify plain_crypto ''ABC'' (clock (env_at 0)) c)"
proof -
  have "fst (login default_settings plain_crypto kv_redis (env_at 0) ''j'' ''a@x.org'' ''secret''
      (Some ''ABC'') demo_totp_app) = Inr (demo_token ''j'' 0)"
    by (simp add: login_def demo_totp_app_def demo_totp_user_def demo_user_def table_simps
        second_factor_def plain_crypto_def create_refresh_token_def demo_token_def verify_password_def)
  then obtain a1 where "login default_settings plain_crypto kv_redis (env_at 0) ''j'' ''a@x.org''
      ''secret'' (Some ''ABC'') demo_totp_app = (Inr (demo_token ''j'' 0), a1)"
    by (metis prod.collapse)
  then show ?thesis
    by (rule second_factor_guards_login)
       (simp_all add: demo_totp_app_def demo_totp_user_def demo_user_def table_simps)
qed

text \<open>Starting the setup of a second factor needs only an access token and turns an
  existing second factor off: afterwards the password alone logs in, although turning it off
  through the endpoint made for that asks for the password again.\<close>

theorem setup_totp_disables_second_factor:
  assumes "db_ok (app_db a)" and "u \<in> set (rows (users (app_db a)))"
    and "verify_password C pw (usr_password_hash u) = Inr True" and "length secret \<le> 64"
    and "fits 64 (usr_telegram_chat_id u)"
  shows "\<exists>tok a1. login S C R e jti (usr_email u) pw None (snd (setup_totp secret u a)) = (Inr tok, a1)"
proof -
  let ?f = "\<lambda>u. u\<lparr>usr_totp_secret := Some secret, usr_totp_enabled := False\<rparr>"
  have d: "distinct (map usr_email (rows (users (app_db a))))"
    and k: "distinct (map usr_id (rows (users (app_db a))))"
    using db_ok_unique [OF assms(1)] db_ok_keyed [OF assms(1)] by (simp_all add: keyed_def)
  have "filter (\<lambda>v. usr_email v = usr_email u) (rows (users (app_db a))) = [u]"
    using filter_key_unique [OF d assms(2), of "\<lambda>_. True"] by simp
  then have "select (\<lambda>v. usr_email v = usr_email u) (users (app_db (snd (setup_totp secret u a)))) = [?f u]"
    using assms(2-5)
    by (simp add: setup_totp_def commit_user_def user_fits_def fits_def set_user_def table_simps
        filter_map o_def if_distrib cong: if_cong)
  with assms(3) show ?thesis
    by (simp add: login_def Let_def second_factor_def split: prod.splits)
qed

theorem setup_totp_witness:
  "\<exists>tok a1. login default_settings plain_crypto kv_redis (env_at 0) ''j'' ''a@x.org'' ''secret'' None
      (snd (setup_totp ''NEW'' demo_totp_user demo_totp_app)) = (Inr tok, a1)"
proof -
  have "db_ok (app_db demo_totp_app)"
    using demo_app_ok
    by (simp add: demo_totp_app_def demo_totp_user_def demo_app_def ok_defs id_defs keyed_def demo_user_def)
  from setup_totp_disables_second_factor [OF this, of demo_totp_user plain_crypto "''secret''" "''NEW''"]
  show ?thesis
    by (simp add: demo_totp_app_def demo_totp_user_def demo_user_def fits_def)
qed

text \<open>The validator of the chat id strips any number of leading dashes before it looks at
  the digits: besides the integers it lets through values such as two dashes and a digit, and
  superscript digits, which are no chat ids.\<close>

theorem chat_id_accepted:
  "validate_chat_id (Some v) = Inr (Some w) \<longleftrightarrow>
     w = strip v \<and> (\<exists>n ds. w = replicate n (CHR ''-'') @ ds \<and> isdigit ds)"
proof -
  let ?d = "dropWhile (\<lambda>c. c = CHR ''-'') (strip v)"
  have dash: "\<not> is_digit (CHR ''-'')"
    by (simp add: is_digit_def minus_not_decimal code_point_def)
  have split: "strip v = replicate (length (takeWhile (\<lambda>c. c = CHR ''-'') (strip v))) (CHR ''-'') @ ?d"
    using takeWhile_dropWhile_id [of "\<lambda>c. c = CHR ''-''" "strip v"]
      takeWhile_replicate_eq [of "CHR ''-''" "strip v"] by argo
  have "?d = ds" if "strip v = replicate n (CHR ''-'') @ ds" and "isdigit ds" for n ds
  proof -
    have "dropWhile (\<lambda>c. c = CHR ''-'') ds = ds"
      using that(2) dash by (cases ds) (auto simp: isdigit_def)
    with that(1) show ?thesis by (simp add: dropWhile_append)
  qed
  then have "isdigit ?d \<longleftrightarrow> (\<exists>n ds. strip v = replicate n (CHR ''-'') @ ds \<and> isdigit ds)"
    using split by metis
  moreover have "isdigit ?d \<Longrightarrow> strip v \<noteq> [] \<and> strip v \<noteq> ''-''"
    by (auto simp: isdigit_def)
  ultimately show ?thesis by (auto simp: validate_chat_id_def Let_def)
qed

end
