(* ===== verification/PW_Threshold.thy ===== *)
theory PW_Threshold
  imports PW_Fixtures
begin

text \<open>
  Evaluation of the alert rules against incoming metrics (\<open>app/services/threshold.py\<close>): which
  rules fire, the events, the cooldown mark, the notification tasks and the Pub/Sub message of
  each event. The two entry points of the source share the body of their loops; the shared part
  is \<open>evaluate_rules\<close>, over the selection, the firing test and the event of each of them. The
  locale \<open>rule_evaluator\<close> is that interface with its law (a rule that fires is not in its
  cooldown), and the spacing of events in time is proved in it once and interpreted for both.
\<close>

section \<open>Operators\<close>

fun compare :: "pyfloat \<Rightarrow> threshold_operator \<Rightarrow> pyfloat \<Rightarrow> bool" where
  "compare a Gt t = py_lt t a"
| "compare a Gte t = py_le t a"
| "compare a Lt t = py_lt a t"
| "compare a Lte t = py_le a t"
| "compare a Eq t = py_eq a t"
| "compare a Neq t = (\<not> py_eq a t)"

lemma compare_NaN: "compare NaN op t \<longleftrightarrow> op = Neq"
  by (cases op) auto

lemma compare_dual:
  assumes "a \<noteq> NaN" and "t \<noteq> NaN"
  shows "compare a Gt t \<longleftrightarrow> \<not> compare a Lte t" and "compare a Lt t \<longleftrightarrow> \<not> compare a Gte t"
    and "compare a Eq t \<longleftrightarrow> \<not> compare a Neq t"
  using assms py_not_lt py_lt_asym by auto

section \<open>Which rules fire\<close>

text \<open>\<open>metric_data\<close> is a dictionary from field names to values; \<open>get\<close> of a missing field and a
  field that is None both give None.\<close>

type_synonym metric_data = "(string \<times> pyfloat option) list"

definition data_get :: "metric_data \<Rightarrow> string \<Rightarrow> pyfloat option" where
  "data_get data field = (case map_of data field of None \<Rightarrow> None | Some v \<Rightarrow> v)"

definition in_cooldown :: "time \<Rightarrow> alert_rule \<Rightarrow> bool" where
  "in_cooldown now r = (case rule_last_triggered_at r of
     None \<Rightarrow> False
   | Some prev \<Rightarrow> now - prev < secs (rule_cooldown_seconds r))"

definition system_firing :: "time \<Rightarrow> metric_data \<Rightarrow> alert_rule \<Rightarrow> pyfloat option" where
  "system_firing now data r = (case data_get data (rule_metric_field r) of
     None \<Rightarrow> None
   | Some value \<Rightarrow>
       if \<not> compare value (rule_operator r) (rule_threshold_value r) then None
       else if in_cooldown now r then None
       else Some value)"

definition docker_firing :: "time \<Rightarrow> string \<times> metric_data \<Rightarrow> alert_rule \<Rightarrow> pyfloat option" where
  "docker_firing now item r = (case item of (container_name, data) \<Rightarrow>
     if rule_container_name r \<noteq> None \<and> rule_container_name r \<noteq> Some container_name then None
     else (case data_get data (rule_metric_field r) of
       None \<Rightarrow> None
     | Some value \<Rightarrow>
         if \<not> compare value (rule_operator r) (rule_threshold_value r) then None
         else if in_cooldown now r then None
         else Some value))"

section \<open>Events, tasks and messages\<close>

definition system_event :: "env \<Rightarrow> int \<Rightarrow> metric_data \<Rightarrow> alert_rule \<Rightarrow> pyfloat \<Rightarrow> int \<Rightarrow> alert_event" where
  "system_event e server_id data r value i = \<lparr>
     ev_id = i, ev_rule_id = rule_id r, ev_server_id = server_id, ev_metric_value = value,
     ev_threshold_value = rule_threshold_value r,
     ev_message = rule_name r @ '': '' @ rule_metric_field r @ ''='' @ float_repr e value @ '' ''
       @ operator_value (rule_operator r) @ '' '' @ float_repr e (rule_threshold_value r),
     ev_container_name = None, ev_created_at = db_clock e, ev_resolved_at = None\<rparr>"

definition docker_event :: "env \<Rightarrow> int \<Rightarrow> string \<times> metric_data \<Rightarrow> alert_rule \<Rightarrow> pyfloat \<Rightarrow> int \<Rightarrow> alert_event" where
  "docker_event e server_id item r value i = \<lparr>
     ev_id = i, ev_rule_id = rule_id r, ev_server_id = server_id, ev_metric_value = value,
     ev_threshold_value = rule_threshold_value r,
     ev_message = rule_name r @ '': '' @ fst item @ '' '' @ rule_metric_field r @ ''=''
       @ float_repr e value @ '' '' @ operator_value (rule_operator r) @ '' ''
       @ float_repr e (rule_threshold_value r),
     ev_container_name = Some (fst item), ev_created_at = db_clock e, ev_resolved_at = None\<rparr>"

text \<open>\<open>_enqueue_notifications\<close>: the first \<open>delay\<close> that raises ends it.\<close>

definition enqueue_notifications :: "env \<Rightarrow> int \<Rightarrow> string list \<Rightarrow> task list" where
  "enqueue_notifications e event_id channels =
     (let email = (if ''email'' \<in> set channels \<and> enqueue_ok e (SendEmailAlert event_id)
          then [SendEmailAlert event_id] else [])
      in if ''telegram'' \<in> set channels
         then (if enqueue_ok e (SendTelegramAlert event_id)
               then SendTelegramAlert event_id # email else [])
         else email)"

definition alert_data_of :: "alert_rule \<Rightarrow> alert_event \<Rightarrow> alert_data" where
  "alert_data_of r ev = \<lparr>al_event_id = ev_id ev, al_rule_id = ev_rule_id ev, al_rule_name = rule_name r,
     al_container_name = ev_container_name ev, al_metric_value = ev_metric_value ev,
     al_threshold_value = ev_threshold_value ev, al_message = ev_message ev,
     al_created_at = ev_created_at ev\<rparr>"

definition alert_publication :: "env \<Rightarrow> int \<Rightarrow> alert_rule \<Rightarrow> alert_event \<Rightarrow> (string \<times> payload) list" where
  "alert_publication e server_id r ev =
     (if publish_ok e then [publish_alert server_id (alert_data_of r ev)] else [])"

section \<open>The two evaluations\<close>

text \<open>
  The loop collects the firing rules with their values; one commit then writes all events and
  all cooldown marks or, when an event does not fit its columns, nothing. Each event is then
  announced.
\<close>

definition pending_of :: "(alert_rule \<Rightarrow> pyfloat option) \<Rightarrow> alert_rule list \<Rightarrow> (alert_rule \<times> pyfloat) list" where
  "pending_of firing rs = List.map_filter (\<lambda>r. map_option (Pair r) (firing r)) rs"

definition mark_triggered :: "env \<Rightarrow> int set \<Rightarrow> alert_rule table \<Rightarrow> alert_rule table" where
  "mark_triggered e ids t = update_where (\<lambda>r. rule_id r \<in> ids)
     (\<lambda>r. r\<lparr>rule_last_triggered_at := Some (clock e), rule_updated_at := db_clock e\<rparr>) t"

definition evaluate_rules :: "(alert_rule \<Rightarrow> bool) \<Rightarrow> (alert_rule \<Rightarrow> pyfloat option)
    \<Rightarrow> (alert_rule \<Rightarrow> pyfloat \<Rightarrow> int \<Rightarrow> alert_event) \<Rightarrow> env \<Rightarrow> int \<Rightarrow> 'r app
    \<Rightarrow> (exc + alert_event list) \<times> 'r app" where
  "evaluate_rules candidate firing event_of e server_id a =
     (let d = app_db a;
          pending = pending_of firing (select candidate (alert_rules d));
          mks = map (\<lambda>(r, v). event_of r v) pending;
          events = new_rows mks (seq (alert_events d))
      in if pending = [] then (Inr [], a)
         else if \<not> list_all event_fits events then (Inl DataError, a)
         else (Inr events,
           a\<lparr>app_db := d\<lparr>alert_events := insert_all mks (alert_events d),
                          alert_rules := mark_triggered e (rule_id ` fst ` set pending) (alert_rules d)\<rparr>,
             app_tasks := app_tasks a @ concat (map2 (\<lambda>(r, v) ev.
                enqueue_notifications e (ev_id ev) (rule_notification_channels r)) pending events),
             app_pub := app_pub a @ concat (map2 (\<lambda>(r, v) ev.
                alert_publication e server_id r ev) pending events)\<rparr>))"

definition system_candidate :: "int \<Rightarrow> alert_rule \<Rightarrow> bool" where
  "system_candidate server_id r \<longleftrightarrow>
     rule_server_id r = server_id \<and> rule_metric_type r = System \<and> rule_is_active r"

definition docker_candidate :: "int \<Rightarrow> alert_rule \<Rightarrow> bool" where
  "docker_candidate server_id r \<longleftrightarrow>
     rule_server_id r = server_id \<and> rule_metric_type r = Docker \<and> rule_is_active r"

definition evaluate_system_metrics :: "env \<Rightarrow> int \<Rightarrow> metric_data \<Rightarrow> 'r app
    \<Rightarrow> (exc + alert_event list) \<times> 'r app" where
  "evaluate_system_metrics e server_id data =
     evaluate_rules (system_candidate server_id) (system_firing (clock e) data)
       (system_event e server_id data) e server_id"

definition evaluate_docker_metrics :: "env \<Rightarrow> int \<Rightarrow> string \<times> metric_data \<Rightarrow> 'r app
    \<Rightarrow> (exc + alert_event list) \<times> 'r app" where
  "evaluate_docker_metrics e server_id item =
     evaluate_rules (docker_candidate server_id) (docker_firing (clock e) item)
       (docker_event e server_id item) e server_id"

section \<open>The interface of an evaluation\<close>

locale rule_evaluator =
  fixes candidate :: "int \<Rightarrow> alert_rule \<Rightarrow> bool"
    and firing :: "time \<Rightarrow> 'data \<Rightarrow> alert_rule \<Rightarrow> pyfloat option"
    and event_of :: "env \<Rightarrow> int \<Rightarrow> 'data \<Rightarrow> alert_rule \<Rightarrow> pyfloat \<Rightarrow> int \<Rightarrow> alert_event"
  assumes candidate_server: "candidate i r \<Longrightarrow> rule_server_id r = i"
    and firing_compare: "firing now x r = Some v \<Longrightarrow> compare v (rule_operator r) (rule_threshold_value r)"
    and firing_cooldown: "firing now x r = Some v \<Longrightarrow> \<not> in_cooldown now r"
    and event_id: "ev_id (event_of e i x r v k) = k"
    and event_rule: "ev_rule_id (event_of e i x r v k) = rule_id r"
    and event_server: "ev_server_id (event_of e i x r v k) = i"
    and event_value: "ev_metric_value (event_of e i x r v k) = v"
    and event_open: "ev_resolved_at (event_of e i x r v k) = None"
begin

definition evaluate :: "env \<Rightarrow> int \<Rightarrow> 'data \<Rightarrow> 'r app \<Rightarrow> (exc + alert_event list) \<times> 'r app" where
  "evaluate e i x = evaluate_rules (candidate i) (firing (clock e) x) (event_of e i x) e i"

lemmas event_fields = event_id event_rule event_server event_value event_open

end

text \<open>The pairs the loop collects.\<close>

lemma pending_iff: "(r, v) \<in> set (pending_of f rs) \<longleftrightarrow> r \<in> set rs \<and> f r = Some v"
  by (induction rs) (auto simp: pending_of_def map_filter_simps split: option.splits)

lemma pending_rules: "map fst (pending_of f rs) = filter (\<lambda>r. f r \<noteq> None) rs"
  by (induction rs) (auto simp: pending_of_def map_filter_def)

lemma mark_triggered_keyed: "keyed rule_id t \<Longrightarrow> keyed rule_id (mark_triggered e ids t)"
  by (auto simp: mark_triggered_def)

lemma mark_triggered_image:
  "(\<And>r x y. g (r\<lparr>rule_last_triggered_at := x, rule_updated_at := y\<rparr>) = g r) \<Longrightarrow>
   g ` set (rows (mark_triggered e ids t)) = g ` set (rows t)"
  unfolding mark_triggered_def by (rule image_update_where) simp

lemma mark_triggered_none [simp]: "mark_triggered e {} t = t"
  by (simp add: mark_triggered_def table_simps)

text \<open>The two outcomes of an evaluation.\<close>

lemma evaluate_rules_Inr:
  assumes "evaluate_rules c f ev e i a = (Inr evs, a')"
  defines "ps \<equiv> pending_of f (select c (alert_rules (app_db a)))"
  shows "evs = new_rows (map (\<lambda>(r, v). ev r v) ps) (seq (alert_events (app_db a)))"
    and "app_db a' = (app_db a)\<lparr>
      alert_events := insert_all (map (\<lambda>(r, v). ev r v) ps) (alert_events (app_db a)),
      alert_rules := mark_triggered e (rule_id ` fst ` set ps) (alert_rules (app_db a))\<rparr>"
    and "list_all event_fits evs" and "app_rd a' = app_rd a"
  using assms by (auto simp: evaluate_rules_def Let_def split: if_splits)

lemma evaluate_rules_Inl:
  "evaluate_rules c f ev e i a = (Inl x, a') \<Longrightarrow> x = DataError \<and> a' = a"
  by (auto simp: evaluate_rules_def Let_def split: if_splits)

lemma evaluate_rules_rows:
  assumes "evaluate_rules c f ev e i a = (Inr evs, a')" and k: "keyed rule_id (alert_rules (app_db a))"
  shows "rows (alert_rules (app_db a')) = map (\<lambda>r. if c r \<and> f r \<noteq> None
     then r\<lparr>rule_last_triggered_at := Some (clock e), rule_updated_at := db_clock e\<rparr> else r)
     (rows (alert_rules (app_db a)))"
proof -
  have "rule_id r \<in> rule_id ` fst ` set (pending_of f (select c (alert_rules (app_db a)))) \<longleftrightarrow> c r \<and> f r \<noteq> None"
    if r: "r \<in> set (rows (alert_rules (app_db a)))" for r
  proof
    assume "rule_id r \<in> rule_id ` fst ` set (pending_of f (select c (alert_rules (app_db a))))"
    then obtain q v where "(q, v) \<in> set (pending_of f (select c (alert_rules (app_db a))))"
      and id: "rule_id r = rule_id q" by auto
    then have q: "q \<in> set (rows (alert_rules (app_db a)))" "c q" "f q = Some v"
      by (auto simp: pending_iff table_simps)
    then show "c r \<and> f r \<noteq> None" using keyed_inj [OF k r q(1) id] by simp
  next
    assume "c r \<and> f r \<noteq> None"
    then obtain v where "(r, v) \<in> set (pending_of f (select c (alert_rules (app_db a))))"
      using r by (auto simp: pending_iff table_simps)
    then show "rule_id r \<in> rule_id ` fst ` set (pending_of f (select c (alert_rules (app_db a))))"
      by force
  qed
  then show ?thesis
    unfolding evaluate_rules_Inr(2) [OF assms(1)]
    by (simp add: mark_triggered_def update_where_def)
qed

context rule_evaluator begin

text \<open>The rules of the new events, in order: the candidates that fire, each once.\<close>

lemma new_event_rules:
  assumes "evaluate e i x a = (Inr evs, a')"
  shows "map ev_rule_id evs = map rule_id (filter (\<lambda>r. candidate i r \<and> firing (clock e) x r \<noteq> None)
    (rows (alert_rules (app_db a))))"
proof -
  let ?ps = "pending_of (firing (clock e) x) (select (candidate i) (alert_rules (app_db a)))"
  note evs = evaluate_rules_Inr(1) [OF assms [unfolded evaluate_def]]
  have "map ev_rule_id (new_rows (map (\<lambda>(r, v). event_of e i x r v) ps) k) = map rule_id (map fst ps)" for ps k
    by (induction ps arbitrary: k) (auto simp: event_fields)
  then show ?thesis
    by (simp only: evs pending_rules table_simps filter_filter)
qed

lemma event_iff:
  assumes "evaluate e i x a = (Inr evs, a')" and "keyed rule_id (alert_rules (app_db a))"
    and "r \<in> set (rows (alert_rules (app_db a)))"
  shows "(\<exists>ev \<in> set evs. ev_rule_id ev = rule_id r) \<longleftrightarrow> candidate i r \<and> firing (clock e) x r \<noteq> None"
proof -
  have "(\<exists>ev \<in> set evs. ev_rule_id ev = rule_id r) \<longleftrightarrow> rule_id r \<in> set (map ev_rule_id evs)"
    by force
  also have "\<dots> \<longleftrightarrow> candidate i r \<and> firing (clock e) x r \<noteq> None"
    using assms(2,3) unfolding new_event_rules [OF assms(1)] by (auto dest: keyed_inj)
  finally show ?thesis .
qed

lemma distinct_event_rules:
  assumes "evaluate e i x a = (Inr evs, a')" and "keyed rule_id (alert_rules (app_db a))"
  shows "distinct (map ev_rule_id evs)"
  using assms(2) by (simp add: new_event_rules [OF assms(1)] distinct_map_filter keyed_def)

lemma rule_after:
  assumes "evaluate e i x a = (Inr evs, a')" and "keyed rule_id (alert_rules (app_db a))"
    and "r \<in> set (rows (alert_rules (app_db a)))"
  shows "(if \<exists>ev \<in> set evs. ev_rule_id ev = rule_id r
      then r\<lparr>rule_last_triggered_at := Some (clock e), rule_updated_at := db_clock e\<rparr> else r)
    \<in> set (rows (alert_rules (app_db a')))"
  unfolding event_iff [OF assms] evaluate_rules_rows [OF assms(1) [unfolded evaluate_def] assms(2)]
  using assms(3) by auto

lemma event_outside_cooldown:
  assumes "evaluate e i x a = (Inr evs, a')" and "keyed rule_id (alert_rules (app_db a))"
    and "r \<in> set (rows (alert_rules (app_db a)))"
    and "ev \<in> set evs" and "ev_rule_id ev = rule_id r" and "rule_last_triggered_at r = Some m"
  shows "secs (rule_cooldown_seconds r) \<le> clock e - m"
proof -
  from assms(4,5) obtain v where "firing (clock e) x r = Some v"
    using event_iff [OF assms(1-3)] by blast
  then have "\<not> in_cooldown (clock e) r" by (rule firing_cooldown)
  with assms(6) show ?thesis by (simp add: in_cooldown_def)
qed

lemma evaluate_keyed:
  assumes "keyed rule_id (alert_rules (app_db a))"
  shows "keyed rule_id (alert_rules (app_db (snd (evaluate e i x a))))"
proof (cases "evaluate e i x a")
  case (Pair res a')
  then show ?thesis
    using assms evaluate_rules_Inr(2) [of "candidate i"] evaluate_rules_Inl [of "candidate i"]
    by (cases res) (fastforce simp: evaluate_def mark_triggered_keyed)+
qed

lemma evaluate_ok:
  assumes "db_ok (app_db a)"
  shows "db_ok (app_db (snd (evaluate e i x a)))"
proof (cases "evaluate e i x a")
  case (Pair res a')
  show ?thesis
  proof (cases res)
    case (Inl y)
    with Pair assms show ?thesis using evaluate_rules_Inl by (fastforce simp: evaluate_def)
  next
    case (Inr evs)
    let ?ps = "pending_of (firing (clock e) x) (select (candidate i) (alert_rules (app_db a)))"
    let ?mks = "map (\<lambda>(r, v). event_of e i x r v) ?ps"
    let ?d = "(app_db a)\<lparr>alert_events := insert_all ?mks (alert_events (app_db a))\<rparr>"
    have r: "r \<in> set (rows (alert_rules (app_db a)))" "rule_server_id r = i" if "(r, v) \<in> set ?ps" for r v
      using that candidate_server by (auto simp: pending_iff table_simps)
    have "ev_rule_id ` set (new_rows ?mks k) \<subseteq> rule_ids (app_db a)" and
      "ev_server_id ` set (new_rows ?mks k) \<subseteq> server_ids (app_db a)" for k
      using r db_ok_fk(6) [OF assms]
      by (fastforce simp: rule_ids_def event_fields dest!: new_rows_from)+
    then have "ev_rule_id ` set (rows (insert_all ?mks (alert_events (app_db a)))) \<subseteq> rule_ids (app_db a)"
      and "ev_server_id ` set (rows (insert_all ?mks (alert_events (app_db a)))) \<subseteq> server_ids (app_db a)"
      and "keyed ev_id (insert_all ?mks (alert_events (app_db a)))"
      using db_ok_fk(8,9) [OF assms] db_ok_keyed(8) [OF assms]
      by (auto simp: image_Un event_fields intro!: keyed_insert_all simp del: list.set_map)
    then have "db_ok ?d" by (intro db_ok_alert_events assms)
    then have "db_ok (?d\<lparr>alert_rules := mark_triggered e (rule_id ` fst ` set ?ps) (alert_rules ?d)\<rparr>)"
      using db_ok_keyed(7) [OF assms] db_ok_fk(6,7) [OF assms]
      by (intro db_ok_alert_rules)
        (simp_all add: mark_triggered_keyed mark_triggered_image id_defs)
    with Pair evaluate_rules_Inr(2) [OF Pair [unfolded Inr evaluate_def]] show ?thesis by simp
  qed
qed

end

interpretation system: rule_evaluator system_candidate system_firing system_event
  by unfold_locales
    (auto simp: system_candidate_def system_firing_def system_event_def split: option.splits if_splits)

interpretation docker: rule_evaluator docker_candidate docker_firing docker_event
  by unfold_locales
    (auto simp: docker_candidate_def docker_firing_def docker_event_def
      split: option.splits if_splits prod.splits)

lemma evaluate_system_eq: "evaluate_system_metrics e i x = system.evaluate e i x"
  by (simp add: evaluate_system_metrics_def system.evaluate_def)

lemma evaluate_docker_eq: "evaluate_docker_metrics e i x = docker.evaluate e i x"
  by (simp add: evaluate_docker_metrics_def docker.evaluate_def)

lemma evaluate_system_ok: "db_ok (app_db a) \<Longrightarrow> db_ok (app_db (snd (evaluate_system_metrics e i x a)))"
  by (simp add: evaluate_system_eq system.evaluate_ok)

lemma evaluate_docker_ok: "db_ok (app_db a) \<Longrightarrow> db_ok (app_db (snd (evaluate_docker_metrics e i x a)))"
  by (simp add: evaluate_docker_eq docker.evaluate_ok)

section \<open>Sequences of evaluations\<close>

text \<open>
  The evaluations the ingest endpoints perform one after the other, each with the environment
  of its request; \<open>run_checks\<close> collects the events with the instant their rule was marked.
\<close>

datatype check =
    SystemCheck env int metric_data
  | DockerCheck env int "string \<times> metric_data"

fun check_env :: "check \<Rightarrow> env" where
  "check_env (SystemCheck e _ _) = e"
| "check_env (DockerCheck e _ _) = e"

fun run_check :: "check \<Rightarrow> 'r app \<Rightarrow> (exc + alert_event list) \<times> 'r app" where
  "run_check (SystemCheck e i x) a = evaluate_system_metrics e i x a"
| "run_check (DockerCheck e i x) a = evaluate_docker_metrics e i x a"

fun run_checks :: "check list \<Rightarrow> 'r app \<Rightarrow> (time \<times> alert_event) list \<times> 'r app" where
  "run_checks [] a = ([], a)"
| "run_checks (c # cs) a =
     (let (res, a1) = run_check c a; (tr, a2) = run_checks cs a1
      in (map (Pair (clock (check_env c))) (case res of Inl _ \<Rightarrow> [] | Inr evs \<Rightarrow> evs) @ tr, a2))"

declare run_checks.simps(2) [simp del]

lemma run_checks_Cons:
  "fst (run_checks (c # cs) a) =
    map (Pair (clock (check_env c))) (case fst (run_check c a) of Inl _ \<Rightarrow> [] | Inr evs \<Rightarrow> evs)
      @ fst (run_checks cs (snd (run_check c a)))"
  by (simp add: run_checks.simps(2) split_beta Let_def)

text \<open>What one evaluation of either kind does to a rule.\<close>

lemma run_check_rule:
  assumes "run_check c a = (Inr evs, a')" and "keyed rule_id (alert_rules (app_db a))"
    and "r \<in> set (rows (alert_rules (app_db a)))"
  shows "distinct (map ev_rule_id evs)"
    and "(if \<exists>ev \<in> set evs. ev_rule_id ev = rule_id r
      then r\<lparr>rule_last_triggered_at := Some (clock (check_env c)),
             rule_updated_at := db_clock (check_env c)\<rparr> else r) \<in> set (rows (alert_rules (app_db a')))"
    and "\<exists>ev \<in> set evs. ev_rule_id ev = rule_id r \<Longrightarrow> rule_last_triggered_at r = Some m \<Longrightarrow>
      secs (rule_cooldown_seconds r) \<le> clock (check_env c) - m"
proof -
  from assms(1) consider (sys) e i x where "c = SystemCheck e i x" "system.evaluate e i x a = (Inr evs, a')"
    | (dock) e i x where "c = DockerCheck e i x" "docker.evaluate e i x a = (Inr evs, a')"
    by (cases c) (simp_all add: evaluate_system_eq evaluate_docker_eq)
  note cs = this
  show "distinct (map ev_rule_id evs)"
    using cs assms(2) by cases (auto dest: system.distinct_event_rules docker.distinct_event_rules)
  show "(if \<exists>ev \<in> set evs. ev_rule_id ev = rule_id r
      then r\<lparr>rule_last_triggered_at := Some (clock (check_env c)),
             rule_updated_at := db_clock (check_env c)\<rparr> else r) \<in> set (rows (alert_rules (app_db a')))"
    using cs
  proof cases
    case sys
    show ?thesis using system.rule_after [OF sys(2) assms(2,3)] by (simp only: sys(1) check_env.simps)
  next
    case dock
    show ?thesis using docker.rule_after [OF dock(2) assms(2,3)] by (simp only: dock(1) check_env.simps)
  qed
  show "\<exists>ev \<in> set evs. ev_rule_id ev = rule_id r \<Longrightarrow> rule_last_triggered_at r = Some m \<Longrightarrow>
      secs (rule_cooldown_seconds r) \<le> clock (check_env c) - m"
    using cs
  proof cases
    case sys
    assume "\<exists>ev \<in> set evs. ev_rule_id ev = rule_id r" and m: "rule_last_triggered_at r = Some m"
    then obtain ev where "ev \<in> set evs" "ev_rule_id ev = rule_id r" by blast
    with sys show ?thesis using system.event_outside_cooldown [OF sys(2) assms(2,3) _ _ m] by simp
  next
    case dock
    assume "\<exists>ev \<in> set evs. ev_rule_id ev = rule_id r" and m: "rule_last_triggered_at r = Some m"
    then obtain ev where "ev \<in> set evs" "ev_rule_id ev = rule_id r" by blast
    with dock show ?thesis using docker.event_outside_cooldown [OF dock(2) assms(2,3) _ _ m] by simp
  qed
qed

lemma run_check_Inl: "run_check c a = (Inl x, a') \<Longrightarrow> x = DataError \<and> a' = a"
  by (cases c) (auto simp: evaluate_system_metrics_def evaluate_docker_metrics_def dest: evaluate_rules_Inl)

lemma run_check_keyed:
  "keyed rule_id (alert_rules (app_db a)) \<Longrightarrow> keyed rule_id (alert_rules (app_db (snd (run_check c a))))"
  by (cases c) (simp_all add: evaluate_system_eq evaluate_docker_eq system.evaluate_keyed docker.evaluate_keyed)

lemma run_check_ok: "db_ok (app_db a) \<Longrightarrow> db_ok (app_db (snd (run_check c a)))"
  by (cases c) (simp_all add: evaluate_system_ok evaluate_docker_ok)

lemma distinct_filter_one:
  "distinct (map g xs) \<Longrightarrow> \<exists>x \<in> set xs. g x = k \<Longrightarrow> \<exists>x. filter (\<lambda>x. g x = k) xs = [x]"
proof -
  assume d: "distinct (map g xs)" and "\<exists>x \<in> set xs. g x = k"
  then obtain x where "x \<in> set xs" "g x = k" by blast
  then show ?thesis using filter_key_unique [OF d, of x "\<lambda>_. True"] by auto
qed

abbreviation rule_trace :: "alert_rule \<Rightarrow> (time \<times> alert_event) list \<Rightarrow> (time \<times> alert_event) list" where
  "rule_trace r tr \<equiv> filter (\<lambda>(t, ev). ev_rule_id ev = rule_id r) tr"

lemma rule_trace_map:
  "rule_trace r (map (Pair t) evs) = map (Pair t) (filter (\<lambda>ev. ev_rule_id ev = rule_id r) evs)"
  by (simp add: filter_map o_def)

lemma trace_times:
  "(t, ev) \<in> set (fst (run_checks cs a)) \<Longrightarrow> \<exists>c \<in> set cs. t = clock (check_env c)"
  by (induction cs arbitrary: a) (auto simp: run_checks_Cons)

lemma trace_spacing:
  assumes "keyed rule_id (alert_rules (app_db a))" and "r \<in> set (rows (alert_rules (app_db a)))"
    and "sorted (map (\<lambda>c. clock (check_env c)) cs)"
  shows "sorted_wrt (\<lambda>(t, _) (t', _). secs (rule_cooldown_seconds r) \<le> t' - t) (rule_trace r (fst (run_checks cs a)))
    \<and> (\<forall>m. rule_last_triggered_at r = Some m \<longrightarrow>
      (\<forall>(t, _) \<in> set (rule_trace r (fst (run_checks cs a))). secs (rule_cooldown_seconds r) \<le> t - m))"
  using assms
proof (induction cs arbitrary: a r)
  case Nil
  then show ?case by simp
next
  case (Cons c cs)
  let ?now = "clock (check_env c)"
  obtain res a1 where c: "run_check c a = (res, a1)" by force
  have k1: "keyed rule_id (alert_rules (app_db a1))"
    using run_check_keyed [OF Cons.prems(1), of c] c by simp
  have s: "sorted (map (\<lambda>c. clock (check_env c)) cs)" and le: "\<forall>c' \<in> set cs. ?now \<le> clock (check_env c')"
    using Cons.prems(3) by auto
  let ?tr = "fst (run_checks cs a1)"
  have tr: "fst (run_checks (c # cs) a) = map (Pair ?now) (case res of Inl _ \<Rightarrow> [] | Inr evs \<Rightarrow> evs) @ ?tr"
    by (simp add: c run_checks_Cons)
  show ?case
  proof (cases "\<exists>evs. res = Inr evs \<and> (\<exists>ev \<in> set evs. ev_rule_id ev = rule_id r)")
    case False
    have "r \<in> set (rows (alert_rules (app_db a1)))"
    proof (cases res)
      case (Inl x)
      with c Cons.prems(2) run_check_Inl show ?thesis by metis
    next
      case (Inr evs)
      with False run_check_rule(2) [OF c [unfolded Inr] Cons.prems(1,2)] show ?thesis
        by (auto split: if_splits)
    qed
    moreover have "rule_trace r (fst (run_checks (c # cs) a)) = rule_trace r ?tr"
      using False by (cases res) (auto simp: tr rule_trace_map filter_empty_conv)
    ultimately show ?thesis using Cons.IH [OF k1 _ s] by simp
  next
    case True
    then obtain evs where Inr: "res = Inr evs" and ex: "\<exists>ev \<in> set evs. ev_rule_id ev = rule_id r" by blast
    note step = run_check_rule [OF c [unfolded Inr] Cons.prems(1,2)]
    let ?r = "r\<lparr>rule_last_triggered_at := Some ?now, rule_updated_at := db_clock (check_env c)\<rparr>"
    have "?r \<in> set (rows (alert_rules (app_db a1)))" using step(2) ex by simp
    from Cons.IH [OF k1 this s]
    have IH: "sorted_wrt (\<lambda>(t, _) (t', _). secs (rule_cooldown_seconds r) \<le> t' - t) (rule_trace r ?tr)"
      "\<forall>(t, _) \<in> set (rule_trace r ?tr). secs (rule_cooldown_seconds r) \<le> t - ?now"
      by simp_all
    obtain ev where "filter (\<lambda>ev. ev_rule_id ev = rule_id r) evs = [ev]"
      using distinct_filter_one [OF step(1) ex] by blast
    then have eq: "rule_trace r (fst (run_checks (c # cs) a)) = (?now, ev) # rule_trace r ?tr"
      by (simp add: tr Inr rule_trace_map)
    have "\<forall>(t, _) \<in> set (rule_trace r ?tr). ?now \<le> t"
      using trace_times [of _ _ cs a1] le by fastforce
    then show ?thesis
      using IH step(3) [OF ex] unfolding eq by fastforce
  qed
qed

section \<open>Properties\<close>

text \<open>C7: a metric makes exactly those rules fire that are active system rules of its server,
  whose field is in the data, whose comparison with the threshold holds and whose cooldown is
  over; each of them gets one event, which carries the measured value and is open, and is
  marked as triggered now, while every other rule keeps its row.\<close>

theorem system_rules_fire_exactly:
  assumes "db_ok (app_db a)" and "evaluate_system_metrics e i data a = (Inr evs, a')"
    and "r \<in> set (rows (alert_rules (app_db a)))"
  shows "((\<exists>ev \<in> set evs. ev_rule_id ev = rule_id r) \<longleftrightarrow>
      rule_server_id r = i \<and> rule_metric_type r = System \<and> rule_is_active r
      \<and> (\<exists>v. data_get data (rule_metric_field r) = Some v
          \<and> compare v (rule_operator r) (rule_threshold_value r))
      \<and> \<not> in_cooldown (clock e) r)
    \<and> distinct (map ev_rule_id evs)
    \<and> set (rows (alert_events (app_db a'))) = set (rows (alert_events (app_db a))) \<union> set evs
    \<and> (if \<exists>ev \<in> set evs. ev_rule_id ev = rule_id r
       then r\<lparr>rule_last_triggered_at := Some (clock e), rule_updated_at := db_clock e\<rparr> else r)
      \<in> set (rows (alert_rules (app_db a')))"
proof -
  note k = db_ok_keyed(7) [OF assms(1)]
  note ev = assms(2) [unfolded evaluate_system_eq]
  have "system_firing (clock e) data r \<noteq> None \<longleftrightarrow>
      (\<exists>v. data_get data (rule_metric_field r) = Some v
          \<and> compare v (rule_operator r) (rule_threshold_value r)) \<and> \<not> in_cooldown (clock e) r"
    by (auto simp: system_firing_def split: option.splits)
  then have "(\<exists>ev \<in> set evs. ev_rule_id ev = rule_id r) \<longleftrightarrow>
      rule_server_id r = i \<and> rule_metric_type r = System \<and> rule_is_active r
      \<and> (\<exists>v. data_get data (rule_metric_field r) = Some v
          \<and> compare v (rule_operator r) (rule_threshold_value r)) \<and> \<not> in_cooldown (clock e) r"
    unfolding system.event_iff [OF ev k assms(3)] system_candidate_def by blast
  moreover have "set (rows (alert_events (app_db a'))) = set (rows (alert_events (app_db a))) \<union> set evs"
    using evaluate_rules_Inr(1,2) [OF assms(2) [unfolded evaluate_system_metrics_def]] by simp
  ultimately show ?thesis
    using system.distinct_event_rules [OF ev k] system.rule_after [OF ev k assms(3)] by blast
qed

definition hot_data :: metric_data where
  "hot_data = [(''cpu_percent'', Some (Fin 95)), (''memory_percent'', Some (Fin 10)),
     (''disk_percent'', Some (Fin 10))]"

definition demo_event :: alert_event where
  "demo_event = system_event (env_at 0) 1 hot_data demo_rule (Fin 95) 1"

lemma system_fires_demo:
  "\<exists>a'. evaluate_system_metrics (env_at 0) 1 hot_data demo_state = (Inr [demo_event], a')"
  by (simp add: evaluate_system_metrics_def evaluate_rules_def pending_of_def map_filter_simps
      table_simps system_candidate_def system_firing_def hot_data_def data_get_def in_cooldown_def
      demo_defs demo_event_def event_fits_def fits_def system_event_def empty_table_def)

theorem system_rules_fire_witness:
  "(\<exists>ev \<in> set [demo_event]. ev_rule_id ev = rule_id demo_rule) \<longleftrightarrow>
      rule_server_id demo_rule = 1 \<and> rule_metric_type demo_rule = System \<and> rule_is_active demo_rule
      \<and> (\<exists>v. data_get hot_data (rule_metric_field demo_rule) = Some v
          \<and> compare v (rule_operator demo_rule) (rule_threshold_value demo_rule))
      \<and> \<not> in_cooldown (clock (env_at 0)) demo_rule"
proof -
  obtain a' where "evaluate_system_metrics (env_at 0) 1 hot_data demo_state = (Inr [demo_event], a')"
    using system_fires_demo by blast
  from system_rules_fire_exactly [OF _ this, of demo_rule] show ?thesis by auto
qed

text \<open>C8: the docker evaluation of a container fires exactly the active docker rules of the
  server that name no container or that container, under the same conditions on value and
  cooldown; every event names the container.\<close>

theorem docker_rules_fire_exactly:
  assumes "db_ok (app_db a)" and "evaluate_docker_metrics e i (box, data) a = (Inr evs, a')"
    and "r \<in> set (rows (alert_rules (app_db a)))"
  shows "((\<exists>ev \<in> set evs. ev_rule_id ev = rule_id r) \<longleftrightarrow>
      rule_server_id r = i \<and> rule_metric_type r = Docker \<and> rule_is_active r
      \<and> rule_container_name r \<in> {None, Some box}
      \<and> (\<exists>v. data_get data (rule_metric_field r) = Some v
          \<and> compare v (rule_operator r) (rule_threshold_value r))
      \<and> \<not> in_cooldown (clock e) r)
    \<and> (\<forall>ev \<in> set evs. ev_container_name ev = Some box \<and> ev_server_id ev = i)"
proof -
  note k = db_ok_keyed(7) [OF assms(1)]
  note ev = assms(2) [unfolded evaluate_docker_eq]
  have "docker_firing (clock e) (box, data) r \<noteq> None \<longleftrightarrow> rule_container_name r \<in> {None, Some box}
      \<and> (\<exists>v. data_get data (rule_metric_field r) = Some v
          \<and> compare v (rule_operator r) (rule_threshold_value r)) \<and> \<not> in_cooldown (clock e) r"
    by (auto simp: docker_firing_def split: option.splits)
  then have "(\<exists>ev \<in> set evs. ev_rule_id ev = rule_id r) \<longleftrightarrow>
      rule_server_id r = i \<and> rule_metric_type r = Docker \<and> rule_is_active r
      \<and> rule_container_name r \<in> {None, Some box}
      \<and> (\<exists>v. data_get data (rule_metric_field r) = Some v
          \<and> compare v (rule_operator r) (rule_threshold_value r)) \<and> \<not> in_cooldown (clock e) r"
    unfolding docker.event_iff [OF ev k assms(3)] docker_candidate_def by blast
  moreover have "\<forall>ev \<in> set evs. ev_container_name ev = Some box \<and> ev_server_id ev = i"
    unfolding evaluate_rules_Inr(1) [OF assms(2) [unfolded evaluate_docker_metrics_def]]
    by (auto simp: docker_event_def dest!: new_rows_from)
  ultimately show ?thesis by blast
qed

definition hot_box :: "string \<times> metric_data" where
  "hot_box = (''nginx'', [(''cpu_percent'', Some (Fin 95)), (''memory_limit_mb'', None)])"

definition demo_docker_event :: alert_event where
  "demo_docker_event = docker_event (env_at 0) 1 hot_box demo_docker_rule (Fin 95) 1"

lemma docker_fires_demo:
  "\<exists>a'. evaluate_docker_metrics (env_at 0) 1 hot_box demo_state = (Inr [demo_docker_event], a')"
  by (simp add: evaluate_docker_metrics_def evaluate_rules_def pending_of_def map_filter_simps
      table_simps docker_candidate_def docker_firing_def hot_box_def data_get_def in_cooldown_def
      demo_defs demo_docker_event_def event_fits_def fits_def docker_event_def empty_table_def)

theorem docker_rules_fire_witness:
  "ev_container_name demo_docker_event = Some ''nginx'' \<and> ev_server_id demo_docker_event = 1
   \<and> \<not> in_cooldown (clock (env_at 0)) demo_docker_rule"
proof -
  obtain a' where "evaluate_docker_metrics (env_at 0) 1 hot_box demo_state = (Inr [demo_docker_event], a')"
    using docker_fires_demo by blast
  from docker_rules_fire_exactly [OF _ this [unfolded hot_box_def], of demo_docker_rule]
  show ?thesis by (simp add: demo_docker_event_def docker_event_def)
qed

text \<open>C6: over any sequence of evaluations of system and docker metrics, of whatever servers,
  in the order of their clocks, two events of one rule are at least its cooldown apart.\<close>

theorem events_respect_cooldown:
  assumes "db_ok (app_db a)" and "r \<in> set (rows (alert_rules (app_db a)))"
    and "sorted (map (\<lambda>c. clock (check_env c)) cs)"
  shows "sorted_wrt (\<lambda>(t, _) (t', _). secs (rule_cooldown_seconds r) \<le> t' - t)
    (filter (\<lambda>(t, ev). ev_rule_id ev = rule_id r) (fst (run_checks cs a)))"
  using trace_spacing [OF db_ok_keyed(7) [OF assms(1)] assms(2,3)] by blast

theorem events_respect_cooldown_witness:
  "sorted_wrt (\<lambda>(t, _) (t', _). secs (rule_cooldown_seconds demo_rule) \<le> t' - t)
    (filter (\<lambda>(t, ev). ev_rule_id ev = rule_id demo_rule)
      (fst (run_checks [SystemCheck (env_at 0) 1 hot_data, SystemCheck (env_at (secs 60)) 1 hot_data,
         SystemCheck (env_at (secs 400)) 1 hot_data] demo_state)))"
  by (rule events_respect_cooldown) (simp_all add: env_at_def)

text \<open>An evaluation is all or nothing: when one of its events does not fit its columns (a
  message of more than 500 characters, a container name of more than 255) the commit fails,
  and then no event is stored, no rule is marked and nothing is queued or published.\<close>

theorem evaluation_all_or_nothing:
  "case run_check c a of
     (Inl x, a') \<Rightarrow> x = DataError \<and> a' = a
   | (Inr evs, a') \<Rightarrow> list_all event_fits evs
       \<and> rows (alert_events (app_db a')) = rows (alert_events (app_db a)) @ evs"
proof (cases "run_check c a")
  case (Pair res a')
  then show ?thesis
    by (cases res; cases c)
      (auto simp: evaluate_system_metrics_def evaluate_docker_metrics_def
        dest: evaluate_rules_Inl evaluate_rules_Inr(1-3) simp: evaluate_rules_Inr)
qed

end
