(* ===== verification/PW_Resolver.thy ===== *)
theory PW_Resolver
  imports PW_Threshold
begin

text \<open>
  Automatic resolution of alert events (\<open>app/services/alert_resolver.py\<close>,
  \<open>app/tasks/resolve_tasks.py\<close>): an open event is closed when the latest metric of its server
  (or container) no longer breaches its rule. The loop keeps a cache of the latest metrics;
  \<open>resolve_loop\<close> is the loop over any kind of metric, the locale \<open>resolver\<close> its interface, in
  which the cached loop is shown equal to the specification without a cache.
\<close>

section \<open>Attributes of a metric row\<close>

text \<open>
  The value is read with \<open>getattr\<close> by the field name of the rule, so it need not be a float:
  the row has integer, text and datetime columns, and attributes that are no columns at all
  (those whose names satisfy \<open>other\<close>, such as \<open>metadata\<close>).
\<close>

datatype attr = AttrFloat pyfloat | AttrInt int | AttrStr string | AttrTime time | AttrObject

definition getattr_metric :: "(string \<Rightarrow> bool) \<Rightarrow> metric \<Rightarrow> string \<Rightarrow> attr option" where
  "getattr_metric other m field =
     (if field = ''cpu_percent'' then Some (AttrFloat (met_cpu_percent m))
      else if field = ''memory_percent'' then Some (AttrFloat (met_memory_percent m))
      else if field = ''disk_percent'' then Some (AttrFloat (met_disk_percent m))
      else if field = ''id'' then Some (AttrInt (met_id m))
      else if field = ''server_id'' then Some (AttrInt (met_server_id m))
      else if field = ''collected_at'' then Some (AttrTime (met_collected_at m))
      else if other field then Some AttrObject
      else None)"

definition getattr_docker :: "(string \<Rightarrow> bool) \<Rightarrow> docker_metric \<Rightarrow> string \<Rightarrow> attr option" where
  "getattr_docker other m field =
     (if field = ''cpu_percent'' then Some (AttrFloat (dm_cpu_percent m))
      else if field = ''memory_usage_mb'' then Some (AttrFloat (dm_memory_usage_mb m))
      else if field = ''memory_limit_mb'' then map_option AttrFloat (dm_memory_limit_mb m)
      else if field = ''id'' then Some (AttrInt (dm_id m))
      else if field = ''server_id'' then Some (AttrInt (dm_server_id m))
      else if field = ''container_id'' then Some (AttrStr (dm_container_id m))
      else if field = ''container_name'' then Some (AttrStr (dm_container_name m))
      else if field = ''image'' then Some (AttrStr (dm_image m))
      else if field = ''status'' then Some (AttrStr (dm_status m))
      else if field = ''collected_at'' then Some (AttrTime (dm_collected_at m))
      else if other field then Some AttrObject
      else None)"

text \<open>
  Python compares a number of either type with a float by value; a value of another type is
  unequal to a float, and ordering the two raises TypeError.
\<close>

definition compare_attr :: "attr \<Rightarrow> threshold_operator \<Rightarrow> pyfloat \<Rightarrow> exc + bool" where
  "compare_attr a op t = (case a of
     AttrFloat x \<Rightarrow> Inr (compare x op t)
   | AttrInt i \<Rightarrow> Inr (compare (Fin (of_int i)) op t)
   | _ \<Rightarrow> (case op of Eq \<Rightarrow> Inr False | Neq \<Rightarrow> Inr True | _ \<Rightarrow> Inl TypeError))"

section \<open>The loop\<close>

fun resolve_loop :: "(alert_event \<Rightarrow> 'k) \<Rightarrow> ('k \<Rightarrow> 'm option) \<Rightarrow> ('m \<Rightarrow> string \<Rightarrow> attr option)
    \<Rightarrow> ('k \<rightharpoonup> 'm option) \<Rightarrow> (alert_event \<times> alert_rule) list \<Rightarrow> exc + int list" where
  "resolve_loop key latest_of get cache [] = Inr []"
| "resolve_loop key latest_of get cache ((event, rule) # pairs) =
     (let k = key event;
          cache' = (case cache k of None \<Rightarrow> cache(k \<mapsto> latest_of k) | Some _ \<Rightarrow> cache);
          rest = resolve_loop key latest_of get cache' pairs
      in case the (cache' k) of
        None \<Rightarrow> rest
      | Some latest \<Rightarrow>
          (case get latest (rule_metric_field rule) of
             None \<Rightarrow> rest
           | Some v \<Rightarrow>
               (case compare_attr v (rule_operator rule) (rule_threshold_value rule) of
                  Inl x \<Rightarrow> Inl x
                | Inr True \<Rightarrow> rest
                | Inr False \<Rightarrow> map_sum id (Cons (ev_id event)) rest)))"

definition latest_system_metric :: "db \<Rightarrow> int \<Rightarrow> metric option" where
  "latest_system_metric d server_id =
     latest_by met_collected_at (select (\<lambda>m. met_server_id m = server_id) (metrics d))"

definition latest_docker_metric :: "db \<Rightarrow> int \<times> string \<Rightarrow> docker_metric option" where
  "latest_docker_metric d key = latest_by dm_collected_at
     (select (\<lambda>m. dm_server_id m = fst key \<and> dm_container_name m = snd key) (docker_metrics d))"

text \<open>The join of the open events with their rules.\<close>

definition open_pairs :: "(alert_event \<Rightarrow> alert_rule \<Rightarrow> bool) \<Rightarrow> db \<Rightarrow> (alert_event \<times> alert_rule) list" where
  "open_pairs P d = [(ev, r). ev \<leftarrow> rows (alert_events d), r \<leftarrow> rows (alert_rules d),
     ev_rule_id ev = rule_id r \<and> ev_resolved_at ev = None \<and> P ev r]"

definition system_pairs :: "db \<Rightarrow> (alert_event \<times> alert_rule) list" where
  "system_pairs = open_pairs (\<lambda>ev r. rule_metric_type r = System)"

definition docker_pairs :: "db \<Rightarrow> (alert_event \<times> alert_rule) list" where
  "docker_pairs = open_pairs (\<lambda>ev r. rule_metric_type r = Docker \<and> ev_container_name ev \<noteq> None)"

definition close_events :: "time \<Rightarrow> int list \<Rightarrow> db \<Rightarrow> db" where
  "close_events now ids d = d\<lparr>alert_events := update_where (\<lambda>ev. ev_id ev \<in> set ids)
     (\<lambda>ev. ev\<lparr>ev_resolved_at := Some now\<rparr>) (alert_events d)\<rparr>"

text \<open>An exception leaves the session uncommitted, so the run has no effect.\<close>

definition auto_resolve_system_alerts :: "env \<Rightarrow> (string \<Rightarrow> bool) \<Rightarrow> db \<Rightarrow> (exc + int list) \<times> db" where
  "auto_resolve_system_alerts e other d =
     (case resolve_loop ev_server_id (latest_system_metric d) (getattr_metric other) Map.empty (system_pairs d) of
        Inl x \<Rightarrow> (Inl x, d)
      | Inr ids \<Rightarrow> (Inr ids, close_events (clock e) ids d))"

definition docker_event_key :: "alert_event \<Rightarrow> int \<times> string" where
  "docker_event_key ev = (ev_server_id ev, the (ev_container_name ev))"

definition auto_resolve_docker_alerts :: "env \<Rightarrow> (string \<Rightarrow> bool) \<Rightarrow> db \<Rightarrow> (exc + int list) \<times> db" where
  "auto_resolve_docker_alerts e other d =
     (case resolve_loop docker_event_key (latest_docker_metric d) (getattr_docker other) Map.empty (docker_pairs d) of
        Inl x \<Rightarrow> (Inl x, d)
      | Inr ids \<Rightarrow> (Inr ids, close_events (clock e) ids d))"

text \<open>The Celery task: the docker run only follows a system run that returned.\<close>

definition task_resolve_alerts :: "env \<Rightarrow> (string \<Rightarrow> bool) \<Rightarrow> db \<Rightarrow> (exc + unit) \<times> db" where
  "task_resolve_alerts e other d =
     (case auto_resolve_system_alerts e other d of
        (Inl x, d1) \<Rightarrow> (Inl x, d1)
      | (Inr _, d1) \<Rightarrow>
          (case auto_resolve_docker_alerts e other d1 of
             (Inl x, d2) \<Rightarrow> (Inl x, d2)
           | (Inr _, d2) \<Rightarrow> (Inr (), d2)))"

section \<open>The specification without a cache\<close>

text \<open>What the loop decides for one pair: None to skip, or whether the rule is still breached.\<close>

definition breach :: "('k \<Rightarrow> 'm option) \<Rightarrow> ('m \<Rightarrow> string \<Rightarrow> attr option) \<Rightarrow> 'k \<Rightarrow> alert_rule
    \<Rightarrow> (exc + bool) option" where
  "breach latest_of get k r = (case latest_of k of
     None \<Rightarrow> None
   | Some m \<Rightarrow> map_option (\<lambda>v. compare_attr v (rule_operator r) (rule_threshold_value r))
       (get m (rule_metric_field r)))"

lemma compare_attr_Inl: "compare_attr v op t = Inl x \<Longrightarrow> x = TypeError"
  by (cases v; cases op) (auto simp: compare_attr_def)

lemma breach_TypeError: "breach latest_of get k r = Some (Inl x) \<Longrightarrow> x = TypeError"
  by (auto simp: breach_def dest: compare_attr_Inl split: option.splits)

lemma decision_cases [case_names skip err yes no]:
  fixes d :: "('x + bool) option"
  obtains "d = None" | x where "d = Some (Inl x)" | "d = Some (Inr True)" | "d = Some (Inr False)"
proof (cases d)
  case (Some s)
  show ?thesis
  proof (cases s)
    case (Inr b)
    with Some that show ?thesis by (cases b) auto
  qed (use Some that in auto)
qed (use that in auto)

locale resolver =
  fixes key :: "alert_event \<Rightarrow> 'k"
    and latest_of :: "'k \<Rightarrow> 'm option"
    and get :: "'m \<Rightarrow> string \<Rightarrow> attr option"
    and pairs :: "(alert_event \<times> alert_rule) list"
  assumes pairs_open: "(ev, r) \<in> set pairs \<Longrightarrow> ev_resolved_at ev = None \<and> ev_rule_id ev = rule_id r"
begin

abbreviation decide :: "alert_event \<times> alert_rule \<Rightarrow> (exc + bool) option" where
  "decide p \<equiv> breach latest_of get (key (fst p)) (snd p)"

lemma loop_spec:
  assumes "\<And>k x. cache k = Some x \<Longrightarrow> x = latest_of k"
  shows "resolve_loop key latest_of get cache ps =
    (if \<exists>p \<in> set ps. \<exists>x. decide p = Some (Inl x) then Inl TypeError
     else Inr (map (\<lambda>p. ev_id (fst p)) (filter (\<lambda>p. decide p = Some (Inr False)) ps)))"
  using assms
proof (induction ps arbitrary: cache)
  case Nil
  then show ?case by simp
next
  case (Cons p ps)
  obtain ev r where p: "p = (ev, r)" by force
  let ?cache = "case cache (key ev) of None \<Rightarrow> cache(key ev \<mapsto> latest_of (key ev)) | Some _ \<Rightarrow> cache"
  have c: "\<And>k x. ?cache k = Some x \<Longrightarrow> x = latest_of k"
    using Cons.prems by (auto split: option.splits if_splits)
  have l: "the (?cache (key ev)) = latest_of (key ev)"
    using Cons.prems by (auto split: option.split)
  have "resolve_loop key latest_of get cache (p # ps) =
      (case decide p of
         None \<Rightarrow> resolve_loop key latest_of get ?cache ps
       | Some (Inl x) \<Rightarrow> Inl x
       | Some (Inr True) \<Rightarrow> resolve_loop key latest_of get ?cache ps
       | Some (Inr False) \<Rightarrow> map_sum id (Cons (ev_id ev)) (resolve_loop key latest_of get ?cache ps))"
    unfolding p resolve_loop.simps Let_def l by (simp add: breach_def split: option.split)
  note step = this
  have IH: "resolve_loop key latest_of get ?cache ps =
      (if \<exists>p \<in> set ps. \<exists>x. decide p = Some (Inl x) then Inl TypeError
       else Inr (map (\<lambda>p. ev_id (fst p)) (filter (\<lambda>p. decide p = Some (Inr False)) ps)))"
    by (rule Cons.IH) (rule c)
  show ?case
  proof (cases "decide p" rule: decision_cases)
    case (err x)
    then have "x = TypeError" by (rule breach_TypeError)
    with err show ?thesis by (simp add: step)
  next
    case no
    then show ?thesis by (simp only: step IH) (simp add: p)
  qed (simp_all add: step IH)
qed

lemma loop_result:
  "resolve_loop key latest_of get Map.empty pairs =
    (if \<exists>p \<in> set pairs. \<exists>x. decide p = Some (Inl x) then Inl TypeError
     else Inr (map (\<lambda>p. ev_id (fst p)) (filter (\<lambda>p. decide p = Some (Inr False)) pairs)))"
  by (rule loop_spec) simp

lemma closed_iff:
  assumes "resolve_loop key latest_of get Map.empty pairs = Inr ids"
  shows "i \<in> set ids \<longleftrightarrow>
    (\<exists>(ev, r) \<in> set pairs. ev_id ev = i \<and> breach latest_of get (key ev) r = Some (Inr False))"
  using assms unfolding loop_result by (force split: if_splits)

lemma closed_open:
  assumes "resolve_loop key latest_of get Map.empty pairs = Inr ids" and "i \<in> set ids"
  shows "\<exists>(ev, r) \<in> set pairs. ev_id ev = i \<and> ev_resolved_at ev = None"
  using closed_iff [OF assms(1)] assms(2) pairs_open by blast

end

lemma open_pairs_iff:
  "(ev, r) \<in> set (open_pairs P d) \<longleftrightarrow> ev \<in> set (rows (alert_events d)) \<and> r \<in> set (rows (alert_rules d))
    \<and> ev_rule_id ev = rule_id r \<and> ev_resolved_at ev = None \<and> P ev r"
  by (auto simp: open_pairs_def)

interpretation system_resolver: resolver ev_server_id "latest_system_metric d" "getattr_metric other" "system_pairs d"
  for d other
  by unfold_locales (auto simp: system_pairs_def open_pairs_iff)

interpretation docker_resolver: resolver docker_event_key "latest_docker_metric d" "getattr_docker other" "docker_pairs d"
  for d other
  by unfold_locales (auto simp: docker_pairs_def open_pairs_iff)

section \<open>What a run keeps\<close>

lemma close_events_ok: "db_ok d \<Longrightarrow> db_ok (close_events now ids d)"
  unfolding close_events_def
  by (rule db_ok_alert_events)
    (auto simp: image_update_where dest: db_ok_fk db_ok_keyed intro!: keyed_update)

lemma system_run_ok: "db_ok d \<Longrightarrow> db_ok (snd (auto_resolve_system_alerts e other d))"
  by (simp add: auto_resolve_system_alerts_def close_events_ok split: sum.split)

lemma docker_run_ok: "db_ok d \<Longrightarrow> db_ok (snd (auto_resolve_docker_alerts e other d))"
  by (simp add: auto_resolve_docker_alerts_def close_events_ok split: sum.split)

lemma task_resolve_ok: "db_ok d \<Longrightarrow> db_ok (snd (task_resolve_alerts e other d))"
  using system_run_ok [of d e other] docker_run_ok [of "snd (auto_resolve_system_alerts e other d)" e other]
  by (auto simp: task_resolve_alerts_def split: prod.splits sum.splits)

section \<open>Properties\<close>

text \<open>C10: a system run that returns closes, with the current instant, exactly the open events
  of system rules whose server has a metric whose latest one has the rule's field and no
  longer breaches it; every other event keeps its row, so nothing is reopened, closed twice or
  closed without a metric.\<close>

theorem system_run_closes_exactly:
  assumes "db_ok d" and "auto_resolve_system_alerts e other d = (Inr ids, d')"
    and "ev \<in> set (rows (alert_events d))" and "r \<in> set (rows (alert_rules d))"
    and "ev_rule_id ev = rule_id r"
  shows "(if ev_resolved_at ev = None \<and> rule_metric_type r = System
      \<and> breach (latest_system_metric d) (getattr_metric other) (ev_server_id ev) r = Some (Inr False)
     then ev\<lparr>ev_resolved_at := Some (clock e)\<rparr> else ev) \<in> set (rows (alert_events d'))
    \<and> map ev_id (rows (alert_events d')) = map ev_id (rows (alert_events d))"
proof -
  have loop: "resolve_loop ev_server_id (latest_system_metric d) (getattr_metric other) Map.empty
      (system_pairs d) = Inr ids" and d': "d' = close_events (clock e) ids d"
    using assms(2) by (auto simp: auto_resolve_system_alerts_def split: sum.splits)
  have "ev_id ev \<in> set ids \<longleftrightarrow> ev_resolved_at ev = None \<and> rule_metric_type r = System
      \<and> breach (latest_system_metric d) (getattr_metric other) (ev_server_id ev) r = Some (Inr False)"
    unfolding system_resolver.closed_iff [OF loop] system_pairs_def
    using keyed_inj [OF db_ok_keyed(8) [OF assms(1)] assms(3)] keyed_inj [OF db_ok_keyed(7) [OF assms(1)] assms(4)]
      assms(3-5) by (fastforce simp: open_pairs_iff)
  then show ?thesis
    using assms(3) by (auto simp: d' close_events_def update_where_def)
qed

definition demo_metric :: "pyfloat \<Rightarrow> metric" where
  "demo_metric cpu = \<lparr>met_id = 1, met_server_id = 1, met_cpu_percent = cpu, met_memory_percent = Fin 10,
     met_disk_percent = Fin 10, met_collected_at = 5\<rparr>"

definition demo_open_db :: db where
  "demo_open_db = demo_db\<lparr>alert_events := \<lparr>rows = [demo_event], seq = 2\<rparr>,
     metrics := \<lparr>rows = [demo_metric (Fin 20)], seq = 2\<rparr>\<rparr>"

lemma demo_open_simps [simp]:
  "alert_events demo_open_db = \<lparr>rows = [demo_event], seq = 2\<rparr>"
  "alert_rules demo_open_db = \<lparr>rows = [demo_rule, demo_docker_rule], seq = 3\<rparr>"
  "metrics demo_open_db = \<lparr>rows = [demo_metric (Fin 20)], seq = 2\<rparr>"
  by (simp_all add: demo_open_db_def)

lemma demo_event_simps [simp]:
  "ev_id demo_event = 1" "ev_rule_id demo_event = 1" "ev_server_id demo_event = 1"
  "ev_resolved_at demo_event = None" "ev_container_name demo_event = None"
  by (simp_all add: demo_event_def system_event_def demo_rule_def)

lemma demo_open_ok: "db_ok demo_open_db"
proof -
  have "db_ok (demo_db\<lparr>alert_events := \<lparr>rows = [demo_event], seq = 2\<rparr>\<rparr>)"
    by (rule db_ok_alert_events) (simp_all add: keyed_def id_defs demo_defs)
  then have "db_ok (demo_db\<lparr>alert_events := \<lparr>rows = [demo_event], seq = 2\<rparr>,
      metrics := \<lparr>rows = [demo_metric (Fin 20)], seq = 2\<rparr>\<rparr>)"
    by (rule db_ok_metrics) (simp_all add: keyed_def id_defs demo_defs demo_metric_def)
  then show ?thesis by (simp add: demo_open_db_def)
qed

lemma demo_breach:
  "breach (latest_system_metric demo_open_db) (getattr_metric other) 1 demo_rule = Some (Inr False)"
  by (simp add: breach_def latest_system_metric_def latest_by_def order_by_desc_def table_simps
      demo_metric_def getattr_metric_def demo_rule_def compare_attr_def)

lemma demo_run:
  "auto_resolve_system_alerts (env_at 9) other demo_open_db = (Inr [1], close_events 9 [1] demo_open_db)"
proof -
  have "system_pairs demo_open_db = [(demo_event, demo_rule)]"
    by (simp add: system_pairs_def open_pairs_def demo_defs)
  then have "resolve_loop ev_server_id (latest_system_metric demo_open_db) (getattr_metric other)
      Map.empty (system_pairs demo_open_db) = Inr [1]"
    unfolding system_resolver.loop_result by (simp add: demo_breach)
  then show ?thesis by (simp add: auto_resolve_system_alerts_def)
qed

theorem system_run_witness:
  "demo_event\<lparr>ev_resolved_at := Some 9\<rparr> \<in> set (rows (alert_events (close_events 9 [1] demo_open_db)))"
  using system_run_closes_exactly [OF demo_open_ok demo_run, of demo_event demo_rule "\<lambda>_. False"]
  by (simp add: demo_breach) (simp add: demo_rule_def)

text \<open>One open event whose rule names a datetime column of the metric (which the update
  endpoint lets any user set on a rule of theirs) and orders it against the threshold makes
  the whole task fail: no event of any user, system or docker, is closed by the run.\<close>

theorem datetime_rule_stops_resolution:
  assumes "ev \<in> set (rows (alert_events d))" and "r \<in> set (rows (alert_rules d))"
    and "ev_rule_id ev = rule_id r" and "ev_resolved_at ev = None" and "rule_metric_type r = System"
    and "rule_metric_field r = ''collected_at''" and "rule_operator r \<in> {Gt, Gte, Lt, Lte}"
    and "m \<in> set (rows (metrics d))" and "met_server_id m = ev_server_id ev"
  shows "task_resolve_alerts e other d = (Inl TypeError, d)"
proof -
  obtain l where l: "latest_system_metric d (ev_server_id ev) = Some l"
    using assms(8,9) by (cases "latest_system_metric d (ev_server_id ev)")
      (auto simp: latest_system_metric_def table_simps filter_empty_conv)
  have "breach (latest_system_metric d) (getattr_metric other) (ev_server_id ev) r = Some (Inl TypeError)"
    using assms(6,7) by (auto simp: breach_def l getattr_metric_def compare_attr_def)
  moreover have "(ev, r) \<in> set (system_pairs d)"
    using assms(1-5) by (simp add: system_pairs_def open_pairs_iff)
  ultimately have "resolve_loop ev_server_id (latest_system_metric d) (getattr_metric other) Map.empty
      (system_pairs d) = Inl TypeError"
    unfolding system_resolver.loop_result by force
  then show ?thesis by (simp add: task_resolve_alerts_def auto_resolve_system_alerts_def)
qed

definition demo_bad_rule :: alert_rule where
  "demo_bad_rule = demo_rule\<lparr>rule_metric_field := ''collected_at''\<rparr>"

theorem datetime_rule_witness:
  "task_resolve_alerts (env_at 9) (\<lambda>_. False)
      (demo_open_db\<lparr>alert_rules := \<lparr>rows = [demo_bad_rule], seq = 2\<rparr>\<rparr>)
    = (Inl TypeError, demo_open_db\<lparr>alert_rules := \<lparr>rows = [demo_bad_rule], seq = 2\<rparr>\<rparr>)"
  by (rule datetime_rule_stops_resolution [of demo_event _ demo_bad_rule "demo_metric (Fin 20)"])
     (simp_all add: demo_bad_rule_def demo_rule_def demo_metric_def)

end
