(* ===== verification/PW_Aggregation.thy ===== *)
theory PW_Aggregation
  imports PW_Fixtures
begin

text \<open>
  Aggregation of raw metrics (\<open>app/services/aggregation.py\<close>, \<open>app/tasks/aggregation_tasks.py\<close>):
  the windows of the three periods, the aggregate of one server and window, and the loop over
  all servers. \<open>INSERT ... ON CONFLICT DO UPDATE\<close> is \<open>upsert\<close>; the locale \<open>upsert_table\<close> is the
  interface of a table written that way (a conflict key and a merge that keeps it) with the
  lemmas on uniqueness, and is interpreted for both aggregate tables. The SQL average is a
  parameter: it raises when finite samples overflow its accumulator, as PostgreSQL documents
  for float8.
\<close>

type_synonym sql_avg = "pyfloat list \<Rightarrow> exc + pyfloat"

section \<open>The windows\<close>

definition fivemin_window :: "time \<Rightarrow> time \<times> time" where
  "fivemin_window now =
     (let minute = (now div minutes 1) mod 60;
          minute_floor = (minute div 5) * 5;
          period_start = (now - now mod hours 1) + minutes minute_floor - minutes 5
      in (period_start, period_start + minutes 5))"

definition hourly_window :: "time \<Rightarrow> time \<times> time" where
  "hourly_window now =
     (let period_start = (now - now mod hours 1) - hours 1 in (period_start, period_start + hours 1))"

definition daily_window :: "time \<Rightarrow> time \<times> time" where
  "daily_window now =
     (let yesterday = now - days 1; period_start = yesterday - yesterday mod days 1
      in (period_start, period_start + days 1))"

definition in_window :: "time \<times> time \<Rightarrow> time \<Rightarrow> bool" where
  "in_window w t \<longleftrightarrow> fst w \<le> t \<and> t < snd w"

section \<open>SQL aggregates\<close>

fun sql_min :: "'a::linorder list \<Rightarrow> 'a" where
  "sql_min [x] = x"
| "sql_min (x # xs) = min x (sql_min xs)"

fun sql_max :: "'a::linorder list \<Rightarrow> 'a" where
  "sql_max [x] = x"
| "sql_max (x # xs) = max x (sql_max xs)"

lemma sql_min_Min: "xs \<noteq> [] \<Longrightarrow> sql_min xs = Min (set xs)"
  by (induction xs rule: sql_min.induct) auto

lemma sql_max_Max: "xs \<noteq> [] \<Longrightarrow> sql_max xs = Max (set xs)"
  by (induction xs rule: sql_max.induct) auto

section \<open>Insert or update\<close>

text \<open>A conflicting insert updates the row it meets and has still consumed an id.\<close>

definition upsert :: "('a \<Rightarrow> 'k) \<Rightarrow> (time \<Rightarrow> 'a \<Rightarrow> 'a \<Rightarrow> 'a) \<Rightarrow> time \<Rightarrow> (int \<Rightarrow> 'a) \<Rightarrow> 'a table \<Rightarrow> 'a table" where
  "upsert key merge now mk t =
     (let excluded = mk (seq t) in
      if \<exists>r \<in> set (rows t). key r = key excluded
      then (update_where (\<lambda>r. key r = key excluded) (merge now excluded) t)\<lparr>seq := seq t + 1\<rparr>
      else insert_row mk t)"

locale upsert_table =
  fixes key :: "'a \<Rightarrow> 'k" and pk :: "'a \<Rightarrow> int" and merge :: "time \<Rightarrow> 'a \<Rightarrow> 'a \<Rightarrow> 'a"
  assumes key_merge: "key (merge now x r) = key r"
    and pk_merge: "pk (merge now x r) = pk r"
begin

abbreviation unique :: "'a table \<Rightarrow> bool" where
  "unique t \<equiv> distinct (map key (rows t))"

lemma upsert_unique:
  assumes "unique t"
  shows "unique (upsert key merge now mk t)"
  using assms by (auto simp: upsert_def Let_def table_simps key_merge o_def if_distrib cong: if_cong)

lemma upsert_keyed:
  assumes "keyed pk t" and "\<And>i. pk (mk i) = i"
  shows "keyed pk (upsert key merge now mk t)"
proof (cases "\<exists>r \<in> set (rows t). key r = key (mk (seq t))")
  case True
  have "keyed pk (update_where (\<lambda>r. key r = key (mk (seq t))) (merge now (mk (seq t))) t)"
    using assms(1) pk_merge by (rule keyed_update)
  then have "keyed pk ((update_where (\<lambda>r. key r = key (mk (seq t))) (merge now (mk (seq t))) t)\<lparr>seq := seq t + 1\<rparr>)"
    by (rule keyed_seq) simp
  with True show ?thesis by (simp add: upsert_def Let_def)
next
  case False
  with assms show ?thesis by (auto simp: upsert_def Let_def)
qed

lemma upsert_rows_of_key:
  assumes "unique t"
  shows "select (\<lambda>r. key r = key (mk (seq t))) (upsert key merge now mk t) =
    (case select (\<lambda>r. key r = key (mk (seq t))) t of
       [] \<Rightarrow> [mk (seq t)]
     | r # _ \<Rightarrow> [merge now (mk (seq t)) r])"
proof (cases "\<exists>r \<in> set (rows t). key r = key (mk (seq t))")
  case True
  then obtain r where r: "r \<in> set (rows t)" "key r = key (mk (seq t))" by blast
  have f: "filter (\<lambda>q. key q = key (mk (seq t))) (rows t) = [r]"
    using filter_key_unique [OF assms r(1), of "\<lambda>_. True"] r(2) by simp
  have "filter (\<lambda>q. key q = k) (map (\<lambda>q. if key q = k then merge now x q else q) qs) =
      map (merge now x) (filter (\<lambda>q. key q = k) qs)" for k x qs
    by (induction qs) (auto simp: key_merge)
  with True f show ?thesis by (simp add: upsert_def Let_def table_simps)
next
  case False
  then have "filter (\<lambda>q. key q = key (mk (seq t))) (rows t) = []"
    by (simp add: filter_empty_conv)
  with False show ?thesis by (simp add: upsert_def Let_def table_simps)
qed

lemma upsert_other_rows:
  assumes "k \<noteq> key (mk (seq t))"
  shows "select (\<lambda>r. key r = k) (upsert key merge now mk t) = select (\<lambda>r. key r = k) t"
proof -
  have "filter (\<lambda>q. key q = k) (map (\<lambda>q. if key q = k' then merge now x q else q) qs) =
      filter (\<lambda>q. key q = k) qs" if "k \<noteq> k'" for k' x qs
    using that by (induction qs) (auto simp: key_merge)
  with assms show ?thesis by (simp add: upsert_def Let_def table_simps)
qed

lemma upsert_image:
  assumes "\<And>now x r. g (merge now x r) = g r"
  shows "g ` set (rows (upsert key merge now mk t)) \<subseteq> insert (g (mk (seq t))) (g ` set (rows t))"
  using assms by (auto simp: upsert_def Let_def table_simps)

end

section \<open>System metrics\<close>

definition ma_key :: "metric_aggregate \<Rightarrow> int \<times> period_type \<times> time" where
  "ma_key r = (ma_server_id r, ma_period_type r, ma_period_start r)"

definition merge_metric_aggregate :: "time \<Rightarrow> metric_aggregate \<Rightarrow> metric_aggregate \<Rightarrow> metric_aggregate" where
  "merge_metric_aggregate now ex r = r\<lparr>
     ma_avg_cpu := ma_avg_cpu ex, ma_min_cpu := ma_min_cpu ex, ma_max_cpu := ma_max_cpu ex,
     ma_avg_memory := ma_avg_memory ex, ma_min_memory := ma_min_memory ex, ma_max_memory := ma_max_memory ex,
     ma_avg_disk := ma_avg_disk ex, ma_min_disk := ma_min_disk ex, ma_max_disk := ma_max_disk ex,
     ma_sample_count := ma_sample_count ex, ma_updated_at := now\<rparr>"

definition window_metrics :: "db \<Rightarrow> int \<Rightarrow> time \<Rightarrow> time \<Rightarrow> metric list" where
  "window_metrics d server_id period_start period_end = select (\<lambda>m. met_server_id m = server_id
     \<and> period_start \<le> met_collected_at m \<and> met_collected_at m < period_end) (metrics d)"

definition aggregate_system_metrics :: "sql_avg \<Rightarrow> env \<Rightarrow> int \<Rightarrow> period_type \<Rightarrow> time \<Rightarrow> time \<Rightarrow> db
    \<Rightarrow> (exc + metric_aggregate option) \<times> db" where
  "aggregate_system_metrics avg e server_id pt period_start period_end d =
     (let ms = window_metrics d server_id period_start period_end;
          cpu = map met_cpu_percent ms; memory = map met_memory_percent ms; disk = map met_disk_percent ms
      in if ms = [] then (Inr None, d)
         else (case (avg cpu, avg memory, avg disk) of
           (Inr avg_cpu, Inr avg_memory, Inr avg_disk) \<Rightarrow>
             (let mk = (\<lambda>i. \<lparr>ma_id = i, ma_server_id = server_id, ma_period_type = pt,
                    ma_period_start = period_start, ma_period_end = period_end,
                    ma_avg_cpu = avg_cpu, ma_min_cpu = sql_min cpu, ma_max_cpu = sql_max cpu,
                    ma_avg_memory = avg_memory, ma_min_memory = sql_min memory, ma_max_memory = sql_max memory,
                    ma_avg_disk = avg_disk, ma_min_disk = sql_min disk, ma_max_disk = sql_max disk,
                    ma_sample_count = int (length ms), ma_created_at = db_clock e, ma_updated_at = db_clock e\<rparr>);
                  t = upsert ma_key merge_metric_aggregate (db_clock e) mk (metric_aggregates d)
              in (case select (\<lambda>r. ma_key r = (server_id, pt, period_start)) t of
                    [r] \<Rightarrow> Inr (Some r)
                  | _ \<Rightarrow> Inl MultipleResultsFound,
                  d\<lparr>metric_aggregates := t\<rparr>))
         | _ \<Rightarrow> (Inl DataError, d)))"

section \<open>Docker metrics\<close>

definition da_key :: "docker_aggregate \<Rightarrow> int \<times> string \<times> period_type \<times> time" where
  "da_key r = (da_server_id r, da_container_name r, da_period_type r, da_period_start r)"

definition merge_docker_aggregate :: "time \<Rightarrow> docker_aggregate \<Rightarrow> docker_aggregate \<Rightarrow> docker_aggregate" where
  "merge_docker_aggregate now ex r = r\<lparr>
     da_avg_cpu := da_avg_cpu ex, da_min_cpu := da_min_cpu ex, da_max_cpu := da_max_cpu ex,
     da_avg_memory_usage := da_avg_memory_usage ex, da_max_memory_usage := da_max_memory_usage ex,
     da_total_rx_bytes := da_total_rx_bytes ex, da_total_tx_bytes := da_total_tx_bytes ex,
     da_sample_count := da_sample_count ex, da_updated_at := now\<rparr>"

definition window_docker_metrics :: "db \<Rightarrow> int \<Rightarrow> time \<Rightarrow> time \<Rightarrow> docker_metric list" where
  "window_docker_metrics d server_id period_start period_end = select (\<lambda>m. dm_server_id m = server_id
     \<and> period_start \<le> dm_collected_at m \<and> dm_collected_at m < period_end) (docker_metrics d)"

text \<open>One container; the loop below commits after the last one only.\<close>

definition aggregate_container :: "sql_avg \<Rightarrow> env \<Rightarrow> int \<Rightarrow> period_type \<Rightarrow> time \<Rightarrow> time \<Rightarrow> string \<Rightarrow> db
    \<Rightarrow> exc + docker_aggregate option \<times> db" where
  "aggregate_container avg e server_id pt period_start period_end container_name d =
     (let ms = filter (\<lambda>m. dm_container_name m = container_name)
            (window_docker_metrics d server_id period_start period_end);
          cpu = map dm_cpu_percent ms; memory = map dm_memory_usage_mb ms
      in if ms = [] then Inr (None, d)
         else (case (avg cpu, avg memory) of
           (Inr avg_cpu, Inr avg_memory) \<Rightarrow>
             (let mk = (\<lambda>i. \<lparr>da_id = i, da_server_id = server_id, da_container_name = container_name,
                    da_period_type = pt, da_period_start = period_start, da_period_end = period_end,
                    da_avg_cpu = avg_cpu, da_min_cpu = sql_min cpu, da_max_cpu = sql_max cpu,
                    da_avg_memory_usage = avg_memory, da_max_memory_usage = sql_max memory,
                    da_total_rx_bytes = 0, da_total_tx_bytes = 0, da_sample_count = int (length ms),
                    da_created_at = db_clock e, da_updated_at = db_clock e\<rparr>);
                  t = upsert da_key merge_docker_aggregate (db_clock e) mk (docker_aggregates d)
              in (case select (\<lambda>r. da_key r = (server_id, container_name, pt, period_start)) t of
                    [r] \<Rightarrow> Inr (Some r, d\<lparr>docker_aggregates := t\<rparr>)
                  | _ \<Rightarrow> Inl MultipleResultsFound))
         | _ \<Rightarrow> Inl DataError))"

fun aggregate_containers :: "sql_avg \<Rightarrow> env \<Rightarrow> int \<Rightarrow> period_type \<Rightarrow> time \<Rightarrow> time \<Rightarrow> string list \<Rightarrow> db
    \<Rightarrow> exc + docker_aggregate list \<times> db" where
  "aggregate_containers avg e server_id pt ps pe [] d = Inr ([], d)"
| "aggregate_containers avg e server_id pt ps pe (c # cs) d =
     (case aggregate_container avg e server_id pt ps pe c d of
        Inl x \<Rightarrow> Inl x
      | Inr (agg, d1) \<Rightarrow>
          (case aggregate_containers avg e server_id pt ps pe cs d1 of
             Inl x \<Rightarrow> Inl x
           | Inr (aggs, d2) \<Rightarrow> Inr (case agg of None \<Rightarrow> aggs | Some r \<Rightarrow> r # aggs, d2)))"

definition aggregate_docker_metrics :: "sql_avg \<Rightarrow> env \<Rightarrow> int \<Rightarrow> period_type \<Rightarrow> time \<Rightarrow> time \<Rightarrow> db
    \<Rightarrow> (exc + docker_aggregate list) \<times> db" where
  "aggregate_docker_metrics avg e server_id pt period_start period_end d =
     (let container_names =
            remdups (map dm_container_name (window_docker_metrics d server_id period_start period_end))
      in if container_names = [] then (Inr [], d)
         else (case aggregate_containers avg e server_id pt period_start period_end container_names d of
           Inl x \<Rightarrow> (Inl x, d)
         | Inr (aggs, d') \<Rightarrow> (Inr aggs, d')))"

section \<open>All servers\<close>

text \<open>
  The loop catches every exception and goes on, but it does not roll back: after a statement
  has failed, PostgreSQL refuses every further statement of the transaction. The flag says
  that the session is in that state.
\<close>

definition aggregate_server :: "sql_avg \<Rightarrow> env \<Rightarrow> period_type \<Rightarrow> time \<Rightarrow> time \<Rightarrow> int
    \<Rightarrow> bool \<times> db \<Rightarrow> bool \<times> db" where
  "aggregate_server avg e pt period_start period_end sid st =
     (case st of (aborted, d) \<Rightarrow>
        if aborted then (True, d)
        else (case aggregate_system_metrics avg e sid pt period_start period_end d of
          (Inl x, d1) \<Rightarrow> (x = DataError, d1)
        | (Inr _, d1) \<Rightarrow>
            (case aggregate_docker_metrics avg e sid pt period_start period_end d1 of
               (Inl x, d2) \<Rightarrow> (x = DataError, d2)
             | (Inr _, d2) \<Rightarrow> (False, d2))))"

definition aggregate_all_servers :: "sql_avg \<Rightarrow> env \<Rightarrow> period_type \<Rightarrow> time \<Rightarrow> time \<Rightarrow> db \<Rightarrow> db" where
  "aggregate_all_servers avg e pt period_start period_end d =
     snd (fold (aggregate_server avg e pt period_start period_end) (map srv_id (rows (servers d))) (False, d))"

definition task_aggregate :: "sql_avg \<Rightarrow> env \<Rightarrow> period_type \<Rightarrow> db \<Rightarrow> db" where
  "task_aggregate avg e pt d =
     (let w = (case pt of
          Fivemin \<Rightarrow> fivemin_window (clock e)
        | Hourly \<Rightarrow> hourly_window (clock e)
        | Daily \<Rightarrow> daily_window (clock e))
      in aggregate_all_servers avg e pt (fst w) (snd w) d)"

interpretation ma: upsert_table ma_key ma_id merge_metric_aggregate
  by unfold_locales (auto simp: ma_key_def merge_metric_aggregate_def)

interpretation da: upsert_table da_key da_id merge_docker_aggregate
  by unfold_locales (auto simp: da_key_def merge_docker_aggregate_def)

section \<open>One window\<close>

text \<open>The two UNIQUE constraints of the aggregate tables.\<close>

definition aggregates_unique :: "db \<Rightarrow> bool" where
  "aggregates_unique d \<longleftrightarrow> distinct (map ma_key (rows (metric_aggregates d)))
     \<and> distinct (map da_key (rows (docker_aggregates d)))"

text \<open>The values a fresh aggregate of these samples carries.\<close>

definition summarises :: "metric_aggregate \<Rightarrow> sql_avg \<Rightarrow> metric list \<Rightarrow> bool" where
  "summarises r avg ms \<longleftrightarrow>
     ma_sample_count r = int (length ms)
     \<and> avg (map met_cpu_percent ms) = Inr (ma_avg_cpu r)
     \<and> avg (map met_memory_percent ms) = Inr (ma_avg_memory r)
     \<and> avg (map met_disk_percent ms) = Inr (ma_avg_disk r)
     \<and> ma_min_cpu r = Min (met_cpu_percent ` set ms) \<and> ma_max_cpu r = Max (met_cpu_percent ` set ms)
     \<and> ma_min_memory r = Min (met_memory_percent ` set ms) \<and> ma_max_memory r = Max (met_memory_percent ` set ms)
     \<and> ma_min_disk r = Min (met_disk_percent ` set ms) \<and> ma_max_disk r = Max (met_disk_percent ` set ms)"

lemma aggregate_system_row:
  assumes "aggregates_unique d" and "window_metrics d sid ps pe \<noteq> []"
    and avg: "avg (map met_cpu_percent (window_metrics d sid ps pe)) = Inr a1"
      "avg (map met_memory_percent (window_metrics d sid ps pe)) = Inr a2"
      "avg (map met_disk_percent (window_metrics d sid ps pe)) = Inr a3"
  obtains r t where "aggregate_system_metrics avg e sid pt ps pe d = (Inr (Some r), d\<lparr>metric_aggregates := t\<rparr>)"
    and "select (\<lambda>r. ma_key r = (sid, pt, ps)) t = [r]"
    and "summarises r avg (window_metrics d sid ps pe)" and "ma_updated_at r = db_clock e"
    and "distinct (map ma_key (rows t))"
    and "\<And>k. k \<noteq> (sid, pt, ps) \<Longrightarrow>
      select (\<lambda>r. ma_key r = k) t = select (\<lambda>r. ma_key r = k) (metric_aggregates d)"
    and "\<exists>mk. t = upsert ma_key merge_metric_aggregate (db_clock e) mk (metric_aggregates d)
      \<and> (\<forall>i. ma_id (mk i) = i \<and> ma_server_id (mk i) = sid \<and> ma_key (mk i) = (sid, pt, ps)
          \<and> summarises (mk i) avg (window_metrics d sid ps pe))"
proof -
  let ?ms = "window_metrics d sid ps pe"
  let ?cpu = "map met_cpu_percent ?ms" and ?mem = "map met_memory_percent ?ms" and ?disk = "map met_disk_percent ?ms"
  define mk where "mk = (\<lambda>i. \<lparr>ma_id = i, ma_server_id = sid, ma_period_type = pt,
                    ma_period_start = ps, ma_period_end = pe,
                    ma_avg_cpu = a1, ma_min_cpu = sql_min ?cpu, ma_max_cpu = sql_max ?cpu,
                    ma_avg_memory = a2, ma_min_memory = sql_min ?mem, ma_max_memory = sql_max ?mem,
                    ma_avg_disk = a3, ma_min_disk = sql_min ?disk, ma_max_disk = sql_max ?disk,
                    ma_sample_count = int (length ?ms), ma_created_at = db_clock e, ma_updated_at = db_clock e\<rparr>)"
  let ?t = "upsert ma_key merge_metric_aggregate (db_clock e) mk (metric_aggregates d)"
  have key: "ma_key (mk i) = (sid, pt, ps)" for i by (simp add: mk_def ma_key_def)
  have sum: "summarises (mk i) avg ?ms" for i
    using assms(2) avg by (simp add: summarises_def mk_def sql_min_Min sql_max_Max)
  have u: "distinct (map ma_key (rows (metric_aggregates d)))"
    using assms(1) by (simp add: aggregates_unique_def)
  have "summarises (merge_metric_aggregate (db_clock e) (mk i) q) avg ?ms" for i q
    using sum [of i] by (simp add: summarises_def merge_metric_aggregate_def)
  moreover have "ma_updated_at (mk i) = db_clock e" for i by (simp add: mk_def)
  moreover have "ma_updated_at (merge_metric_aggregate (db_clock e) x q) = db_clock e" for x q
    by (simp add: merge_metric_aggregate_def)
  ultimately obtain r where r: "select (\<lambda>r. ma_key r = (sid, pt, ps)) ?t = [r]" "summarises r avg ?ms"
    "ma_updated_at r = db_clock e"
    using ma.upsert_rows_of_key [OF u, of mk "db_clock e"] sum
    by (cases "select (\<lambda>r. ma_key r = (sid, pt, ps)) (metric_aggregates d)")
      (auto simp: key)
  have "aggregate_system_metrics avg e sid pt ps pe d = (Inr (Some r), d\<lparr>metric_aggregates := ?t\<rparr>)"
    using assms(2) avg r(1) by (simp add: aggregate_system_metrics_def Let_def mk_def)
  moreover have "select (\<lambda>r. ma_key r = k) ?t = select (\<lambda>r. ma_key r = k) (metric_aggregates d)"
    if "k \<noteq> (sid, pt, ps)" for k
    using ma.upsert_other_rows [of k mk] that by (simp add: key)
  moreover have "\<forall>i. ma_id (mk i) = i \<and> ma_server_id (mk i) = sid" by (simp add: mk_def)
  ultimately show ?thesis
    using that [of r ?t] r ma.upsert_unique [OF u] key sum by blast
qed

lemma window_iff_div:
  fixes W :: int
  assumes "0 < W"
  shows "k * W \<le> t \<and> t < k * W + W \<longleftrightarrow> t div W = k"
proof
  assume "k * W \<le> t \<and> t < k * W + W"
  then show "t div W = k"
    using int_div_pos_eq [of t W k "t - k * W"] by (simp add: algebra_simps)
next
  assume "t div W = k"
  then show "k * W \<le> t \<and> t < k * W + W"
    using div_mult_mod_eq [of t W] pos_mod_sign [OF assms, of t] pos_mod_bound [OF assms, of t] by auto
qed

lemma five_minute_floor: "q div 60 * 60 + (q mod 60) div 5 * 5 = q div 5 * (5::int)"
proof -
  have "q mod 60 div 5 = (q div 5) mod 12"
    using zmod_zmult2_eq [of 12 q 5] by simp
  moreover have "q div 60 = q div 5 div 12"
    using zdiv_zmult2_eq [of 12 q 5] by simp
  ultimately show ?thesis
    using div_mult_mod_eq [of "q div 5" 12] by linarith
qed

section \<open>Properties\<close>

text \<open>The window of a run is the period before the one the run falls in, for each of the
  three periods: an instant is in it exactly when its period number is one less than the
  current one. So the windows of one period type do not overlap, leave no gap, and start and
  end on the boundaries of the period.\<close>

theorem windows_are_previous_period:
  "(in_window (fivemin_window now) t \<longleftrightarrow> t div minutes 5 + 1 = now div minutes 5)
   \<and> (in_window (hourly_window now) t \<longleftrightarrow> t div hours 1 + 1 = now div hours 1)
   \<and> (in_window (daily_window now) t \<longleftrightarrow> t div days 1 + 1 = now div days 1)"
proof (intro conjI)
  have *: "(a - W \<le> t \<and> t < a) \<longleftrightarrow> t div W + 1 = now div W"
    if "a = (now div W) * W" and "0 < W" for a W :: int
    using window_iff_div [OF that(2), of "now div W - 1" t] that(1) by (auto simp: algebra_simps)
  let ?q = "now div minutes 1"
  have hour: "now - now mod hours 1 = (now div hours 1) * hours 1"
    by (simp add: minus_mod_eq_div_mult)
  have "now div hours 1 = ?q div 60" and q5: "now div minutes 5 = ?q div 5"
    using zdiv_zmult2_eq [of 60 now "minutes 1"] zdiv_zmult2_eq [of 5 now "minutes 1"] by simp_all
  moreover have "?q div 60 * 60 + (?q mod 60) div 5 * 5 = ?q div 5 * 5"
    by (rule five_minute_floor)
  ultimately have f: "(now - now mod hours 1) + minutes ((?q mod 60) div 5 * 5) = (now div minutes 5) * minutes 5"
    unfolding hour by simp
  show "in_window (fivemin_window now) t \<longleftrightarrow> t div minutes 5 + 1 = now div minutes 5"
    using * [OF f] by (simp add: in_window_def fivemin_window_def Let_def algebra_simps)
  show "in_window (hourly_window now) t \<longleftrightarrow> t div hours 1 + 1 = now div hours 1"
    using * [OF hour] by (simp add: in_window_def hourly_window_def Let_def)
  have d: "(now - days 1) - (now - days 1) mod days 1 + days 1 = (now div days 1) * days 1"
    using minus_mod_eq_div_mult [of "now - days 1" "days 1"] by (simp add: algebra_simps)
  show "in_window (daily_window now) t \<longleftrightarrow> t div days 1 + 1 = now div days 1"
    using * [OF d] by (simp add: in_window_def daily_window_def Let_def algebra_simps)
qed

definition demo_avg :: sql_avg where
  "demo_avg xs = (if PosInf \<in> set xs then Inl DataError else Inr (hd xs))"

definition agg_metric :: "int \<Rightarrow> int \<Rightarrow> rat \<Rightarrow> metric" where
  "agg_metric i sid v = \<lparr>met_id = i, met_server_id = sid, met_cpu_percent = Fin v,
     met_memory_percent = Fin 10, met_disk_percent = Fin 10, met_collected_at = secs 10 + i\<rparr>"

definition demo_agg_db :: db where
  "demo_agg_db = demo_db\<lparr>metrics := \<lparr>rows = [agg_metric 1 1 20, agg_metric 2 1 40], seq = 3\<rparr>\<rparr>"

lemma demo_agg_simps [simp]:
  "metrics demo_agg_db = \<lparr>rows = [agg_metric 1 1 20, agg_metric 2 1 40], seq = 3\<rparr>"
  "docker_metrics demo_agg_db = empty_table" "metric_aggregates demo_agg_db = empty_table"
  "docker_aggregates demo_agg_db = empty_table"
  "servers demo_agg_db = \<lparr>rows = [demo_server], seq = 2\<rparr>"
  by (simp_all add: demo_agg_db_def)

lemma demo_agg_window:
  "window_metrics demo_agg_db 1 0 300000000 = [agg_metric 1 1 20, agg_metric 2 1 40]"
  by (simp add: window_metrics_def table_simps agg_metric_def)

lemma demo_avgs:
  "demo_avg (map met_cpu_percent (window_metrics demo_agg_db 1 0 300000000)) = Inr (Fin 20)"
  "demo_avg (map met_memory_percent (window_metrics demo_agg_db 1 0 300000000)) = Inr (Fin 10)"
  "demo_avg (map met_disk_percent (window_metrics demo_agg_db 1 0 300000000)) = Inr (Fin 10)"
  unfolding demo_agg_window by (simp_all add: demo_avg_def agg_metric_def)

lemma demo_agg_unique: "aggregates_unique demo_agg_db"
  by (simp add: aggregates_unique_def empty_table_def)

text \<open>C11: aggregating a window that has samples leaves exactly one row for the server, period
  type and window; it holds the number of the samples and their averages, minima and maxima,
  whether the row is new or was there before. Rows of other servers, types and windows stay as
  they are, and so does every other table.\<close>

theorem aggregate_summarises_window:
  assumes "aggregates_unique d" and "window_metrics d sid ps pe \<noteq> []"
    and "avg (map met_cpu_percent (window_metrics d sid ps pe)) = Inr a1"
    and "avg (map met_memory_percent (window_metrics d sid ps pe)) = Inr a2"
    and "avg (map met_disk_percent (window_metrics d sid ps pe)) = Inr a3"
  shows "\<exists>r t. aggregate_system_metrics avg e sid pt ps pe d = (Inr (Some r), d\<lparr>metric_aggregates := t\<rparr>)
    \<and> select (\<lambda>r. ma_key r = (sid, pt, ps)) t = [r]
    \<and> summarises r avg (window_metrics d sid ps pe)
    \<and> (\<forall>k. k \<noteq> (sid, pt, ps) \<longrightarrow>
        select (\<lambda>r. ma_key r = k) t = select (\<lambda>r. ma_key r = k) (metric_aggregates d))
    \<and> distinct (map ma_key (rows t))"
  by (rule aggregate_system_row [OF assms, of e pt]) blast

theorem aggregate_witness:
  "\<exists>r t. aggregate_system_metrics demo_avg (env_at 7) 1 Fivemin 0 300000000 demo_agg_db
      = (Inr (Some r), demo_agg_db\<lparr>metric_aggregates := t\<rparr>)
    \<and> ma_sample_count r = 2 \<and> ma_min_cpu r = Fin 20 \<and> ma_max_cpu r = Fin 40"
proof -
  obtain r t where "aggregate_system_metrics demo_avg (env_at 7) 1 Fivemin 0 300000000 demo_agg_db
      = (Inr (Some r), demo_agg_db\<lparr>metric_aggregates := t\<rparr>)"
    and s: "summarises r demo_avg [agg_metric 1 1 20, agg_metric 2 1 40]"
    using aggregate_summarises_window [OF demo_agg_unique _ demo_avgs, of "env_at 7" Fivemin]
    unfolding demo_agg_window by blast
  moreover from s have "ma_sample_count r = 2 \<and> ma_min_cpu r = Fin 20 \<and> ma_max_cpu r = Fin 40"
    by (simp add: summarises_def agg_metric_def min_def max_def)
  ultimately show ?thesis by blast
qed

text \<open>C12: a run repeated on the same samples changes nothing but the time of the update.\<close>

theorem aggregate_idempotent:
  assumes "aggregates_unique d" and "window_metrics d sid ps pe \<noteq> []"
    and "avg (map met_cpu_percent (window_metrics d sid ps pe)) = Inr a1"
    and "avg (map met_memory_percent (window_metrics d sid ps pe)) = Inr a2"
    and "avg (map met_disk_percent (window_metrics d sid ps pe)) = Inr a3"
  shows "let d1 = snd (aggregate_system_metrics avg e sid pt ps pe d);
             d2 = snd (aggregate_system_metrics avg e' sid pt ps pe d1)
    in rows (metric_aggregates d2) = map (\<lambda>r. if ma_key r = (sid, pt, ps)
         then r\<lparr>ma_updated_at := db_clock e'\<rparr> else r) (rows (metric_aggregates d1))"
proof -
  obtain r t where t: "aggregate_system_metrics avg e sid pt ps pe d = (Inr (Some r), d\<lparr>metric_aggregates := t\<rparr>)"
    and r: "select (\<lambda>r. ma_key r = (sid, pt, ps)) t = [r]" "summarises r avg (window_metrics d sid ps pe)"
    and u: "distinct (map ma_key (rows t))"
    by (rule aggregate_system_row [OF assms, of e pt]) blast
  let ?d1 = "d\<lparr>metric_aggregates := t\<rparr>"
  have w: "window_metrics ?d1 i s s' = window_metrics d i s s'" for i s s'
    by (simp add: window_metrics_def)
  have u1: "aggregates_unique ?d1" using assms(1) u by (simp add: aggregates_unique_def)
  obtain r2 t2 mk where t2: "aggregate_system_metrics avg e' sid pt ps pe ?d1 = (Inr (Some r2), ?d1\<lparr>metric_aggregates := t2\<rparr>)"
    and mk: "t2 = upsert ma_key merge_metric_aggregate (db_clock e') mk t"
    and sum: "\<And>i. ma_key (mk i) = (sid, pt, ps)" "\<And>i. summarises (mk i) avg (window_metrics d sid ps pe)"
    by (rule aggregate_system_row [OF u1, unfolded w, OF assms(2-5), of e' pt]) (simp, blast)
  have in_t: "q \<in> set (rows t) \<and> ma_key q = (sid, pt, ps) \<longleftrightarrow> q = r" for q
  proof -
    have "q \<in> set (select (\<lambda>r. ma_key r = (sid, pt, ps)) t) \<longleftrightarrow> q = r" by (simp add: r(1))
    then show ?thesis by (simp add: table_simps)
  qed
  have "merge_metric_aggregate (db_clock e') (mk i) r = r\<lparr>ma_updated_at := db_clock e'\<rparr>" for i
    using r(2) sum(2) [of i] by (simp add: merge_metric_aggregate_def summarises_def)
  then have "merge_metric_aggregate (db_clock e') (mk i) q = q\<lparr>ma_updated_at := db_clock e'\<rparr>"
    if "q \<in> set (rows t)" and "ma_key q = (sid, pt, ps)" for i q
    using in_t [of q] that by simp
  moreover have "\<exists>q \<in> set (rows t). ma_key q = (sid, pt, ps)" using in_t [of r] by blast
  ultimately have "rows t2 = map (\<lambda>q. if ma_key q = (sid, pt, ps) then q\<lparr>ma_updated_at := db_clock e'\<rparr> else q) (rows t)"
    by (simp add: mk upsert_def Let_def update_where_def sum(1))
  then show ?thesis by (simp add: t t2 Let_def)
qed

theorem aggregate_idempotent_witness:
  "let d1 = snd (aggregate_system_metrics demo_avg (env_at 7) 1 Fivemin 0 300000000 demo_agg_db);
       d2 = snd (aggregate_system_metrics demo_avg (env_at 9) 1 Fivemin 0 300000000 d1)
    in rows (metric_aggregates d2) = map (\<lambda>r. if ma_key r = (1, Fivemin, 0)
         then r\<lparr>ma_updated_at := db_clock (env_at 9)\<rparr> else r) (rows (metric_aggregates d1))"
  by (rule aggregate_idempotent [OF demo_agg_unique _ demo_avgs]) (simp add: demo_agg_window)

section \<open>All servers\<close>

lemma ma_row_other:
  "aggregate_container avg e sid pt ps pe c d = Inr (x, d') \<Longrightarrow>
    metric_aggregates d' = metric_aggregates d \<and> metrics d' = metrics d
    \<and> docker_metrics d' = docker_metrics d \<and> servers d' = servers d"
  by (auto simp: aggregate_container_def Let_def split: if_splits sum.splits list.splits)

lemma containers_frame:
  "aggregate_containers avg e sid pt ps pe cs d = Inr (xs, d') \<Longrightarrow>
    metric_aggregates d' = metric_aggregates d \<and> metrics d' = metrics d
    \<and> docker_metrics d' = docker_metrics d \<and> servers d' = servers d"
  by (induction cs arbitrary: d xs d') (fastforce split: sum.splits prod.splits dest: ma_row_other)+

lemma docker_frame:
  "metric_aggregates (snd (aggregate_docker_metrics avg e sid pt ps pe d)) = metric_aggregates d
    \<and> metrics (snd (aggregate_docker_metrics avg e sid pt ps pe d)) = metrics d
    \<and> docker_metrics (snd (aggregate_docker_metrics avg e sid pt ps pe d)) = docker_metrics d
    \<and> servers (snd (aggregate_docker_metrics avg e sid pt ps pe d)) = servers d"
  using containers_frame
  by (fastforce simp: aggregate_docker_metrics_def Let_def split: sum.splits prod.splits)

text \<open>With an average that never overflows nothing fails.\<close>

definition avg_total :: "sql_avg \<Rightarrow> bool" where
  "avg_total avg \<longleftrightarrow> (\<forall>xs. xs \<noteq> [] \<longrightarrow> (\<exists>v. avg xs = Inr v))"

lemma avg_totalE: "avg_total avg \<Longrightarrow> xs \<noteq> [] \<Longrightarrow> \<exists>v. avg xs = Inr v"
  by (simp add: avg_total_def)

lemma container_total:
  assumes "avg_total avg" and "distinct (map da_key (rows (docker_aggregates d)))"
  shows "\<exists>x d'. aggregate_container avg e sid pt ps pe c d = Inr (x, d')
    \<and> distinct (map da_key (rows (docker_aggregates d')))"
proof (cases "filter (\<lambda>m. dm_container_name m = c) (window_docker_metrics d sid ps pe) = []")
  case True
  with assms(2) show ?thesis by (simp add: aggregate_container_def)
next
  case False
  let ?ms = "filter (\<lambda>m. dm_container_name m = c) (window_docker_metrics d sid ps pe)"
  obtain a where a: "avg (map dm_cpu_percent ?ms) = Inr a"
    using avg_totalE [OF assms(1), of "map dm_cpu_percent ?ms"] False by auto
  obtain b where b: "avg (map dm_memory_usage_mb ?ms) = Inr b"
    using avg_totalE [OF assms(1), of "map dm_memory_usage_mb ?ms"] False by auto
  note ab = a b
  define mk where "mk = (\<lambda>i. \<lparr>da_id = i, da_server_id = sid, da_container_name = c,
                    da_period_type = pt, da_period_start = ps, da_period_end = pe,
                    da_avg_cpu = a, da_min_cpu = sql_min (map dm_cpu_percent ?ms),
                    da_max_cpu = sql_max (map dm_cpu_percent ?ms),
                    da_avg_memory_usage = b, da_max_memory_usage = sql_max (map dm_memory_usage_mb ?ms),
                    da_total_rx_bytes = 0, da_total_tx_bytes = 0, da_sample_count = int (length ?ms),
                    da_created_at = db_clock e, da_updated_at = db_clock e\<rparr>)"
  let ?t = "upsert da_key merge_docker_aggregate (db_clock e) mk (docker_aggregates d)"
  have "da_key (mk i) = (sid, c, pt, ps)" for i by (simp add: mk_def da_key_def)
  then obtain r where "select (\<lambda>r. da_key r = (sid, c, pt, ps)) ?t = [r]"
    using da.upsert_rows_of_key [OF assms(2), of mk "db_clock e"]
    by (cases "select (\<lambda>r. da_key r = (sid, c, pt, ps)) (docker_aggregates d)") auto
  then have "aggregate_container avg e sid pt ps pe c d = Inr (Some r, d\<lparr>docker_aggregates := ?t\<rparr>)"
    using False ab by (simp add: aggregate_container_def Let_def mk_def)
  then show ?thesis using da.upsert_unique [OF assms(2)] by simp
qed

lemma containers_total:
  assumes "avg_total avg" and "distinct (map da_key (rows (docker_aggregates d)))"
  shows "\<exists>xs d'. aggregate_containers avg e sid pt ps pe cs d = Inr (xs, d')
    \<and> distinct (map da_key (rows (docker_aggregates d')))"
  using assms(2)
proof (induction cs arbitrary: d)
  case (Cons c cs)
  from container_total [OF assms(1) Cons.prems] obtain x d1
    where "aggregate_container avg e sid pt ps pe c d = Inr (x, d1)"
      and "distinct (map da_key (rows (docker_aggregates d1)))" by blast
  with Cons.IH [of d1] show ?case by auto
qed simp

lemma server_step:
  assumes "avg_total avg" and "aggregates_unique d"
  shows "\<exists>d'. aggregate_server avg e pt ps pe sid (False, d) = (False, d')
    \<and> aggregates_unique d' \<and> metrics d' = metrics d
    \<and> (\<forall>k. k \<noteq> (sid, pt, ps) \<longrightarrow>
      select (\<lambda>r. ma_key r = k) (metric_aggregates d') = select (\<lambda>r. ma_key r = k) (metric_aggregates d))
    \<and> (window_metrics d sid ps pe \<noteq> [] \<longrightarrow> (\<exists>r.
      select (\<lambda>r. ma_key r = (sid, pt, ps)) (metric_aggregates d') = [r]
      \<and> summarises r avg (window_metrics d sid ps pe)))"
proof -
  obtain o1 t where s: "aggregate_system_metrics avg e sid pt ps pe d = (Inr o1, d\<lparr>metric_aggregates := t\<rparr>)"
    and u: "distinct (map ma_key (rows t))"
    and other: "\<And>k. k \<noteq> (sid, pt, ps) \<Longrightarrow>
      select (\<lambda>r. ma_key r = k) t = select (\<lambda>r. ma_key r = k) (metric_aggregates d)"
    and own: "window_metrics d sid ps pe \<noteq> [] \<Longrightarrow> \<exists>r. select (\<lambda>r. ma_key r = (sid, pt, ps)) t = [r]
      \<and> summarises r avg (window_metrics d sid ps pe)"
  proof (cases "window_metrics d sid ps pe = []")
    case True
    then have "aggregate_system_metrics avg e sid pt ps pe d =
        (Inr None, d\<lparr>metric_aggregates := metric_aggregates d\<rparr>)"
      by (simp add: aggregate_system_metrics_def)
    then show ?thesis
      using that assms(2) True unfolding aggregates_unique_def by blast
  next
    case False
    let ?ms = "window_metrics d sid ps pe"
    obtain a1 where a1: "avg (map met_cpu_percent ?ms) = Inr a1"
      using avg_totalE [OF assms(1), of "map met_cpu_percent ?ms"] False by auto
    obtain a2 where a2: "avg (map met_memory_percent ?ms) = Inr a2"
      using avg_totalE [OF assms(1), of "map met_memory_percent ?ms"] False by auto
    obtain a3 where a3: "avg (map met_disk_percent ?ms) = Inr a3"
      using avg_totalE [OF assms(1), of "map met_disk_percent ?ms"] False by auto
    obtain r t where "aggregate_system_metrics avg e sid pt ps pe d = (Inr (Some r), d\<lparr>metric_aggregates := t\<rparr>)"
      and "select (\<lambda>r. ma_key r = (sid, pt, ps)) t = [r] \<and> summarises r avg ?ms"
      and "distinct (map ma_key (rows t))"
      and "\<And>k. k \<noteq> (sid, pt, ps) \<Longrightarrow>
        select (\<lambda>r. ma_key r = k) t = select (\<lambda>r. ma_key r = k) (metric_aggregates d)"
      by (rule aggregate_system_row [OF assms(2) False a1 a2 a3, of e pt]) blast
    then show ?thesis
      using that [of "Some r" t] False by blast
  qed
  let ?d1 = "d\<lparr>metric_aggregates := t\<rparr>"
  obtain xs d2 where d: "aggregate_docker_metrics avg e sid pt ps pe ?d1 = (Inr xs, d2)"
    and u2: "distinct (map da_key (rows (docker_aggregates d2)))"
  proof -
    have da: "distinct (map da_key (rows (docker_aggregates ?d1)))"
      using assms(2) by (simp add: aggregates_unique_def)
    from containers_total [OF assms(1) da, of e sid pt ps pe
        "remdups (map dm_container_name (window_docker_metrics ?d1 sid ps pe))"] da that
    show ?thesis
      by (cases "window_docker_metrics ?d1 sid ps pe = []") (auto simp: aggregate_docker_metrics_def Let_def)
  qed
  from docker_frame [of avg e sid pt ps pe ?d1] d
  have f: "metric_aggregates d2 = t" "metrics d2 = metrics d" by simp_all
  have "aggregate_server avg e pt ps pe sid (False, d) = (False, d2)"
    by (simp add: aggregate_server_def s d)
  with f u u2 other own show ?thesis
    by (intro exI [of _ d2]) (simp add: aggregates_unique_def)
qed

lemma all_servers_fold:
  assumes "avg_total avg" and "aggregates_unique d"
  shows "\<exists>d'. fold (aggregate_server avg e pt ps pe) ids (False, d) = (False, d')
    \<and> aggregates_unique d' \<and> metrics d' = metrics d
    \<and> (\<forall>k. k \<notin> (\<lambda>i. (i, pt, ps)) ` set ids \<longrightarrow>
        select (\<lambda>r. ma_key r = k) (metric_aggregates d') = select (\<lambda>r. ma_key r = k) (metric_aggregates d))
    \<and> (\<forall>i \<in> set ids. window_metrics d i ps pe \<noteq> [] \<longrightarrow> (\<exists>r.
        select (\<lambda>r. ma_key r = (i, pt, ps)) (metric_aggregates d') = [r]
        \<and> summarises r avg (window_metrics d i ps pe)))"
  using assms(2)
proof (induction ids arbitrary: d)
  case (Cons i ids)
  from server_step [OF assms(1) Cons.prems, of e pt ps pe i] obtain d1
    where d1: "aggregate_server avg e pt ps pe i (False, d) = (False, d1)" "aggregates_unique d1"
      "metrics d1 = metrics d"
      and other: "\<forall>k. k \<noteq> (i, pt, ps) \<longrightarrow>
        select (\<lambda>r. ma_key r = k) (metric_aggregates d1) = select (\<lambda>r. ma_key r = k) (metric_aggregates d)"
      and own: "window_metrics d i ps pe \<noteq> [] \<longrightarrow> (\<exists>r.
        select (\<lambda>r. ma_key r = (i, pt, ps)) (metric_aggregates d1) = [r]
        \<and> summarises r avg (window_metrics d i ps pe))"
    by (elim exE conjE)
  have w: "window_metrics d1 j a b = window_metrics d j a b" for j a b
    by (simp add: window_metrics_def d1(3))
  from Cons.IH [OF d1(2), unfolded w d1(3)] obtain d'
    where d': "fold (aggregate_server avg e pt ps pe) ids (False, d1) = (False, d')"
      "aggregates_unique d'" "metrics d' = metrics d"
      and other': "\<forall>k. k \<notin> (\<lambda>i. (i, pt, ps)) ` set ids \<longrightarrow>
        select (\<lambda>r. ma_key r = k) (metric_aggregates d') = select (\<lambda>r. ma_key r = k) (metric_aggregates d1)"
      and own': "\<forall>i \<in> set ids. window_metrics d i ps pe \<noteq> [] \<longrightarrow> (\<exists>r.
        select (\<lambda>r. ma_key r = (i, pt, ps)) (metric_aggregates d') = [r]
        \<and> summarises r avg (window_metrics d i ps pe))"
    by (elim exE conjE)
  have "\<exists>r. select (\<lambda>r. ma_key r = (i, pt, ps)) (metric_aggregates d') = [r]
      \<and> summarises r avg (window_metrics d i ps pe)" if "window_metrics d i ps pe \<noteq> []"
  proof (cases "i \<in> set ids")
    case True
    with own' that show ?thesis by simp
  next
    case False
    then have "(i, pt, ps) \<notin> (\<lambda>i. (i, pt, ps)) ` set ids" by auto
    with other' own that show ?thesis by simp
  qed
  moreover have "fold (aggregate_server avg e pt ps pe) (i # ids) (False, d) = (False, d')"
    by (simp add: d1(1) d'(1))
  moreover have "select (\<lambda>r. ma_key r = k) (metric_aggregates d') = select (\<lambda>r. ma_key r = k) (metric_aggregates d)"
    if "k \<notin> (\<lambda>i. (i, pt, ps)) ` set (i # ids)" for k
    using that other [rule_format, of k] other' [rule_format, of k] by simp
  ultimately show ?case using d'(2,3) own' by (intro exI [of _ d'] conjI) auto
qed simp

text \<open>
  when no average overflows, a run over all servers gives every server that has samples
  in the window exactly one row for it, and that row summarises them.\<close>

theorem every_server_aggregated:
  assumes "avg_total avg" and "aggregates_unique d" and "s \<in> set (rows (servers d))"
    and "window_metrics d (srv_id s) ps pe \<noteq> []"
  shows "\<exists>r. select (\<lambda>r. ma_key r = (srv_id s, pt, ps))
      (metric_aggregates (aggregate_all_servers avg e pt ps pe d)) = [r]
    \<and> summarises r avg (window_metrics d (srv_id s) ps pe)"
proof -
  have "srv_id s \<in> set (map srv_id (rows (servers d)))" using assms(3) by simp
  with all_servers_fold [OF assms(1,2), of e pt ps pe "map srv_id (rows (servers d))"] assms(4)
  show ?thesis unfolding aggregate_all_servers_def by fastforce
qed

definition first_avg :: sql_avg where
  "first_avg xs = Inr (hd xs)"

theorem every_server_witness:
  "\<exists>r. select (\<lambda>r. ma_key r = (srv_id demo_server, Fivemin, 0))
      (metric_aggregates (aggregate_all_servers first_avg (env_at 7) Fivemin 0 300000000 demo_agg_db)) = [r]
    \<and> summarises r first_avg (window_metrics demo_agg_db (srv_id demo_server) 0 300000000)"
  by (rule every_server_aggregated)
     (use demo_agg_window demo_agg_unique in \<open>simp_all add: avg_total_def first_avg_def demo_server_def\<close>)

text \<open>C18: one server whose samples overflow the average stops the run for every server after
  it in the list: the handler swallows the exception but leaves the transaction failed, so
  the result is the database the servers before it left.\<close>

theorem overflow_stops_later_servers:
  assumes "map srv_id (rows (servers d)) = before @ sid # later"
    and "fold (aggregate_server avg e pt ps pe) before (False, d) = (False, d1)"
    and "window_metrics d1 sid ps pe \<noteq> []"
    and "avg (map met_cpu_percent (window_metrics d1 sid ps pe)) = Inl DataError"
  shows "aggregate_all_servers avg e pt ps pe d = d1"
proof -
  have "aggregate_server avg e pt ps pe sid (False, d1) = (True, d1)"
    using assms(3,4) by (simp add: aggregate_server_def aggregate_system_metrics_def Let_def)
  moreover have "fold (aggregate_server avg e pt ps pe) ids (True, d1) = (True, d1)" for ids
    by (induction ids) (simp_all add: aggregate_server_def)
  ultimately show ?thesis
    by (simp add: aggregate_all_servers_def assms(1,2))
qed

definition two_servers_db :: db where
  "two_servers_db = demo_db\<lparr>
     servers := \<lparr>rows = [demo_server, demo_server\<lparr>srv_id := 2, srv_name := ''db''\<rparr>], seq = 3\<rparr>,
     metrics := \<lparr>rows = [(agg_metric 1 1 0)\<lparr>met_cpu_percent := PosInf\<rparr>, agg_metric 2 2 40], seq = 3\<rparr>\<rparr>"

theorem overflow_witness:
  "aggregate_all_servers demo_avg (env_at 7) Fivemin 0 300000000 two_servers_db = two_servers_db
   \<and> window_metrics two_servers_db 2 0 300000000 \<noteq> []"
proof
  show "aggregate_all_servers demo_avg (env_at 7) Fivemin 0 300000000 two_servers_db = two_servers_db"
    by (rule overflow_stops_later_servers [of _ "[]" 1 "[2]"])
       (simp_all add: two_servers_db_def demo_server_def window_metrics_def table_simps agg_metric_def demo_avg_def)
  show "window_metrics two_servers_db 2 0 300000000 \<noteq> []"
    by (simp add: two_servers_db_def window_metrics_def table_simps agg_metric_def)
qed

end
