(* ===== verification/PW_Ingest.thy ===== *)
theory PW_Ingest
  imports PW_Security PW_Threshold
begin

text \<open>
  The two endpoints agents post to (\<open>app/api/metrics.py\<close>, \<open>app/api/docker_metrics.py\<close>): the
  rows are stored and the server is marked as seen in one commit, then the rules are evaluated
  and the metric is published, both best-effort. A commit of the evaluation that fails rolls
  the session back and expires its rows, so the publication after it, which reads them, fails
  as well; both failures are swallowed.
\<close>

record metric_create =
  mc_cpu_percent :: pyfloat
  mc_memory_percent :: pyfloat
  mc_disk_percent :: pyfloat
  mc_agent_version :: "string option"

datatype ingest_status = Paused | Stored nat

definition set_server :: "int \<Rightarrow> (server \<Rightarrow> server) \<Rightarrow> db \<Rightarrow> db" where
  "set_server i f d = d\<lparr>servers := update_where (\<lambda>s. srv_id s = i) f (servers d)\<rparr>"

text \<open>\<open>data.agent_version and data.agent_version != server.agent_version\<close>.\<close>

definition new_agent_version :: "string option \<Rightarrow> server \<Rightarrow> string option" where
  "new_agent_version version s = (case version of
     Some v \<Rightarrow> if v \<noteq> [] \<and> version \<noteq> srv_agent_version s then Some v else srv_agent_version s
   | None \<Rightarrow> srv_agent_version s)"

definition metric_data_of :: "metric_create \<Rightarrow> metric_data" where
  "metric_data_of data = [(''cpu_percent'', Some (mc_cpu_percent data)),
     (''memory_percent'', Some (mc_memory_percent data)),
     (''disk_percent'', Some (mc_disk_percent data))]"

definition new_metric :: "env \<Rightarrow> int \<Rightarrow> metric_create \<Rightarrow> int \<Rightarrow> metric" where
  "new_metric e server_id data i = \<lparr>met_id = i, met_server_id = server_id,
     met_cpu_percent = mc_cpu_percent data, met_memory_percent = mc_memory_percent data,
     met_disk_percent = mc_disk_percent data, met_collected_at = db_clock e\<rparr>"

definition publish_after :: "env \<Rightarrow> exc + 'b \<Rightarrow> string \<times> payload \<Rightarrow> 'r app \<Rightarrow> 'r app" where
  "publish_after e evaluated msg a =
     (case evaluated of
        Inl _ \<Rightarrow> a
      | Inr _ \<Rightarrow> if publish_ok e then a\<lparr>app_pub := app_pub a @ [msg]\<rparr> else a)"

definition submit_metric :: "env \<Rightarrow> metric_create \<Rightarrow> server \<Rightarrow> 'r app \<Rightarrow> ingest_status result \<times> 'r app" where
  "submit_metric e data srv a =
     (if srv_paused srv then (Inr Paused, a)
      else
        let d = app_db a; i = srv_id srv;
            touch = (\<lambda>s. s\<lparr>srv_last_seen_at := Some (db_clock e),
              srv_agent_version := new_agent_version (mc_agent_version data) srv\<rparr>)
        in if \<not> server_fits (touch srv) then (Inl (Unhandled DataError), a)
           else
             let m = new_metric e i data;
                 d1 = set_server i touch (d\<lparr>metrics := insert_row m (metrics d)\<rparr>);
                 (evaluated, a1) = evaluate_system_metrics e i (metric_data_of data) (a\<lparr>app_db := d1\<rparr>)
             in (Inr (Stored 1), publish_after e evaluated (publish_metric i (m (seq (metrics d)))) a1))"

text \<open>The docker endpoint. The loop over the items stops at the first evaluation that raises.\<close>

definition docker_data_of :: "docker_item \<Rightarrow> string \<times> metric_data" where
  "docker_data_of item = (di_container_name item,
     [(''cpu_percent'', Some (di_cpu_percent item)), (''memory_usage_mb'', Some (di_memory_usage_mb item)),
      (''memory_limit_mb'', di_memory_limit_mb item)])"

fun evaluate_items :: "env \<Rightarrow> int \<Rightarrow> docker_item list \<Rightarrow> 'r app \<Rightarrow> (exc + unit) \<times> 'r app" where
  "evaluate_items e i [] a = (Inr (), a)"
| "evaluate_items e i (item # items) a =
     (case evaluate_docker_metrics e i (docker_data_of item) a of
        (Inl x, a1) \<Rightarrow> (Inl x, a1)
      | (Inr _, a1) \<Rightarrow> evaluate_items e i items a1)"

definition new_docker_metric :: "env \<Rightarrow> int \<Rightarrow> docker_item \<Rightarrow> int \<Rightarrow> docker_metric" where
  "new_docker_metric e server_id item i = \<lparr>dm_id = i, dm_server_id = server_id,
     dm_container_id = di_container_id item, dm_container_name = di_container_name item,
     dm_image = di_image item, dm_status = di_status item, dm_cpu_percent = di_cpu_percent item,
     dm_memory_usage_mb = di_memory_usage_mb item, dm_memory_limit_mb = di_memory_limit_mb item,
     dm_collected_at = db_clock e\<rparr>"

definition submit_docker_metrics :: "env \<Rightarrow> docker_item list \<Rightarrow> server \<Rightarrow> 'r app
    \<Rightarrow> ingest_status result \<times> 'r app" where
  "submit_docker_metrics e data srv a =
     (if srv_paused srv then (Inr Paused, a)
      else
        let d = app_db a; i = srv_id srv;
            d1 = set_server i (\<lambda>s. s\<lparr>srv_last_seen_at := Some (db_clock e)\<rparr>)
              (d\<lparr>docker_metrics := insert_all (map (new_docker_metric e i) data) (docker_metrics d)\<rparr>);
            (evaluated, a1) = evaluate_items e i data (a\<lparr>app_db := d1\<rparr>)
        in (Inr (Stored (length data)), publish_after e evaluated (publish_docker_metric i data) a1))"

text \<open>The endpoints: the API key picks the server.\<close>

definition with_api_key :: "crypto \<Rightarrow> string option \<Rightarrow> (server \<Rightarrow> 'r app \<Rightarrow> 'a result \<times> 'r app)
    \<Rightarrow> 'r app \<Rightarrow> 'a result \<times> 'r app" where
  "with_api_key C api_key handler a = (case verify_api_key C api_key (app_db a) of
     Inl x \<Rightarrow> (Inl x, a)
   | Inr s \<Rightarrow> handler s a)"

section \<open>What an upload keeps\<close>

lemma set_server_tables [simp]:
  "users (set_server i f d) = users d" "metrics (set_server i f d) = metrics d"
  "docker_metrics (set_server i f d) = docker_metrics d"
  "alert_rules (set_server i f d) = alert_rules d" "alert_events (set_server i f d) = alert_events d"
  "logs (set_server i f d) = logs d" "audit_logs (set_server i f d) = audit_logs d"
  by (simp_all add: set_server_def)

lemma set_server_ok:
  assumes "db_ok d" and "\<And>s. srv_id (f s) = srv_id s" and "\<And>s. srv_owner_id (f s) = srv_owner_id s"
    and "\<And>s. srv_name (f s) = srv_name s"
  shows "db_ok (set_server i f d)"
  unfolding set_server_def
  by (rule db_ok_servers)
    (use assms db_ok_keyed [OF assms(1)] db_ok_unique [OF assms(1)] db_ok_fk [OF assms(1)] in
      \<open>auto simp: map_update_where image_update_where server_ids_def keyed_update\<close>)

lemma publish_after_db [simp]:
  "app_db (publish_after e x m a) = app_db a" "app_rd (publish_after e x m a) = app_rd a"
  by (simp_all add: publish_after_def split: sum.split)

text \<open>The evaluations touch the rules and the events only.\<close>

lemma evaluate_rules_frame:
  "metrics (app_db (snd (evaluate_rules c f ev e i a))) = metrics (app_db a)"
  "docker_metrics (app_db (snd (evaluate_rules c f ev e i a))) = docker_metrics (app_db a)"
  "servers (app_db (snd (evaluate_rules c f ev e i a))) = servers (app_db a)"
  "users (app_db (snd (evaluate_rules c f ev e i a))) = users (app_db a)"
  by (simp_all add: evaluate_rules_def Let_def)

lemma evaluate_frame:
  "metrics (app_db (snd (evaluate_system_metrics e i x a))) = metrics (app_db a)"
  "servers (app_db (snd (evaluate_system_metrics e i x a))) = servers (app_db a)"
  "docker_metrics (app_db (snd (evaluate_docker_metrics e i y a))) = docker_metrics (app_db a)"
  "servers (app_db (snd (evaluate_docker_metrics e i y a))) = servers (app_db a)"
  by (simp_all add: evaluate_system_metrics_def evaluate_docker_metrics_def evaluate_rules_frame)

lemma evaluate_items_frame:
  "docker_metrics (app_db (snd (evaluate_items e i items a))) = docker_metrics (app_db a)"
  "servers (app_db (snd (evaluate_items e i items a))) = servers (app_db a)"
proof (induction items arbitrary: a)
  case (Cons item items)
  {
    case 1
    show ?case
      using evaluate_frame(3) [of e i "docker_data_of item" a] Cons.IH
      by (auto split: prod.splits sum.splits)
  next
    case 2
    show ?case
      using evaluate_frame(4) [of e i "docker_data_of item" a] Cons.IH
      by (auto split: prod.splits sum.splits)
  }
qed simp_all

lemma evaluate_items_ok: "db_ok (app_db a) \<Longrightarrow> db_ok (app_db (snd (evaluate_items e i items a)))"
proof (induction items arbitrary: a)
  case (Cons item items)
  from evaluate_docker_ok [OF Cons.prems, of e i "docker_data_of item"] show ?case using Cons.IH by (auto split: prod.splits sum.splits)
qed simp

lemma submit_metric_ok:
  assumes "db_ok (app_db a)" and "srv \<in> set (rows (servers (app_db a)))"
  shows "db_ok (app_db (snd (submit_metric e data srv a)))"
proof -
  let ?d = "(app_db a)\<lparr>metrics := insert_row (new_metric e (srv_id srv) data) (metrics (app_db a))\<rparr>"
  have "db_ok ?d"
    using assms db_ok_fk(2) [OF assms(1)] db_ok_keyed(3) [OF assms(1)]
    by (intro db_ok_metrics) (auto simp: new_metric_def server_ids_def)
  then show ?thesis
    using assms(1) by (simp add: submit_metric_def Let_def split_beta evaluate_system_ok set_server_ok)
qed

lemma submit_docker_metrics_ok:
  assumes "db_ok (app_db a)" and "srv \<in> set (rows (servers (app_db a)))"
  shows "db_ok (app_db (snd (submit_docker_metrics e data srv a)))"
proof -
  let ?mks = "map (new_docker_metric e (srv_id srv)) data"
  let ?d = "(app_db a)\<lparr>docker_metrics := insert_all ?mks (docker_metrics (app_db a))\<rparr>"
  have "dm_server_id ` set (new_rows ?mks k) \<subseteq> server_ids (app_db a)" for k
    using assms(2) by (auto simp: new_docker_metric_def server_ids_def dest!: new_rows_from)
  then have "db_ok ?d"
    using assms db_ok_fk(3) [OF assms(1)] db_ok_keyed(4) [OF assms(1)]
    by (intro db_ok_docker_metrics keyed_insert_all) (auto simp: new_docker_metric_def)
  then show ?thesis
    using assms(1) by (simp add: submit_docker_metrics_def Let_def split_beta evaluate_items_ok set_server_ok)
qed

section \<open>Properties\<close>

text \<open>C9: a metric that authenticates for a server that is not paused (a paused one's is ignored)
  is stored exactly once with the posted values and the database's time, and its server is marked as seen, whatever becomes of the evaluation
  of the rules, of the queue and of the publication; only an agent version that does not fit
  its column refuses the upload, and then nothing is stored.\<close>

theorem metric_stored:
  assumes "verify_api_key C key (app_db a) = Inr srv" and "\<not> srv_paused srv"
    and "db_ok (app_db a)"
  shows "case with_api_key C key (submit_metric e data) a of
      (Inr st, a') \<Rightarrow> st = Stored 1
        \<and> rows (metrics (app_db a')) = rows (metrics (app_db a))
            @ [new_metric e (srv_id srv) data (seq (metrics (app_db a)))]
        \<and> (\<exists>s \<in> set (rows (servers (app_db a'))). srv_id s = srv_id srv
            \<and> srv_last_seen_at s = Some (db_clock e)
            \<and> srv_agent_version s = new_agent_version (mc_agent_version data) srv)
        \<and> db_ok (app_db a')
    | (Inl x, a') \<Rightarrow> x = Unhandled DataError \<and> a' = a
        \<and> \<not> fits 64 (new_agent_version (mc_agent_version data) srv)"
proof -
  have srv: "srv \<in> set (rows (servers (app_db a)))"
    by (rule verify_api_key_active [OF assms(1)])
  let ?f = "\<lambda>s. s\<lparr>srv_last_seen_at := Some (db_clock e),
    srv_agent_version := new_agent_version (mc_agent_version data) srv\<rparr>"
  have "?f srv \<in> set (rows (servers (set_server (srv_id srv) ?f d)))" if "servers d = servers (app_db a)" for d
    using srv that by (force simp: set_server_def table_simps)
  note row = bexI [OF _ this]
  show ?thesis
    using assms(1,2) submit_metric_ok [OF assms(3) srv, of e data]
    by (auto simp: with_api_key_def submit_metric_def Let_def split_beta server_fits_def
        evaluate_frame insert_row_def intro!: row)
qed

lemma demo_key: "verify_api_key plain_crypto (Some (api_key_of 1 ''key'')) demo_db = Inr demo_server"
  using verify_api_key_of [of demo_db demo_server plain_crypto "''key''"]
  by (simp add: demo_defs keyed_def int32_def verify_password_def plain_crypto_def)

definition demo_upload :: metric_create where
  "demo_upload = \<lparr>mc_cpu_percent = Fin 95, mc_memory_percent = Fin 10, mc_disk_percent = Fin 10,
     mc_agent_version = Some ''1.0''\<rparr>"

theorem metric_stored_witness:
  "case with_api_key plain_crypto (Some (api_key_of 1 ''key'')) (submit_metric (env_at 0) demo_upload) demo_state of
      (Inr st, a') \<Rightarrow> st = Stored 1
        \<and> rows (metrics (app_db a')) = [new_metric (env_at 0) 1 demo_upload 1]
    | (Inl x, a') \<Rightarrow> \<not> fits 64 (Some ''1.0'')"
  using metric_stored [where C = plain_crypto and key = "Some (api_key_of 1 ''key'')" and a = demo_state
      and srv = demo_server and e = "env_at 0" and data = demo_upload]
  by (auto simp: demo_key demo_defs empty_table_def demo_upload_def new_agent_version_def
      split: sum.splits prod.splits)

text \<open>A paused server's uploads are acknowledged and change nothing at all.\<close>

theorem paused_server_ignored:
  assumes "verify_api_key C key (app_db a) = Inr srv" and "srv_paused srv"
  shows "with_api_key C key (submit_metric e data) a = (Inr Paused, a)
    \<and> with_api_key C key (submit_docker_metrics e items) a = (Inr Paused, a)"
  using assms by (simp add: with_api_key_def submit_metric_def submit_docker_metrics_def)

definition demo_paused :: "kv app" where
  "demo_paused = demo_state\<lparr>app_db := demo_db\<lparr>servers := \<lparr>rows = [demo_server\<lparr>srv_paused := True\<rparr>], seq = 2\<rparr>\<rparr>\<rparr>"

lemma demo_paused_key:
  "verify_api_key plain_crypto (Some (api_key_of 1 ''key'')) (app_db demo_paused)
    = Inr (demo_server\<lparr>srv_paused := True\<rparr>)"
  using verify_api_key_of [of "app_db demo_paused" "demo_server\<lparr>srv_paused := True\<rparr>" plain_crypto "''key''"]
  by (simp add: demo_paused_def demo_defs keyed_def int32_def verify_password_def plain_crypto_def)

theorem paused_server_witness:
  "with_api_key plain_crypto (Some (api_key_of 1 ''key'')) (submit_metric (env_at 0) demo_upload) demo_paused
    = (Inr Paused, demo_paused)"
  using paused_server_ignored [OF demo_paused_key] by simp

text \<open>A docker batch that authenticates on a server that is not paused stores one row per
  item, in order, marks the server as seen and keeps the database constraints, whatever the
  evaluation of the rules does.\<close>

theorem docker_batch_stored:
  assumes "verify_api_key C key (app_db a) = Inr srv" and "\<not> srv_paused srv" and "db_ok (app_db a)"
  shows "\<exists>a'. with_api_key C key (submit_docker_metrics e items) a = (Inr (Stored (length items)), a')
    \<and> rows (docker_metrics (app_db a')) = rows (docker_metrics (app_db a))
        @ new_rows (map (new_docker_metric e (srv_id srv)) items) (seq (docker_metrics (app_db a)))
    \<and> (\<exists>s \<in> set (rows (servers (app_db a'))). srv_id s = srv_id srv
        \<and> srv_last_seen_at s = Some (db_clock e))
    \<and> db_ok (app_db a')"
proof -
  have srv: "srv \<in> set (rows (servers (app_db a)))"
    by (rule verify_api_key_active [OF assms(1)])
  let ?f = "\<lambda>s. s\<lparr>srv_last_seen_at := Some (db_clock e)\<rparr>"
  have "?f srv \<in> set (rows (servers (set_server (srv_id srv) ?f d)))" if "servers d = servers (app_db a)" for d
    using srv that by (force simp: set_server_def table_simps)
  note row = bexI [OF _ this]
  show ?thesis
    using assms(1,2) submit_docker_metrics_ok [OF assms(3) srv, of e items]
    by (auto simp: with_api_key_def submit_docker_metrics_def Let_def split_beta
        evaluate_items_frame intro!: row)
qed

definition demo_item :: docker_item where
  "demo_item = \<lparr>di_container_id = ''c1'', di_container_name = ''nginx'', di_image = ''nginx'',
     di_status = ''running'', di_cpu_percent = Fin 95, di_memory_usage_mb = Fin 10, di_memory_limit_mb = None\<rparr>"

theorem docker_batch_witness:
  "\<exists>a'. with_api_key plain_crypto (Some (api_key_of 1 ''key''))
      (submit_docker_metrics (env_at 0) [demo_item]) demo_state = (Inr (Stored 1), a')
    \<and> rows (docker_metrics (app_db a')) = [new_docker_metric (env_at 0) 1 demo_item 1]"
  using docker_batch_stored [where C = plain_crypto and key = "Some (api_key_of 1 ''key'')" and a = demo_state
      and srv = demo_server and e = "env_at 0" and items = "[demo_item]"]
  by (auto simp: demo_key demo_defs empty_table_def)

end
