(* ===== verification/PW_Heartbeat.thy ===== *)
theory PW_Heartbeat
  imports PW_Ingest
begin

text \<open>
  Heartbeat monitoring (\<open>app/tasks/heartbeat_tasks.py\<close>), the gauges
  (\<open>app/core/observability_refresh.py\<close>) and the pruning of log lines
  (\<open>app/tasks/log_retention.py\<close>). The check switches silent servers off and servers that were
  heard again on. \<open>monitor_step\<close> is the step relation of what happens to a server between the
  decisions of its owner: uploads with an API key and heartbeat checks.
\<close>

section \<open>The check\<close>

definition heartbeat_threshold :: "time \<Rightarrow> time" where
  "heartbeat_threshold now = now - minutes 5"

definition is_silent :: "time \<Rightarrow> server \<Rightarrow> bool" where
  "is_silent threshold s \<longleftrightarrow> (case srv_last_seen_at s of None \<Rightarrow> False | Some t \<Rightarrow> t < threshold)"

definition is_heard :: "time \<Rightarrow> server \<Rightarrow> bool" where
  "is_heard threshold s \<longleftrightarrow> (case srv_last_seen_at s of None \<Rightarrow> False | Some t \<Rightarrow> threshold \<le> t)"

text \<open>The two UPDATE statements; a NULL \<open>last_seen_at\<close> satisfies neither condition.\<close>

definition goes_down :: "time \<Rightarrow> server \<Rightarrow> bool" where
  "goes_down threshold s \<longleftrightarrow> is_silent threshold s \<and> srv_is_active s \<and> \<not> srv_paused s"

definition comes_back :: "time \<Rightarrow> server \<Rightarrow> bool" where
  "comes_back threshold s \<longleftrightarrow> is_heard threshold s \<and> \<not> srv_is_active s \<and> \<not> srv_paused s"

text \<open>\<open>delay\<close> is not guarded here: the first one that raises ends the task.\<close>

fun delay_all :: "env \<Rightarrow> task list \<Rightarrow> (exc + unit) \<times> task list" where
  "delay_all e [] = (Inr (), [])"
| "delay_all e (k # ks) =
     (if enqueue_ok e k then (let (r, qs) = delay_all e ks in (r, k # qs)) else (Inl BrokerError, []))"

definition run_heartbeat_check :: "env \<Rightarrow> 'r app \<Rightarrow> (exc + unit) \<times> 'r app" where
  "run_heartbeat_check e a =
     (let d = app_db a;
          threshold = heartbeat_threshold (clock e);
          deactivated = map srv_id (select (goes_down threshold) (servers d));
          t1 = update_where (goes_down threshold) (\<lambda>s. s\<lparr>srv_is_active := False\<rparr>) (servers d);
          recovered = map srv_id (select (comes_back threshold) t1);
          t2 = update_where (comes_back threshold) (\<lambda>s. s\<lparr>srv_is_active := True\<rparr>) t1;
          (r, queued) = delay_all e (map SendHeartbeatDown deactivated @ map SendHeartbeatRecovery recovered)
      in (r, a\<lparr>app_db := d\<lparr>servers := t2\<rparr>, app_tasks := app_tasks a @ queued\<rparr>))"

section \<open>The gauges\<close>

record gauges =
  users_total :: nat
  servers_paused :: nat
  servers_active :: nat
  servers_inactive :: nat
  open_alerts_total :: nat

definition refresh_once :: "env \<Rightarrow> db \<Rightarrow> gauges" where
  "refresh_once e d =
     (let threshold = clock e - secs (5 * 60) in
      \<lparr>users_total = length (rows (users d)),
       servers_paused = length (select srv_paused (servers d)),
       servers_active = length (select (\<lambda>s. \<not> srv_paused s \<and> is_heard threshold s) (servers d)),
       servers_inactive = length (select (\<lambda>s. \<not> srv_paused s
          \<and> (srv_last_seen_at s = None \<or> is_silent threshold s)) (servers d)),
       open_alerts_total = length (select (\<lambda>ev. ev_resolved_at ev = None) (alert_events d))\<rparr>)"

section \<open>Pruning\<close>

definition prune_old_logs :: "settings \<Rightarrow> env \<Rightarrow> db \<Rightarrow> db" where
  "prune_old_logs S e d =
     (let threshold = clock e - days (log_retention_days S)
      in d\<lparr>logs := delete_where (\<lambda>l. log_created_at l < threshold) (logs d)\<rparr>)"

section \<open>Lemmas\<close>

lemma is_heard_silent: "is_heard t s \<Longrightarrow> \<not> is_silent t s"
  by (auto simp: is_heard_def is_silent_def split: option.splits)

text \<open>What a check does to one row.\<close>

definition checked :: "time \<Rightarrow> server \<Rightarrow> server" where
  "checked now s =
     (if goes_down (heartbeat_threshold now) s then s\<lparr>srv_is_active := False\<rparr>
      else if comes_back (heartbeat_threshold now) s then s\<lparr>srv_is_active := True\<rparr>
      else s)"

lemma down_stays_down: "goes_down t s \<Longrightarrow> \<not> comes_back t (s\<lparr>srv_is_active := False\<rparr>)"
  by (auto simp: goes_down_def comes_back_def is_heard_def is_silent_def split: option.splits)

lemma heartbeat_rows:
  "rows (servers (app_db (snd (run_heartbeat_check e a)))) = map (checked (clock e)) (rows (servers (app_db a)))"
  by (auto simp: run_heartbeat_check_def Let_def split_beta table_simps checked_def down_stays_down)

lemma checked_fields [simp]:
  "srv_id (checked now s) = srv_id s" "srv_name (checked now s) = srv_name s"
  "srv_owner_id (checked now s) = srv_owner_id s" "srv_last_seen_at (checked now s) = srv_last_seen_at s"
  "srv_paused (checked now s) = srv_paused s" "srv_api_key_hash (checked now s) = srv_api_key_hash s"
  by (simp_all add: checked_def)

lemma heartbeat_db:
  "app_db (snd (run_heartbeat_check e a)) = (app_db a)\<lparr>servers := servers (app_db (snd (run_heartbeat_check e a)))\<rparr>"
  by (simp add: run_heartbeat_check_def Let_def split_beta)

lemma heartbeat_keyed:
  "keyed srv_id (servers (app_db a)) \<Longrightarrow> keyed srv_id (servers (app_db (snd (run_heartbeat_check e a))))"
  by (simp add: run_heartbeat_check_def Let_def split_beta) (intro keyed_update; simp)

lemma heartbeat_ok:
  assumes "db_ok (app_db a)"
  shows "db_ok (app_db (snd (run_heartbeat_check e a)))"
proof (subst heartbeat_db, rule db_ok_servers [OF assms heartbeat_keyed])
  show "keyed srv_id (servers (app_db a))" by (rule db_ok_keyed(2) [OF assms])
  show "distinct (map (\<lambda>s. (srv_owner_id s, srv_name s)) (rows (servers (app_db (snd (run_heartbeat_check e a))))))"
    using db_ok_unique(2) [OF assms] by (simp add: heartbeat_rows o_def)
  show "srv_owner_id ` set (rows (servers (app_db (snd (run_heartbeat_check e a))))) \<subseteq> user_ids (app_db a)"
    using db_ok_fk(1) [OF assms] by (auto simp: heartbeat_rows)
  show "server_ids (app_db a) \<subseteq> srv_id ` set (rows (servers (app_db (snd (run_heartbeat_check e a)))))"
    by (auto simp: heartbeat_rows server_ids_def image_image)
qed

lemma delay_all_ok: "(\<And>k. k \<in> set ks \<Longrightarrow> enqueue_ok e k) \<Longrightarrow> delay_all e ks = (Inr (), ks)"
  by (induction ks) auto

lemma prune_ok: "db_ok d \<Longrightarrow> db_ok (prune_old_logs S e d)"
  unfolding prune_old_logs_def Let_def
  by (rule db_ok_logs) (auto simp: table_simps dest: db_ok_fk(10) db_ok_keyed(10) intro!: keyed_delete [unfolded table_simps])

section \<open>Uploads and checks in sequence\<close>

text \<open>
  One step: an upload of a system metric or of a docker batch that presents some API key, or a
  heartbeat check. The first argument is the instant of the step.
\<close>

inductive monitor_step :: "crypto \<Rightarrow> env \<Rightarrow> 'r app \<Rightarrow> 'r app \<Rightarrow> bool" for C where
  upload: "monitor_step C e a (snd (with_api_key C key (submit_metric e data) a))"
| docker_upload: "monitor_step C e a (snd (with_api_key C key (submit_docker_metrics e items) a))"
| heartbeat: "monitor_step C e a (snd (run_heartbeat_check e a))"

inductive monitor_run :: "crypto \<Rightarrow> env list \<Rightarrow> 'r app \<Rightarrow> 'r app \<Rightarrow> bool" for C where
  finish: "monitor_run C [] a a"
| step: "monitor_step C e a b \<Longrightarrow> monitor_run C es b c \<Longrightarrow> monitor_run C (e # es) a c"

inductive_simps monitor_run_Nil [simp]: "monitor_run C [] a c"
inductive_simps monitor_run_Cons: "monitor_run C (e # es) a c"

text \<open>An upload leaves every row of \<open>servers\<close> alone but that of the server its key names.\<close>

lemma set_server_row:
  assumes "s \<in> set (rows (servers d))" and "srv_id s \<noteq> i"
  shows "s \<in> set (rows (servers (set_server i f d)))"
  using assms by (force simp: set_server_def table_simps)

lemma submit_metric_row:
  assumes "s \<in> set (rows (servers (app_db a)))" and "srv_id s \<noteq> srv_id srv"
  shows "s \<in> set (rows (servers (app_db (snd (submit_metric e data srv a)))))"
  using assms by (simp add: submit_metric_def Let_def split_beta evaluate_frame set_server_row)

lemma submit_docker_row:
  assumes "s \<in> set (rows (servers (app_db a)))" and "srv_id s \<noteq> srv_id srv"
  shows "s \<in> set (rows (servers (app_db (snd (submit_docker_metrics e items srv a)))))"
  using assms by (simp add: submit_docker_metrics_def Let_def split_beta evaluate_items_frame set_server_row)

text \<open>An inactive, silent server: no step changes its row.\<close>

lemma inactive_step:
  assumes "monitor_step C e a b" and "db_ok (app_db a)"
    and s: "s \<in> set (rows (servers (app_db a)))" "\<not> srv_is_active s" "is_silent (heartbeat_threshold (clock e)) s"
  shows "s \<in> set (rows (servers (app_db b)))" and "db_ok (app_db b)"
proof -
  have other: "srv_id s \<noteq> srv_id srv" if "verify_api_key C key (app_db a) = Inr srv" for key srv
    using verify_api_key_active [OF that] keyed_inj [OF db_ok_keyed(2) [OF assms(2)] s(1)] s(2) by blast
  have row: "srv \<in> set (rows (servers (app_db a)))" if "verify_api_key C key (app_db a) = Inr srv" for key srv
    using verify_api_key_active [OF that] by blast
  show "s \<in> set (rows (servers (app_db b)))"
    using assms(1)
  proof (cases rule: monitor_step.cases)
    case (upload key data)
    then show ?thesis
      using s(1) other by (auto simp: with_api_key_def submit_metric_row split: sum.split)
  next
    case (docker_upload key items)
    then show ?thesis
      using s(1) other by (auto simp: with_api_key_def submit_docker_row split: sum.split)
  next
    case heartbeat
    have "checked (clock e) s = s"
      using s(2,3) is_heard_silent by (auto simp: checked_def goes_down_def comes_back_def)
    with heartbeat s(1) show ?thesis by (force simp: heartbeat_rows)
  qed
  show "db_ok (app_db b)"
    using assms(1)
  proof (cases rule: monitor_step.cases)
    case (upload key data)
    then show ?thesis
      using assms(2) row submit_metric_ok [OF assms(2)] by (auto simp: with_api_key_def split: sum.split)
  next
    case (docker_upload key items)
    then show ?thesis
      using assms(2) row submit_docker_metrics_ok [OF assms(2)] by (auto simp: with_api_key_def split: sum.split)
  next
    case heartbeat
    with heartbeat_ok [OF assms(2)] show ?thesis by simp
  qed
qed

lemma inactive_run:
  assumes "monitor_run C es a b" and "db_ok (app_db a)"
    and "s \<in> set (rows (servers (app_db a)))" and "\<not> srv_is_active s"
    and "\<forall>e \<in> set es. is_silent (heartbeat_threshold (clock e)) s"
  shows "s \<in> set (rows (servers (app_db b)))"
  using assms
proof (induction es a b rule: monitor_run.induct)
  case (step e a b es c)
  from inactive_step [OF step.hyps(1) step.prems(1-3)] step.prems step.IH show ?case by auto
qed simp

section \<open>Properties\<close>

text \<open>C17: after a check, a server that is not paused and was ever heard is active exactly when
  its last metric is at most five minutes old; paused servers and servers never heard keep
  their rows; and, with the broker reachable, a server that changed has its task queued.\<close>

theorem heartbeat_decides_activity:
  assumes "s \<in> set (rows (servers (app_db a)))" and "\<forall>k. enqueue_ok e k"
  shows "\<exists>s' \<in> set (rows (servers (app_db (snd (run_heartbeat_check e a))))).
      srv_id s' = srv_id s
      \<and> (case srv_last_seen_at s of
           Some t \<Rightarrow> (if srv_paused s then s' = s
             else s' = s\<lparr>srv_is_active := (clock e - minutes 5 \<le> t)\<rparr>)
         | None \<Rightarrow> s' = s)
      \<and> (srv_is_active s' \<noteq> srv_is_active s \<longrightarrow>
          (if srv_is_active s then SendHeartbeatDown (srv_id s) else SendHeartbeatRecovery (srv_id s))
            \<in> set (app_tasks (snd (run_heartbeat_check e a))))"
proof -
  let ?s = "checked (clock e) s"
  have "?s \<in> set (rows (servers (app_db (snd (run_heartbeat_check e a)))))"
    using assms(1) by (simp add: heartbeat_rows)
  moreover have "case srv_last_seen_at s of
      Some t \<Rightarrow> (if srv_paused s then ?s = s else ?s = s\<lparr>srv_is_active := (clock e - minutes 5 \<le> t)\<rparr>)
    | None \<Rightarrow> ?s = s"
    by (auto simp: checked_def goes_down_def comes_back_def is_silent_def is_heard_def
        heartbeat_threshold_def split: option.split)
  moreover have "(if srv_is_active s then SendHeartbeatDown (srv_id s) else SendHeartbeatRecovery (srv_id s))
      \<in> set (app_tasks (snd (run_heartbeat_check e a)))" if "srv_is_active ?s \<noteq> srv_is_active s"
  proof (cases "goes_down (heartbeat_threshold (clock e)) s")
    case True
    with assms show ?thesis
      by (auto simp: run_heartbeat_check_def Let_def delay_all_ok table_simps goes_down_def)
  next
    case False
    with that have "comes_back (heartbeat_threshold (clock e)) s"
      by (auto simp: checked_def split: if_splits)
    with False assms show ?thesis
      by (force simp: run_heartbeat_check_def Let_def delay_all_ok table_simps comes_back_def)
  qed
  ultimately show ?thesis by (intro bexI [of _ ?s]) auto
qed

definition heard_server :: server where
  "heard_server = demo_server\<lparr>srv_last_seen_at := Some 0\<rparr>"

definition heard_state :: "kv app" where
  "heard_state = demo_state\<lparr>app_db := demo_db\<lparr>servers := \<lparr>rows = [heard_server], seq = 2\<rparr>\<rparr>\<rparr>"

theorem heartbeat_witness:
  "\<exists>s' \<in> set (rows (servers (app_db (snd (run_heartbeat_check (env_at (minutes 6)) heard_state))))).
      srv_id s' = 1 \<and> \<not> srv_is_active s'
      \<and> SendHeartbeatDown 1 \<in> set (app_tasks (snd (run_heartbeat_check (env_at (minutes 6)) heard_state)))"
proof -
  have mem: "heard_server \<in> set (rows (servers (app_db heard_state)))"
    by (simp add: heard_state_def)
  have old: "srv_last_seen_at heard_server = Some 0" "srv_id heard_server = 1" "srv_is_active heard_server"
    "\<not> srv_paused heard_server"
    by (simp_all add: heard_server_def demo_server_def)
  from heartbeat_decides_activity [OF mem, of "env_at (minutes 6)"] old
  obtain s' where s': "s' \<in> set (rows (servers (app_db (snd (run_heartbeat_check (env_at (minutes 6)) heard_state)))))"
    and "s' = heard_server\<lparr>srv_is_active := (clock (env_at (minutes 6)) - minutes 5 \<le> 0)\<rparr>"
    and q: "srv_is_active s' \<noteq> srv_is_active heard_server \<longrightarrow>
      SendHeartbeatDown 1 \<in> set (app_tasks (snd (run_heartbeat_check (env_at (minutes 6)) heard_state)))"
    by (auto simp del: One_nat_def)
  then have "srv_id s' = 1" and "\<not> srv_is_active s'" using old by simp_all
  with s' q old show ?thesis by blast
qed

text \<open>C40: a server the heartbeat check has switched off never recovers by itself: its API key is
  refused while it is inactive, so its last metric never gets newer, and after any sequence of
  uploads with any keys and of heartbeat checks its row is what it was.\<close>

theorem inactive_server_never_recovers:
  assumes "db_ok (app_db a)" and "s \<in> set (rows (servers (app_db a)))" and "\<not> srv_is_active s"
    and "srv_last_seen_at s = Some t" and "\<forall>e \<in> set es. t + minutes 5 < clock e"
    and "monitor_run C es a b"
  shows "s \<in> set (rows (servers (app_db b)))"
  using assms(4,5)
  by (intro inactive_run [OF assms(6,1-3)]) (auto simp: is_silent_def heartbeat_threshold_def)

definition off_server :: server where
  "off_server = heard_server\<lparr>srv_is_active := False\<rparr>"

definition off_state :: "kv app" where
  "off_state = demo_state\<lparr>app_db := demo_db\<lparr>servers := \<lparr>rows = [off_server], seq = 2\<rparr>\<rparr>\<rparr>"

theorem inactive_server_witness:
  "off_server \<in> set (rows (servers (app_db
     (snd (run_heartbeat_check (env_at (minutes 8))
        (snd (with_api_key plain_crypto (Some (api_key_of 1 ''key'')) (submit_metric (env_at (minutes 7)) demo_upload) off_state)))))))"
proof (rule inactive_server_never_recovers)
  have "db_ok (demo_db\<lparr>servers := \<lparr>rows = [off_server], seq = 2\<rparr>\<rparr>)"
    by (rule db_ok_servers) (simp_all add: keyed_def id_defs off_server_def heard_server_def demo_defs)
  then show "db_ok (app_db off_state)" by (simp add: off_state_def)
  show "monitor_run plain_crypto [env_at (minutes 7), env_at (minutes 8)] off_state
      (snd (run_heartbeat_check (env_at (minutes 8))
        (snd (with_api_key plain_crypto (Some (api_key_of 1 ''key'')) (submit_metric (env_at (minutes 7)) demo_upload) off_state))))"
    by (rule monitor_run.step [OF upload], rule monitor_run.step [OF heartbeat], rule monitor_run.finish)
  show "\<forall>e \<in> set [env_at (minutes 7), env_at (minutes 8)]. 0 + minutes 5 < clock e" by simp
qed (simp_all add: off_state_def off_server_def heard_server_def)

text \<open>The three server gauges partition the servers: every server is counted once.\<close>

theorem gauges_partition_servers:
  "servers_paused (refresh_once e d) + servers_active (refresh_once e d)
    + servers_inactive (refresh_once e d) = length (rows (servers d))"
proof -
  have part: "length (filter P xs) + length (filter Q xs) + length (filter R xs) = length xs"
    if "\<And>x. (P x \<longrightarrow> \<not> Q x \<and> \<not> R x) \<and> (Q x \<longrightarrow> \<not> R x) \<and> (P x \<or> Q x \<or> R x)" for P Q R and xs :: "server list"
    using that by (induction xs) auto
  let ?t = "clock e - secs (5 * 60)"
  have "srv_last_seen_at s = None \<or> is_silent ?t s \<longleftrightarrow> \<not> is_heard ?t s" for s
    by (auto simp: is_heard_def is_silent_def split: option.splits)
  then show ?thesis
    unfolding refresh_once_def Let_def table_simps gauges.simps by (intro part) blast
qed

end
