(* ===== verification/PW_Notifications.thy ===== *)
theory PW_Notifications
  imports PW_Fixtures
begin

text \<open>
  Delivery of notifications (\<open>app/services/telegram.py\<close>, \<open>app/services/email_alert.py\<close>,
  \<open>app/tasks/notification_tasks.py\<close>, \<open>app/api/alertmanager.py\<close>). What the two remote services
  answer is a parameter. Letters of the fixed texts that are not in the alphabet of the model
  (Cyrillic, emoji, the em dash) are left out: a message is the record of the values put into
  its text, in the escaped form in which they go there.
\<close>

section \<open>html.escape\<close>

fun escape_char :: "char \<Rightarrow> string" where
  "escape_char c =
     (if c = CHR ''&'' then ''&amp;''
      else if c = CHR ''<'' then ''&lt;''
      else if c = CHR ''>'' then ''&gt;''
      else if c = CHR 0x22 then ''&quot;''
      else if c = CHR 0x27 then ''&#x27;''
      else [c])"

definition escape :: "string \<Rightarrow> string" where
  "escape s = concat (map escape_char s)"

lemma escape_simps [simp]: "escape [] = []" "escape (c # s) = escape_char c @ escape s"
  by (simp_all add: escape_def)

lemma escape_char_safe: "set (escape_char c) \<inter> {CHR ''<'', CHR ''>'', CHR 0x22, CHR 0x27} = {}"
  by auto

lemma escape_safe: "set (escape s) \<inter> {CHR ''<'', CHR ''>'', CHR 0x22, CHR 0x27} = {}"
proof (induction s)
  case (Cons c s)
  with escape_char_safe [of c] show ?case by (simp only: escape_simps set_append) blast
qed simp

section \<open>The two services\<close>

datatype http_answer = NetworkError | Status int

datatype send_result = Sent | NotConfigured | SendError | SendRaises exc

definition send_message :: "settings \<Rightarrow> (string \<Rightarrow> http_answer) \<Rightarrow> string \<Rightarrow> send_result" where
  "send_message S post chat_id =
     (if \<not> set_to (telegram_bot_token S) then NotConfigured
      else (case post chat_id of
        NetworkError \<Rightarrow> SendError
      | Status n \<Rightarrow> if n \<noteq> 200 then SendError else Sent))"

text \<open>
  A header value may not hold a line break: the email package counts \<open>splitlines()\<close> and raises
  ValueError when there is more than one line.
\<close>

definition is_linebreak :: "char \<Rightarrow> bool" where
  "is_linebreak c \<longleftrightarrow> code_point c \<in> {10, 11, 12, 13, 28, 29, 30, 133}"

definition has_second_line :: "string \<Rightarrow> bool" where
  "has_second_line s = (case dropWhile (\<lambda>c. \<not> is_linebreak c) s of
     [] \<Rightarrow> False
   | c # r \<Rightarrow> (case r of
        [] \<Rightarrow> False
      | c' # r' \<Rightarrow> \<not> (c = CHR 0x0D \<and> c' = CHR 0x0A \<and> r' = [])))"

definition send_email :: "settings \<Rightarrow> (string \<Rightarrow> bool) \<Rightarrow> string \<Rightarrow> string \<Rightarrow> send_result" where
  "send_email S smtp to_addr subject =
     (if \<not> set_to (smtp_host S) then NotConfigured
      else if \<not> set_to (smtp_from_address S) \<and> \<not> set_to (smtp_user S) then NotConfigured
      else if has_second_line to_addr \<or> has_second_line subject then SendRaises ValueError
      else if smtp to_addr then Sent else SendError)"

section \<open>Alert notifications\<close>

record alert_text =
  txt_rule :: string
  txt_server :: string
  txt_field :: string
  txt_value :: string
  txt_operator :: string
  txt_threshold :: string
  txt_time :: time

definition format_message :: "env \<Rightarrow> alert_event \<Rightarrow> alert_rule \<Rightarrow> server \<Rightarrow> alert_text" where
  "format_message e ev r s = \<lparr>txt_rule = escape (rule_name r), txt_server = escape (srv_name s),
     txt_field = escape (rule_metric_field r), txt_value = float_repr e (ev_metric_value ev),
     txt_operator = operator_value (rule_operator r), txt_threshold = float_repr e (ev_threshold_value ev),
     txt_time = ev_created_at ev\<rparr>"

definition format_text :: "env \<Rightarrow> alert_event \<Rightarrow> alert_rule \<Rightarrow> server \<Rightarrow> alert_text" where
  "format_text e ev r s = \<lparr>txt_rule = rule_name r, txt_server = srv_name s,
     txt_field = rule_metric_field r, txt_value = float_repr e (ev_metric_value ev),
     txt_operator = operator_value (rule_operator r), txt_threshold = float_repr e (ev_threshold_value ev),
     txt_time = ev_created_at ev\<rparr>"

text \<open>The subject; a hyphen stands for the em dash between the two names.\<close>

definition alert_subject :: "alert_rule \<Rightarrow> server \<Rightarrow> string" where
  "alert_subject r s = ''[PulseWatch] '' @ rule_name r @ '' - '' @ srv_name s"

text \<open>
  How a task ends: without an event, skipped, delivered (with the address and the text), failed
  with the error Celery retries on, or with an exception it does not retry.
\<close>

datatype 'a delivery =
    EventGone
  | Skipped
  | Delivered string 'a
  | Retry
  | Crashed exc

definition after_send :: "send_result \<Rightarrow> string \<Rightarrow> 'a \<Rightarrow> 'a delivery" where
  "after_send res addr text = (case res of
     Sent \<Rightarrow> Delivered addr text
   | NotConfigured \<Rightarrow> Skipped
   | SendError \<Rightarrow> Retry
   | SendRaises x \<Rightarrow> Crashed x)"

text \<open>The join of the event with its rule, server and owner; \<open>first()\<close>.\<close>

definition event_row :: "int \<Rightarrow> db \<Rightarrow> (alert_event \<times> alert_rule \<times> server \<times> user) option" where
  "event_row event_id d =
     (case [(ev, r, s, u). ev \<leftarrow> rows (alert_events d), r \<leftarrow> rows (alert_rules d),
            s \<leftarrow> rows (servers d), u \<leftarrow> rows (users d),
            ev_id ev = event_id \<and> ev_rule_id ev = rule_id r \<and> ev_server_id ev = srv_id s
            \<and> srv_owner_id s = usr_id u] of
        [] \<Rightarrow> None
      | x # _ \<Rightarrow> Some x)"

definition send_telegram_alert :: "settings \<Rightarrow> 'r redis \<Rightarrow> (string \<Rightarrow> http_answer) \<Rightarrow> env \<Rightarrow> int
    \<Rightarrow> 'r app \<Rightarrow> alert_text delivery" where
  "send_telegram_alert S R post e event_id a = (case event_row event_id (app_db a) of
     None \<Rightarrow> EventGone
   | Some (ev, r, s, u) \<Rightarrow>
       (case usr_telegram_chat_id u of
          None \<Rightarrow> Skipped
        | Some chat \<Rightarrow>
            if chat = [] then Skipped
            else if is_channel_muted R (app_rd a) (clock e) (srv_id s) ''telegram'' then Skipped
            else after_send (send_message S post chat) chat (format_message e ev r s)))"

definition send_email_alert :: "settings \<Rightarrow> 'r redis \<Rightarrow> (string \<Rightarrow> bool) \<Rightarrow> env \<Rightarrow> int
    \<Rightarrow> 'r app \<Rightarrow> (alert_text \<times> alert_text) delivery" where
  "send_email_alert S R smtp e event_id a = (case event_row event_id (app_db a) of
     None \<Rightarrow> EventGone
   | Some (ev, r, s, u) \<Rightarrow>
       if \<not> usr_email_alerts_enabled u then Skipped
       else if is_channel_muted R (app_rd a) (clock e) (srv_id s) ''email'' then Skipped
       else after_send (send_email S smtp (usr_email u) (alert_subject r s)) (usr_email u)
         (format_message e ev r s, format_text e ev r s))"

section \<open>Heartbeat notifications\<close>

record heartbeat_text =
  hb_server :: string
  hb_server_id :: int
  hb_recovered :: bool
  hb_last_seen :: "time option"

text \<open>
  Telegram first, then email; errors of delivery are logged. The result holds what was
  delivered and, when building the letter raises, the exception that ends the task.
\<close>

definition send_heartbeat :: "settings \<Rightarrow> 'r redis \<Rightarrow> (string \<Rightarrow> http_answer) \<Rightarrow> (string \<Rightarrow> bool) \<Rightarrow> env
    \<Rightarrow> bool \<Rightarrow> int \<Rightarrow> 'r app \<Rightarrow> heartbeat_text delivery list" where
  "send_heartbeat S R post smtp e recovered server_id a =
     (case [(s, u). s \<leftarrow> rows (servers (app_db a)), u \<leftarrow> rows (users (app_db a)),
            srv_id s = server_id \<and> srv_owner_id s = usr_id u] of
        [] \<Rightarrow> [EventGone]
      | (s, u) # _ \<Rightarrow>
          let text = \<lparr>hb_server = escape (srv_name s), hb_server_id = srv_id s,
                hb_recovered = recovered, hb_last_seen = srv_last_seen_at s\<rparr>;
              tg = (case usr_telegram_chat_id u of
                  None \<Rightarrow> Skipped
                | Some chat \<Rightarrow>
                    if chat = [] \<or> is_channel_muted R (app_rd a) (clock e) (srv_id s) ''telegram'' then Skipped
                    else (case send_message S post chat of Sent \<Rightarrow> Delivered chat text | _ \<Rightarrow> Skipped));
              mail = (if usr_email_alerts_enabled u
                    \<and> \<not> is_channel_muted R (app_rd a) (clock e) (srv_id s) ''email'' then
                  (case send_email S smtp (usr_email u) (''[PulseWatch] '' @ srv_name s) of
                     Sent \<Rightarrow> Delivered (usr_email u) text
                   | SendRaises x \<Rightarrow> Crashed x
                   | _ \<Rightarrow> Skipped)
                  else Skipped)
          in [tg, mail])"

section \<open>The Alertmanager webhook\<close>

record am_alert =
  am_status :: "string option"
  am_alertname :: "string option"
  am_severity :: "string option"
  am_summary :: "string option"
  am_description :: "string option"

fun default_to :: "string \<Rightarrow> string option \<Rightarrow> string" where
  "default_to x None = x"
| "default_to x (Some v) = v"

text \<open>\<open>annotations.get("summary") or annotations.get("description", "")\<close>.\<close>

definition am_text :: "am_alert \<Rightarrow> string" where
  "am_text al = (if set_to (am_summary al) then the (am_summary al) else default_to [] (am_description al))"

definition admin_line :: "am_alert \<Rightarrow> string \<times> string \<times> string \<times> string" where
  "admin_line al = (escape (default_to ''?'' (am_status al)), escape (default_to ''?'' (am_alertname al)),
     escape (default_to ''?'' (am_severity al)), escape (am_text al))"

definition format_admin_message :: "string \<Rightarrow> am_alert list
    \<Rightarrow> (bool \<times> string) \<times> (string \<times> string \<times> string \<times> string) list" where
  "format_admin_message overall_status alerts =
     ((overall_status = ''firing'', escape overall_status), map admin_line alerts)"

text \<open>The message the handler tries to send; every delivery error is swallowed.\<close>

definition receive_alertmanager_webhook :: "settings \<Rightarrow> string option \<Rightarrow> am_alert list
    \<Rightarrow> (string \<times> (bool \<times> string) \<times> (string \<times> string \<times> string \<times> string) list) option" where
  "receive_alertmanager_webhook S status alerts =
     (if set_to (admin_telegram_chat_id S) \<and> alerts \<noteq> []
      then Some (the (admin_telegram_chat_id S), format_admin_message (default_to ''?'' status) alerts)
      else None)"

section \<open>Properties\<close>

text \<open>
  muting the Telegram channel of a server for some minutes skips every Telegram alert of
  that server until they are over, and then no longer; the email alerts of the server, and the
  alerts of other servers, go out as if there were no mute.\<close>

theorem mute_silences_one_channel:
  assumes "redis_service R" and "0 < m" and "t \<le> clock e"
    and row: "event_row i (app_db a) = Some (ev, r, s, u)"
    and muted: "b = a\<lparr>app_rd := set_channel_mute R (app_rd a) t j ''telegram'' m\<rparr>"
  shows "send_telegram_alert S R post e i b =
      (if srv_id s = j \<and> clock e < t + minutes m then Skipped
       else if srv_id s = j then
         (case usr_telegram_chat_id u of
            None \<Rightarrow> Skipped
          | Some chat \<Rightarrow> if chat = [] then Skipped
              else after_send (send_message S post chat) chat (format_message e ev r s))
       else send_telegram_alert S R post e i a)
    \<and> send_email_alert S R smtp e i b = send_email_alert S R smtp e i a"
proof -
  have q: "is_channel_muted R (app_rd b) (clock e) (srv_id s) c \<longleftrightarrow>
      (if srv_id s = j \<and> c = ''telegram'' then clock e < t + minutes m
       else is_channel_muted R (app_rd a) (clock e) (srv_id s) c)" for c
    using redis_service.muted_iff [OF assms(1-3)] by (simp add: muted)
  have d: "app_db b = app_db a" by (simp add: muted)
  show ?thesis
    by (auto simp: send_telegram_alert_def send_email_alert_def row d q split: option.split)
qed

definition chat_user :: user where
  "chat_user = demo_user\<lparr>usr_telegram_chat_id := Some ''7''\<rparr>"

definition demo_alert_event :: alert_event where
  "demo_alert_event = \<lparr>ev_id = 1, ev_rule_id = 1, ev_server_id = 1, ev_metric_value = Fin 95,
     ev_threshold_value = Fin 80, ev_message = ''m'', ev_container_name = None, ev_created_at = 0,
     ev_resolved_at = None\<rparr>"

definition notify_state :: "kv app" where
  "notify_state = demo_state\<lparr>app_db := demo_db\<lparr>users := \<lparr>rows = [chat_user], seq = 2\<rparr>,
     alert_events := \<lparr>rows = [demo_alert_event], seq = 2\<rparr>\<rparr>\<rparr>"

lemma notify_row:
  "event_row 1 (app_db notify_state) = Some (demo_alert_event, demo_rule, demo_server, chat_user)"
  by (simp add: event_row_def notify_state_def demo_defs demo_alert_event_def chat_user_def)

theorem mute_witness:
  "send_telegram_alert default_settings kv_redis (\<lambda>_. Status 200) (env_at (secs 30)) 1
      (notify_state\<lparr>app_rd := set_channel_mute kv_redis [] 0 1 ''telegram'' 5\<rparr>) = Skipped"
  using mute_silences_one_channel [OF kv_service, where m = 5 and t = 0 and e = "env_at (secs 30)" and j = 1
      and S = default_settings and post = "\<lambda>_. Status 200", OF _ _ notify_row refl]
  by (simp add: demo_server_def notify_state_def)

text \<open>The values a client controls (the names of the rule and of the server, the field) enter
  the HTML of an alert message escaped: no angle bracket or quote of theirs reaches it.\<close>

theorem alert_markup_is_escaped:
  "\<forall>part \<in> {txt_rule (format_message e ev r s), txt_server (format_message e ev r s),
      txt_field (format_message e ev r s)}.
    set part \<inter> {CHR ''<'', CHR ''>'', CHR 0x22, CHR 0x27} = {}"
  unfolding format_message_def alert_text.simps using escape_safe by blast

theorem alert_markup_witness:
  "set (txt_rule (format_message (env_at 0) demo_alert_event (demo_rule\<lparr>rule_name := ''<b>''\<rparr>) demo_server))
    \<inter> {CHR ''<'', CHR ''>'', CHR 0x22, CHR 0x27} = {}"
  using alert_markup_is_escaped by blast

lemma has_second_line_break:
  assumes "list_all (\<lambda>c. \<not> is_linebreak c) p"
  shows "has_second_line (p @ CHR 0x0A # q @ '' - '' @ r)"
proof -
  have "dropWhile (\<lambda>c. \<not> is_linebreak c) (p @ CHR 0x0A # z) = CHR 0x0A # z" for z
    using assms by (subst dropWhile_append2) (auto simp: list_all_iff is_linebreak_def code_point_def)
  then show ?thesis by (cases q) (auto simp: has_second_line_def)
qed

text \<open>A rule whose name has a line break inside (which the API accepts) makes the letter
  unbuildable: the email task of each of its events dies with ValueError, which Celery does
  not retry, while the Telegram task of the event is not affected by the name.\<close>

theorem line_break_kills_email:
  assumes "event_row i (app_db a) = Some (ev, r, s, u)" and "usr_email_alerts_enabled u"
    and "\<not> is_channel_muted R (app_rd a) (clock e) (srv_id s) ''email''"
    and "set_to (smtp_host S)" and "set_to (smtp_from_address S)"
    and "rule_name r = x @ CHR 0x0A # y" and "list_all (\<lambda>c. \<not> is_linebreak c) x"
  shows "send_email_alert S R smtp e i a = Crashed ValueError"
proof -
  have "alert_subject r s = (''[PulseWatch] '' @ x) @ CHR 0x0A # (y @ '' - '' @ srv_name s)"
    by (simp add: alert_subject_def assms(6))
  moreover have "list_all (\<lambda>c. \<not> is_linebreak c) (''[PulseWatch] '' @ x)"
    using assms(7) by (simp add: is_linebreak_def code_point_def)
  ultimately have "has_second_line (alert_subject r s)"
    by (simp only: has_second_line_break)
  then show ?thesis
    using assms(1-5) by (simp add: send_email_alert_def send_email_def after_send_def)
qed

definition broken_rule :: alert_rule where
  "broken_rule = demo_rule\<lparr>rule_name := ''a'' @ CHR 0x0A # ''b''\<rparr>"

definition mail_settings :: settings where
  "mail_settings = default_settings\<lparr>smtp_host := Some ''mx'', smtp_from_address := Some ''p@x''\<rparr>"

definition broken_state :: "kv app" where
  "broken_state = notify_state\<lparr>app_db := (app_db notify_state)\<lparr>
     alert_rules := \<lparr>rows = [broken_rule], seq = 2\<rparr>\<rparr>\<rparr>"

theorem line_break_witness:
  "send_email_alert mail_settings kv_redis (\<lambda>_. True) (env_at 0) 1 broken_state = Crashed ValueError"
proof (rule line_break_kills_email)
  show "event_row 1 (app_db broken_state) = Some (demo_alert_event, broken_rule, demo_server, chat_user)"
    by (simp add: event_row_def broken_state_def notify_state_def broken_rule_def demo_defs
        demo_alert_event_def chat_user_def)
  show "rule_name broken_rule = ''a'' @ CHR 0x0A # ''b''" by (simp add: broken_rule_def)
  show "\<not> is_channel_muted kv_redis (app_rd broken_state) (clock (env_at 0)) (srv_id demo_server) ''email''"
    by (simp add: broken_state_def notify_state_def is_channel_muted_def kv_redis_def kv_get_def)
qed (simp_all add: chat_user_def demo_user_def mail_settings_def default_settings_def set_to_def
    is_linebreak_def code_point_def)

end
