(* ===== verification/PW_Csv.thy ===== *)
theory PW_Csv
  imports PW_Fixtures
begin

text \<open>
  CSV exports (\<open>app/utils/csv_export.py\<close>): the cells of a row as Python's \<open>csv.DictWriter\<close>
  writes them with its default dialect, and a reader of that dialect as the specification: what
  is written is read back cell for cell, whatever the cells contain. The theory also holds the
  datetimes of query parameters, which may lack a time zone.
\<close>

section \<open>Cells and rows\<close>

text \<open>How a cell prints: floats by their repr, times in ISO format, None as an empty cell.\<close>

datatype csv_value = CsvInt int | CsvFloat pyfloat | CsvStr string | CsvTime time | CsvNone

fun csv_text :: "(pyfloat \<Rightarrow> string) \<Rightarrow> (time \<Rightarrow> string) \<Rightarrow> csv_value \<Rightarrow> string" where
  "csv_text frepr isoformat (CsvInt i) = str_int i"
| "csv_text frepr isoformat (CsvFloat x) = frepr x"
| "csv_text frepr isoformat (CsvStr s) = s"
| "csv_text frepr isoformat (CsvTime t) = isoformat t"
| "csv_text frepr isoformat CsvNone = []"

definition special :: "char \<Rightarrow> bool" where
  "special c \<longleftrightarrow> c \<in> {CHR '','', CHR 0x22, CHR 0x0D, CHR 0x0A}"

fun double_quotes :: "string \<Rightarrow> string" where
  "double_quotes [] = []"
| "double_quotes (c # s) =
     (if c = CHR 0x22 then CHR 0x22 # CHR 0x22 # double_quotes s else c # double_quotes s)"

definition quote_field :: "string \<Rightarrow> string" where
  "quote_field s = CHR 0x22 # double_quotes s @ [CHR 0x22]"

definition csv_field :: "string \<Rightarrow> string" where
  "csv_field s = (if list_ex special s then quote_field s else s)"

fun join_fields :: "string list \<Rightarrow> string" where
  "join_fields [] = []"
| "join_fields [f] = f"
| "join_fields (f # g # fs) = f @ CHR '','' # join_fields (g # fs)"

text \<open>A row of one empty cell is written as an empty quoted field.\<close>

definition csv_row :: "string list \<Rightarrow> string" where
  "csv_row cells =
     (if cells = [[]] then [CHR 0x22, CHR 0x22] else join_fields (map csv_field cells))
     @ [CHR 0x0D, CHR 0x0A]"

text \<open>The body of the response: the header, then each row as it is fetched.\<close>

definition stream_csv :: "string list \<Rightarrow> string list list \<Rightarrow> string" where
  "stream_csv header csv_rows = csv_row header @ concat (map csv_row csv_rows)"

section \<open>A reader\<close>

datatype mode = StartField | Plain | Quoted | AfterQuote

fun read_csv :: "mode \<Rightarrow> string \<Rightarrow> string list \<Rightarrow> string \<Rightarrow> string list list" where
  "read_csv m f row [] = (if m = StartField \<and> row = [] then [] else [rev (rev f # row)])"
| "read_csv Quoted f row (c # s) =
     (if c = CHR 0x22 then read_csv AfterQuote f row s else read_csv Quoted (c # f) row s)"
| "read_csv AfterQuote f row (c # s) =
     (if c = CHR 0x22 then read_csv Quoted (c # f) row s
      else if c = CHR '','' then read_csv StartField [] (rev f # row) s
      else if c = CHR 0x0D then read_csv AfterQuote f row s
      else if c = CHR 0x0A then rev (rev f # row) # read_csv StartField [] [] s
      else read_csv Plain (c # f) row s)"
| "read_csv StartField f row (c # s) =
     (if c = CHR 0x22 then read_csv Quoted [] row s
      else if c = CHR '','' then read_csv StartField [] ([] # row) s
      else if c = CHR 0x0D then read_csv Plain f row s
      else if c = CHR 0x0A then rev ([] # row) # read_csv StartField [] [] s
      else read_csv Plain [c] row s)"
| "read_csv Plain f row (c # s) =
     (if c = CHR '','' then read_csv StartField [] (rev f # row) s
      else if c = CHR 0x0D then read_csv Plain f row s
      else if c = CHR 0x0A then rev (rev f # row) # read_csv StartField [] [] s
      else read_csv Plain (c # f) row s)"

lemma read_quoted:
  "read_csv Quoted f row (double_quotes s @ CHR 0x22 # r) = read_csv AfterQuote (rev s @ f) row r"
  by (induction s arbitrary: f) auto

lemma read_plain:
  "\<not> list_ex special s \<Longrightarrow> read_csv Plain f row (s @ r) = read_csv Plain (rev s @ f) row r"
  by (induction s arbitrary: f) (auto simp: special_def)

text \<open>A field is read back whether a comma or the end of the row follows it.\<close>

lemma read_field_comma:
  "read_csv StartField [] row (csv_field s @ CHR '','' # r) = read_csv StartField [] (s # row) r"
proof (cases "list_ex special s")
  case True
  then show ?thesis by (simp add: csv_field_def quote_field_def read_quoted)
next
  case False
  then show ?thesis
    by (cases s) (auto simp: csv_field_def read_plain special_def)
qed

lemma read_field_end:
  assumes "s \<noteq> [] \<or> row \<noteq> []"
  shows "read_csv StartField [] row (csv_field s @ CHR 0x0D # CHR 0x0A # r) =
    rev (s # row) # read_csv StartField [] [] r"
proof (cases "list_ex special s")
  case True
  then show ?thesis by (simp add: csv_field_def quote_field_def read_quoted)
next
  case False
  then show ?thesis
    by (cases s) (auto simp: csv_field_def read_plain special_def)
qed

lemma read_fields:
  assumes "cells \<noteq> []" and "cells \<noteq> [[]] \<or> row \<noteq> []"
  shows "read_csv StartField [] row (join_fields (map csv_field cells) @ CHR 0x0D # CHR 0x0A # r) =
    (rev row @ cells) # read_csv StartField [] [] r"
  using assms
proof (induction cells arbitrary: row rule: join_fields.induct)
  case (2 f)
  then show ?case using read_field_end [of f row r] by auto
next
  case (3 f g fs)
  have "g # fs \<noteq> [[]] \<or> f # row \<noteq> []" by simp
  from 3 this show ?case by (simp add: read_field_comma)
qed simp

lemma read_row:
  assumes "cells \<noteq> []"
  shows "read_csv StartField [] [] (csv_row cells @ r) = cells # read_csv StartField [] [] r"
proof (cases "cells = [[]]")
  case True
  then show ?thesis by (simp add: csv_row_def)
next
  case False
  with assms read_fields [of cells "[]" r] show ?thesis by (simp add: csv_row_def)
qed

lemma read_rows:
  "\<forall>row \<in> set csv_rows. row \<noteq> [] \<Longrightarrow> read_csv StartField [] [] (concat (map csv_row csv_rows)) = csv_rows"
  by (induction csv_rows) (auto simp: read_row)

section \<open>Properties\<close>

text \<open>C16: an exported file reads back to exactly the header and the rows, for any contents of
  the cells: commas, quotes and line breaks included.\<close>

theorem csv_roundtrip:
  assumes "header \<noteq> []" and "\<forall>row \<in> set csv_rows. row \<noteq> []"
  shows "read_csv StartField [] [] (stream_csv header csv_rows) = header # csv_rows"
  using assms by (simp add: stream_csv_def read_row read_rows)

theorem csv_witness:
  "read_csv StartField [] [] (stream_csv [''id'', ''message''] [[''1'', ''a,b'' @ [CHR 0x22, CHR 0x0A]], [''2'', []]])
    = [[''id'', ''message''], [''1'', ''a,b'' @ [CHR 0x22, CHR 0x0A]], [''2'', []]]"
  by (rule csv_roundtrip) simp_all

section \<open>Datetimes of query parameters\<close>

datatype py_datetime = Naive time | Aware time

text \<open>Python refuses to subtract or order a naive and an aware datetime.\<close>

fun datetime_sub :: "py_datetime \<Rightarrow> py_datetime \<Rightarrow> exc + int" where
  "datetime_sub (Aware a) (Aware b) = Inr (a - b)"
| "datetime_sub (Naive a) (Naive b) = Inr (a - b)"
| "datetime_sub _ _ = Inl TypeError"

fun datetime_minus :: "py_datetime \<Rightarrow> int \<Rightarrow> py_datetime" where
  "datetime_minus (Aware a) n = Aware (a - n)"
| "datetime_minus (Naive a) n = Naive (a - n)"

text \<open>
  As a parameter for a \<open>timestamptz\<close> column a naive datetime is read in the time zone of the
  process, which is UTC in the containers of the deployment.
\<close>

fun sql_time :: "py_datetime \<Rightarrow> time" where
  "sql_time (Aware a) = a"
| "sql_time (Naive a) = a"

text \<open>
  The default window of the event and log exports, which do not normalise their bounds:
  the default end is aware and the default start is the given time before the end.
\<close>

definition export_window :: "env \<Rightarrow> int \<Rightarrow> int \<Rightarrow> py_datetime option \<Rightarrow> py_datetime option
    \<Rightarrow> (time \<times> time) result" where
  "export_window e default_span max_span start end_opt =
     (let fin = (case end_opt of None \<Rightarrow> Aware (clock e) | Some t \<Rightarrow> t);
          start' = (case start of None \<Rightarrow> datetime_minus fin default_span | Some t \<Rightarrow> t)
      in case datetime_sub fin start' of
        Inl x \<Rightarrow> Inl (Unhandled x)
      | Inr period \<Rightarrow>
          if period > max_span then Inl (HTTPException 400 PeriodTooLong)
          else Inr (sql_time start', sql_time fin))"

lemma export_window_bounds:
  "export_window e n k s f = Inr (a, b) \<Longrightarrow> b - a \<le> k"
  by (auto simp: export_window_def Let_def split: option.splits sum.splits if_splits
      elim!: datetime_sub.elims)

end
