(* ===== verification/PW_AlertRules.thy ===== *)
theory PW_AlertRules
  imports PW_Security PW_Csv
begin

text \<open>
  The alerts API (\<open>app/api/alerts.py\<close>, \<open>app/schemas/alert_rule.py\<close>): validation of the request
  bodies, rules of the current user (create, list, read, update, delete), their events, the CSV
  export of events, and the order of the routes, which decides what \<open>GET /alerts/events/export\<close>
  reaches.
\<close>

section \<open>Request bodies\<close>

definition ALLOWED_CHANNELS :: "string list" where
  "ALLOWED_CHANNELS = [''telegram'', ''email'']"

text \<open>\<open>list(dict.fromkeys(cleaned))\<close>: the first occurrence of each, in order.\<close>

fun keep_first :: "'a list \<Rightarrow> 'a list" where
  "keep_first [] = []"
| "keep_first (x # xs) = x # filter (\<lambda>y. y \<noteq> x) (keep_first xs)"

definition validate_channels :: "string list option \<Rightarrow> exc + string list option" where
  "validate_channels value = (case value of
     None \<Rightarrow> Inr None
   | Some vs \<Rightarrow>
       let cleaned = map (\<lambda>v. lower (strip v)) vs in
       if list_ex (\<lambda>v. v \<notin> set ALLOWED_CHANNELS) cleaned then Inl ValueError
       else Inr (Some (keep_first cleaned)))"

record rule_create =
  rc_server_id :: int
  rc_name :: string
  rc_metric_type :: metric_type
  rc_metric_field :: string
  rc_operator :: threshold_operator
  rc_threshold_value :: pyfloat
  rc_container_name :: "string option"
  rc_cooldown_seconds :: int
  rc_is_active :: bool
  rc_notification_channels :: "string list"

definition text_between :: "nat \<Rightarrow> nat \<Rightarrow> string \<Rightarrow> bool" where
  "text_between lo hi s \<longleftrightarrow> lo \<le> length s \<and> length s \<le> hi"

definition validate_create :: "rule_create \<Rightarrow> exc + rule_create" where
  "validate_create data =
     (if \<not> text_between 1 255 (rc_name data) \<or> \<not> text_between 1 100 (rc_metric_field data)
         \<or> rc_cooldown_seconds data < 0 then Inl ValueError
      else (case validate_channels (Some (rc_notification_channels data)) of
        Inl x \<Rightarrow> Inl x
      | Inr v \<Rightarrow> Inr (data\<lparr>rc_notification_channels := (case v of None \<Rightarrow> [] | Some cs \<Rightarrow> cs)\<rparr>)))"

text \<open>In an update a field is unset, set to null, or set to a value.\<close>

record rule_update =
  ru_name :: "string option option"
  ru_metric_type :: "metric_type option option"
  ru_metric_field :: "string option option"
  ru_operator :: "threshold_operator option option"
  ru_threshold_value :: "pyfloat option option"
  ru_container_name :: "string option option"
  ru_cooldown_seconds :: "int option option"
  ru_is_active :: "bool option option"
  ru_notification_channels :: "string list option option"

fun valid_field :: "('a \<Rightarrow> bool) \<Rightarrow> 'a option option \<Rightarrow> bool" where
  "valid_field P (Some (Some v)) = P v"
| "valid_field P _ = True"

definition validate_update :: "rule_update \<Rightarrow> exc + rule_update" where
  "validate_update data =
     (if \<not> valid_field (text_between 1 255) (ru_name data)
         \<or> \<not> valid_field (text_between 1 100) (ru_metric_field data)
         \<or> \<not> valid_field (\<lambda>n. 0 \<le> n) (ru_cooldown_seconds data) then Inl ValueError
      else (case ru_notification_channels data of
        None \<Rightarrow> Inr data
      | Some v \<Rightarrow>
          (case validate_channels v of
             Inl x \<Rightarrow> Inl x
           | Inr cs \<Rightarrow> Inr (data\<lparr>ru_notification_channels := Some cs\<rparr>))))"

definition update_fields :: "rule_update \<Rightarrow> string list" where
  "update_fields data =
     (if ru_name data = None then [] else [''name''])
     @ (if ru_metric_type data = None then [] else [''metric_type''])
     @ (if ru_metric_field data = None then [] else [''metric_field''])
     @ (if ru_operator data = None then [] else [''operator''])
     @ (if ru_threshold_value data = None then [] else [''threshold_value''])
     @ (if ru_container_name data = None then [] else [''container_name''])
     @ (if ru_cooldown_seconds data = None then [] else [''cooldown_seconds''])
     @ (if ru_is_active data = None then [] else [''is_active''])
     @ (if ru_notification_channels data = None then [] else [''notification_channels''])"

section \<open>Rules\<close>

definition verify_server_owner :: "int \<Rightarrow> user \<Rightarrow> db \<Rightarrow> server result" where
  "verify_server_owner server_id u d =
     (case fetch_by_id srv_id server_id (\<lambda>s. srv_owner_id s = usr_id u) (servers d) of
        Inl x \<Rightarrow> Inl (Unhandled x)
      | Inr None \<Rightarrow> Inl (HTTPException 404 ServerNotFound)
      | Inr (Some s) \<Rightarrow> Inr s)"

definition own_rule :: "int \<Rightarrow> user \<Rightarrow> db \<Rightarrow> alert_rule result" where
  "own_rule i u d =
     (case fetch_by_id rule_id i (\<lambda>r. rule_owner_id r = usr_id u) (alert_rules d) of
        Inl x \<Rightarrow> Inl (Unhandled x)
      | Inr None \<Rightarrow> Inl (HTTPException 404 RuleNotFound)
      | Inr (Some r) \<Rightarrow> Inr r)"

text \<open>
  The row the handler builds: it does not pass \<open>notification_channels\<close>, so the column takes its
  default, and so do \<open>last_triggered_at\<close> and the two times.
\<close>

definition new_rule :: "env \<Rightarrow> rule_create \<Rightarrow> user \<Rightarrow> int \<Rightarrow> alert_rule" where
  "new_rule e data u i = \<lparr>rule_id = i, rule_server_id = rc_server_id data, rule_owner_id = usr_id u,
     rule_name = rc_name data, rule_metric_type = rc_metric_type data,
     rule_metric_field = rc_metric_field data, rule_operator = rc_operator data,
     rule_threshold_value = rc_threshold_value data, rule_container_name = rc_container_name data,
     rule_cooldown_seconds = rc_cooldown_seconds data, rule_is_active = rc_is_active data,
     rule_notification_channels = [''telegram'', ''email''], rule_last_triggered_at = None,
     rule_created_at = db_clock e, rule_updated_at = db_clock e\<rparr>"

definition rule_audit :: "env \<Rightarrow> string \<Rightarrow> user \<Rightarrow> int \<Rightarrow> audit_meta option \<Rightarrow> db \<Rightarrow> db" where
  "rule_audit e action u i meta =
     record_audit e action (Some (usr_id u)) (Some ''rule'') (Some i) False meta"

definition create_alert_rule :: "env \<Rightarrow> rule_create \<Rightarrow> user \<Rightarrow> 'r app \<Rightarrow> alert_rule result \<times> 'r app" where
  "create_alert_rule e data u a = (case validate_create data of
     Inl _ \<Rightarrow> (Inl (HTTPException 422 UnprocessableEntity), a)
   | Inr data \<Rightarrow>
       (case verify_server_owner (rc_server_id data) u (app_db a) of
          Inl x \<Rightarrow> (Inl x, a)
        | Inr _ \<Rightarrow>
            let d = app_db a; i = seq (alert_rules d); rule = new_rule e data u i in
            if \<not> rule_fits rule then (Inl (Unhandled DataError), a)
            else (after_audit e rule,
              a\<lparr>app_db := rule_audit e ''rule_create'' u i None
                  (d\<lparr>alert_rules := insert_row (new_rule e data u) (alert_rules d)\<rparr>)\<rparr>)))"

definition optional_filter :: "('a \<Rightarrow> int) \<Rightarrow> int option \<Rightarrow> 'a \<Rightarrow> bool" where
  "optional_filter f v r \<longleftrightarrow> (case v of None \<Rightarrow> True | Some i \<Rightarrow> f r = i)"

definition int32_params :: "int option list \<Rightarrow> bool" where
  "int32_params vs \<longleftrightarrow> list_all (\<lambda>v. case v of None \<Rightarrow> True | Some i \<Rightarrow> int32 i) vs"

definition list_alert_rules :: "int option \<Rightarrow> user \<Rightarrow> db \<Rightarrow> alert_rule list result" where
  "list_alert_rules server_id u d =
     (if \<not> int32_params [server_id] then Inl (Unhandled DataError)
      else Inr (order_by_desc rule_created_at (select (\<lambda>r. rule_owner_id r = usr_id u
        \<and> optional_filter rule_server_id server_id r) (alert_rules d))))"

definition get_alert_rule :: "int \<Rightarrow> user \<Rightarrow> db \<Rightarrow> alert_rule result" where
  "get_alert_rule = own_rule"

text \<open>
  \<open>setattr\<close> for every field that was sent. A null in a NOT NULL column is an IntegrityError at
  the commit; an UPDATE is only issued, and \<open>updated_at\<close> only moves, when a value changed (a
  NaN never equals the old value).
\<close>

definition set_field :: "('a \<Rightarrow> alert_rule \<Rightarrow> alert_rule) \<Rightarrow> 'a option option \<Rightarrow> alert_rule \<Rightarrow> alert_rule" where
  "set_field put v r = (case v of Some (Some x) \<Rightarrow> put x r | _ \<Rightarrow> r)"

definition apply_update :: "rule_update \<Rightarrow> alert_rule \<Rightarrow> alert_rule" where
  "apply_update data r =
     (let r = set_field (\<lambda>x r. r\<lparr>rule_name := x\<rparr>) (ru_name data) r;
          r = set_field (\<lambda>x r. r\<lparr>rule_metric_type := x\<rparr>) (ru_metric_type data) r;
          r = set_field (\<lambda>x r. r\<lparr>rule_metric_field := x\<rparr>) (ru_metric_field data) r;
          r = set_field (\<lambda>x r. r\<lparr>rule_operator := x\<rparr>) (ru_operator data) r;
          r = set_field (\<lambda>x r. r\<lparr>rule_threshold_value := x\<rparr>) (ru_threshold_value data) r;
          r = (case ru_container_name data of None \<Rightarrow> r | Some c \<Rightarrow> r\<lparr>rule_container_name := c\<rparr>);
          r = set_field (\<lambda>x r. r\<lparr>rule_cooldown_seconds := x\<rparr>) (ru_cooldown_seconds data) r;
          r = set_field (\<lambda>x r. r\<lparr>rule_is_active := x\<rparr>) (ru_is_active data) r
      in set_field (\<lambda>x r. r\<lparr>rule_notification_channels := x\<rparr>) (ru_notification_channels data) r)"

definition writes_null :: "rule_update \<Rightarrow> bool" where
  "writes_null data \<longleftrightarrow> ru_name data = Some None \<or> ru_metric_type data = Some None
     \<or> ru_metric_field data = Some None \<or> ru_operator data = Some None
     \<or> ru_threshold_value data = Some None \<or> ru_cooldown_seconds data = Some None
     \<or> ru_is_active data = Some None \<or> ru_notification_channels data = Some None"

definition touch_updated :: "env \<Rightarrow> rule_update \<Rightarrow> alert_rule \<Rightarrow> alert_rule" where
  "touch_updated e data r =
     (let r' = apply_update data r in
      if r' \<noteq> r \<or> ru_threshold_value data = Some (Some NaN) then r'\<lparr>rule_updated_at := db_clock e\<rparr> else r')"

definition set_rule :: "int \<Rightarrow> (alert_rule \<Rightarrow> alert_rule) \<Rightarrow> db \<Rightarrow> db" where
  "set_rule i f d = d\<lparr>alert_rules := update_where (\<lambda>r. rule_id r = i) f (alert_rules d)\<rparr>"

definition update_alert_rule :: "env \<Rightarrow> int \<Rightarrow> rule_update \<Rightarrow> user \<Rightarrow> 'r app \<Rightarrow> alert_rule result \<times> 'r app" where
  "update_alert_rule e i data u a = (case validate_update data of
     Inl _ \<Rightarrow> (Inl (HTTPException 422 UnprocessableEntity), a)
   | Inr data \<Rightarrow>
       (case own_rule i u (app_db a) of
          Inl x \<Rightarrow> (Inl x, a)
        | Inr r \<Rightarrow>
            if writes_null data then (Inl (Unhandled IntegrityError), a)
            else if \<not> rule_fits (apply_update data r) then (Inl (Unhandled DataError), a)
            else (after_audit e (touch_updated e data r),
              a\<lparr>app_db := rule_audit e ''rule_update'' u i (Some (MetaFields (update_fields data)))
                  (set_rule i (touch_updated e data) (app_db a))\<rparr>)))"

text \<open>The events of a deleted rule go with it (ON DELETE CASCADE).\<close>

definition delete_rule :: "int \<Rightarrow> db \<Rightarrow> db" where
  "delete_rule i d = d\<lparr>alert_rules := delete_where (\<lambda>r. rule_id r = i) (alert_rules d),
     alert_events := delete_where (\<lambda>ev. ev_rule_id ev = i) (alert_events d)\<rparr>"

definition delete_alert_rule :: "env \<Rightarrow> int \<Rightarrow> user \<Rightarrow> 'r app \<Rightarrow> unit result \<times> 'r app" where
  "delete_alert_rule e i u a = (case own_rule i u (app_db a) of
     Inl x \<Rightarrow> (Inl x, a)
   | Inr _ \<Rightarrow>
       (Inr (), a\<lparr>app_db := rule_audit e ''rule_delete'' u i None (delete_rule i (app_db a))\<rparr>))"

section \<open>Events\<close>

definition own_events :: "user \<Rightarrow> db \<Rightarrow> (alert_event \<times> alert_rule) list" where
  "own_events u d = [(ev, r). ev \<leftarrow> rows (alert_events d), r \<leftarrow> rows (alert_rules d),
     ev_rule_id ev = rule_id r \<and> rule_owner_id r = usr_id u]"

definition list_alert_events :: "int option \<Rightarrow> int option \<Rightarrow> int \<Rightarrow> user \<Rightarrow> db \<Rightarrow> alert_event list result" where
  "list_alert_events server_id rid limit u d =
     (if limit < 1 \<or> 500 < limit then Inl (HTTPException 422 UnprocessableEntity)
      else if \<not> int32_params [server_id, rid] then Inl (Unhandled DataError)
      else Inr (take (nat limit) (order_by_desc ev_created_at
        (filter (\<lambda>ev. optional_filter ev_server_id server_id ev \<and> optional_filter ev_rule_id rid ev)
          (map fst (own_events u d))))))"

definition get_alert_event :: "int \<Rightarrow> user \<Rightarrow> db \<Rightarrow> alert_event result" where
  "get_alert_event i u d =
     (if \<not> int32 i then Inl (Unhandled DataError)
      else (case scalar_one_or_none (filter (\<lambda>ev. ev_id ev = i) (map fst (own_events u d))) of
        Inl x \<Rightarrow> Inl (Unhandled x)
      | Inr None \<Rightarrow> Inl (HTTPException 404 EventNotFound)
      | Inr (Some ev) \<Rightarrow> Inr ev))"

definition event_header :: "string list" where
  "event_header = [''id'', ''server_id'', ''server_name'', ''rule_id'', ''rule_name'',
     ''container_name'', ''metric_value'', ''threshold_value'', ''status'', ''created_at'',
     ''resolved_at'', ''message'']"

definition event_cells :: "alert_event \<times> alert_rule \<times> server \<Rightarrow> csv_value list" where
  "event_cells x = (case x of (ev, r, s) \<Rightarrow>
     [CsvInt (ev_id ev), CsvInt (ev_server_id ev), CsvStr (srv_name s), CsvInt (ev_rule_id ev),
      CsvStr (rule_name r), CsvStr (case ev_container_name ev of None \<Rightarrow> [] | Some c \<Rightarrow> c),
      CsvFloat (ev_metric_value ev), CsvFloat (ev_threshold_value ev),
      CsvStr (if ev_resolved_at ev = None then ''open'' else ''resolved''), CsvTime (ev_created_at ev),
      (case ev_resolved_at ev of None \<Rightarrow> CsvStr [] | Some t \<Rightarrow> CsvTime t), CsvStr (ev_message ev)])"

definition export_alert_events :: "env \<Rightarrow> (time \<Rightarrow> string) \<Rightarrow> py_datetime option \<Rightarrow> py_datetime option
    \<Rightarrow> int option \<Rightarrow> int option \<Rightarrow> bool \<Rightarrow> user \<Rightarrow> db \<Rightarrow> string result" where
  "export_alert_events e isoformat start fin server_id rid only_open u d =
     (case export_window e (days 7) (days 90) start fin of
        Inl x \<Rightarrow> Inl x
      | Inr (lo, hi) \<Rightarrow>
          if \<not> int32_params [server_id, rid] then Inl (Unhandled DataError)
          else let found = sort_key (\<lambda>(ev, _). ev_created_at ev)
              [(ev, r, s). (ev, r) \<leftarrow> own_events u d, s \<leftarrow> rows (servers d),
               ev_server_id ev = srv_id s \<and> lo \<le> ev_created_at ev \<and> ev_created_at ev \<le> hi
               \<and> optional_filter ev_server_id server_id ev \<and> optional_filter ev_rule_id rid ev
               \<and> (only_open \<longrightarrow> ev_resolved_at ev = None)]
            in Inr (stream_csv event_header
              (map (\<lambda>x. map (csv_text (float_repr e) isoformat) (event_cells x)) found)))"

section \<open>Routing\<close>

text \<open>
  The routes of the router in the order the decorators run. A path segment in braces matches
  any one segment; the first route that matches serves the request, and a path parameter that
  is no integer is then answered with 422.
\<close>

datatype segment = Fixed string | Param
datatype verb = GET | POST | PATCH | DELETE
datatype endpoint =
    CreateRule | ListRules | GetRule | UpdateRule | DeleteRule | ListEvents | GetEvent | ExportEvents

definition alert_routes :: "(verb \<times> segment list \<times> endpoint) list" where
  "alert_routes =
     [(POST, [Fixed ''rules''], CreateRule),
      (GET, [Fixed ''rules''], ListRules),
      (GET, [Fixed ''rules'', Param], GetRule),
      (PATCH, [Fixed ''rules'', Param], UpdateRule),
      (DELETE, [Fixed ''rules'', Param], DeleteRule),
      (GET, [Fixed ''events''], ListEvents),
      (GET, [Fixed ''events'', Param], GetEvent),
      (GET, [Fixed ''events'', Fixed ''export''], ExportEvents)]"

fun segments_match :: "segment list \<Rightarrow> string list \<Rightarrow> bool" where
  "segments_match [] [] = True"
| "segments_match (Fixed t # ps) (s # ss) = (t = s \<and> segments_match ps ss)"
| "segments_match (Param # ps) (s # ss) = (s \<noteq> [] \<and> segments_match ps ss)"
| "segments_match _ _ = False"

definition dispatch :: "verb \<Rightarrow> string list \<Rightarrow> endpoint option" where
  "dispatch v path = map_option (\<lambda>(_, _, ep). ep)
     (find (\<lambda>(v', ps, _). v' = v \<and> segments_match ps path) alert_routes)"

definition path_int :: "string \<Rightarrow> int result" where
  "path_int s = (case py_int s of None \<Rightarrow> Inl (HTTPException 422 UnprocessableEntity) | Some i \<Rightarrow> Inr i)"

definition serve_get_event :: "string \<Rightarrow> user \<Rightarrow> db \<Rightarrow> alert_event result" where
  "serve_get_event seg u d = (case path_int seg of Inl x \<Rightarrow> Inl x | Inr i \<Rightarrow> get_alert_event i u d)"

section \<open>What the handlers keep\<close>

lemma own_rule_Inr:
  assumes "own_rule i u d = Inr r"
  shows "r \<in> set (rows (alert_rules d))" "rule_id r = i" "rule_owner_id r = usr_id u"
  using assms by (auto simp: own_rule_def dest: fetch_by_id_Some split: sum.splits option.splits)

lemma verify_server_owner_Inr:
  assumes "verify_server_owner i u d = Inr s"
  shows "s \<in> set (rows (servers d))" "srv_id s = i" "srv_owner_id s = usr_id u"
  using assms by (auto simp: verify_server_owner_def dest: fetch_by_id_Some split: sum.splits option.splits)

lemma rule_audit_tables [simp]:
  "alert_rules (rule_audit e ac u i m d) = alert_rules d"
  "alert_events (rule_audit e ac u i m d) = alert_events d"
  "servers (rule_audit e ac u i m d) = servers d"
  by (simp_all add: rule_audit_def)

lemma rule_audit_ok: "db_ok d \<Longrightarrow> u \<in> set (rows (users d)) \<Longrightarrow> db_ok (rule_audit e ac u i m d)"
  unfolding rule_audit_def by (intro record_audit_ok audit_user_ok)

lemma set_field_keep:
  "(\<And>x r. g (put x r) = g r) \<Longrightarrow> g (set_field put v r) = g r"
  by (simp add: set_field_def split: option.split)

lemma container_keep:
  "(\<And>x r. g (r\<lparr>rule_container_name := x\<rparr>) = g r) \<Longrightarrow>
    g (case v of None \<Rightarrow> r | Some c \<Rightarrow> r\<lparr>rule_container_name := c\<rparr>) = g r"
  by (simp split: option.split)

lemma apply_update_keep:
  assumes "\<And>x r. g (r\<lparr>rule_name := x\<rparr>) = g r" "\<And>x r. g (r\<lparr>rule_metric_type := x\<rparr>) = g r"
    "\<And>x r. g (r\<lparr>rule_metric_field := x\<rparr>) = g r" "\<And>x r. g (r\<lparr>rule_operator := x\<rparr>) = g r"
    "\<And>x r. g (r\<lparr>rule_threshold_value := x\<rparr>) = g r" "\<And>x r. g (r\<lparr>rule_container_name := x\<rparr>) = g r"
    "\<And>x r. g (r\<lparr>rule_cooldown_seconds := x\<rparr>) = g r" "\<And>x r. g (r\<lparr>rule_is_active := x\<rparr>) = g r"
    "\<And>x r. g (r\<lparr>rule_notification_channels := x\<rparr>) = g r"
  shows "g (apply_update data r) = g r"
  unfolding apply_update_def Let_def
  by (simp only: set_field_keep [of g] container_keep [of g] assms)

lemma apply_update_keys [simp]:
  "rule_id (apply_update data r) = rule_id r" "rule_owner_id (apply_update data r) = rule_owner_id r"
  "rule_server_id (apply_update data r) = rule_server_id r"
  "rule_last_triggered_at (apply_update data r) = rule_last_triggered_at r"
  by (rule apply_update_keep; simp)+

lemma touch_updated_keys [simp]:
  "rule_id (touch_updated e data r) = rule_id r" "rule_owner_id (touch_updated e data r) = rule_owner_id r"
  "rule_server_id (touch_updated e data r) = rule_server_id r"
  by (simp_all add: touch_updated_def Let_def)

lemma set_rule_ok:
  assumes "db_ok d" and "\<And>r. rule_id (f r) = rule_id r" and "\<And>r. rule_owner_id (f r) = rule_owner_id r"
    and "\<And>r. rule_server_id (f r) = rule_server_id r"
  shows "db_ok (set_rule i f d)"
  unfolding set_rule_def
  by (rule db_ok_alert_rules)
    (use assms db_ok_keyed(7) [OF assms(1)] db_ok_fk(6,7) [OF assms(1)] in
      \<open>auto simp: image_update_where rule_ids_def keyed_update\<close>)

lemma insert_rule_ok:
  assumes "db_ok d" and "srv \<in> set (rows (servers d))" and "rc_server_id data = srv_id srv"
    and "u \<in> set (rows (users d))"
  shows "db_ok (d\<lparr>alert_rules := insert_row (new_rule e data u) (alert_rules d)\<rparr>)"
  by (rule db_ok_alert_rules)
    (use assms db_ok_keyed(7) [OF assms(1)] db_ok_fk(6,7) [OF assms(1)] in
      \<open>auto simp: new_rule_def id_defs intro!: keyed_insert\<close>)

lemma delete_rule_ok:
  assumes "db_ok d"
  shows "db_ok (delete_rule i d)"
proof -
  note fk = db_ok_fk [OF assms] and k = db_ok_keyed [OF assms]
  have "keyed rule_id (delete_where (\<lambda>r. rule_id r = i) (alert_rules d))"
    and "keyed ev_id (delete_where (\<lambda>ev. ev_rule_id ev = i) (alert_events d))"
    using k by auto
  moreover have "rule_server_id ` set (rows (delete_where (\<lambda>r. rule_id r = i) (alert_rules d))) \<subseteq> server_ids d"
    "rule_owner_id ` set (rows (delete_where (\<lambda>r. rule_id r = i) (alert_rules d))) \<subseteq> user_ids d"
    "ev_server_id ` set (rows (delete_where (\<lambda>ev. ev_rule_id ev = i) (alert_events d))) \<subseteq> server_ids d"
    "ev_rule_id ` set (rows (delete_where (\<lambda>ev. ev_rule_id ev = i) (alert_events d)))
      \<subseteq> rule_id ` set (rows (delete_where (\<lambda>r. rule_id r = i) (alert_rules d)))"
    using fk by (auto simp: table_simps rule_ids_def)
  ultimately show ?thesis
    using assms by (simp add: delete_rule_def ok_defs id_defs)
qed

lemma create_rule_ok:
  assumes "db_ok (app_db a)" and "u \<in> set (rows (users (app_db a)))"
  shows "db_ok (app_db (snd (create_alert_rule e data u a)))"
proof -
  have "db_ok (rule_audit e ac u i m ((app_db a)\<lparr>alert_rules := insert_row (new_rule e x u) (alert_rules (app_db a))\<rparr>))"
    if "verify_server_owner (rc_server_id x) u (app_db a) = Inr s" for x s ac i m
    using insert_rule_ok [OF assms(1) _ _ assms(2)] verify_server_owner_Inr [OF that] assms(2)
    by (intro rule_audit_ok) auto
  then show ?thesis
    using assms(1) by (auto simp: create_alert_rule_def Let_def split: sum.splits)
qed

lemma update_rule_ok:
  assumes "db_ok (app_db a)" and "u \<in> set (rows (users (app_db a)))"
  shows "db_ok (app_db (snd (update_alert_rule e i data u a)))"
proof -
  have "db_ok (rule_audit e ac u i m (set_rule i (touch_updated e x) (app_db a)))" for ac m x
    by (intro rule_audit_ok set_rule_ok) (use assms in \<open>simp_all add: set_rule_def\<close>)
  then show ?thesis using assms(1) by (auto simp: update_alert_rule_def split: sum.splits)
qed

lemma delete_alert_rule_ok:
  assumes "db_ok (app_db a)" and "u \<in> set (rows (users (app_db a)))"
  shows "db_ok (app_db (snd (delete_alert_rule e i u a)))"
proof -
  have "db_ok (rule_audit e ac u i m (delete_rule i (app_db a)))" for ac m
    by (intro rule_audit_ok delete_rule_ok) (use assms in \<open>simp_all add: delete_rule_def\<close>)
  then show ?thesis using assms(1) by (auto simp: delete_alert_rule_def split: sum.splits)
qed

lemma keep_first_set [simp]: "set (keep_first xs) = set xs"
  by (induction xs) auto

lemma keep_first_distinct [simp]: "distinct (keep_first xs)"
  by (induction xs) auto

section \<open>Properties\<close>

definition other_user :: user where
  "other_user = demo_user\<lparr>usr_id := 2, usr_email := ''b@x.org''\<rparr>"

text \<open>A rule that is created gets the caller's values, except for its notification channels:
  whatever valid list the request names, the stored rule notifies by Telegram and email.\<close>

theorem create_ignores_channels:
  assumes "create_alert_rule e data u a = (Inr r, a')"
  shows "r \<in> set (rows (alert_rules (app_db a'))) \<and> rule_owner_id r = usr_id u
    \<and> rule_name r = rc_name data \<and> rule_threshold_value r = rc_threshold_value data
    \<and> rule_operator r = rc_operator data \<and> rule_cooldown_seconds r = rc_cooldown_seconds data
    \<and> rule_notification_channels r = [''telegram'', ''email'']"
  using assms
  by (auto simp: create_alert_rule_def Let_def validate_create_def after_audit_def new_rule_def table_simps
      split: sum.splits if_splits option.splits)

definition demo_create :: rule_create where
  "demo_create = \<lparr>rc_server_id = 1, rc_name = ''disk'', rc_metric_type = System,
     rc_metric_field = ''disk_percent'', rc_operator = Gt, rc_threshold_value = Fin 90,
     rc_container_name = None, rc_cooldown_seconds = 60, rc_is_active = True,
     rc_notification_channels = [''email'']\<rparr>"

lemma demo_created:
  "\<exists>r a'. create_alert_rule (env_at 0) demo_create demo_user demo_state = (Inr r, a')"
  by (simp add: create_alert_rule_def demo_create_def validate_create_def text_between_def
      validate_channels_def ALLOWED_CHANNELS_def lower_def strip_def rstrip_class_def is_space_def
      code_point_def lower_char_def verify_server_owner_def fetch_by_id_def int32_def table_simps
      demo_defs new_rule_def rule_fits_def fits_def after_audit_def Let_def)

theorem create_witness:
  "\<exists>r \<in> set (rows (alert_rules (app_db (snd (create_alert_rule (env_at 0) demo_create demo_user demo_state))))).
     rule_name r = ''disk'' \<and> rule_notification_channels r = [''telegram'', ''email'']"
proof -
  obtain r a' where c: "create_alert_rule (env_at 0) demo_create demo_user demo_state = (Inr r, a')"
    using demo_created by blast
  from create_ignores_channels [OF this] c show ?thesis
    by (auto simp: demo_create_def intro!: bexI [of _ r])
qed

text \<open>The channel validator accepts a list exactly when every entry, stripped and in lower
  case, is a known channel; what it keeps are those channels, each once.\<close>

theorem channels_validated:
  "(case validate_channels (Some vs) of
      Inl x \<Rightarrow> x = ValueError \<and> (\<exists>v \<in> set vs. lower (strip v) \<notin> {''telegram'', ''email''})
    | Inr cs \<Rightarrow> \<exists>kept. cs = Some kept \<and> distinct kept
        \<and> set kept = (\<lambda>v. lower (strip v)) ` set vs \<and> set kept \<subseteq> {''telegram'', ''email''})"
  by (auto simp: validate_channels_def Let_def ALLOWED_CHANNELS_def list_ex_iff)

text \<open>The CSV export of events cannot be reached: its path is served by the route of a single
  event, declared before it, which answers 422 because \<open>export\<close> is no integer.\<close>

theorem event_export_is_shadowed:
  "dispatch GET [''events'', ''export''] = Some GetEvent
   \<and> serve_get_event ''export'' u d = Inl (HTTPException 422 UnprocessableEntity)"
proof
  show "dispatch GET [''events'', ''export''] = Some GetEvent"
    by (simp add: dispatch_def alert_routes_def)
  have "py_int ''export'' = None"
    by (simp add: py_int_def strip_def rstrip_class_def is_space_def code_point_def is_decimal_def)
  then show "serve_get_event ''export'' u d = Inl (HTTPException 422 UnprocessableEntity)"
    by (simp add: serve_get_event_def path_int_def)
qed

text \<open>An update that sets a required field to null passes validation and then fails in the
  database: the request ends with an unhandled IntegrityError and changes nothing.\<close>

theorem null_update_is_unhandled:
  assumes "own_rule i u (app_db a) = Inr r" and "validate_update data = Inr data'" and "writes_null data'"
  shows "update_alert_rule e i data u a = (Inl (Unhandled IntegrityError), a)"
  using assms by (simp add: update_alert_rule_def)

definition null_update :: rule_update where
  "null_update = \<lparr>ru_name = Some None, ru_metric_type = None, ru_metric_field = None,
     ru_operator = None, ru_threshold_value = None, ru_container_name = None,
     ru_cooldown_seconds = None, ru_is_active = None, ru_notification_channels = None\<rparr>"

theorem null_update_witness:
  "update_alert_rule (env_at 0) 1 null_update demo_user demo_state = (Inl (Unhandled IntegrityError), demo_state)"
  by (rule null_update_is_unhandled [of _ _ _ demo_rule _ null_update])
     (simp_all add: own_rule_def fetch_by_id_def int32_def table_simps demo_defs null_update_def
       validate_update_def writes_null_def)

end
