(* ===== verification/PW_Servers.thy ===== *)
theory PW_Servers
  imports PW_Security PW_Csv PW_Fixtures "HOL-Library.List_Lexorder" "HOL-Library.Multiset"
begin

text \<open>
  The servers of a user (\<open>app/api/servers.py\<close>, \<open>app/schemas/server.py\<close>): registration and
  rotation of the API key, the cached dashboard, the listings of metrics and aggregates and the
  CSV exports. The random secret and the salt of a hash are arguments of the handlers; JSON is
  a codec the dashboard is given.
\<close>

section \<open>API keys\<close>

record server_with_key =
  swk_id :: int
  swk_name :: string
  swk_is_active :: bool
  swk_paused :: bool
  swk_created_at :: time
  swk_last_seen_at :: "time option"
  swk_agent_version :: "string option"
  swk_api_key :: string

definition new_server :: "env \<Rightarrow> string \<Rightarrow> string \<Rightarrow> user \<Rightarrow> int \<Rightarrow> server" where
  "new_server e name h u i = \<lparr>srv_id = i, srv_name = name, srv_api_key_hash = h,
     srv_owner_id = usr_id u, srv_created_at = db_clock e, srv_last_seen_at = None,
     srv_is_active = True, srv_agent_version = None, srv_paused = False\<rparr>"

text \<open>
  The name of a server is unique among the servers of its owner; the response of the
  registration leaves \<open>paused\<close> and \<open>agent_version\<close> at their defaults.
\<close>

definition register_server :: "crypto \<Rightarrow> env \<Rightarrow> string \<Rightarrow> string \<Rightarrow> string \<Rightarrow> user
    \<Rightarrow> 'r app \<Rightarrow> server_with_key result \<times> 'r app" where
  "register_server C e salt secret name u a = (case hash_password C salt secret of
     Inl x \<Rightarrow> (Inl (Unhandled x), a)
   | Inr h \<Rightarrow>
       let d = app_db a; s = new_server e name h u (seq (servers d)) in
       if \<exists>q \<in> set (rows (servers d)). srv_owner_id q = usr_id u \<and> srv_name q = name
       then (Inl (HTTPException 409 ServerNameTaken), a)
       else (Inr \<lparr>swk_id = srv_id s, swk_name = srv_name s, swk_is_active = srv_is_active s,
               swk_paused = False, swk_created_at = srv_created_at s,
               swk_last_seen_at = srv_last_seen_at s, swk_agent_version = None,
               swk_api_key = api_key_of (srv_id s) secret\<rparr>,
             a\<lparr>app_db := d\<lparr>servers := insert_row (new_server e name h u) (servers d)\<rparr>\<rparr>))"

definition list_my_servers :: "user \<Rightarrow> db \<Rightarrow> server list" where
  "list_my_servers u d = select (\<lambda>s. srv_owner_id s = usr_id u) (servers d)"

definition verify_server_ownership :: "db \<Rightarrow> int \<Rightarrow> int \<Rightarrow> server result" where
  "verify_server_ownership d server_id user_id =
     (case fetch_by_id srv_id server_id (\<lambda>s. srv_owner_id s = user_id) (servers d) of
        Inl x \<Rightarrow> Inl (Unhandled x)
      | Inr None \<Rightarrow> Inl (HTTPException 404 ServerNotFound)
      | Inr (Some s) \<Rightarrow> Inr s)"

definition set_key_hash :: "int \<Rightarrow> string \<Rightarrow> db \<Rightarrow> db" where
  "set_key_hash i h d = d\<lparr>servers := update_where (\<lambda>s. srv_id s = i)
     (\<lambda>s. s\<lparr>srv_api_key_hash := h\<rparr>) (servers d)\<rparr>"

definition rotate_api_key :: "crypto \<Rightarrow> env \<Rightarrow> string \<Rightarrow> string \<Rightarrow> int \<Rightarrow> user
    \<Rightarrow> 'r app \<Rightarrow> server_with_key result \<times> 'r app" where
  "rotate_api_key C e salt secret server_id u a =
     (case verify_server_ownership (app_db a) server_id (usr_id u) of
        Inl x \<Rightarrow> (Inl x, a)
      | Inr s \<Rightarrow>
          (case hash_password C salt secret of
             Inl x \<Rightarrow> (Inl (Unhandled x), a)
           | Inr h \<Rightarrow>
               (after_audit e \<lparr>swk_id = srv_id s, swk_name = srv_name s,
                  swk_is_active = srv_is_active s, swk_paused = srv_paused s,
                  swk_created_at = srv_created_at s, swk_last_seen_at = srv_last_seen_at s,
                  swk_agent_version = srv_agent_version s,
                  swk_api_key = api_key_of (srv_id s) secret\<rparr>,
                a\<lparr>app_db := record_audit e ''server_rotate_key'' (Some (usr_id u)) (Some ''server'')
                    (Some (srv_id s)) False None (set_key_hash (srv_id s) h (app_db a))\<rparr>)))"

section \<open>The dashboard\<close>

record dashboard_metric =
  dbm_cpu_percent :: pyfloat
  dbm_memory_percent :: pyfloat
  dbm_disk_percent :: pyfloat
  dbm_collected_at :: time

record dashboard_entry =
  dbe_id :: int
  dbe_name :: string
  dbe_is_active :: bool
  dbe_last_seen_at :: "time option"
  dbe_agent_version :: "string option"
  dbe_open_alerts_count :: nat
  dbe_latest_metric :: "dashboard_metric option"

text \<open>The row numbered 1 when the metrics of the server are ordered by their time, newest first.\<close>

definition dashboard_latest :: "db \<Rightarrow> int \<Rightarrow> dashboard_metric option" where
  "dashboard_latest d i = map_option (\<lambda>m. \<lparr>dbm_cpu_percent = met_cpu_percent m,
       dbm_memory_percent = met_memory_percent m, dbm_disk_percent = met_disk_percent m,
       dbm_collected_at = met_collected_at m\<rparr>)
     (latest_by met_collected_at (select (\<lambda>m. met_server_id m = i) (metrics d)))"

definition open_alerts :: "db \<Rightarrow> int \<Rightarrow> nat" where
  "open_alerts d i = length (select (\<lambda>ev. ev_server_id ev = i \<and> ev_resolved_at ev = None) (alert_events d))"

definition dashboard_data :: "db \<Rightarrow> user \<Rightarrow> dashboard_entry list" where
  "dashboard_data d u = map (\<lambda>s. \<lparr>dbe_id = srv_id s, dbe_name = srv_name s,
       dbe_is_active = srv_is_active s, dbe_last_seen_at = srv_last_seen_at s,
       dbe_agent_version = srv_agent_version s, dbe_open_alerts_count = open_alerts d (srv_id s),
       dbe_latest_metric = dashboard_latest d (srv_id s)\<rparr>) (list_my_servers u d)"

text \<open>
  \<open>loads\<close> is None where JSON raises; \<open>redis_up\<close> says whether Redis answers during the request.
  Both are covered by the handlers that swallow every exception of the cache.
\<close>

definition dashboard :: "'r redis \<Rightarrow> (dashboard_entry list \<Rightarrow> string) \<Rightarrow> (string \<Rightarrow> dashboard_entry list option)
    \<Rightarrow> env \<Rightarrow> bool \<Rightarrow> user \<Rightarrow> 'r app \<Rightarrow> dashboard_entry list \<times> 'r app" where
  "dashboard R dumps loads e redis_up u a =
     (let cached = (if redis_up
            then (case get_cached_dashboard R (app_rd a) (clock e) (usr_id u) of
                None \<Rightarrow> None | Some raw \<Rightarrow> loads raw)
            else None)
      in case cached of
        Some entries \<Rightarrow> (entries, a)
      | None \<Rightarrow>
          let entries = dashboard_data (app_db a) u in
          (entries, if redis_up
             then a\<lparr>app_rd := cache_dashboard R (app_rd a) (clock e) (usr_id u) (dumps entries) 10\<rparr>
             else a))"

section \<open>Listings\<close>

definition limited :: "int \<Rightarrow> int \<Rightarrow> 'a list result \<Rightarrow> 'a list result" where
  "limited limit maximum found =
     (if limit < 1 \<or> maximum < limit then Inl (HTTPException 422 UnprocessableEntity)
      else map_sum id (take (nat limit)) found)"

definition of_own_server :: "int \<Rightarrow> user \<Rightarrow> db \<Rightarrow> 'a list \<Rightarrow> 'a list result" where
  "of_own_server i u d found = map_sum id (\<lambda>_. found) (verify_server_ownership d i (usr_id u))"

definition matches :: "'a option \<Rightarrow> 'a \<Rightarrow> bool" where
  "matches q v = (case q of None \<Rightarrow> True | Some w \<Rightarrow> v = w)"

definition get_system_aggregates :: "int \<Rightarrow> period_type \<Rightarrow> int \<Rightarrow> user \<Rightarrow> db \<Rightarrow> metric_aggregate list result" where
  "get_system_aggregates i period limit u d = limited limit 365 (of_own_server i u d
     (order_by_desc ma_period_start
       (select (\<lambda>g. ma_server_id g = i \<and> ma_period_type g = period) (metric_aggregates d))))"

definition get_docker_aggregates :: "int \<Rightarrow> period_type \<Rightarrow> string option \<Rightarrow> int \<Rightarrow> user \<Rightarrow> db
    \<Rightarrow> docker_aggregate list result" where
  "get_docker_aggregates i period container_name limit u d = limited limit 365 (of_own_server i u d
     (order_by_desc da_period_start (select (\<lambda>g. da_server_id g = i \<and> da_period_type g = period
       \<and> matches container_name (da_container_name g)) (docker_aggregates d))))"

definition list_server_metrics :: "int \<Rightarrow> int \<Rightarrow> user \<Rightarrow> db \<Rightarrow> metric list result" where
  "list_server_metrics i limit u d = limited limit 1000 (of_own_server i u d
     (order_by_desc met_collected_at (select (\<lambda>m. met_server_id m = i) (metrics d))))"

definition list_server_docker_metrics :: "int \<Rightarrow> int \<Rightarrow> string option \<Rightarrow> user \<Rightarrow> db
    \<Rightarrow> docker_metric list result" where
  "list_server_docker_metrics i limit container_id u d = limited limit 1000 (of_own_server i u d
     (order_by_desc dm_collected_at (select (\<lambda>m. dm_server_id m = i
       \<and> matches container_id (dm_container_id m)) (docker_metrics d))))"

section \<open>Exports\<close>

datatype granularity = Raw | Period period_type

fun EXPORT_LIMITS :: "granularity \<Rightarrow> time" where
  "EXPORT_LIMITS Raw = hours 24"
| "EXPORT_LIMITS (Period Fivemin) = days 7"
| "EXPORT_LIMITS (Period Hourly) = days 30"
| "EXPORT_LIMITS (Period Daily) = days 365"

fun normalize_utc :: "py_datetime \<Rightarrow> time" where
  "normalize_utc (Naive t) = t"
| "normalize_utc (Aware t) = t"

definition validate_export_range :: "py_datetime \<Rightarrow> py_datetime \<Rightarrow> granularity \<Rightarrow> (time \<times> time) result" where
  "validate_export_range start fin g =
     (let s = normalize_utc start; f = normalize_utc fin in
      if f \<le> s then Inl (HTTPException 400 EndNotAfterStart)
      else if f - s > EXPORT_LIMITS g then Inl (HTTPException 400 PeriodTooLong)
      else Inr (s, f))"

definition SYSTEM_RAW_HEADER :: "string list" where
  "SYSTEM_RAW_HEADER = [''collected_at'', ''cpu_percent'', ''memory_percent'', ''disk_percent'']"

definition SYSTEM_AGG_HEADER :: "string list" where
  "SYSTEM_AGG_HEADER = [''period_start'', ''period_end'', ''avg_cpu'', ''min_cpu'', ''max_cpu'',
     ''avg_memory'', ''min_memory'', ''max_memory'', ''avg_disk'', ''min_disk'', ''max_disk'',
     ''sample_count'']"

definition DOCKER_RAW_HEADER :: "string list" where
  "DOCKER_RAW_HEADER = [''collected_at'', ''container_name'', ''cpu_percent'', ''memory_usage_mb'',
     ''memory_limit_mb'']"

definition DOCKER_AGG_HEADER :: "string list" where
  "DOCKER_AGG_HEADER = [''period_start'', ''period_end'', ''container_name'', ''avg_cpu'', ''min_cpu'',
     ''max_cpu'', ''avg_memory_usage'', ''max_memory_usage'', ''total_rx_bytes'', ''total_tx_bytes'',
     ''sample_count'']"

text \<open>The rows of each stream, in the order of the query, and the cells of a row.\<close>

definition between :: "time \<Rightarrow> time \<Rightarrow> time \<Rightarrow> bool" where
  "between lo hi t \<longleftrightarrow> lo \<le> t \<and> t \<le> hi"

definition stream_system_raw :: "db \<Rightarrow> int \<Rightarrow> time \<Rightarrow> time \<Rightarrow> csv_value list list" where
  "stream_system_raw d i lo hi = map (\<lambda>m. [CsvTime (met_collected_at m), CsvFloat (met_cpu_percent m),
       CsvFloat (met_memory_percent m), CsvFloat (met_disk_percent m)])
     (sort_key met_collected_at
       (select (\<lambda>m. met_server_id m = i \<and> between lo hi (met_collected_at m)) (metrics d)))"

definition stream_system_agg :: "db \<Rightarrow> int \<Rightarrow> time \<Rightarrow> time \<Rightarrow> period_type \<Rightarrow> csv_value list list" where
  "stream_system_agg d i lo hi period = map (\<lambda>g. [CsvTime (ma_period_start g), CsvTime (ma_period_end g),
       CsvFloat (ma_avg_cpu g), CsvFloat (ma_min_cpu g), CsvFloat (ma_max_cpu g),
       CsvFloat (ma_avg_memory g), CsvFloat (ma_min_memory g), CsvFloat (ma_max_memory g),
       CsvFloat (ma_avg_disk g), CsvFloat (ma_min_disk g), CsvFloat (ma_max_disk g),
       CsvInt (ma_sample_count g)])
     (sort_key ma_period_start (select (\<lambda>g. ma_server_id g = i \<and> ma_period_type g = period
       \<and> between lo hi (ma_period_start g)) (metric_aggregates d)))"

definition stream_docker_raw :: "db \<Rightarrow> int \<Rightarrow> time \<Rightarrow> time \<Rightarrow> string option \<Rightarrow> csv_value list list" where
  "stream_docker_raw d i lo hi container_name = map (\<lambda>m. [CsvTime (dm_collected_at m),
       CsvStr (dm_container_name m), CsvFloat (dm_cpu_percent m), CsvFloat (dm_memory_usage_mb m),
       (case dm_memory_limit_mb m of None \<Rightarrow> CsvNone | Some v \<Rightarrow> CsvFloat v)])
     (sort_key dm_collected_at (select (\<lambda>m. dm_server_id m = i \<and> between lo hi (dm_collected_at m)
       \<and> matches container_name (dm_container_name m)) (docker_metrics d)))"

text \<open>
  \<open>ORDER BY period_start, container_name\<close>. The order of two names depends on the collation of the
  database; the model compares their code points.
\<close>

definition name_key :: "string \<Rightarrow> int list" where
  "name_key s = map (\<lambda>c. int (of_char c)) s"

definition stream_docker_agg :: "db \<Rightarrow> int \<Rightarrow> time \<Rightarrow> time \<Rightarrow> period_type \<Rightarrow> string option
    \<Rightarrow> csv_value list list" where
  "stream_docker_agg d i lo hi period container_name =
     map (\<lambda>g. [CsvTime (da_period_start g), CsvTime (da_period_end g), CsvStr (da_container_name g),
       CsvFloat (da_avg_cpu g), CsvFloat (da_min_cpu g), CsvFloat (da_max_cpu g),
       CsvFloat (da_avg_memory_usage g), CsvFloat (da_max_memory_usage g),
       CsvInt (da_total_rx_bytes g), CsvInt (da_total_tx_bytes g), CsvInt (da_sample_count g)])
     (sort_key (\<lambda>g. da_period_start g # name_key (da_container_name g))
       (select (\<lambda>g. da_server_id g = i \<and> da_period_type g = period \<and> between lo hi (da_period_start g)
         \<and> matches container_name (da_container_name g)) (docker_aggregates d)))"

definition csv_cells :: "env \<Rightarrow> (time \<Rightarrow> string) \<Rightarrow> csv_value list list \<Rightarrow> string list list" where
  "csv_cells e isoformat cells = map (map (csv_text (float_repr e) isoformat)) cells"

definition export_system_metrics :: "env \<Rightarrow> (time \<Rightarrow> string) \<Rightarrow> int \<Rightarrow> py_datetime \<Rightarrow> py_datetime
    \<Rightarrow> granularity \<Rightarrow> user \<Rightarrow> db \<Rightarrow> string result" where
  "export_system_metrics e isoformat i start fin g u d = (case validate_export_range start fin g of
     Inl x \<Rightarrow> Inl x
   | Inr (lo, hi) \<Rightarrow>
       (case verify_server_ownership d i (usr_id u) of
          Inl x \<Rightarrow> Inl x
        | Inr _ \<Rightarrow> Inr (case g of
            Raw \<Rightarrow> stream_csv SYSTEM_RAW_HEADER (csv_cells e isoformat (stream_system_raw d i lo hi))
          | Period p \<Rightarrow>
              stream_csv SYSTEM_AGG_HEADER (csv_cells e isoformat (stream_system_agg d i lo hi p)))))"

definition export_docker_metrics :: "env \<Rightarrow> (time \<Rightarrow> string) \<Rightarrow> int \<Rightarrow> py_datetime \<Rightarrow> py_datetime
    \<Rightarrow> granularity \<Rightarrow> string option \<Rightarrow> user \<Rightarrow> db \<Rightarrow> string result" where
  "export_docker_metrics e isoformat i start fin g container_name u d =
     (case validate_export_range start fin g of
        Inl x \<Rightarrow> Inl x
      | Inr (lo, hi) \<Rightarrow>
          (case verify_server_ownership d i (usr_id u) of
             Inl x \<Rightarrow> Inl x
           | Inr _ \<Rightarrow> Inr (case g of
               Raw \<Rightarrow> stream_csv DOCKER_RAW_HEADER
                 (csv_cells e isoformat (stream_docker_raw d i lo hi container_name))
             | Period p \<Rightarrow> stream_csv DOCKER_AGG_HEADER
                 (csv_cells e isoformat (stream_docker_agg d i lo hi p container_name)))))"

definition export_logs :: "env \<Rightarrow> (time \<Rightarrow> string) \<Rightarrow> int \<Rightarrow> py_datetime option \<Rightarrow> py_datetime option
    \<Rightarrow> user \<Rightarrow> db \<Rightarrow> string result" where
  "export_logs e isoformat i start fin u d = (case verify_server_ownership d i (usr_id u) of
     Inl x \<Rightarrow> Inl x
   | Inr _ \<Rightarrow>
       (case export_window e (hours 24) (days 7) start fin of
          Inl x \<Rightarrow> Inl x
        | Inr (lo, hi) \<Rightarrow> Inr (stream_csv [''id'', ''created_at'', ''message'']
            (csv_cells e isoformat
              (map (\<lambda>l. [CsvInt (log_id l), CsvTime (log_created_at l), CsvStr (log_message l)])
                (sort_key log_created_at (select (\<lambda>l. log_server_id l = i
                  \<and> between lo hi (log_created_at l)) (logs d))))))))"

section \<open>Lemmas\<close>

lemma limited_length: "limited n m f = Inr xs \<Longrightarrow> length xs \<le> nat n \<and> int (length xs) \<le> m"
  by (cases f) (auto simp: limited_def split: if_splits)

lemma verify_server_ownership_row:
  assumes "verify_server_ownership d i u = Inr s"
  shows "s \<in> set (rows (servers d)) \<and> srv_id s = i \<and> srv_owner_id s = u"
  using assms by (auto simp: verify_server_ownership_def dest: fetch_by_id_Some
      split: sum.splits option.splits)

lemma verify_server_ownership_own:
  assumes "db_ok d" and "s \<in> set (rows (servers d))" and "int32 (srv_id s)"
  shows "verify_server_ownership d (srv_id s) (srv_owner_id s) = Inr s"
  using fetch_by_id_row [OF db_ok_keyed(2) [OF assms(1)] assms(2) refl, of "\<lambda>q. srv_owner_id q = srv_owner_id s"]
    assms(3)
  by (simp add: verify_server_ownership_def)

lemma verify_server_ownership_other:
  assumes "db_ok d" and "s \<in> set (rows (servers d))" and "srv_owner_id s \<noteq> u" and "int32 (srv_id s)"
  shows "verify_server_ownership d (srv_id s) u = Inl (HTTPException 404 ServerNotFound)"
proof -
  have "fetch_by_id srv_id (srv_id s) (\<lambda>q. srv_owner_id q = u) (servers d) = Inr None"
    using assms keyed_inj [OF db_ok_keyed(2) [OF assms(1)] _ assms(2)] by (auto simp: fetch_by_id_None)
  then show ?thesis by (simp add: verify_server_ownership_def)
qed

lemma set_key_hash_ok: "db_ok d \<Longrightarrow> db_ok (set_key_hash i h d)"
  unfolding set_key_hash_def
  by (rule db_ok_servers)
    (auto simp: db_ok_keyed db_ok_unique map_update_where image_update_where server_ids_def db_ok_fk)

lemma rotate_api_key_ok:
  assumes "db_ok (app_db a)" and "u \<in> set (rows (users (app_db a)))"
  shows "db_ok (app_db (snd (rotate_api_key C e salt secret i u a)))"
proof -
  have "Some (usr_id u) \<in> insert None (Some ` user_ids (set_key_hash j h (app_db a)))" for j h
    using assms(2) by (simp add: user_ids_def set_key_hash_def)
  then show ?thesis
    using assms by (auto simp: rotate_api_key_def set_key_hash_ok intro!: record_audit_ok split: sum.split)
qed

lemma register_server_ok:
  assumes "db_ok (app_db a)" and "u \<in> set (rows (users (app_db a)))"
  shows "db_ok (app_db (snd (register_server C e salt secret name u a)))"
proof -
  have "db_ok ((app_db a)\<lparr>servers := insert_row (new_server e name h u) (servers (app_db a))\<rparr>)"
    if "\<not> (\<exists>q \<in> set (rows (servers (app_db a))). srv_owner_id q = usr_id u \<and> srv_name q = name)" for h
    using assms that db_ok_unique(2) [OF assms(1)] db_ok_fk(1) [OF assms(1)]
    by (intro db_ok_servers keyed_insert)
      (auto simp: db_ok_keyed new_server_def table_simps user_ids_def server_ids_def)
  with assms show ?thesis
    by (auto simp: register_server_def Let_def split: sum.split)
qed

lemma dashboard_db [simp]: "app_db (snd (dashboard R dumps loads e up u a)) = app_db a"
  by (simp add: dashboard_def Let_def split: option.split)

lemma verify_after_set_hash:
  assumes "db_ok d" and "s \<in> set (rows (servers d))" and "int32 (srv_id s)"
  shows "verify_api_key C (Some (api_key_of (srv_id s) secret)) (set_key_hash i h d) =
    (let s' = (if srv_id s = i then s\<lparr>srv_api_key_hash := h\<rparr> else s) in
     if srv_is_active s then
       (case verify_password C secret (srv_api_key_hash s') of
          Inl x \<Rightarrow> Inl (Unhandled x)
        | Inr ok \<Rightarrow> if ok then Inr s' else Inl (HTTPException 401 InvalidApiKey))
     else Inl (HTTPException 401 InvalidApiKey))"
proof -
  let ?s = "if srv_id s = i then s\<lparr>srv_api_key_hash := h\<rparr> else s"
  have "?s \<in> set (rows (servers (set_key_hash i h d)))"
    using assms(2) by (force simp: set_key_hash_def table_simps)
  from verify_api_key_of [OF db_ok_keyed(2) [OF set_key_hash_ok [OF assms(1)]] this] assms(3)
  show ?thesis by (cases "srv_id s = i") (simp_all add: Let_def)
qed

lemma verify_api_key_record_audit [simp]:
  "verify_api_key C k (record_audit e ac u rt ri rq m d) = verify_api_key C k d"
  unfolding verify_api_key_def record_audit_tables ..

section \<open>Properties\<close>

text \<open>C19: rotating the key of an active server replaces it at once: the new key authenticates the
  server, a key of this server with another secret is accepted only if that secret verifies
  against the new hash, and the keys of all other servers are accepted or refused as before. When
  the audit write goes through, the response carries the new key.\<close>

theorem rotation_replaces_key:
  assumes "crypto_service C" and "db_ok (app_db a)" and "s \<in> set (rows (servers (app_db a)))"
    and "int32 (srv_id s)" and "srv_is_active s" and "srv_owner_id s = usr_id u"
    and hash: "hash_password C salt secret = Inr h"
    and rotate: "rotate_api_key C e salt secret (srv_id s) u a = (res, a')"
  shows "verify_api_key C (Some (api_key_of (srv_id s) secret)) (app_db a') = Inr (s\<lparr>srv_api_key_hash := h\<rparr>)
    \<and> (\<forall>old q. verify_api_key C (Some (api_key_of (srv_id s) old)) (app_db a') = Inr q \<longrightarrow>
        verify_password C old h = Inr True)
    \<and> (\<forall>t x. t \<in> set (rows (servers (app_db a))) \<and> srv_id t \<noteq> srv_id s \<and> int32 (srv_id t) \<longrightarrow>
        verify_api_key C (Some (api_key_of (srv_id t) x)) (app_db a') =
        verify_api_key C (Some (api_key_of (srv_id t) x)) (app_db a))
    \<and> (audit_ok e \<longrightarrow> (\<exists>k. res = Inr k \<and> swk_api_key k = api_key_of (srv_id s) secret))"
proof -
  have own: "verify_server_ownership (app_db a) (srv_id s) (usr_id u) = Inr s"
    using verify_server_ownership_own [OF assms(2-4)] assms(6) by simp
  have db: "verify_api_key C k (app_db a') = verify_api_key C k (set_key_hash (srv_id s) h (app_db a))" for k
    using rotate own hash by (auto simp: rotate_api_key_def)
  have new: "verify_password C secret h = Inr True"
    using crypto_service.verify_hash [OF assms(1) hash] .
  have others: "verify_api_key C (Some (api_key_of (srv_id t) x)) (set_key_hash (srv_id s) h (app_db a)) =
      verify_api_key C (Some (api_key_of (srv_id t) x)) (app_db a)"
    if "t \<in> set (rows (servers (app_db a)))" "srv_id t \<noteq> srv_id s" "int32 (srv_id t)" for t x
    using that verify_api_key_of [OF db_ok_keyed(2) [OF assms(2)] that(1,3)]
    by (simp add: verify_after_set_hash [OF assms(2)])
  have olds: "verify_password C old h = Inr True"
    if "verify_api_key C (Some (api_key_of (srv_id s) old)) (set_key_hash (srv_id s) h (app_db a)) = Inr q" for old q
    using that assms(5) by (simp add: verify_after_set_hash [OF assms(2-4)] split: sum.splits if_splits)
  have res: "audit_ok e \<longrightarrow> (\<exists>k. res = Inr k \<and> swk_api_key k = api_key_of (srv_id s) secret)"
    using rotate own hash by (auto simp: rotate_api_key_def after_audit_def)
  show ?thesis
    unfolding db using others olds res
    by (intro conjI allI impI) (simp_all add: verify_after_set_hash [OF assms(2-4)] new assms(5))
qed

lemma demo_rotation:
  "hash_password plain_crypto ''salt'' ''fresh'' = Inr ''#fresh''"
  by (simp add: hash_password_def plain_crypto_def)

theorem rotation_witness:
  "verify_api_key plain_crypto (Some (api_key_of 1 ''fresh''))
      (app_db (snd (rotate_api_key plain_crypto (env_at 0) ''salt'' ''fresh'' 1 demo_user demo_state))) =
      Inr (demo_server\<lparr>srv_api_key_hash := ''#fresh''\<rparr>)
   \<and> (\<forall>q. verify_api_key plain_crypto (Some (api_key_of 1 ''key''))
      (app_db (snd (rotate_api_key plain_crypto (env_at 0) ''salt'' ''fresh'' 1 demo_user demo_state))) \<noteq> Inr q)"
proof -
  obtain r a' where r: "rotate_api_key plain_crypto (env_at 0) ''salt'' ''fresh'' 1 demo_user demo_state = (r, a')"
    by fastforce
  have pre: "db_ok (app_db demo_state)" "demo_server \<in> set (rows (servers (app_db demo_state)))"
    "int32 (srv_id demo_server)" "srv_is_active demo_server" "srv_owner_id demo_server = usr_id demo_user"
    and i: "srv_id demo_server = 1"
    by (simp_all add: demo_defs int32_def)
  note rotated = rotation_replaces_key [OF plain_service pre demo_rotation r [folded i]]
  have th: "verify_api_key plain_crypto (Some (api_key_of 1 ''fresh'')) (app_db a') =
      Inr (demo_server\<lparr>srv_api_key_hash := ''#fresh''\<rparr>)"
    and old: "verify_api_key plain_crypto (Some (api_key_of 1 ''key'')) (app_db a') = Inr q \<longrightarrow>
      verify_password plain_crypto ''key'' ''#fresh'' = Inr True" for q
    using rotated unfolding i by blast+
  have "verify_password plain_crypto ''key'' ''#fresh'' \<noteq> Inr True"
    by (simp add: verify_password_def plain_crypto_def)
  with th old show ?thesis unfolding r snd_conv by blast
qed

text \<open>
  the dashboard is at most ten seconds old, and private: after a request that read the
  database, a request of the same user within ten seconds gets the same entries whatever the
  database holds then, a later one gets what the database holds at its time, and the answers
  other users get do not depend on it.\<close>

theorem dashboard_is_fresh_enough:
  assumes "redis_service R" and codec: "loads (dumps (dashboard_data (app_db a) u)) = Some (dashboard_data (app_db a) u)"
    and "get_cached_dashboard R (app_rd a) (clock e) (usr_id u) = None"
    and "clock e \<le> clock e'" and b: "b = snd (dashboard R dumps loads e True u a)"
    and later: "app_rd b' = app_rd b"
  shows "fst (dashboard R dumps loads e True u a) = dashboard_data (app_db a) u
    \<and> fst (dashboard R dumps loads e' True u b') =
        (if clock e' < clock e + secs 10 then dashboard_data (app_db a) u else dashboard_data (app_db b') u)
    \<and> (usr_id v \<noteq> usr_id u \<longrightarrow> fst (dashboard R dumps loads e' True v b') =
        fst (dashboard R dumps loads e' True v (b'\<lparr>app_rd := app_rd a\<rparr>)))"
proof -
  note get = redis_service.get_set [OF assms(1)] redis_service.get_set_other [OF assms(1)]
  have b_rd: "app_rd b' = rd_set R (app_rd a) (clock e) (dashboard_key (usr_id u))
      (dumps (dashboard_data (app_db a) u)) 10"
    using assms(3) later by (simp add: b dashboard_def cache_dashboard_def Let_def)
  then have "fst (dashboard R dumps loads e' True u b') = (if clock e' < clock e + secs 10
      then dashboard_data (app_db a) u else dashboard_data (app_db b') u)"
    using assms(4) codec by (simp add: dashboard_def get_cached_dashboard_def get Let_def)
  moreover have "fst (dashboard R dumps loads e' True v b') =
      fst (dashboard R dumps loads e' True v (b'\<lparr>app_rd := app_rd a\<rparr>))" if "usr_id v \<noteq> usr_id u"
    using b_rd that assms(4) by (simp add: dashboard_def get_cached_dashboard_def get Let_def split: option.split)
  moreover have "fst (dashboard R dumps loads e True u a) = dashboard_data (app_db a) u"
    using assms(3) by (simp add: dashboard_def Let_def)
  ultimately show ?thesis by blast
qed

text \<open>A codec that knows one value is enough for the witness.\<close>

definition one_dashboard :: "string \<Rightarrow> dashboard_entry list option" where
  "one_dashboard raw = Some (dashboard_data demo_db demo_user)"

theorem dashboard_witness:
  "fst (dashboard kv_redis (\<lambda>_. ''x'') one_dashboard (env_at (secs 5)) True demo_user
      (snd (dashboard kv_redis (\<lambda>_. ''x'') one_dashboard (env_at 0) True demo_user demo_state)\<lparr>app_db := empty_db\<rparr>))
    = dashboard_data demo_db demo_user
   \<and> fst (dashboard kv_redis (\<lambda>_. ''x'') one_dashboard (env_at (secs 10)) True demo_user
      (snd (dashboard kv_redis (\<lambda>_. ''x'') one_dashboard (env_at 0) True demo_user demo_state)\<lparr>app_db := empty_db\<rparr>))
    = []"
proof -
  let ?b = "snd (dashboard kv_redis (\<lambda>_. ''x'') one_dashboard (env_at 0) True demo_user demo_state)"
  have pre: "one_dashboard ''x'' = Some (dashboard_data (app_db demo_state) demo_user)"
    "get_cached_dashboard kv_redis (app_rd demo_state) (clock (env_at 0)) (usr_id demo_user) = None"
    by (simp_all add: one_dashboard_def get_cached_dashboard_def kv_defs)
  have le: "clock (env_at 0) \<le> clock (env_at (secs 5))" "clock (env_at 0) \<le> clock (env_at (secs 10))"
    by simp_all
  have rd: "app_rd (?b\<lparr>app_db := empty_db\<rparr>) = app_rd ?b" by simp
  have empty: "dashboard_data empty_db demo_user = []"
    by (simp add: dashboard_data_def list_my_servers_def table_simps empty_db_def empty_table_def)
  note fresh = dashboard_is_fresh_enough [OF kv_service pre _ refl rd]
  show ?thesis
    using fresh [OF le(1), of demo_user] fresh [OF le(2), of demo_user] by (simp add: empty)
qed

text \<open>A server of another user is as good as absent: its key cannot be rotated, nothing of it
  is listed, and every export of it is refused.\<close>

theorem foreign_server_is_hidden:
  assumes "db_ok (app_db a)" and "s \<in> set (rows (servers (app_db a)))" and "int32 (srv_id s)"
    and "srv_owner_id s \<noteq> usr_id u" and "1 \<le> n" and "n \<le> 365"
  shows "rotate_api_key C e salt secret (srv_id s) u a = (Inl (HTTPException 404 ServerNotFound), a)
    \<and> get_system_aggregates (srv_id s) p n u (app_db a) = Inl (HTTPException 404 ServerNotFound)
    \<and> get_docker_aggregates (srv_id s) p box n u (app_db a) = Inl (HTTPException 404 ServerNotFound)
    \<and> list_server_metrics (srv_id s) n u (app_db a) = Inl (HTTPException 404 ServerNotFound)
    \<and> list_server_docker_metrics (srv_id s) n box u (app_db a) = Inl (HTTPException 404 ServerNotFound)
    \<and> export_logs e iso8601 (srv_id s) from_opt to_opt u (app_db a) = Inl (HTTPException 404 ServerNotFound)
    \<and> (\<forall>x. export_system_metrics e iso8601 (srv_id s) start fin g u (app_db a) \<noteq> Inr x)
    \<and> (\<forall>x. export_docker_metrics e iso8601 (srv_id s) start fin g box u (app_db a) \<noteq> Inr x)
    \<and> s \<notin> set (list_my_servers u (app_db a))"
proof -
  note hidden = verify_server_ownership_other [OF assms(1,2,4,3)]
  show ?thesis
    using assms(4-6) hidden
    by (simp add: rotate_api_key_def get_system_aggregates_def get_docker_aggregates_def
        list_server_metrics_def list_server_docker_metrics_def export_logs_def
        export_system_metrics_def export_docker_metrics_def list_my_servers_def limited_def
        of_own_server_def table_simps split: sum.split)
qed

theorem foreign_server_witness:
  "rotate_api_key plain_crypto (env_at 0) ''salt'' ''fresh'' 1 (demo_user\<lparr>usr_id := 2\<rparr>) demo_state =
    (Inl (HTTPException 404 ServerNotFound), demo_state)"
  using foreign_server_is_hidden [of demo_state demo_server "demo_user\<lparr>usr_id := 2\<rparr>" 1 plain_crypto "env_at 0"
      "''salt''" "''fresh''"]
  by (simp add: demo_defs int32_def)

text \<open>
  a raw export that succeeds is of a server of the caller, over a window that is not empty
  and not longer than a day, and reads back to one line for every metric of the server in the
  window, both ends included, in the order of their times.\<close>

theorem raw_export_is_complete:
  assumes "export_system_metrics e iso8601 i start fin Raw u d = Inr text"
  shows "(\<exists>s \<in> set (rows (servers d)). srv_id s = i \<and> srv_owner_id s = usr_id u)
    \<and> normalize_utc start < normalize_utc fin \<and> normalize_utc fin \<le> normalize_utc start + hours 24
    \<and> (\<exists>ms. sorted (map met_collected_at ms)
        \<and> mset ms = mset (filter (\<lambda>m. met_server_id m = i \<and> normalize_utc start \<le> met_collected_at m
            \<and> met_collected_at m \<le> normalize_utc fin) (rows (metrics d)))
        \<and> read_csv StartField [] [] text = SYSTEM_RAW_HEADER # map (\<lambda>m. [iso8601 (met_collected_at m),
            float_repr e (met_cpu_percent m), float_repr e (met_memory_percent m),
            float_repr e (met_disk_percent m)]) ms)"
proof -
  obtain lo hi s where r: "validate_export_range start fin Raw = Inr (lo, hi)"
    and s: "verify_server_ownership d i (usr_id u) = Inr s"
    and t: "text = stream_csv SYSTEM_RAW_HEADER (csv_cells e iso8601 (stream_system_raw d i lo hi))"
    using assms by (auto simp: export_system_metrics_def split: sum.splits)
  have b: "lo = normalize_utc start" "hi = normalize_utc fin" "lo < hi" "hi \<le> lo + hours 24"
    using r by (auto simp: validate_export_range_def Let_def split: if_splits)
  let ?ms = "sort_key met_collected_at
    (select (\<lambda>m. met_server_id m = i \<and> between lo hi (met_collected_at m)) (metrics d))"
  have "\<forall>row \<in> set (csv_cells e iso8601 (stream_system_raw d i lo hi)). row \<noteq> []"
    by (auto simp: csv_cells_def stream_system_raw_def)
  then have "read_csv StartField [] [] text = SYSTEM_RAW_HEADER # csv_cells e iso8601 (stream_system_raw d i lo hi)"
    unfolding t stream_csv_def by (simp add: read_row read_rows SYSTEM_RAW_HEADER_def)
  then have "read_csv StartField [] [] text = SYSTEM_RAW_HEADER # map (\<lambda>m. [iso8601 (met_collected_at m),
      float_repr e (met_cpu_percent m), float_repr e (met_memory_percent m),
      float_repr e (met_disk_percent m)]) ?ms"
    by (simp add: csv_cells_def stream_system_raw_def)
  moreover have "mset ?ms = mset (filter (\<lambda>m. met_server_id m = i \<and> normalize_utc start \<le> met_collected_at m
      \<and> met_collected_at m \<le> normalize_utc fin) (rows (metrics d)))"
    by (simp add: b(1,2) between_def table_simps)
  ultimately have "\<exists>ms. sorted (map met_collected_at ms)
      \<and> mset ms = mset (filter (\<lambda>m. met_server_id m = i \<and> normalize_utc start \<le> met_collected_at m
          \<and> met_collected_at m \<le> normalize_utc fin) (rows (metrics d)))
      \<and> read_csv StartField [] [] text = SYSTEM_RAW_HEADER # map (\<lambda>m. [iso8601 (met_collected_at m),
          float_repr e (met_cpu_percent m), float_repr e (met_memory_percent m),
          float_repr e (met_disk_percent m)]) ms"
    by (intro exI [of _ ?ms] conjI) simp_all
  with verify_server_ownership_row [OF s] b show ?thesis by blast
qed

definition export_metric :: metric where
  "export_metric = \<lparr>met_id = 1, met_server_id = 1, met_cpu_percent = Fin 10, met_memory_percent = Fin 20,
     met_disk_percent = Fin 30, met_collected_at = minutes 30\<rparr>"

definition export_db :: db where
  "export_db = demo_db\<lparr>metrics := \<lparr>rows = [export_metric], seq = 2\<rparr>\<rparr>"

theorem raw_export_witness:
  "\<exists>text. export_system_metrics (env_at 0) (\<lambda>_. ''t'') 1 (Naive 0) (Aware (hours 1)) Raw demo_user export_db = Inr text
    \<and> read_csv StartField [] [] text = SYSTEM_RAW_HEADER # [[''t'', ''0.0'', ''0.0'', ''0.0'']]"
proof -
  have "srv_id demo_server = 1" "int32 (srv_id demo_server)" "srv_owner_id demo_server = usr_id demo_user"
    "db_ok demo_db" "demo_server \<in> set (rows (servers demo_db))"
    by (simp_all add: demo_defs int32_def)
  then have "verify_server_ownership demo_db 1 (usr_id demo_user) = Inr demo_server"
    using verify_server_ownership_own by metis
  then have "verify_server_ownership export_db 1 (usr_id demo_user) = Inr demo_server"
    by (simp add: verify_server_ownership_def export_db_def)
  then obtain out where out: "export_system_metrics (env_at 0) (\<lambda>_. ''t'') 1 (Naive 0) (Aware (hours 1)) Raw
      demo_user export_db = Inr out"
    by (simp add: export_system_metrics_def validate_export_range_def)
  from raw_export_is_complete [OF out] obtain ms where
    "mset ms = mset (filter (\<lambda>m. met_server_id m = 1 \<and> normalize_utc (Naive 0) \<le> met_collected_at m
       \<and> met_collected_at m \<le> normalize_utc (Aware (hours 1))) (rows (metrics export_db)))"
    and csv: "read_csv StartField [] [] out = SYSTEM_RAW_HEADER # map (\<lambda>m. [''t'', ''0.0'', ''0.0'', ''0.0'']) ms"
    by auto
  then have "ms = [export_metric]"
    by (simp add: export_db_def export_metric_def)
  with out csv show ?thesis by auto
qed

end
