(* ===== verification/PW_BotText.thy ===== *)
theory PW_BotText
  imports PW_Schema
begin

text \<open>
  What the Telegram bot reads (\<open>app/telegram_bot.py\<close>): the patterns of its commands and the
  numbers of the rule dialogue. In the patterns neighbouring classes exclude each other, so
  each is a left-to-right reader without backtracking.
\<close>

section \<open>Readers\<close>

definition literal :: "string \<Rightarrow> string \<Rightarrow> string option" where
  "literal p s = (if startswith s p then Some (drop (length p) s) else None)"

text \<open>\<open>\s+\<close>, \<open>\d+\<close> and \<open>\s*$\<close>.\<close>

definition spaces1 :: "string \<Rightarrow> string option" where
  "spaces1 s = (case s of [] \<Rightarrow> None | c # _ \<Rightarrow> if is_space c then Some (dropWhile is_space s) else None)"

definition number :: "string \<Rightarrow> (int \<times> string) option" where
  "number s = (case int_unsigned (takeWhile is_decimal s) of
     None \<Rightarrow> None
   | Some n \<Rightarrow> Some (n, dropWhile is_decimal s))"

definition at_end :: "string \<Rightarrow> bool" where
  "at_end s \<longleftrightarrow> dropWhile is_space s = []"

text \<open>A word of characters of a class, with what follows.\<close>

definition word_of :: "(char \<Rightarrow> bool) \<Rightarrow> string \<Rightarrow> (string \<times> string) option" where
  "word_of P s = (if takeWhile P s = [] then None else Some (takeWhile P s, dropWhile P s))"

section \<open>Commands\<close>

definition START_PATTERN :: "string \<Rightarrow> string option" where
  "START_PATTERN s = (case Option.bind (literal ''/start'' s) spaces1 of
     None \<Rightarrow> None
   | Some r \<Rightarrow> (case word_of (\<lambda>c. \<not> is_space c) r of
       None \<Rightarrow> None
     | Some (code, r') \<Rightarrow> if at_end r' then Some code else None))"

text \<open>A command with one number, and the rest of the line.\<close>

definition number_arg :: "string \<Rightarrow> string \<Rightarrow> (int \<times> string) option" where
  "number_arg cmd s = Option.bind (Option.bind (literal cmd s) spaces1) number"

definition only_number :: "string \<Rightarrow> string \<Rightarrow> int option" where
  "only_number cmd s = (case number_arg cmd s of
     Some (n, r) \<Rightarrow> if at_end r then Some n else None
   | None \<Rightarrow> None)"

definition TOGGLE_PATTERN :: "string \<Rightarrow> int option" where
  "TOGGLE_PATTERN = only_number ''/toggle''"

definition PAUSE_PATTERN :: "string \<Rightarrow> int option" where
  "PAUSE_PATTERN = only_number ''/pause''"

definition RESUME_PATTERN :: "string \<Rightarrow> int option" where
  "RESUME_PATTERN = only_number ''/resume''"

text \<open>The server, the minutes and the channel, None when it is left out.\<close>

definition MUTE_PATTERN :: "string \<Rightarrow> (int \<times> int \<times> string option) option" where
  "MUTE_PATTERN s = (case number_arg ''/mute'' s of
     None \<Rightarrow> None
   | Some (i, r) \<Rightarrow> (case Option.bind (spaces1 r) number of
       None \<Rightarrow> None
     | Some (m, r2) \<Rightarrow>
         if at_end r2 then Some (i, m, None)
         else (case Option.bind (spaces1 r2) (word_of is_word) of
             None \<Rightarrow> None
           | Some (ch, r3) \<Rightarrow> if at_end r3 then Some (i, m, Some ch) else None)))"

definition DELETE_PATTERN :: "string \<Rightarrow> (int \<times> bool) option" where
  "DELETE_PATTERN s = (case number_arg ''/delete'' s of
     None \<Rightarrow> None
   | Some (i, r) \<Rightarrow>
       if at_end r then Some (i, False)
       else (case Option.bind (spaces1 r) (literal ''confirm'') of
           None \<Rightarrow> None
         | Some r2 \<Rightarrow> if at_end r2 then Some (i, True) else None))"

text \<open>The outer option is the match, the inner one its optional number.\<close>

definition EVENTS_PATTERN :: "string \<Rightarrow> int option option" where
  "EVENTS_PATTERN s = (case literal ''/events'' s of
     None \<Rightarrow> None
   | Some r \<Rightarrow>
       if at_end r then Some None
       else (case Option.bind (spaces1 r) number of
           None \<Rightarrow> None
         | Some (i, r2) \<Rightarrow> if at_end r2 then Some (Some i) else None))"

section \<open>float(text)\<close>

text \<open>
  Python's grammar of a float: an optional sign, then \<open>inf\<close>, \<open>infinity\<close> or \<open>nan\<close> in any case, or
  digits with an optional point and an optional exponent; an underscore may stand between two
  digits. The value is the decimal number itself: the model does not round it to 53 bits, but
  it turns into an infinity where rounding does.
\<close>

fun digits_from :: "int \<Rightarrow> nat \<Rightarrow> string \<Rightarrow> int \<times> nat \<times> string" where
  "digits_from n k [] = (n, k, [])"
| "digits_from n k [c] = (if is_decimal c then (10 * n + digit_val c, k + 1, []) else (n, k, [c]))"
| "digits_from n k (c # c' # cs) =
     (if is_decimal c then digits_from (10 * n + digit_val c) (k + 1) (c' # cs)
      else if c = CHR ''_'' \<and> 0 < k \<and> is_decimal c' then digits_from (10 * n + digit_val c') (k + 1) cs
      else (n, k, c # c' # cs))"

fun sign :: "string \<Rightarrow> bool \<times> string" where
  "sign [] = (False, [])"
| "sign (c # s) = (if c = CHR ''-'' then (True, s) else if c = CHR ''+'' then (False, s) else (False, c # s))"

definition decimal :: "string \<Rightarrow> rat option" where
  "decimal s =
     (let (n, k, r) = digits_from 0 0 s;
          (m, j, r2) = (case r of c # r' \<Rightarrow> if c = CHR ''.'' then digits_from 0 0 r' else (0, 0, r)
                                | [] \<Rightarrow> (0, 0, r));
          mantissa = of_int n + of_int m / 10 ^ j
      in if k + j = 0 then None
         else (case r2 of
           [] \<Rightarrow> Some mantissa
         | c # r3 \<Rightarrow>
             if lower_char c = CHR ''e'' then
               (let (neg, r4) = sign r3; (x, i, r5) = digits_from 0 0 r4 in
                if i = 0 \<or> r5 \<noteq> [] then None
                else Some (if neg then mantissa / 10 ^ nat x else mantissa * 10 ^ nat x))
             else None))"

definition float_overflow :: rat where
  "float_overflow = 2 ^ 1024 - 2 ^ 970"

fun negate :: "pyfloat \<Rightarrow> pyfloat" where
  "negate (Fin q) = Fin (- q)"
| "negate PosInf = NegInf"
| "negate NegInf = PosInf"
| "negate NaN = NaN"

definition py_float :: "string \<Rightarrow> pyfloat option" where
  "py_float s =
     (let (neg, t) = sign (strip s); u = lower t in
      map_option (\<lambda>v. if neg then negate v else v)
        (if u = ''inf'' \<or> u = ''infinity'' then Some PosInf
         else if u = ''nan'' then Some NaN
         else map_option (\<lambda>q. if float_overflow \<le> q then PosInf else Fin q) (decimal t)))"

section \<open>Lemmas\<close>

lemma literal_append [simp]: "literal p (p @ s) = Some s"
  by (simp add: literal_def)

lemma spaces1_space [simp]: "spaces1 (CHR '' '' # s) = Some (dropWhile is_space s)"
  by (simp add: spaces1_def is_space_def code_point_def)

lemma at_end_Nil [simp]: "at_end []"
  by (simp add: at_end_def)

lemma space_not_decimal [simp]: "\<not> is_decimal (CHR '' '')"
  by (simp add: is_decimal_def code_point_def)

lemma str_nat_hd: "is_decimal (hd (str_nat n))"
  using str_nat_decimal [of n] by (cases "str_nat n") simp_all

lemma number_str_nat:
  assumes "r = [] \<or> \<not> is_decimal (hd r)"
  shows "number (str_nat n @ r) = Some (int n, r)"
proof -
  have "takeWhile is_decimal (str_nat n @ r) = str_nat n" and "dropWhile is_decimal (str_nat n @ r) = r"
    using assms str_nat_decimal [of n] by (cases r; auto simp: takeWhile_append dropWhile_append list_all_iff)+
  then show ?thesis by (simp add: number_def)
qed

lemma drop_spaces_str_nat: "dropWhile is_space (str_nat n @ r) = str_nat n @ r"
  using str_nat_hd [of n] by (cases "str_nat n") (auto dest: decimal_not_space)

lemma number_arg_str_nat:
  assumes "r = [] \<or> \<not> is_decimal (hd r)"
  shows "number_arg cmd (cmd @ '' '' @ str_nat n @ r) = Some (int n, r)"
  using assms by (simp add: number_arg_def drop_spaces_str_nat number_str_nat)

text \<open>The patterns read back what a client types.\<close>

lemma only_number_typed: "only_number cmd (cmd @ '' '' @ str_nat n) = Some (int n)"
  using number_arg_str_nat [of "[]" cmd n] by (simp add: only_number_def)

lemma delete_typed:
  "DELETE_PATTERN (''/delete '' @ str_nat n) = Some (int n, False)"
  "DELETE_PATTERN (''/delete '' @ str_nat n @ '' confirm'') = Some (int n, True)"
proof -
  show "DELETE_PATTERN (''/delete '' @ str_nat n) = Some (int n, False)"
    using number_arg_str_nat [of "[]" "''/delete''" n] by (simp add: DELETE_PATTERN_def)
  have "\<not> at_end '' confirm''"
    by (simp add: at_end_def is_space_def code_point_def)
  moreover have "Option.bind (spaces1 '' confirm'') (literal ''confirm'') = Some []"
    by (simp add: is_space_def code_point_def literal_def)
  ultimately show "DELETE_PATTERN (''/delete '' @ str_nat n @ '' confirm'') = Some (int n, True)"
    using number_arg_str_nat [of "'' confirm''" "''/delete''" n] by (simp add: DELETE_PATTERN_def)
qed


end
