(* ===== verification/PW_BotDraft.thy ===== *)
theory PW_BotDraft
  imports PW_BotText PW_RedisClient
begin

text \<open>
  The dialogue of \<open>/createrule\<close> (\<open>app/telegram_bot.py\<close>, \<open>_process_rule_draft\<close>): a state
  machine whose state, the draft, lives in Redis between messages. The draft is a Python
  dictionary with a step and the answers so far; an answer that is read before it was given
  raises KeyError. Replies are constructors, since the source writes them in Russian.
\<close>

section \<open>Drafts\<close>

record draft_data =
  dd_server_id :: "int option"
  dd_server_name :: "string option"
  dd_metric_type :: "string option"
  dd_name :: "string option"
  dd_metric_field :: "string option"
  dd_container_name :: "string option option"
  dd_operator :: "string option"
  dd_threshold_value :: "pyfloat option"
  dd_notification_channels :: "string list option"

record draft =
  dr_step :: string
  dr_data :: draft_data

definition no_data :: draft_data where
  "no_data = \<lparr>dd_server_id = None, dd_server_name = None, dd_metric_type = None, dd_name = None,
     dd_metric_field = None, dd_container_name = None, dd_operator = None,
     dd_threshold_value = None, dd_notification_channels = None\<rparr>"

definition METRIC_TYPES :: "string list" where
  "METRIC_TYPES = [''system'', ''docker'']"

definition SYSTEM_METRIC_FIELDS :: "string list" where
  "SYSTEM_METRIC_FIELDS = [''cpu_percent'', ''memory_percent'', ''disk_percent'']"

definition DOCKER_METRIC_FIELDS :: "string list" where
  "DOCKER_METRIC_FIELDS = [''cpu_percent'', ''memory_usage_mb'', ''memory_limit_mb'']"

definition OPERATORS :: "string list" where
  "OPERATORS = [''gt'', ''gte'', ''lt'', ''lte'', ''eq'', ''neq'']"

definition CHANNEL_PRESETS :: "string \<rightharpoonup> string list" where
  "CHANNEL_PRESETS = [''telegram'' \<mapsto> [''telegram''], ''email'' \<mapsto> [''email''],
     ''both'' \<mapsto> [''telegram'', ''email''], ''none'' \<mapsto> []]"

text \<open>The answers of \<open>MetricType(v)\<close> and \<open>ThresholdOperator(v)\<close>.\<close>

definition metric_type_of :: "string \<Rightarrow> metric_type option" where
  "metric_type_of v = (if v = ''system'' then Some System else if v = ''docker'' then Some Docker else None)"

definition operator_of :: "string \<Rightarrow> threshold_operator option" where
  "operator_of v = find (\<lambda>op. operator_value op = v) [Gt, Gte, Lt, Lte, Eq, Neq]"

section \<open>One step\<close>

datatype dialogue_reply =
    NeedNumber
  | ServerAgain
  | AskType
  | BadType
  | AskName
  | BadName
  | AskMetric "string list"
  | BadMetric "string list"
  | AskContainer
  | BadContainer
  | AskOperator
  | BadOperator
  | AskThreshold
  | BadThreshold
  | AskChannels
  | BadChannels
  | Summary draft_data
  | NothingCreated
  | AnswerYesNo
  | RuleCreated int string
  | DraftBroken

text \<open>
  What a step does: it repeats the question, moves to the next step (and stores the draft),
  gives up, or creates the rule. \<open>Raises\<close> is an exception; the flag says whether the draft was
  stored before it.
\<close>

datatype step_result =
    Repeat dialogue_reply
  | Advance draft dialogue_reply
  | Abandon dialogue_reply
  | Create draft_data
  | Raises exc
  | StoreThenRaise draft exc

definition fields_of :: "string \<Rightarrow> string list" where
  "fields_of mt = (if mt = ''system'' then SYSTEM_METRIC_FIELDS else DOCKER_METRIC_FIELDS)"

text \<open>The summary of the last question reads every answer but the container's.\<close>

definition summary_complete :: "draft_data \<Rightarrow> bool" where
  "summary_complete x \<longleftrightarrow> dd_server_id x \<noteq> None \<and> dd_server_name x \<noteq> None \<and> dd_metric_type x \<noteq> None
     \<and> dd_name x \<noteq> None \<and> dd_metric_field x \<noteq> None \<and> dd_operator x \<noteq> None
     \<and> dd_threshold_value x \<noteq> None"

text \<open>\<open>own\<close> looks up a server of the user by its id.\<close>

definition server_step :: "(int \<Rightarrow> exc + server option) \<Rightarrow> draft_data \<Rightarrow> string \<Rightarrow> step_result" where
  "server_step own x answer =
     (if \<not> isdigit answer then Repeat NeedNumber
      else (case py_int answer of
        None \<Rightarrow> Raises ValueError
      | Some i \<Rightarrow> (case own i of
          Inl ex \<Rightarrow> Raises ex
        | Inr None \<Rightarrow> Repeat ServerAgain
        | Inr (Some s) \<Rightarrow> Advance \<lparr>dr_step = ''metric_type'',
            dr_data = x\<lparr>dd_server_id := Some i, dd_server_name := Some (srv_name s)\<rparr>\<rparr> AskType)))"

definition metric_type_step :: "draft_data \<Rightarrow> string \<Rightarrow> step_result" where
  "metric_type_step x answer =
     (if lower answer \<notin> set METRIC_TYPES then Repeat BadType
      else Advance \<lparr>dr_step = ''name'', dr_data = x\<lparr>dd_metric_type := Some (lower answer)\<rparr>\<rparr> AskName)"

definition name_step :: "draft_data \<Rightarrow> string \<Rightarrow> step_result" where
  "name_step x answer =
     (if answer = [] \<or> 255 < length answer then Repeat BadName
      else let dr = \<lparr>dr_step = ''metric'', dr_data = x\<lparr>dd_name := Some answer\<rparr>\<rparr> in
        (case dd_metric_type x of
           None \<Rightarrow> StoreThenRaise dr KeyError
         | Some mt \<Rightarrow> Advance dr (AskMetric (fields_of mt))))"

definition metric_step :: "draft_data \<Rightarrow> string \<Rightarrow> step_result" where
  "metric_step x answer = (case dd_metric_type x of
     None \<Rightarrow> Raises KeyError
   | Some mt \<Rightarrow>
       if lower answer \<notin> set (fields_of mt) then Repeat (BadMetric (fields_of mt))
       else let x' = x\<lparr>dd_metric_field := Some (lower answer)\<rparr> in
         if mt = ''docker'' then Advance \<lparr>dr_step = ''container'', dr_data = x'\<rparr> AskContainer
         else Advance \<lparr>dr_step = ''operator'', dr_data = x'\<rparr> AskOperator)"

definition container_step :: "draft_data \<Rightarrow> string \<Rightarrow> step_result" where
  "container_step x answer =
     (if answer = [] then Repeat BadContainer
      else Advance \<lparr>dr_step = ''operator'', dr_data = x\<lparr>dd_container_name :=
        Some (if answer = ''*'' then None else Some (take 255 answer))\<rparr>\<rparr> AskOperator)"

definition operator_step :: "draft_data \<Rightarrow> string \<Rightarrow> step_result" where
  "operator_step x answer =
     (if lower answer \<notin> set OPERATORS then Repeat BadOperator
      else Advance \<lparr>dr_step = ''threshold'', dr_data = x\<lparr>dd_operator := Some (lower answer)\<rparr>\<rparr> AskThreshold)"

definition threshold_step :: "draft_data \<Rightarrow> string \<Rightarrow> step_result" where
  "threshold_step x answer = (case py_float answer of
     None \<Rightarrow> Repeat BadThreshold
   | Some v \<Rightarrow>
       Advance \<lparr>dr_step = ''channels'', dr_data = x\<lparr>dd_threshold_value := Some v\<rparr>\<rparr> AskChannels)"

definition channels_step :: "draft_data \<Rightarrow> string \<Rightarrow> step_result" where
  "channels_step x answer = (case CHANNEL_PRESETS (lower answer) of
     None \<Rightarrow> Repeat BadChannels
   | Some chs \<Rightarrow>
       let x' = x\<lparr>dd_notification_channels := Some chs\<rparr>; dr = \<lparr>dr_step = ''confirm'', dr_data = x'\<rparr> in
       if summary_complete x' then Advance dr (Summary x') else StoreThenRaise dr KeyError)"

text \<open>The Russian words for yes and no are outside the alphabet of the model.\<close>

definition confirm_step :: "draft_data \<Rightarrow> string \<Rightarrow> step_result" where
  "confirm_step x answer =
     (if lower answer \<in> {''n'', ''no''} then Abandon NothingCreated
      else if lower answer \<notin> {''y'', ''yes''} then Repeat AnswerYesNo
      else Create x)"

definition dialogue_step :: "(int \<Rightarrow> exc + server option) \<Rightarrow> draft \<Rightarrow> string \<Rightarrow> step_result" where
  "dialogue_step own dr text =
     (let x = dr_data dr; answer = strip text; st = dr_step dr in
      if st = ''server'' then server_step own x answer
      else if st = ''metric_type'' then metric_type_step x answer
      else if st = ''name'' then name_step x answer
      else if st = ''metric'' then metric_step x answer
      else if st = ''container'' then container_step x answer
      else if st = ''operator'' then operator_step x answer
      else if st = ''threshold'' then threshold_step x answer
      else if st = ''channels'' then channels_step x answer
      else if st = ''confirm'' then confirm_step x answer
      else Abandon DraftBroken)"

section \<open>Creating the rule\<close>

text \<open>
  The columns the constructor leaves out take their defaults. \<open>data["..."]\<close> of a missing answer
  is a KeyError and a value outside the enumerations a ValueError; the container is optional.
\<close>

definition draft_rule :: "env \<Rightarrow> user \<Rightarrow> draft_data \<Rightarrow> exc + (int \<Rightarrow> alert_rule)" where
  "draft_rule e u x =
     (case (dd_server_id x, dd_name x, dd_metric_type x, dd_metric_field x, dd_operator x,
            dd_threshold_value x, dd_notification_channels x) of
        (Some sid, Some name, Some mt, Some field, Some op, Some thr, Some chs) \<Rightarrow>
          (case (metric_type_of mt, operator_of op) of
             (Some mt', Some op') \<Rightarrow> Inr (\<lambda>i. \<lparr>rule_id = i, rule_server_id = sid,
               rule_owner_id = usr_id u, rule_name = name, rule_metric_type = mt',
               rule_metric_field = field, rule_operator = op', rule_threshold_value = thr,
               rule_container_name = (case dd_container_name x of None \<Rightarrow> None | Some c \<Rightarrow> c),
               rule_cooldown_seconds = 300, rule_is_active = True,
               rule_notification_channels = chs, rule_last_triggered_at = None,
               rule_created_at = db_clock e, rule_updated_at = db_clock e\<rparr>)
           | _ \<Rightarrow> Inl ValueError)
      | _ \<Rightarrow> Inl KeyError)"

text \<open>The insert is refused when a column does not hold its value or the server is gone.\<close>

definition insert_draft_rule :: "env \<Rightarrow> user \<Rightarrow> draft_data \<Rightarrow> db \<Rightarrow> (exc + alert_rule) \<times> db" where
  "insert_draft_rule e u x d = (case draft_rule e u x of
     Inl ex \<Rightarrow> (Inl ex, d)
   | Inr mk \<Rightarrow>
       let rule = mk (seq (alert_rules d)) in
       if \<not> rule_fits rule \<or> \<not> int32 (rule_server_id rule) then (Inl DataError, d)
       else if rule_server_id rule \<notin> server_ids d then (Inl IntegrityError, d)
       else (Inr rule, d\<lparr>alert_rules := insert_row mk (alert_rules d)\<rparr>))"

definition process_rule_draft :: "'r redis \<Rightarrow> (draft \<Rightarrow> string) \<Rightarrow> env \<Rightarrow> int \<Rightarrow> user \<Rightarrow> string \<Rightarrow> draft
    \<Rightarrow> 'r app \<Rightarrow> (exc + dialogue_reply) \<times> 'r app" where
  "process_rule_draft R dumps e chat_id u text dr a =
     (let own = (\<lambda>i. fetch_by_id srv_id i (\<lambda>s. srv_owner_id s = usr_id u) (servers (app_db a)));
          stored = (\<lambda>dr'. a\<lparr>app_rd := set_rule_draft R dumps (app_rd a) (clock e) chat_id dr'\<rparr>)
      in case dialogue_step own dr text of
        Repeat r \<Rightarrow> (Inr r, a)
      | Advance dr' r \<Rightarrow> (Inr r, stored dr')
      | Abandon r \<Rightarrow> (Inr r, a\<lparr>app_rd := clear_rule_draft R (app_rd a) (clock e) chat_id\<rparr>)
      | Raises ex \<Rightarrow> (Inl ex, a)
      | StoreThenRaise dr' ex \<Rightarrow> (Inl ex, stored dr')
      | Create x \<Rightarrow>
          (case insert_draft_rule e u x (app_db a) of
             (Inl ex, _) \<Rightarrow> (Inl ex, a)
           | (Inr rule, d) \<Rightarrow> (Inr (RuleCreated (rule_id rule) (rule_name rule)),
               a\<lparr>app_db := d, app_rd := clear_rule_draft R (app_rd a) (clock e) chat_id\<rparr>)))"

section \<open>The invariant of drafts\<close>

definition STEPS :: "string list" where
  "STEPS = [''server'', ''metric_type'', ''name'', ''metric'', ''container'', ''operator'', ''threshold'',
     ''channels'', ''confirm'']"

text \<open>The position of a step in the dialogue.\<close>

fun position :: "string \<Rightarrow> string list \<Rightarrow> nat" where
  "position x [] = 0"
| "position x (y # ys) = (if x = y then 0 else Suc (position x ys))"

definition rank :: "draft \<Rightarrow> nat" where
  "rank dr = position (dr_step dr) STEPS"

definition has :: "'a option \<Rightarrow> ('a \<Rightarrow> bool) \<Rightarrow> bool" where
  "has v P \<longleftrightarrow> (case v of None \<Rightarrow> False | Some x \<Rightarrow> P x)"

lemma has_simps [simp]: "has (Some x) P = P x" "\<not> has None P"
  by (simp_all add: has_def)

text \<open>Every answer the steps before have asked for is there and is valid.\<close>

definition draft_ok :: "draft \<Rightarrow> bool" where
  "draft_ok dr \<longleftrightarrow> (let x = dr_data dr; n = rank dr in
     dr_step dr \<in> set STEPS
     \<and> (1 \<le> n \<longrightarrow> dd_server_id x \<noteq> None \<and> dd_server_name x \<noteq> None)
     \<and> (2 \<le> n \<longrightarrow> has (dd_metric_type x) (\<lambda>v. v \<in> set METRIC_TYPES))
     \<and> (3 \<le> n \<longrightarrow> has (dd_name x) (\<lambda>v. v \<noteq> [] \<and> length v \<le> 255))
     \<and> (4 \<le> n \<longrightarrow> has (dd_metric_type x) (\<lambda>mt. has (dd_metric_field x) (\<lambda>v. v \<in> set (fields_of mt))))
     \<and> (6 \<le> n \<longrightarrow> has (dd_operator x) (\<lambda>v. v \<in> set OPERATORS))
     \<and> (7 \<le> n \<longrightarrow> dd_threshold_value x \<noteq> None)
     \<and> (8 \<le> n \<longrightarrow> dd_notification_channels x \<noteq> None)
     \<and> has (Some (dd_container_name x)) (\<lambda>c. case c of Some (Some v) \<Rightarrow> length v \<le> 255 | _ \<Rightarrow> True))"

lemma new_draft_ok: "draft_ok \<lparr>dr_step = ''server'', dr_data = no_data\<rparr>"
  by (simp add: draft_ok_def rank_def STEPS_def no_data_def Let_def)

lemma steps_iff:
  "st \<in> set STEPS \<longleftrightarrow> st = ''server'' \<or> st = ''metric_type'' \<or> st = ''name'' \<or> st = ''metric''
    \<or> st = ''container'' \<or> st = ''operator'' \<or> st = ''threshold'' \<or> st = ''channels'' \<or> st = ''confirm''"
  unfolding STEPS_def list.set insert_iff empty_iff simp_thms ..

text \<open>The ranks of the steps, computed once.\<close>

lemma ranks [simp]:
  "rank \<lparr>dr_step = ''server'', dr_data = x\<rparr> = 0"
  "rank \<lparr>dr_step = ''metric_type'', dr_data = x\<rparr> = 1"
  "rank \<lparr>dr_step = ''name'', dr_data = x\<rparr> = 2"
  "rank \<lparr>dr_step = ''metric'', dr_data = x\<rparr> = 3"
  "rank \<lparr>dr_step = ''container'', dr_data = x\<rparr> = 4"
  "rank \<lparr>dr_step = ''operator'', dr_data = x\<rparr> = 5"
  "rank \<lparr>dr_step = ''threshold'', dr_data = x\<rparr> = 6"
  "rank \<lparr>dr_step = ''channels'', dr_data = x\<rparr> = 7"
  "rank \<lparr>dr_step = ''confirm'', dr_data = x\<rparr> = 8"
  by (simp_all add: rank_def STEPS_def)

lemma in_steps [simp]:
  "''server'' \<in> set STEPS" "''metric_type'' \<in> set STEPS" "''name'' \<in> set STEPS" "''metric'' \<in> set STEPS"
  "''container'' \<in> set STEPS" "''operator'' \<in> set STEPS" "''threshold'' \<in> set STEPS"
  "''channels'' \<in> set STEPS" "''confirm'' \<in> set STEPS"
  by (simp_all only: steps_iff simp_thms)

text \<open>The branch each step takes.\<close>

lemma dialogue_step_simps [simp]:
  "dialogue_step own \<lparr>dr_step = ''server'', dr_data = x\<rparr> t = server_step own x (strip t)"
  "dialogue_step own \<lparr>dr_step = ''metric_type'', dr_data = x\<rparr> t = metric_type_step x (strip t)"
  "dialogue_step own \<lparr>dr_step = ''name'', dr_data = x\<rparr> t = name_step x (strip t)"
  "dialogue_step own \<lparr>dr_step = ''metric'', dr_data = x\<rparr> t = metric_step x (strip t)"
  "dialogue_step own \<lparr>dr_step = ''container'', dr_data = x\<rparr> t = container_step x (strip t)"
  "dialogue_step own \<lparr>dr_step = ''operator'', dr_data = x\<rparr> t = operator_step x (strip t)"
  "dialogue_step own \<lparr>dr_step = ''threshold'', dr_data = x\<rparr> t = threshold_step x (strip t)"
  "dialogue_step own \<lparr>dr_step = ''channels'', dr_data = x\<rparr> t = channels_step x (strip t)"
  "dialogue_step own \<lparr>dr_step = ''confirm'', dr_data = x\<rparr> t = confirm_step x (strip t)"
  by (simp_all add: dialogue_step_def Let_def)

lemmas step_defs = server_step_def metric_type_step_def name_step_def metric_step_def
  container_step_def operator_step_def threshold_step_def channels_step_def confirm_step_def

text \<open>What a step may do to a valid draft.\<close>

definition step_ok :: "(int \<Rightarrow> exc + server option) \<Rightarrow> draft \<Rightarrow> step_result \<Rightarrow> bool" where
  "step_ok own dr res = (case res of
     Repeat _ \<Rightarrow> True
   | Advance dr' _ \<Rightarrow> draft_ok dr' \<and> rank dr < rank dr'
   | Abandon r \<Rightarrow> r = NothingCreated
   | Create x \<Rightarrow> x = dr_data dr \<and> rank dr = 8
   | Raises ex \<Rightarrow> dr_step dr = ''server'' \<and> (ex = ValueError \<or> (\<exists>i. own i = Inl ex))
   | StoreThenRaise _ _ \<Rightarrow> False)"

lemma fields_METRIC: "mt \<in> set METRIC_TYPES \<Longrightarrow> mt = ''system'' \<or> mt = ''docker''"
  by (auto simp: METRIC_TYPES_def)

lemma draft_okI:
  "draft_ok \<lparr>dr_step = st, dr_data = x\<rparr> \<Longrightarrow> st \<in> set STEPS"
  by (simp add: draft_ok_def Let_def)

lemma draft_step_ok:
  assumes "draft_ok dr"
  shows "step_ok own dr (dialogue_step own dr answer)"
proof -
  obtain st x where dr: "dr = \<lparr>dr_step = st, dr_data = x\<rparr>" by (cases dr) auto
  from assms have "st \<in> set STEPS" unfolding dr by (rule draft_okI)
  then show ?thesis
    unfolding steps_iff
  proof (elim disjE, goal_cases)
    case 1
    with assms show ?thesis
      by (auto simp: dr server_step_def step_ok_def draft_ok_def Let_def split: option.split sum.split)
  next
    case 2
    with assms show ?thesis
      by (simp add: dr metric_type_step_def step_ok_def draft_ok_def Let_def)
  next
    case 3
    with assms show ?thesis
      by (auto simp: dr name_step_def step_ok_def draft_ok_def Let_def split: option.split)
  next
    case 4
    with assms obtain mt where mt: "dd_metric_type x = Some mt" "mt \<in> set METRIC_TYPES"
      by (auto simp: dr draft_ok_def Let_def has_def split: option.splits)
    with 4 assms show ?thesis
      by (auto simp: dr metric_step_def step_ok_def draft_ok_def Let_def)
  next
    case 5
    with assms show ?thesis
      by (auto simp: dr container_step_def step_ok_def draft_ok_def Let_def has_def split: option.splits)
  next
    case 6
    with assms show ?thesis
      by (simp add: dr operator_step_def step_ok_def draft_ok_def Let_def)
  next
    case 7
    with assms show ?thesis
      by (simp add: dr threshold_step_def step_ok_def draft_ok_def Let_def split: option.split)
  next
    case 8
    with assms show ?thesis
      by (auto simp: dr channels_step_def step_ok_def draft_ok_def summary_complete_def has_def Let_def
          split: option.splits)
  next
    case 9
    then show ?thesis
      by (simp add: dr confirm_step_def step_ok_def)
  qed
qed

text \<open>A finished draft always makes a rule that fits its columns.\<close>

lemma enum_total:
  "mt \<in> set METRIC_TYPES \<Longrightarrow> \<exists>v. metric_type_of mt = Some v"
  "op \<in> set OPERATORS \<Longrightarrow> \<exists>v. operator_of op = Some v"
  by (auto simp: METRIC_TYPES_def OPERATORS_def metric_type_of_def operator_of_def)

lemma fields_short: "f \<in> set (fields_of mt) \<Longrightarrow> length f \<le> 100"
  by (auto simp: fields_of_def SYSTEM_METRIC_FIELDS_def DOCKER_METRIC_FIELDS_def split: if_splits)

lemma has_obtain: "has v P \<Longrightarrow> \<exists>x. v = Some x \<and> P x"
  by (cases v) auto

lemma finished_draft_rule:
  assumes "draft_ok dr" and "rank dr = 8"
  shows "\<exists>mk. draft_rule e u (dr_data dr) = Inr mk \<and> (\<forall>i. rule_fits (mk i) \<and> rule_id (mk i) = i
    \<and> rule_owner_id (mk i) = usr_id u \<and> dd_server_id (dr_data dr) = Some (rule_server_id (mk i)))"
proof -
  let ?x = "dr_data dr"
  from assms obtain i nm thr chs where "dd_server_id ?x = Some i" and
    "dd_threshold_value ?x = Some thr" "dd_notification_channels ?x = Some chs"
    by (auto simp: draft_ok_def Let_def)
  moreover from assms obtain mt nm f op where "dd_metric_type ?x = Some mt" "mt \<in> set METRIC_TYPES"
    "dd_name ?x = Some nm" "length nm \<le> 255" "dd_metric_field ?x = Some f" "f \<in> set (fields_of mt)"
    "dd_operator ?x = Some op" "op \<in> set OPERATORS"
    by (auto simp: draft_ok_def Let_def dest!: has_obtain)
  moreover have "fits 255 (case dd_container_name ?x of None \<Rightarrow> None | Some c \<Rightarrow> c)"
    using assms by (auto simp: draft_ok_def Let_def fits_def split: option.splits)
  moreover obtain mt' op' where "metric_type_of mt = Some mt'" "operator_of op = Some op'"
    using enum_total calculation by metis
  ultimately show ?thesis
    by (simp add: draft_rule_def rule_fits_def int32_def fields_short)
qed

section \<open>Properties\<close>

text \<open>The dialogue never gets stuck. On a draft that holds the answers of the steps before, any
  message either repeats the question, moves strictly forward to a draft that is valid again,
  ends the dialogue at the user's word, or, at the last step, creates a rule from answers that
  are all there and fit their columns; a message is never met with a KeyError, and only the
  server question can raise at all.\<close>

theorem dialogue_never_stuck:
  assumes "draft_ok dr"
  shows "case dialogue_step own dr answer of
      Repeat _ \<Rightarrow> True
    | Advance dr' _ \<Rightarrow> draft_ok dr' \<and> rank dr < rank dr'
    | Abandon r \<Rightarrow> r = NothingCreated
    | Create x \<Rightarrow> (\<exists>mk. draft_rule e u x = Inr mk \<and> (\<forall>i. rule_fits (mk i) \<and> rule_owner_id (mk i) = usr_id u))
    | Raises ex \<Rightarrow> dr_step dr = ''server'' \<and> (ex = ValueError \<or> (\<exists>i. own i = Inl ex))
    | StoreThenRaise _ _ \<Rightarrow> False"
  using draft_step_ok [OF assms, of own answer] finished_draft_rule [OF assms, of e u]
  by (auto simp: step_ok_def split: step_result.splits)

theorem dialogue_never_stuck_witness:
  "\<exists>dr' r. dialogue_step (\<lambda>_. Inr None) \<lparr>dr_step = ''metric_type'', dr_data = no_data\<lparr>dd_server_id := Some 1,
      dd_server_name := Some ''web''\<rparr>\<rparr> ''docker'' = Advance dr' r \<and> draft_ok dr' \<and> 1 < rank dr'"
proof -
  let ?dr = "\<lparr>dr_step = ''metric_type'', dr_data = no_data\<lparr>dd_server_id := Some 1, dd_server_name := Some ''web''\<rparr>\<rparr>"
  have ok: "draft_ok ?dr" by (simp add: draft_ok_def Let_def no_data_def)
  have "\<exists>dr' r. dialogue_step (\<lambda>_. Inr None) ?dr ''docker'' = Advance dr' r"
    by (simp add: metric_type_step_def METRIC_TYPES_def lower_def lower_char_def strip_def rstrip_class_def
        is_space_def code_point_def)
  then obtain dr' r where st: "dialogue_step (\<lambda>_. Inr None) ?dr ''docker'' = Advance dr' r" by blast
  from dialogue_never_stuck [OF ok, where own = "\<lambda>_. Inr None" and answer = "''docker''"] have "draft_ok dr' \<and> rank ?dr < rank dr'"
    unfolding st by simp
  with st show ?thesis by simp
qed

end
