(* ===== verification/PW_DraftCodec.thy ===== *)
theory PW_DraftCodec
  imports PW_BotDraft PW_Security
begin

text \<open>
  The codec of drafts. The source stores a draft as JSON; the operations take the codec as an
  argument, and \<open>draft_codec\<close> is what they rely on: a draft that was written reads back. The
  theory ends with a codec that keeps the contract, over fields prefixed with their lengths.
\<close>

locale draft_codec =
  fixes dumps :: "draft \<Rightarrow> string" and loads :: "string \<Rightarrow> draft"
  assumes loads_dumps: "loads (dumps dr) = dr"
    and dumps_not_empty: "dumps dr \<noteq> []"

text \<open>Over a Redis server, what was stored for a chat is what is read, until its deadline.\<close>

locale draft_store = redis_service R + draft_codec dumps loads
  for R :: "'r redis" and dumps loads
begin

lemma stored_draft:
  assumes "t \<le> t'"
  shows "get_rule_draft R loads (set_rule_draft R dumps s t chat dr) t' chat' =
    (if chat' = chat then (if t' < t + secs 600 then Some dr else None)
     else get_rule_draft R loads s t' chat')"
  using draft_stored [OF assms loads_dumps dumps_not_empty] .

end

section \<open>A codec\<close>

definition enc_float :: "pyfloat \<Rightarrow> string" where
  "enc_float v = (case v of
     Fin q \<Rightarrow> enc_opt (Some (str_int (fst (quotient_of q)))) @ enc_opt (Some (str_int (snd (quotient_of q))))
   | PosInf \<Rightarrow> ''p''
   | NegInf \<Rightarrow> ''m''
   | NaN \<Rightarrow> ''n'')"

definition dec_float :: "string \<Rightarrow> pyfloat" where
  "dec_float s = (if s = ''p'' then PosInf else if s = ''m'' then NegInf else if s = ''n'' then NaN
     else (case dec_opt s of
       Some (Some a, r) \<Rightarrow> (case dec_opt r of
           Some (Some b, _) \<Rightarrow> Fin (of_int (the (py_int a)) / of_int (the (py_int b)))
         | _ \<Rightarrow> NaN)
     | _ \<Rightarrow> NaN))"

fun enc_list :: "string list \<Rightarrow> string" where
  "enc_list [] = enc_opt None"
| "enc_list (x # xs) = enc_opt (Some x) @ enc_list xs"

fun dec_list :: "nat \<Rightarrow> string \<Rightarrow> string list" where
  "dec_list 0 s = []"
| "dec_list (Suc n) s = (case dec_opt s of Some (Some x, r) \<Rightarrow> x # dec_list n r | _ \<Rightarrow> [])"

text \<open>A field of any type, by an encoder of its values.\<close>

definition enc_field :: "('a \<Rightarrow> string) \<Rightarrow> 'a option \<Rightarrow> string" where
  "enc_field f v = enc_opt (map_option f v)"

definition dec_field :: "(string \<Rightarrow> 'a) \<Rightarrow> string \<Rightarrow> 'a option \<times> string" where
  "dec_field g s = (case dec_opt s of None \<Rightarrow> (None, []) | Some (v, r) \<Rightarrow> (map_option g v, r))"

definition dec_container :: "string \<Rightarrow> string option" where
  "dec_container s = (case dec_opt s of Some (v, _) \<Rightarrow> v | None \<Rightarrow> None)"

definition enc_draft :: "draft \<Rightarrow> string" where
  "enc_draft dr = (let x = dr_data dr in
     enc_field id (Some (dr_step dr)) @ enc_field str_int (dd_server_id x)
     @ enc_field id (dd_server_name x) @ enc_field id (dd_metric_type x) @ enc_field id (dd_name x)
     @ enc_field id (dd_metric_field x) @ enc_field enc_opt (dd_container_name x)
     @ enc_field id (dd_operator x) @ enc_field enc_float (dd_threshold_value x)
     @ enc_field enc_list (dd_notification_channels x))"

definition dec_draft :: "string \<Rightarrow> draft" where
  "dec_draft s0 =
     (let (st, s1) = dec_field id s0; (i, s2) = dec_field (the \<circ> py_int) s1;
          (sn, s3) = dec_field id s2; (mt, s4) = dec_field id s3; (nm, s5) = dec_field id s4;
          (mf, s6) = dec_field id s5; (co, s7) = dec_field dec_container s6;
          (op, s8) = dec_field id s7; (th, s9) = dec_field dec_float s8;
          (ch, s10) = dec_field (\<lambda>v. dec_list (length v) v) s9
      in \<lparr>dr_step = the st, dr_data = \<lparr>dd_server_id = i, dd_server_name = sn, dd_metric_type = mt,
          dd_name = nm, dd_metric_field = mf, dd_container_name = co, dd_operator = op,
          dd_threshold_value = th, dd_notification_channels = ch\<rparr>\<rparr>)"

lemma dec_enc_field:
  assumes "\<And>v. g (f v) = v"
  shows "dec_field g (enc_field f x @ r) = (x, r)"
  using assms by (simp add: dec_field_def enc_field_def dec_enc_opt option.map_comp o_def option.map_ident)

lemma dec_enc_field_Nil:
  assumes "\<And>v. g (f v) = v"
  shows "dec_field g (enc_field f x) = (x, [])"
  using dec_enc_field [of g f x "[]"] assms by simp

lemma dec_enc_opt_Nil: "dec_opt (enc_opt s) = Some (s, [])"
  using dec_enc_opt [of s "[]"] by simp

lemma enc_opt_long: "2 \<le> length (enc_opt (Some t))"
  by (cases "str_int (int (length t))") (simp_all add: enc_opt_def)

lemma dec_enc_float: "dec_float (enc_float v) = v"
proof (cases v)
  case (Fin q)
  obtain a b where q: "quotient_of q = (a, b)" by force
  have "2 \<le> length (enc_float v)"
    using enc_opt_long by (simp add: enc_float_def Fin le_add_same_cancel1 trans_le_add1)
  then have "enc_float v \<noteq> ''p''" "enc_float v \<noteq> ''m''" "enc_float v \<noteq> ''n''" by auto
  then have "dec_float (enc_float v) = Fin (of_int a / of_int b)"
    by (simp add: dec_float_def) (simp add: enc_float_def Fin q dec_enc_opt dec_enc_opt_Nil)
  then show ?thesis
    using quotient_of_div [OF q] Fin by simp
qed (simp_all add: dec_float_def enc_float_def)

lemma enc_list_length: "length xs \<le> length (enc_list xs)"
proof (induction xs)
  case (Cons x xs)
  with enc_opt_long [of x] show ?case by simp
qed simp

lemma dec_enc_list: "length xs \<le> n \<Longrightarrow> dec_list n (enc_list xs) = xs"
proof (induction xs arbitrary: n)
  case Nil
  then show ?case by (cases n) (simp_all add: dec_enc_opt_Nil)
next
  case (Cons x xs)
  then show ?case by (cases n) (simp_all add: dec_enc_opt)
qed

lemma dec_enc_draft: "dec_draft (enc_draft dr) = dr"
proof -
  have c: "dec_container (enc_opt v) = v" for v by (simp add: dec_container_def dec_enc_opt_Nil)
  have l: "dec_list (length (enc_list v)) (enc_list v) = v" for v
    using dec_enc_list enc_list_length by blast
  show ?thesis
    unfolding dec_draft_def enc_draft_def Let_def
    by (simp add: dec_enc_field dec_enc_field_Nil c l dec_enc_float)
qed

lemma enc_draft_not_empty: "enc_draft dr \<noteq> []"
proof -
  have "enc_opt v \<noteq> []" for v by (auto simp: enc_opt_def split: option.split)
  then show ?thesis by (simp add: enc_draft_def enc_field_def Let_def)
qed

interpretation wire: draft_codec enc_draft dec_draft
  by unfold_locales (rule dec_enc_draft, rule enc_draft_not_empty)

interpretation kv_drafts: draft_store kv_redis enc_draft dec_draft
  by (intro draft_store.intro kv_service wire.draft_codec_axioms)

lemma wire_store [simp, intro]: "draft_store kv_redis enc_draft dec_draft"
  by (rule kv_drafts.draft_store_axioms)

end
