(* ===== verification/PW_Bot.thy ===== *)
theory PW_Bot
  imports PW_DraftCodec PW_Fixtures
begin

text \<open>
  The Telegram bot (\<open>app/telegram_bot.py\<close>): linking a chat, the commands of a linked user and the
  dispatch of messages. A handler answers with one message at most; sending is best-effort, so
  the reply it tries to send is its result, next to the exception that ended it. The polling
  loop swallows exceptions and goes on with the next update.
\<close>

section \<open>Replies\<close>

datatype metric_part = PausedPart | ValuesPart pyfloat pyfloat pyfloat | NoDataPart

record status_line =
  sl_id :: int
  sl_name :: string
  sl_metric :: metric_part
  sl_open :: nat
  sl_mutes :: "(string \<times> int) list"

datatype server_state = StatePaused | StateActive | StateDown

record event_line =
  el_id :: int
  el_server_name :: string
  el_rule_name :: string
  el_value :: pyfloat
  el_threshold :: pyfloat
  el_resolved :: bool
  el_time :: time

datatype reply =
    StartHelp
  | CodeInvalid
  | Linked
  | UserGone
  | NoServers
  | StatusReply "status_line list"
  | ServersReply "(int \<times> string \<times> server_state \<times> time option) list"
  | MuteUsage
  | MuteRange
  | MuteChannel
  | NotYourServer
  | Muted int string int "string list"
  | NoRules
  | RulesReply "(int \<times> bool \<times> string \<times> string \<times> string \<times> threshold_operator \<times> pyfloat) list"
  | ToggleUsage
  | NotYourRule
  | Toggled int string bool
  | DeleteUsage
  | ConfirmDelete int string
  | ConfirmationExpired
  | Deleted int string
  | EventsUsage
  | NoEvents "int option"
  | EventsReply "int option" "event_line list"
  | PauseUsage bool
  | AlreadyPaused int string bool
  | PausedReply int string bool
  | RegisterFirst
  | AskServer "(int \<times> string) list"
  | DraftCancelled
  | DialogueReply dialogue_reply
  | NotLinked
  | UnknownCommand

type_synonym 'r handler = "'r app \<Rightarrow> (exc + reply) \<times> 'r app"

section \<open>Linking\<close>

definition link_user :: "int \<Rightarrow> int \<Rightarrow> db \<Rightarrow> (exc + bool) \<times> db" where
  "link_user user_id chat_id d =
     (let f = (\<lambda>u. u\<lparr>usr_telegram_chat_id := Some (str_int chat_id)\<rparr>);
          hit = select (\<lambda>u. usr_id u = user_id) (users d) in
      if \<not> int32 user_id \<or> \<not> list_all (\<lambda>u. user_fits (f u)) hit then (Inl DataError, d)
      else (Inr (hit \<noteq> []), d\<lparr>users := update_where (\<lambda>u. usr_id u = user_id) f (users d)\<rparr>))"

definition find_user_by_chat_id :: "int \<Rightarrow> db \<Rightarrow> exc + user option" where
  "find_user_by_chat_id chat_id d =
     scalar_one_or_none (select (\<lambda>u. usr_telegram_chat_id u = Some (str_int chat_id)) (users d))"

definition handle_start :: "'r redis \<Rightarrow> env \<Rightarrow> int \<Rightarrow> string \<Rightarrow> 'r handler" where
  "handle_start R e chat_id text a = (case START_PATTERN text of
     None \<Rightarrow> (Inr StartHelp, a)
   | Some code \<Rightarrow>
       let (consumed, s) = consume_tg_link_code R (app_rd a) (clock e) code; a' = a\<lparr>app_rd := s\<rparr> in
       (case consumed of
          Inl x \<Rightarrow> (Inl x, a')
        | Inr None \<Rightarrow> (Inr CodeInvalid, a')
        | Inr (Some user_id) \<Rightarrow>
            (case link_user user_id chat_id (app_db a') of
               (Inl x, _) \<Rightarrow> (Inl x, a')
             | (Inr linked, d) \<Rightarrow> (Inr (if linked then Linked else UserGone), a'\<lparr>app_db := d\<rparr>))))"

section \<open>Reading commands\<close>

definition servers_of :: "user \<Rightarrow> db \<Rightarrow> server list" where
  "servers_of u d = select (\<lambda>s. srv_owner_id s = usr_id u) (servers d)"

definition own_server :: "user \<Rightarrow> db \<Rightarrow> int \<Rightarrow> exc + server option" where
  "own_server u d i = fetch_by_id srv_id i (\<lambda>s. srv_owner_id s = usr_id u) (servers d)"

definition status_line_of :: "'r redis \<Rightarrow> env \<Rightarrow> 'r app \<Rightarrow> server \<Rightarrow> status_line" where
  "status_line_of R e a s =
     (let d = app_db a; i = srv_id s in
      \<lparr>sl_id = i, sl_name = srv_name s,
       sl_metric = (if srv_paused s then PausedPart
         else (case latest_by met_collected_at (select (\<lambda>m. met_server_id m = i) (metrics d)) of
             Some m \<Rightarrow> ValuesPart (met_cpu_percent m) (met_memory_percent m) (met_disk_percent m)
           | None \<Rightarrow> NoDataPart)),
       sl_open = length (select (\<lambda>ev. ev_server_id ev = i \<and> ev_resolved_at ev = None) (alert_events d)),
       sl_mutes = [(take 2 ch, ttl div 60). ch \<leftarrow> MUTE_CHANNELS,
         ttl \<leftarrow> (case get_channel_mute_ttl R (app_rd a) (clock e) i ch of None \<Rightarrow> [] | Some n \<Rightarrow> [n])]\<rparr>)"

definition handle_status :: "'r redis \<Rightarrow> env \<Rightarrow> user \<Rightarrow> 'r handler" where
  "handle_status R e u a =
     (let found = servers_of u (app_db a) in
      (Inr (if found = [] then NoServers else StatusReply (map (status_line_of R e a) found)), a))"

definition handle_servers :: "user \<Rightarrow> 'r handler" where
  "handle_servers u a =
     (let found = servers_of u (app_db a) in
      (Inr (if found = [] then NoServers
        else ServersReply (map (\<lambda>s. (srv_id s, srv_name s,
          (if srv_paused s then StatePaused else if srv_is_active s then StateActive else StateDown),
          srv_last_seen_at s)) found)), a))"

definition handle_rules :: "user \<Rightarrow> 'r handler" where
  "handle_rules u a =
     (let found = sort_key (\<lambda>(r, _). rule_id r)
        [(r, srv_name s). r \<leftarrow> rows (alert_rules (app_db a)), s \<leftarrow> rows (servers (app_db a)),
          srv_id s = rule_server_id r \<and> rule_owner_id r = usr_id u] in
      (Inr (if found = [] then NoRules
        else RulesReply (map (\<lambda>(r, server_name). (rule_id r, rule_is_active r, server_name, rule_name r,
          rule_metric_field r, rule_operator r, rule_threshold_value r)) found)), a))"

definition EVENTS_LIMIT :: nat where
  "EVENTS_LIMIT = 10"

text \<open>The server 0 filters the events but is not named in the reply.\<close>

definition handle_events :: "user \<Rightarrow> string \<Rightarrow> 'r handler" where
  "handle_events u text a = (case EVENTS_PATTERN text of
     None \<Rightarrow> (Inr EventsUsage, a)
   | Some wanted \<Rightarrow>
       if \<not> (case wanted of None \<Rightarrow> True | Some i \<Rightarrow> int32 i) then (Inl DataError, a)
       else
         let d = app_db a; named = (if wanted = Some 0 then None else wanted);
             found = take EVENTS_LIMIT (order_by_desc (\<lambda>(ev, _, _). ev_created_at ev)
               [(ev, rule_name r, srv_name s). ev \<leftarrow> rows (alert_events d), r \<leftarrow> rows (alert_rules d),
                 s \<leftarrow> rows (servers d), rule_id r = ev_rule_id ev \<and> srv_id s = ev_server_id ev
                 \<and> srv_owner_id s = usr_id u
                 \<and> (case wanted of None \<Rightarrow> True | Some i \<Rightarrow> ev_server_id ev = i)])
         in (Inr (if found = [] then NoEvents named
               else EventsReply named (map (\<lambda>(ev, rule_name, server_name).
                 \<lparr>el_id = ev_id ev, el_server_name = server_name, el_rule_name = rule_name,
                  el_value = ev_metric_value ev, el_threshold = ev_threshold_value ev,
                  el_resolved = (ev_resolved_at ev \<noteq> None), el_time = ev_created_at ev\<rparr>) found)), a))"

section \<open>Writing commands\<close>

fun set_mutes :: "'r redis \<Rightarrow> time \<Rightarrow> int \<Rightarrow> int \<Rightarrow> string list \<Rightarrow> 'r \<Rightarrow> 'r" where
  "set_mutes R t i m [] s = s"
| "set_mutes R t i m (ch # chs) s = set_mutes R t i m chs (set_channel_mute R s t i ch m)"

definition handle_mute :: "'r redis \<Rightarrow> env \<Rightarrow> user \<Rightarrow> string \<Rightarrow> 'r handler" where
  "handle_mute R e u text a = (case MUTE_PATTERN text of
     None \<Rightarrow> (Inr MuteUsage, a)
   | Some (server_id, mins, channel) \<Rightarrow>
       let channel_arg = lower (case channel of None \<Rightarrow> ''all'' | Some ch \<Rightarrow> ch) in
       if mins \<le> 0 \<or> 1440 < mins then (Inr MuteRange, a)
       else if channel_arg \<noteq> ''all'' \<and> channel_arg \<notin> set MUTE_CHANNELS then (Inr MuteChannel, a)
       else (case own_server u (app_db a) server_id of
          Inl x \<Rightarrow> (Inl x, a)
        | Inr None \<Rightarrow> (Inr NotYourServer, a)
        | Inr (Some s) \<Rightarrow>
            let channels = (if channel_arg = ''all'' then MUTE_CHANNELS else [channel_arg]) in
            (Inr (Muted server_id (srv_name s) mins channels),
             a\<lparr>app_rd := set_mutes R (clock e) server_id mins channels (app_rd a)\<rparr>)))"

definition handle_toggle :: "env \<Rightarrow> user \<Rightarrow> string \<Rightarrow> 'r handler" where
  "handle_toggle e u text a = (case TOGGLE_PATTERN text of
     None \<Rightarrow> (Inr ToggleUsage, a)
   | Some i \<Rightarrow>
       (case fetch_by_id rule_id i (\<lambda>r. rule_owner_id r = usr_id u) (alert_rules (app_db a)) of
          Inl x \<Rightarrow> (Inl x, a)
        | Inr None \<Rightarrow> (Inr NotYourRule, a)
        | Inr (Some r) \<Rightarrow>
            (Inr (Toggled i (rule_name r) (\<not> rule_is_active r)),
             a\<lparr>app_db := (app_db a)\<lparr>alert_rules := update_where (\<lambda>q. rule_id q = i)
               (\<lambda>q. q\<lparr>rule_is_active := \<not> rule_is_active q, rule_updated_at := db_clock e\<rparr>)
               (alert_rules (app_db a))\<rparr>\<rparr>)))"

definition handle_delete :: "'r redis \<Rightarrow> env \<Rightarrow> int \<Rightarrow> user \<Rightarrow> string \<Rightarrow> 'r handler" where
  "handle_delete R e chat_id u text a = (case DELETE_PATTERN text of
     None \<Rightarrow> (Inr DeleteUsage, a)
   | Some (server_id, is_confirm) \<Rightarrow>
       (case own_server u (app_db a) server_id of
          Inl x \<Rightarrow> (Inl x, a)
        | Inr None \<Rightarrow> (Inr NotYourServer, a)
        | Inr (Some s) \<Rightarrow>
            if \<not> is_confirm then
              (Inr (ConfirmDelete (srv_id s) (srv_name s)),
               a\<lparr>app_rd := set_pending_delete R (app_rd a) (clock e) chat_id server_id\<rparr>)
            else
              let (confirmed, rd) = consume_pending_delete R (app_rd a) (clock e) chat_id server_id;
                  a' = a\<lparr>app_rd := rd\<rparr> in
              (case confirmed of
                 Inl x \<Rightarrow> (Inl x, a')
               | Inr False \<Rightarrow> (Inr ConfirmationExpired, a')
               | Inr True \<Rightarrow> (Inr (Deleted server_id (srv_name s)),
                   a'\<lparr>app_db := delete_server (srv_id s) (app_db a)\<rparr>))))"

definition set_server_paused :: "user \<Rightarrow> int option \<Rightarrow> bool \<Rightarrow> 'r handler" where
  "set_server_paused u matched new_value a = (case matched of
     None \<Rightarrow> (Inr (PauseUsage new_value), a)
   | Some i \<Rightarrow>
       (case own_server u (app_db a) i of
          Inl x \<Rightarrow> (Inl x, a)
        | Inr None \<Rightarrow> (Inr NotYourServer, a)
        | Inr (Some s) \<Rightarrow>
            if srv_paused s = new_value then (Inr (AlreadyPaused i (srv_name s) new_value), a)
            else (Inr (PausedReply i (srv_name s) new_value),
              a\<lparr>app_db := (app_db a)\<lparr>servers := update_where (\<lambda>q. srv_id q = i)
                (\<lambda>q. q\<lparr>srv_paused := new_value\<rparr>) (servers (app_db a))\<rparr>\<rparr>)))"

definition handle_pause :: "user \<Rightarrow> string \<Rightarrow> 'r handler" where
  "handle_pause u text = set_server_paused u (PAUSE_PATTERN text) True"

definition handle_resume :: "user \<Rightarrow> string \<Rightarrow> 'r handler" where
  "handle_resume u text = set_server_paused u (RESUME_PATTERN text) False"

definition handle_createrule_start :: "'r redis \<Rightarrow> (draft \<Rightarrow> string) \<Rightarrow> env \<Rightarrow> int \<Rightarrow> user \<Rightarrow> 'r handler" where
  "handle_createrule_start R dumps e chat_id u a =
     (let found = servers_of u (app_db a) in
      if found = [] then (Inr RegisterFirst, a)
      else (Inr (AskServer (map (\<lambda>s. (srv_id s, srv_name s)) found)),
        a\<lparr>app_rd := set_rule_draft R dumps (app_rd a) (clock e) chat_id
            \<lparr>dr_step = ''server'', dr_data = no_data\<rparr>\<rparr>))"

definition handle_cancel :: "'r redis \<Rightarrow> env \<Rightarrow> int \<Rightarrow> 'r handler" where
  "handle_cancel R e chat_id a =
     (Inr DraftCancelled, a\<lparr>app_rd := clear_rule_draft R (app_rd a) (clock e) chat_id\<rparr>)"

section \<open>Dispatch\<close>

record message =
  msg_chat_id :: "int option"
  msg_text :: string

definition handle_command :: "'r redis \<Rightarrow> (draft \<Rightarrow> string) \<Rightarrow> env \<Rightarrow> int \<Rightarrow> user \<Rightarrow> string \<Rightarrow> 'r handler" where
  "handle_command R dumps e chat_id u text =
     (if startswith text ''/status'' then handle_status R e u
      else if startswith text ''/servers'' then handle_servers u
      else if startswith text ''/mute'' then handle_mute R e u text
      else if startswith text ''/rules'' then handle_rules u
      else if startswith text ''/toggle'' then handle_toggle e u text
      else if startswith text ''/delete'' then handle_delete R e chat_id u text
      else if startswith text ''/events'' then handle_events u text
      else if startswith text ''/pause'' then handle_pause u text
      else if startswith text ''/resume'' then handle_resume u text
      else if startswith text ''/createrule'' then handle_createrule_start R dumps e chat_id u
      else Pair (Inr UnknownCommand))"

text \<open>The reply of a handler; a message may also be ignored.\<close>

definition replied :: "(exc + reply) \<times> 'r app \<Rightarrow> (exc + reply option) \<times> 'r app" where
  "replied x = (map_sum id Some (fst x), snd x)"

text \<open>A command ends a dialogue that is under way.\<close>

definition drop_draft :: "'r redis \<Rightarrow> (string \<Rightarrow> draft) \<Rightarrow> env \<Rightarrow> int \<Rightarrow> 'r app \<Rightarrow> 'r app" where
  "drop_draft R loads e chat_id a =
     (if get_rule_draft R loads (app_rd a) (clock e) chat_id \<noteq> None
      then a\<lparr>app_rd := clear_rule_draft R (app_rd a) (clock e) chat_id\<rparr> else a)"

definition handle_linked :: "'r redis \<Rightarrow> (draft \<Rightarrow> string) \<Rightarrow> (string \<Rightarrow> draft) \<Rightarrow> env \<Rightarrow> int \<Rightarrow> user \<Rightarrow> string
    \<Rightarrow> 'r app \<Rightarrow> (exc + reply option) \<times> 'r app" where
  "handle_linked R dumps loads e chat_id u text a =
     (if startswith text ''/cancel'' then replied (handle_cancel R e chat_id a)
      else if \<not> startswith text ''/'' then
        (case get_rule_draft R loads (app_rd a) (clock e) chat_id of
            None \<Rightarrow> (Inr None, a)
          | Some dr \<Rightarrow>
              let (r, a') = process_rule_draft R dumps e chat_id u text dr a
              in replied (map_sum id DialogueReply r, a'))
      else replied (handle_command R dumps e chat_id u text (drop_draft R loads e chat_id a)))"

definition handle_message :: "'r redis \<Rightarrow> (draft \<Rightarrow> string) \<Rightarrow> (string \<Rightarrow> draft) \<Rightarrow> env \<Rightarrow> message
    \<Rightarrow> 'r app \<Rightarrow> (exc + reply option) \<times> 'r app" where
  "handle_message R dumps loads e msg a = (case msg_chat_id msg of
     None \<Rightarrow> (Inr None, a)
   | Some chat_id \<Rightarrow>
       let text = msg_text msg in
       if chat_id = 0 \<or> text = [] then (Inr None, a)
       else if startswith text ''/start'' then replied (handle_start R e chat_id text a)
       else (case find_user_by_chat_id chat_id (app_db a) of
          Inl x \<Rightarrow> (Inl x, a)
        | Inr None \<Rightarrow> (Inr (if startswith text ''/'' then Some NotLinked else None), a)
        | Inr (Some u) \<Rightarrow> handle_linked R dumps loads e chat_id u text a))"

section \<open>Polling\<close>

text \<open>
  One batch of updates, each with its id, its message if it has one and the moment it is
  handled; the offset moves past an update before its message is handled, and exceptions are
  logged.
\<close>

fun handle_updates :: "'r redis \<Rightarrow> (draft \<Rightarrow> string) \<Rightarrow> (string \<Rightarrow> draft) \<Rightarrow> (int \<times> (env \<times> message) option) list
    \<Rightarrow> int option \<times> 'r app \<Rightarrow> int option \<times> 'r app" where
  "handle_updates R dumps loads [] st = st"
| "handle_updates R dumps loads ((update_id, update) # us) (off, a) =
     handle_updates R dumps loads us (Some (update_id + 1),
       (case update of
          None \<Rightarrow> a
        | Some (e, msg) \<Rightarrow> snd (handle_message R dumps loads e msg a)))"

section \<open>What the handlers keep\<close>

lemma find_user_row:
  "find_user_by_chat_id chat d = Inr (Some u) \<Longrightarrow>
     u \<in> set (rows (users d)) \<and> usr_telegram_chat_id u = Some (str_int chat)"
proof -
  assume "find_user_by_chat_id chat d = Inr (Some u)"
  then have "u \<in> set (filter (\<lambda>u. usr_telegram_chat_id u = Some (str_int chat)) (rows (users d)))"
    by (simp add: find_user_by_chat_id_def table_simps)
  then show ?thesis by simp
qed

lemma own_server_row:
  "own_server u d i = Inr (Some s) \<Longrightarrow> s \<in> set (rows (servers d)) \<and> srv_id s = i \<and> srv_owner_id s = usr_id u"
  by (auto simp: own_server_def dest: fetch_by_id_Some)

lemma own_server_eq:
  assumes "db_ok d" and "s \<in> set (rows (servers d))" and "int32 (srv_id s)" and "srv_owner_id s = usr_id u"
  shows "own_server u d (srv_id s) = Inr (Some s)"
  unfolding own_server_def
  by (rule fetch_by_id_row) (simp_all add: assms db_ok_keyed(2))

lemma readers_keep [simp]:
  "snd (handle_status R e u a) = a" "snd (handle_servers u a) = a" "snd (handle_rules u a) = a"
  "snd (handle_events u t a) = a"
  by (simp_all add: handle_status_def handle_servers_def handle_rules_def handle_events_def Let_def
      split: option.split)

lemma redis_writers_keep_db [simp]:
  "app_db (snd (handle_mute R e u t a)) = app_db a"
  "app_db (snd (handle_createrule_start R dumps e c u a)) = app_db a"
  "app_db (snd (handle_cancel R e c a)) = app_db a"
  by (simp_all add: handle_mute_def handle_createrule_start_def handle_cancel_def Let_def
      split: option.split sum.split)

lemma server_ids_update [simp]:
  "(\<And>q. srv_id (f q) = srv_id q) \<Longrightarrow> server_ids (d\<lparr>servers := update_where P f (servers d)\<rparr>) = server_ids d"
  by (simp add: server_ids_def image_update_where)

lemma servers_kept:
  "servers (app_db (snd (handle_toggle e u t a))) = servers (app_db a)"
  "servers (app_db (snd (handle_start R e c t a))) = servers (app_db a)"
proof -
  show "servers (app_db (snd (handle_toggle e u t a))) = servers (app_db a)"
    by (simp add: handle_toggle_def split: option.split sum.split)
  have link: "servers d' = servers d" if "link_user i c d = (r, d')" for i d r d'
    using that by (auto simp: link_user_def Let_def split: if_splits)
  show "servers (app_db (snd (handle_start R e c t a))) = servers (app_db a)"
    by (simp add: handle_start_def Let_def split: option.split sum.split prod.split) (auto dest: link)
qed

lemma insert_draft_servers: "servers (snd (insert_draft_rule e u x d)) = servers d"
  by (simp add: insert_draft_rule_def Let_def split: sum.split)

lemma draft_keeps_servers: "servers (app_db (snd (process_rule_draft R dumps e c u t dr a))) = servers (app_db a)"
proof -
  define own where "own = (\<lambda>i. fetch_by_id srv_id i (\<lambda>s. srv_owner_id s = usr_id u) (servers (app_db a)))"
  have ins: "servers d = servers (app_db a)" if "insert_draft_rule e u x (app_db a) = (r, d)" for x r d
    using insert_draft_servers [of e u x "app_db a"] that by simp
  show ?thesis
    unfolding process_rule_draft_def own_def [symmetric] Let_def
    by (cases "dialogue_step own dr t") (auto split: prod.split sum.split dest: ins)
qed

lemma pause_keeps_servers:
  "server_ids (app_db (snd (set_server_paused u m v a))) = server_ids (app_db a)"
  by (simp add: set_server_paused_def split: option.split sum.split)

lemmas handlers_keep_servers [simp] = pause_keeps_servers

lemma server_ids_cong: "servers d = servers d' \<Longrightarrow> server_ids d = server_ids d'"
  by (simp add: server_ids_def)

lemma replied_simps [simp]: "snd (replied x) = snd x" "fst (replied x) = map_sum id Some (fst x)"
  by (simp_all add: replied_def)

lemma handle_command_other:
  assumes "\<not> startswith t ''/delete''"
  shows "server_ids (app_db (snd (handle_command R dumps e c u t a))) = server_ids (app_db a)"
  using assms
  by (simp add: handle_command_def handle_pause_def handle_resume_def
      server_ids_cong [OF servers_kept(1)] del: startswith.simps)

lemma handle_delete_servers:
  assumes "i \<in> server_ids (app_db a)" and "i \<notin> server_ids (app_db (snd (handle_delete R e c u t a)))"
  shows "DELETE_PATTERN t = Some (i, True) \<and> (\<exists>s. own_server u (app_db a) i = Inr (Some s))
    \<and> fst (consume_pending_delete R (app_rd a) (clock e) c i) = Inr True
    \<and> app_db (snd (handle_delete R e c u t a)) = delete_server i (app_db a)"
proof (cases "DELETE_PATTERN t")
  case None
  with assms show ?thesis by (simp add: handle_delete_def)
next
  case (Some m)
  obtain j cf where m: "m = (j, cf)" by force
  with Some assms obtain s where s: "own_server u (app_db a) j = Inr (Some s)" and cf
    by (auto simp: handle_delete_def split: sum.splits option.splits if_splits)
  obtain confirmed rd where c: "consume_pending_delete R (app_rd a) (clock e) c j = (confirmed, rd)" by force
  from own_server_row [OF s] have "srv_id s = j" by blast
  with Some m s \<open>cf\<close> c assms show ?thesis
    by (auto simp: handle_delete_def Let_def split: sum.splits bool.splits)
qed

context redis_service begin

lemma pending_after_clear:
  "t \<le> t' \<Longrightarrow> fst (consume_pending_delete R (clear_rule_draft R s t c) t' c' i) =
     fst (consume_pending_delete R s t' c' i)"
  by (simp add: consume_pending_delete_def clear_rule_draft_def get_del key_families split_beta Let_def)

end

lemma cancel_servers: "app_db (snd (replied (handle_cancel R e c a))) = app_db a"
  by simp

lemma linked_deletes:
  assumes "redis_service R" and "i \<in> server_ids (app_db a)"
    and gone: "i \<notin> server_ids (app_db (snd (handle_linked R dumps loads e c u t a)))"
  shows "DELETE_PATTERN t = Some (i, True) \<and> (\<exists>s. own_server u (app_db a) i = Inr (Some s))
    \<and> fst (consume_pending_delete R (app_rd a) (clock e) c i) = Inr True
    \<and> app_db (snd (handle_linked R dumps loads e c u t a)) = delete_server i (app_db a)"
proof -
  define a' where "a' = drop_draft R loads e c a"
  have a': "app_db a' = app_db a"
    "fst (consume_pending_delete R (app_rd a') (clock e) c i) = fst (consume_pending_delete R (app_rd a) (clock e) c i)"
    by (simp_all add: a'_def drop_draft_def redis_service.pending_after_clear [OF assms(1)])
  have nc: "\<not> startswith t ''/cancel''"
    using gone assms(2) unfolding handle_linked_def by (auto simp del: startswith.simps)
  have sl: "startswith t ''/''"
  proof (rule ccontr)
    assume "\<not> startswith t ''/''"
    with nc have "server_ids (app_db (snd (handle_linked R dumps loads e c u t a))) = server_ids (app_db a)"
      unfolding handle_linked_def Let_def
      by (cases "get_rule_draft R loads (app_rd a) (clock e) c")
        (simp_all add: split_beta server_ids_cong [OF draft_keeps_servers] del: startswith.simps)
    with assms gone show False by simp
  qed
  have eq: "snd (handle_linked R dumps loads e c u t a) = snd (handle_command R dumps e c u t a')"
    using nc sl unfolding handle_linked_def a'_def
    by (simp del: startswith.simps)
  have del: "startswith t ''/delete''"
    using handle_command_other [of t R dumps e c u a'] gone assms(2) unfolding eq a'(1) [symmetric] by metis
  have others: "\<not> startswith t ''/status''" "\<not> startswith t ''/servers''" "\<not> startswith t ''/mute''"
    "\<not> startswith t ''/rules''" "\<not> startswith t ''/toggle''"
    using del by (auto simp: startswith_iff)
  have "handle_command R dumps e c u t a' = handle_delete R e c u t a'"
    unfolding handle_command_def by (simp only: others del if_False if_True)
  then show ?thesis
    using handle_delete_servers [of i a' R e c u t] assms(2) gone unfolding eq a' by simp
qed

end
