(* ===== verification/PW_BotProps.thy ===== *)
theory PW_BotProps
  imports PW_Bot
begin

text \<open>
  What the commands of the bot do over a sequence of messages: the two messages of a deletion,
  and a chat that two accounts share.
\<close>

section \<open>Messages\<close>

definition message_from :: "int \<Rightarrow> string \<Rightarrow> message" where
  "message_from chat t = \<lparr>msg_chat_id = Some chat, msg_text = t\<rparr>"

lemma message_from_simps [simp]:
  "msg_chat_id (message_from chat t) = Some chat" "msg_text (message_from chat t) = t"
  by (simp_all add: message_from_def)

lemma drop_draft_db [simp]: "app_db (drop_draft R loads e c a) = app_db a"
  by (simp add: drop_draft_def)

lemma linked_message:
  assumes "chat \<noteq> 0" and "t \<noteq> []" and "\<not> startswith t ''/start''"
    and "find_user_by_chat_id chat (app_db a) = Inr (Some u)"
  shows "handle_message R dumps loads e (message_from chat t) a = handle_linked R dumps loads e chat u t a"
  using assms by (simp add: handle_message_def del: startswith.simps)

text \<open>Both delete commands reach their handler.\<close>

lemma delete_message:
  assumes "chat \<noteq> 0" and "find_user_by_chat_id chat (app_db a) = Inr (Some u)"
  shows "snd (handle_message R dumps loads e (message_from chat (''/delete '' @ t)) a) =
    snd (handle_delete R e chat u (''/delete '' @ t) (drop_draft R loads e chat a))"
proof -
  have "handle_message R dumps loads e (message_from chat (''/delete '' @ t)) a =
      handle_linked R dumps loads e chat u (''/delete '' @ t) a"
    by (rule linked_message) (use assms in simp_all)
  then show ?thesis by (simp add: handle_linked_def handle_command_def)
qed

section \<open>Properties\<close>

text \<open>C20: the bot deletes a server only when the linked owner confirms it: whenever a message makes
  a server disappear, its text is the confirmed delete command of that server, the chat is linked
  to the server's owner and has this server's deletion pending at that moment; and what happens
  to the database is the deletion of that server with its cascades.\<close>

theorem bot_deletes_only_confirmed:
  assumes "redis_service R" and "db_ok (app_db a)" and "s \<in> set (rows (servers (app_db a)))"
    and "srv_id s \<notin> server_ids (app_db (snd (handle_message R dumps loads e msg a)))"
  shows "\<exists>chat u. msg_chat_id msg = Some chat \<and> find_user_by_chat_id chat (app_db a) = Inr (Some u)
    \<and> srv_owner_id s = usr_id u \<and> DELETE_PATTERN (msg_text msg) = Some (srv_id s, True)
    \<and> fst (consume_pending_delete R (app_rd a) (clock e) chat (srv_id s)) = Inr True
    \<and> app_db (snd (handle_message R dumps loads e msg a)) = delete_server (srv_id s) (app_db a)"
proof -
  have ids: "srv_id s \<in> server_ids (app_db a)"
    using assms(3) by (simp add: server_ids_def)
  obtain chat where chat: "msg_chat_id msg = Some chat"
    using assms(4) ids by (cases "msg_chat_id msg") (auto simp: handle_message_def)
  have neither: "\<not> (chat = 0 \<or> msg_text msg = [])" "\<not> startswith (msg_text msg) ''/start''"
    using assms(4) ids chat
    by (auto simp: handle_message_def Let_def server_ids_cong [OF servers_kept(2)] simp del: startswith.simps
        split: if_splits)
  then obtain u where u: "find_user_by_chat_id chat (app_db a) = Inr (Some u)"
    using assms(4) ids chat
    by (auto simp: handle_message_def Let_def simp del: startswith.simps split: sum.splits option.splits)
  have eq: "handle_message R dumps loads e msg a = handle_linked R dumps loads e chat u (msg_text msg) a"
    using chat neither u unfolding handle_message_def by (simp del: startswith.simps)
  from linked_deletes [OF assms(1) ids assms(4) [unfolded eq]] obtain s' where
    own: "own_server u (app_db a) (srv_id s) = Inr (Some s')" and
    rest: "DELETE_PATTERN (msg_text msg) = Some (srv_id s, True)
      \<and> fst (consume_pending_delete R (app_rd a) (clock e) chat (srv_id s)) = Inr True
      \<and> app_db (snd (handle_linked R dumps loads e chat u (msg_text msg) a)) = delete_server (srv_id s) (app_db a)"
    by blast
  have "s' = s"
    using own_server_row [OF own] keyed_inj [OF db_ok_keyed(2) [OF assms(2)] _ assms(3)] by blast
  with own_server_row [OF own] rest chat u eq show ?thesis by metis
qed

definition bot_user :: user where
  "bot_user = demo_user\<lparr>usr_telegram_chat_id := Some (str_int 5)\<rparr>"

definition bot_state :: "kv \<Rightarrow> kv app" where
  "bot_state rd = demo_state\<lparr>app_db := demo_db\<lparr>users := \<lparr>rows = [bot_user], seq = 2\<rparr>\<rparr>, app_rd := rd\<rparr>"

lemma bot_state_ok: "db_ok (app_db (bot_state rd))"
  by (simp add: bot_state_def, rule db_ok_users)
    (simp_all add: keyed_def bot_user_def demo_user_def user_ids_def)

lemma bot_state_user: "find_user_by_chat_id 5 (app_db (bot_state rd)) = Inr (Some bot_user)"
  by (simp add: find_user_by_chat_id_def bot_state_def bot_user_def table_simps)

lemma bot_state_server:
  "demo_server \<in> set (rows (servers (app_db (bot_state rd))))" "srv_id demo_server = 1" "int32 (srv_id demo_server)"
  "srv_owner_id demo_server = usr_id bot_user"
  by (simp_all add: bot_state_def demo_defs bot_user_def int32_def)

lemma bot_state_own: "own_server bot_user (app_db (bot_state rd)) 1 = Inr (Some demo_server)"
  using own_server_eq [OF bot_state_ok bot_state_server(1,3,4)] bot_state_server(2) by simp

definition pending_state :: "kv app" where
  "pending_state = bot_state [(pending_delete_key 5, str_int 1, secs 60)]"

theorem bot_deletes_witness:
  "app_db (snd (handle_message kv_redis enc_draft dec_draft (env_at 0)
     (message_from 5 (''/delete '' @ str_nat 1 @ '' confirm'')) pending_state)) =
     delete_server 1 (app_db pending_state)"
proof -
  let ?t = "''/delete '' @ str_nat 1 @ '' confirm''"
  have drop: "drop_draft kv_redis dec_draft (env_at 0) 5 pending_state = pending_state"
    by (simp add: drop_draft_def get_rule_draft_def kv_defs pending_state_def bot_state_def key_families
        key_families [symmetric])
  have consume: "fst (consume_pending_delete kv_redis (app_rd pending_state) 0 5 1) = Inr True"
    by (simp add: consume_pending_delete_def kv_defs pending_state_def bot_state_def)
  have "app_db (snd (handle_delete kv_redis (env_at 0) 5 bot_user ?t pending_state)) =
      delete_server 1 (app_db pending_state)"
    using consume delete_typed(2) [of 1] bot_state_own bot_state_server(2)
    by (simp add: handle_delete_def pending_state_def split_beta Let_def)
  then have gone: "srv_id demo_server \<notin> server_ids (app_db (snd (handle_message kv_redis enc_draft dec_draft (env_at 0)
      (message_from 5 ?t) pending_state)))"
    using delete_message [of 5 pending_state bot_user kv_redis enc_draft dec_draft "env_at 0" "str_nat 1 @ '' confirm''"]
      bot_state_user bot_state_server(2) drop by (simp add: pending_state_def)
  have mem: "db_ok (app_db pending_state)" "demo_server \<in> set (rows (servers (app_db pending_state)))"
    unfolding pending_state_def by (rule bot_state_ok, rule bot_state_server)
  from bot_deletes_only_confirmed [OF kv_service mem gone] show ?thesis
    using bot_state_server(2) by auto
qed

text \<open>
  the two messages of a deletion: the first asks and changes nothing in the database, the
  second, whenever it comes, deletes the server with everything that belongs to it if it comes
  within sixty seconds, and does nothing otherwise.\<close>

theorem bot_delete_in_two_steps:
  assumes "redis_service R" and "db_ok (app_db a)" and "s \<in> set (rows (servers (app_db a)))"
    and "srv_id s = int n" and "int32 (srv_id s)" and "srv_owner_id s = usr_id u" and "chat \<noteq> 0"
    and user: "find_user_by_chat_id chat (app_db a) = Inr (Some u)" and "clock e \<le> clock e'"
    and ask: "a1 = snd (handle_message R dumps loads e (message_from chat (''/delete '' @ str_nat n)) a)"
    and confirm: "a2 = snd (handle_message R dumps loads e'
      (message_from chat (''/delete '' @ str_nat n @ '' confirm'')) a1)"
  shows "app_db a1 = app_db a
    \<and> app_db a2 = (if clock e' < clock e + secs 60 then delete_server (srv_id s) (app_db a) else app_db a)"
proof -
  have own: "own_server u (app_db a) (int n) = Inr (Some s)"
    using own_server_eq [OF assms(2,3,5,6)] assms(4) by simp
  let ?b = "drop_draft R loads e chat a"
  have a1: "a1 = ?b\<lparr>app_rd := set_pending_delete R (app_rd ?b) (clock e) chat (int n)\<rparr>"
    using ask delete_message [OF assms(7) user] own delete_typed(1) [of n]
    by (simp add: handle_delete_def)
  then have db: "app_db a1 = app_db a" by simp
  let ?c = "drop_draft R loads e' chat a1"
  have "fst (consume_pending_delete R (app_rd ?c) (clock e') chat (int n)) =
      fst (consume_pending_delete R (app_rd a1) (clock e') chat (int n))"
    by (simp add: drop_draft_def redis_service.pending_after_clear [OF assms(1)])
  also have "\<dots> = Inr (clock e' < clock e + secs 60)"
    using redis_service.pending_delete_result [OF assms(1,9)] by (simp add: a1)
  finally have c: "fst (consume_pending_delete R (app_rd ?c) (clock e') chat (int n)) =
      Inr (clock e' < clock e + secs 60)" .
  have "app_db a2 = (if clock e' < clock e + secs 60 then delete_server (srv_id s) (app_db a) else app_db a)"
    using confirm delete_message [OF assms(7), of a1 u] user own delete_typed(2) [of n] c db
    by (simp add: handle_delete_def split_beta Let_def)
  with db show ?thesis by blast
qed

theorem bot_delete_steps_witness:
  "app_db (snd (handle_message kv_redis enc_draft dec_draft (env_at (secs 59))
      (message_from 5 (''/delete '' @ str_nat 1 @ '' confirm''))
      (snd (handle_message kv_redis enc_draft dec_draft (env_at 0) (message_from 5 (''/delete '' @ str_nat 1)) (bot_state [])))))
    = delete_server 1 (app_db (bot_state []))
   \<and> app_db (snd (handle_message kv_redis enc_draft dec_draft (env_at (secs 60))
      (message_from 5 (''/delete '' @ str_nat 1 @ '' confirm''))
      (snd (handle_message kv_redis enc_draft dec_draft (env_at 0) (message_from 5 (''/delete '' @ str_nat 1)) (bot_state [])))))
    = app_db (bot_state [])"
proof -
  note steps = bot_delete_in_two_steps [OF kv_service bot_state_ok [of "[]"] bot_state_server(1) _ bot_state_server(3,4)
    _ bot_state_user _ refl refl, where n = 1 and e = "env_at 0" and dumps = enc_draft and loads = dec_draft]
  show ?thesis
    using steps [where e' = "env_at (secs 59)"] steps [where e' = "env_at (secs 60)"] bot_state_server(2)
    by simp
qed

text \<open>A chat that two accounts share (nothing keeps a second account from linking it) makes the
  bot deaf to it: every message but \<open>/start\<close> ends with MultipleResultsFound and has no effect.\<close>

theorem shared_chat_is_deaf:
  assumes "u \<in> set (rows (users (app_db a)))" and "v \<in> set (rows (users (app_db a)))" and "u \<noteq> v"
    and "usr_telegram_chat_id u = Some (str_int chat)" and "usr_telegram_chat_id v = Some (str_int chat)"
    and "chat \<noteq> 0" and "t \<noteq> []" and "\<not> startswith t ''/start''"
  shows "handle_message R dumps loads e (message_from chat t) a = (Inl MultipleResultsFound, a)"
proof -
  let ?xs = "filter (\<lambda>u. usr_telegram_chat_id u = Some (str_int chat)) (rows (users (app_db a)))"
  have "{u, v} \<subseteq> set ?xs" using assms by simp
  then have "scalar_one_or_none ?xs = Inl MultipleResultsFound"
    using assms(3) by (cases ?xs rule: scalar_one_or_none.cases) auto
  then have "find_user_by_chat_id chat (app_db a) = Inl MultipleResultsFound"
    by (simp add: find_user_by_chat_id_def table_simps)
  with assms(6-8) show ?thesis
    by (simp add: handle_message_def del: startswith.simps)
qed

definition shared_state :: "kv app" where
  "shared_state = demo_state\<lparr>app_db := demo_db\<lparr>users := \<lparr>rows = [bot_user, bot_user\<lparr>usr_id := 2\<rparr>], seq = 3\<rparr>\<rparr>\<rparr>"

theorem shared_chat_witness:
  "handle_message kv_redis enc_draft dec_draft (env_at 0) (message_from 5 ''/status'') shared_state =
     (Inl MultipleResultsFound, shared_state)"
  by (rule shared_chat_is_deaf [of bot_user _ "bot_user\<lparr>usr_id := 2\<rparr>"])
    (simp_all add: shared_state_def bot_user_def demo_user_def)

end
