(* ===== verification/PW_Dialogue.thy ===== *)
theory PW_Dialogue
  imports PW_BotProps
begin

text \<open>
  The rule dialogue from the command to the rule: the answers of a chat reach the step they
  answer, because each message finds the draft the message before it stored, as long as no
  more than ten minutes pass between two of them.
\<close>

section \<open>Conversations\<close>

text \<open>Messages of one chat, each with the moment it is handled.\<close>

definition say :: "'r redis \<Rightarrow> (draft \<Rightarrow> string) \<Rightarrow> (string \<Rightarrow> draft) \<Rightarrow> int \<Rightarrow> 'r app \<Rightarrow> env \<times> string \<Rightarrow> 'r app" where
  "say R dumps loads chat a m = snd (handle_message R dumps loads (fst m) (message_from chat (snd m)) a)"

definition in_time :: "env \<Rightarrow> env \<Rightarrow> bool" where
  "in_time e e' \<longleftrightarrow> clock e \<le> clock e' \<and> clock e' < clock e + secs 600"

fun timely :: "env \<Rightarrow> (env \<times> string) list \<Rightarrow> bool" where
  "timely e [] = True"
| "timely e ((e', t) # ms) = (in_time e e' \<and> timely e' ms)"

definition last_env :: "env \<Rightarrow> (env \<times> string) list \<Rightarrow> env" where
  "last_env e ms = (if ms = [] then e else fst (last ms))"

lemma last_env_simps [simp]:
  "last_env e [] = e" "last_env e (m # ms) = last_env (fst m) ms"
  by (simp_all add: last_env_def)

text \<open>The draft a sequence of accepted answers leads to.\<close>

fun follow :: "(int \<Rightarrow> exc + server option) \<Rightarrow> draft \<Rightarrow> string list \<Rightarrow> draft option" where
  "follow own dr [] = Some dr"
| "follow own dr (t # ts) = (case dialogue_step own dr t of
     Advance dr' _ \<Rightarrow> follow own dr' ts
   | _ \<Rightarrow> None)"

section \<open>A chat with a stored draft\<close>

lemma affirmative:
  assumes "lower t \<in> {''y'', ''yes''}"
  shows "t \<noteq> []" "\<not> startswith t ''/''"
proof -
  show "t \<noteq> []" using assms by (auto simp: lower_def)
  have "lower_char (CHR ''/'') = CHR ''/''" by (simp add: lower_char_def code_point_def)
  then have "hd (lower t) = CHR ''/''" if "startswith t ''/''"
    using that by (auto simp: startswith_iff lower_def simp del: startswith.simps)
  moreover have "hd (lower t) \<noteq> CHR ''/''" using assms by auto
  ultimately show "\<not> startswith t ''/''" by blast
qed

context draft_store begin

text \<open>At \<open>e\<close> the draft of the chat was stored, over an unchanged database.\<close>

definition holds_draft :: "int \<Rightarrow> db \<Rightarrow> env \<Rightarrow> draft \<Rightarrow> 'r app \<Rightarrow> bool" where
  "holds_draft chat d e dr a \<longleftrightarrow> app_db a = d
     \<and> (\<exists>s. app_rd a = set_rule_draft R dumps s (clock e) chat dr)"

lemma holds_draft_read:
  assumes "holds_draft chat d e dr a" and "in_time e e'"
  shows "get_rule_draft R loads (app_rd a) (clock e') chat = Some dr"
  using assms stored_draft by (auto simp: holds_draft_def in_time_def)

lemma answered:
  assumes "chat \<noteq> 0" and "find_user_by_chat_id chat d = Inr (Some u)" and "holds_draft chat d e dr a"
    and "in_time e e'" and "t \<noteq> []" and "\<not> startswith t ''/''"
  shows "say R dumps loads chat a (e', t) = snd (process_rule_draft R dumps e' chat u t dr a)"
proof -
  have "\<not> startswith t ''/start''" "\<not> startswith t ''/cancel''"
    using assms(6) by (auto simp: startswith_iff simp del: startswith.simps)
  moreover have "find_user_by_chat_id chat (app_db a) = Inr (Some u)"
    using assms(2,3) by (simp add: holds_draft_def)
  ultimately show ?thesis
    using assms(1,5,6) holds_draft_read [OF assms(3,4)]
    by (simp add: say_def linked_message handle_linked_def split_beta del: startswith.simps)
qed

lemma advanced:
  assumes "chat \<noteq> 0" and "find_user_by_chat_id chat d = Inr (Some u)" and "holds_draft chat d e dr a"
    and "in_time e e'" and "t \<noteq> []" and "\<not> startswith t ''/''"
    and "dialogue_step (own_server u d) dr t = Advance dr' r"
  shows "holds_draft chat d e' dr' (say R dumps loads chat a (e', t))"
proof -
  have "own_server u d = (\<lambda>i. fetch_by_id srv_id i (\<lambda>s. srv_owner_id s = usr_id u) (servers (app_db a)))"
    using assms(3) by (simp add: own_server_def holds_draft_def fun_eq_iff)
  then show ?thesis
    using assms(3,7) by (auto simp: answered [OF assms(1-6)] process_rule_draft_def holds_draft_def)
qed

lemma followed:
  assumes "chat \<noteq> 0" and "find_user_by_chat_id chat d = Inr (Some u)"
  shows "holds_draft chat d e dr a \<Longrightarrow> timely e ms \<Longrightarrow> \<forall>m\<in>set ms. snd m \<noteq> [] \<and> \<not> startswith (snd m) ''/''
    \<Longrightarrow> follow (own_server u d) dr (map snd ms) = Some dr'
    \<Longrightarrow> holds_draft chat d (last_env e ms) dr' (foldl (say R dumps loads chat) a ms)"
proof (induction ms arbitrary: e dr a)
  case (Cons m ms)
  obtain e' t where m: "m = (e', t)" by force
  with Cons.prems obtain dr1 r where st: "dialogue_step (own_server u d) dr t = Advance dr1 r"
    and rest: "follow (own_server u d) dr1 (map snd ms) = Some dr'"
    by (auto split: step_result.splits)
  have "holds_draft chat d e' dr1 (say R dumps loads chat a (e', t))"
    by (rule advanced [OF assms Cons.prems(1) _ _ _ st]) (use Cons.prems m in auto)
  from Cons.IH [OF this _ _ rest] Cons.prems m show ?case by simp
qed simp

text \<open>The command opens the dialogue when the user has a server.\<close>

lemma opened:
  assumes "chat \<noteq> 0" and "find_user_by_chat_id chat (app_db a) = Inr (Some u)" and "servers_of u (app_db a) \<noteq> []"
  shows "holds_draft chat (app_db a) e \<lparr>dr_step = ''server'', dr_data = no_data\<rparr>
    (say R dumps loads chat a (e, ''/createrule''))"
proof -
  have "handle_linked R dumps loads e chat u ''/createrule'' a =
      replied (handle_createrule_start R dumps e chat u (drop_draft R loads e chat a))"
    by (simp add: handle_linked_def handle_command_def)
  then show ?thesis
    using assms by (simp add: say_def linked_message holds_draft_def handle_createrule_start_def Let_def) blast
qed

lemma confirmed:
  assumes "chat \<noteq> 0" and "find_user_by_chat_id chat d = Inr (Some u)"
    and "holds_draft chat d e \<lparr>dr_step = ''confirm'', dr_data = x\<rparr> a" and "in_time e e'"
    and "strip t = t" and "lower t \<in> {''y'', ''yes''}" and "insert_draft_rule e' u x d = (Inr rule, d')"
  shows "app_db (say R dumps loads chat a (e', t)) = d'"
    and "clock e' \<le> tm \<Longrightarrow> get_rule_draft R loads (app_rd (say R dumps loads chat a (e', t))) tm chat = None"
proof -
  have t: "t \<noteq> []" "\<not> startswith t ''/''" by (rule affirmative [OF assms(6)])+
  have "lower t \<notin> {''n'', ''no''}" using assms(6) by auto
  then have "say R dumps loads chat a (e', t) =
      a\<lparr>app_db := d', app_rd := clear_rule_draft R (app_rd a) (clock e') chat\<rparr>"
    using assms(3,5-7) unfolding answered [OF assms(1-4) t]
    by (auto simp: process_rule_draft_def confirm_step_def holds_draft_def Let_def)
  then show "app_db (say R dumps loads chat a (e', t)) = d'"
    and "clock e' \<le> tm \<Longrightarrow> get_rule_draft R loads (app_rd (say R dumps loads chat a (e', t))) tm chat = None"
    by (simp_all add: draft_cleared)
qed

end

section \<open>The answers of a rule\<close>

record rule_answers =
  an_server :: nat
  an_type :: string
  an_name :: string
  an_field :: string
  an_container :: string
  an_operator :: string
  an_threshold :: string
  an_preset :: string

text \<open>What is typed, in order; the container is asked for docker rules only.\<close>

definition typed :: "rule_answers \<Rightarrow> string list" where
  "typed an = [str_nat (an_server an), an_type an, an_name an, an_field an]
     @ (if an_type an = ''docker'' then [an_container an] else [])
     @ [an_operator an, an_threshold an, an_preset an]"

text \<open>An answer in free text is not a command and has no space around it.\<close>

definition free_text :: "string \<Rightarrow> bool" where
  "free_text t \<longleftrightarrow> t \<noteq> [] \<and> \<not> startswith t ''/'' \<and> strip t = t"

definition answers_ok :: "rule_answers \<Rightarrow> bool" where
  "answers_ok an \<longleftrightarrow> an_type an \<in> set METRIC_TYPES \<and> free_text (an_name an) \<and> length (an_name an) \<le> 255
     \<and> an_field an \<in> set (fields_of (an_type an)) \<and> free_text (an_container an)
     \<and> an_operator an \<in> set OPERATORS \<and> free_text (an_threshold an) \<and> py_float (an_threshold an) \<noteq> None
     \<and> an_preset an \<in> {''telegram'', ''email'', ''both'', ''none''}"

definition asked_container :: "rule_answers \<Rightarrow> string option" where
  "asked_container an = (if an_type an \<noteq> ''docker'' \<or> an_container an = ''*'' then None
     else Some (take 255 (an_container an)))"

definition asked_rule :: "env \<Rightarrow> user \<Rightarrow> rule_answers \<Rightarrow> int \<Rightarrow> alert_rule" where
  "asked_rule e u an i = \<lparr>rule_id = i, rule_server_id = int (an_server an), rule_owner_id = usr_id u,
     rule_name = an_name an, rule_metric_type = the (metric_type_of (an_type an)),
     rule_metric_field = an_field an, rule_operator = the (operator_of (an_operator an)),
     rule_threshold_value = the (py_float (an_threshold an)), rule_container_name = asked_container an,
     rule_cooldown_seconds = 300, rule_is_active = True,
     rule_notification_channels = the (CHANNEL_PRESETS (an_preset an)), rule_last_triggered_at = None,
     rule_created_at = db_clock e, rule_updated_at = db_clock e\<rparr>"

text \<open>The words the dialogue offers are their own lower case and stripped.\<close>

definition words :: "string list" where
  "words = METRIC_TYPES @ SYSTEM_METRIC_FIELDS @ DOCKER_METRIC_FIELDS @ OPERATORS
     @ [''telegram'', ''email'', ''both'', ''none'', ''y'']"

lemma words_plain: "list_all (\<lambda>w. lower w = w \<and> free_text w) words"
  by code_simp

lemma offered:
  assumes "w \<in> set words"
  shows "lower w = w" "strip w = w" "w \<noteq> []" "\<not> startswith w ''/''"
  using words_plain assms unfolding list_all_iff free_text_def by blast+

lemma fields_words: "f \<in> set (fields_of mt) \<Longrightarrow> f \<in> set words"
  by (auto simp: fields_of_def words_def split: if_splits)

lemma answers_words:
  assumes "answers_ok an"
  shows "an_type an \<in> set words" "an_field an \<in> set words" "an_operator an \<in> set words" "an_preset an \<in> set words"
proof -
  have w: "set METRIC_TYPES \<subseteq> set words" "set OPERATORS \<subseteq> set words"
    "{''telegram'', ''email'', ''both'', ''none''} \<subseteq> set words"
    unfolding words_def by auto
  from assms have a: "an_type an \<in> set METRIC_TYPES" "an_field an \<in> set (fields_of (an_type an))"
    "an_operator an \<in> set OPERATORS" "an_preset an \<in> {''telegram'', ''email'', ''both'', ''none''}"
    unfolding answers_ok_def by (simp_all only:)
  show "an_type an \<in> set words" by (rule subsetD [OF w(1) a(1)])
  show "an_field an \<in> set words" by (rule fields_words [OF a(2)])
  show "an_operator an \<in> set words" by (rule subsetD [OF w(2) a(3)])
  show "an_preset an \<in> set words" by (rule subsetD [OF w(3) a(4)])
qed

lemma str_nat_free: "free_text (str_nat n)"
proof -
  have "hd (str_nat n) \<noteq> CHR ''/''" using str_nat_hd [of n] by (auto simp: is_decimal_def code_point_def)
  then have "\<not> startswith (str_nat n) ''/''" by (auto simp: startswith_iff)
  then show ?thesis by (simp add: free_text_def strip_decimal str_nat_decimal)
qed

lemma typed_free:
  assumes "answers_ok an" and "t \<in> set (typed an)"
  shows "t \<noteq> [] \<and> \<not> startswith t ''/''"
proof -
  from assms(1) have "free_text (an_name an)" "free_text (an_container an)" "free_text (an_threshold an)"
    by (simp_all add: answers_ok_def)
  moreover from answers_words [OF assms(1)] offered have
    "free_text (an_type an)" "free_text (an_field an)" "free_text (an_operator an)" "free_text (an_preset an)"
    by (simp_all add: free_text_def)
  moreover from assms(2) have "t \<in> {str_nat (an_server an), an_type an, an_name an, an_field an,
      an_container an, an_operator an, an_threshold an, an_preset an}"
    by (auto simp: typed_def split: if_splits)
  ultimately have "free_text t" using str_nat_free by blast
  then show ?thesis by (simp add: free_text_def)
qed

text \<open>The draft at the last question.\<close>

definition full_draft :: "server \<Rightarrow> rule_answers \<Rightarrow> draft_data" where
  "full_draft s an = \<lparr>dd_server_id = Some (int (an_server an)), dd_server_name = Some (srv_name s),
     dd_metric_type = Some (an_type an), dd_name = Some (an_name an), dd_metric_field = Some (an_field an),
     dd_container_name = (if an_type an = ''docker'' then Some (asked_container an) else None),
     dd_operator = Some (an_operator an), dd_threshold_value = py_float (an_threshold an),
     dd_notification_channels = CHANNEL_PRESETS (an_preset an)\<rparr>"

lemma presets:
  assumes "p \<in> {''telegram'', ''email'', ''both'', ''none''}"
  obtains chs where "CHANNEL_PRESETS p = Some chs"
  using assms by (auto simp: CHANNEL_PRESETS_def)

text \<open>The accepted answers of each step.\<close>

lemma server_accepted:
  assumes "own (int n) = Inr (Some s)"
  shows "dialogue_step own \<lparr>dr_step = ''server'', dr_data = x\<rparr> (str_nat n) = Advance \<lparr>dr_step = ''metric_type'',
    dr_data = x\<lparr>dd_server_id := Some (int n), dd_server_name := Some (srv_name s)\<rparr>\<rparr> AskType"
proof -
  have "strip (str_nat n) = str_nat n" "isdigit (str_nat n)" "py_int (str_nat n) = Some (int n)"
    using py_int_str_int [of "int n"] str_nat_decimal [of n]
    by (simp_all add: strip_decimal isdigit_def list_all_iff str_int_def)
  with assms show ?thesis by (simp add: server_step_def)
qed

lemma type_accepted:
  assumes "mt \<in> set METRIC_TYPES" and "lower mt = mt" and "strip mt = mt"
  shows "dialogue_step own \<lparr>dr_step = ''metric_type'', dr_data = x\<rparr> mt =
    Advance \<lparr>dr_step = ''name'', dr_data = x\<lparr>dd_metric_type := Some mt\<rparr>\<rparr> AskName"
  using assms by (simp add: metric_type_step_def)

lemma name_accepted:
  assumes "free_text nm" and "length nm \<le> 255" and "dd_metric_type x = Some mt"
  shows "dialogue_step own \<lparr>dr_step = ''name'', dr_data = x\<rparr> nm =
    Advance \<lparr>dr_step = ''metric'', dr_data = x\<lparr>dd_name := Some nm\<rparr>\<rparr> (AskMetric (fields_of mt))"
  using assms by (simp add: name_step_def free_text_def)

lemma field_accepted:
  assumes "f \<in> set (fields_of mt)" and "dd_metric_type x = Some mt" and "lower f = f" and "strip f = f"
  shows "dialogue_step own \<lparr>dr_step = ''metric'', dr_data = x\<rparr> f =
    Advance \<lparr>dr_step = (if mt = ''docker'' then ''container'' else ''operator''), dr_data = x\<lparr>dd_metric_field := Some f\<rparr>\<rparr>
      (if mt = ''docker'' then AskContainer else AskOperator)"
  using assms by (simp add: metric_step_def Let_def)

lemma container_accepted:
  assumes "free_text c"
  shows "dialogue_step own \<lparr>dr_step = ''container'', dr_data = x\<rparr> c = Advance \<lparr>dr_step = ''operator'',
    dr_data = x\<lparr>dd_container_name := Some (if c = ''*'' then None else Some (take 255 c))\<rparr>\<rparr> AskOperator"
  using assms by (simp add: container_step_def free_text_def)

lemma operator_accepted:
  assumes "op \<in> set OPERATORS" and "lower op = op" and "strip op = op"
  shows "dialogue_step own \<lparr>dr_step = ''operator'', dr_data = x\<rparr> op =
    Advance \<lparr>dr_step = ''threshold'', dr_data = x\<lparr>dd_operator := Some op\<rparr>\<rparr> AskThreshold"
  using assms by (simp add: operator_step_def)

lemma threshold_accepted:
  assumes "free_text th" and "py_float th = Some v"
  shows "dialogue_step own \<lparr>dr_step = ''threshold'', dr_data = x\<rparr> th =
    Advance \<lparr>dr_step = ''channels'', dr_data = x\<lparr>dd_threshold_value := Some v\<rparr>\<rparr> AskChannels"
  using assms by (simp add: threshold_step_def free_text_def)

lemma preset_accepted:
  assumes "CHANNEL_PRESETS p = Some chs" and "lower p = p" and "strip p = p"
    and "summary_complete (x\<lparr>dd_notification_channels := Some chs\<rparr>)"
  shows "dialogue_step own \<lparr>dr_step = ''channels'', dr_data = x\<rparr> p =
    Advance \<lparr>dr_step = ''confirm'', dr_data = x\<lparr>dd_notification_channels := Some chs\<rparr>\<rparr>
      (Summary (x\<lparr>dd_notification_channels := Some chs\<rparr>))"
  using assms by (simp add: channels_step_def Let_def)

lemma typed_followed:
  assumes "answers_ok an" and "own (int (an_server an)) = Inr (Some s)"
  shows "follow own \<lparr>dr_step = ''server'', dr_data = no_data\<rparr> (typed an) =
    Some \<lparr>dr_step = ''confirm'', dr_data = full_draft s an\<rparr>"
proof -
  have a: "an_type an \<in> set METRIC_TYPES" "free_text (an_name an)" "length (an_name an) \<le> 255"
    "an_field an \<in> set (fields_of (an_type an))" "free_text (an_container an)" "an_operator an \<in> set OPERATORS"
    "free_text (an_threshold an)" "an_preset an \<in> {''telegram'', ''email'', ''both'', ''none''}"
    using assms(1) unfolding answers_ok_def by (simp_all only:)
  note w = answers_words [OF assms(1), THEN offered(1)] answers_words [OF assms(1), THEN offered(2)]
  obtain v where v: "py_float (an_threshold an) = Some v" using assms(1) by (auto simp: answers_ok_def)
  obtain chs where chs: "CHANNEL_PRESETS (an_preset an) = Some chs" using presets [OF a(8)] .
  note accepted = server_accepted [of own "an_server an" s, OF assms(2)] type_accepted [OF a(1) w(1,5)]
    name_accepted [OF a(2,3)] field_accepted [OF a(4) _ w(2,6)] container_accepted [OF a(5)]
    operator_accepted [OF a(6) w(3,7)] threshold_accepted [OF a(7) v] preset_accepted [OF chs w(4,8)]
  note defs = typed_def summary_complete_def full_draft_def no_data_def v chs asked_container_def
  show ?thesis
  proof (cases "an_type an = ''docker''")
    case True
    show ?thesis by (simp add: True defs accepted [unfolded True] del: dialogue_step_simps)
  next
    case False
    then show ?thesis by (simp add: defs accepted del: dialogue_step_simps)
  qed
qed

lemma asked_inserted:
  assumes "answers_ok an" and "s \<in> set (rows (servers d))" and "srv_id s = int (an_server an)" and "int32 (srv_id s)"
  shows "insert_draft_rule e u (full_draft s an) d =
    (Inr (asked_rule e u an (seq (alert_rules d))), d\<lparr>alert_rules := insert_row (asked_rule e u an) (alert_rules d)\<rparr>)"
proof -
  have a: "an_type an \<in> set METRIC_TYPES" "length (an_name an) \<le> 255" "an_field an \<in> set (fields_of (an_type an))"
    "an_operator an \<in> set OPERATORS" "an_preset an \<in> {''telegram'', ''email'', ''both'', ''none''}"
    using assms(1) unfolding answers_ok_def by (simp_all only:)
  obtain v where v: "py_float (an_threshold an) = Some v" using assms(1) by (auto simp: answers_ok_def)
  obtain chs where chs: "CHANNEL_PRESETS (an_preset an) = Some chs" using presets [OF a(5)] .
  obtain mt op where e: "metric_type_of (an_type an) = Some mt" "operator_of (an_operator an) = Some op"
    using enum_total a(1,4) by blast
  have "draft_rule e u (full_draft s an) = Inr (asked_rule e u an)"
    by (simp add: draft_rule_def full_draft_def asked_rule_def [abs_def] v chs e asked_container_def)
  moreover have "rule_fits (asked_rule e u an i)" for i
    using a(2) fields_short [OF a(3)] by (simp add: rule_fits_def asked_rule_def fits_def asked_container_def int32_def)
  moreover have "int (an_server an) \<in> server_ids d" using assms(2,3) unfolding server_ids_def by (metis image_eqI)
  moreover have "rule_server_id (asked_rule e u an i) = int (an_server an)" for i by (simp add: asked_rule_def)
  ultimately show ?thesis using assms(3,4) by (simp add: insert_draft_rule_def)
qed

section \<open>Properties\<close>

text \<open>C21: the dialogue ends in the rule it asked about: the command, one valid answer to each of its
  questions and the final yes, each within ten minutes of the message before it, insert exactly
  one rule, with the answers in its columns, for the user of the chat on his server, change
  nothing else in the database and leave no draft behind.\<close>

theorem dialogue_creates_rule:
  assumes "draft_store R dumps loads" and "db_ok (app_db a)" and "s \<in> set (rows (servers (app_db a)))"
    and "srv_id s = int (an_server an)" and "int32 (srv_id s)" and "srv_owner_id s = usr_id u" and "chat \<noteq> 0"
    and user: "find_user_by_chat_id chat (app_db a) = Inr (Some u)" and ok: "answers_ok an"
    and texts: "map snd ms = typed an" and time: "timely e ms" "in_time (last_env e ms) e'"
    and talk: "a' = foldl (say R dumps loads chat) a ((e, ''/createrule'') # ms @ [(e', ''y'')])"
  shows "app_db a' = (app_db a)\<lparr>alert_rules := insert_row (asked_rule e' u an) (alert_rules (app_db a))\<rparr>
    \<and> get_rule_draft R loads (app_rd a') (clock e') chat = None"
proof -
  note [simp del] = foldl_Cons
  let ?d = "app_db a"
  have own: "own_server u ?d (int (an_server an)) = Inr (Some s)"
    using own_server_eq [OF assms(2,3,5,6)] assms(4) by simp
  have "servers_of u ?d \<noteq> []"
    using assms(3,6) by (auto simp: servers_of_def table_simps filter_empty_conv)
  from draft_store.opened [OF assms(1,7) user this]
  have "draft_store.holds_draft R dumps chat ?d e \<lparr>dr_step = ''server'', dr_data = no_data\<rparr>
      (say R dumps loads chat a (e, ''/createrule''))" .
  moreover have "\<forall>m\<in>set ms. snd m \<noteq> [] \<and> \<not> startswith (snd m) ''/''"
    using typed_free [OF ok] texts by (metis image_eqI list.set_map)
  moreover have "follow (own_server u ?d) \<lparr>dr_step = ''server'', dr_data = no_data\<rparr> (map snd ms) =
      Some \<lparr>dr_step = ''confirm'', dr_data = full_draft s an\<rparr>"
    unfolding texts by (rule typed_followed [where own = "own_server u ?d", OF ok own])
  ultimately have held: "draft_store.holds_draft R dumps chat ?d (last_env e ms)
      \<lparr>dr_step = ''confirm'', dr_data = full_draft s an\<rparr>
      (foldl (say R dumps loads chat) (say R dumps loads chat a (e, ''/createrule'')) ms)"
    using draft_store.followed [OF assms(1,7) user] time(1) by blast
  have y: "strip ''y'' = ''y''" "lower ''y'' \<in> {''y'', ''yes''}"
    using offered(1,2) [of "''y''"] by (simp_all add: words_def)
  note fin = draft_store.confirmed [OF assms(1,7) user held time(2) y asked_inserted [OF ok assms(3-5)]]
  from fin(1) fin(2) [OF order_refl] show ?thesis unfolding talk by (simp add: foldl_Cons)
qed

definition demo_answers :: rule_answers where
  "demo_answers = \<lparr>an_server = 1, an_type = ''docker'', an_name = ''hot box'', an_field = ''cpu_percent'',
     an_container = ''*'', an_operator = ''gte'', an_threshold = ''90.5'', an_preset = ''both''\<rparr>"

definition demo_talk :: "(env \<times> string) list" where
  "demo_talk = map (\<lambda>(n, t). (env_at (secs (599 * n)), t)) (zip [1..8] (typed demo_answers))"

lemma demo_answers_ok: "answers_ok demo_answers"
proof -
  have "list_all free_text [''hot box'', ''*'', ''90.5'']" by code_simp
  moreover have "py_float ''90.5'' \<noteq> None"
  proof -
    have "strip ''90.5'' = ''90.5''" "is_decimal (CHR ''9'')" "is_decimal (CHR ''0'')" "is_decimal (CHR ''5'')"
      "\<not> is_decimal (CHR ''.'')" by code_simp+
    then show ?thesis by (simp add: py_float_def decimal_def Let_def)
  qed
  ultimately show ?thesis
    by (simp add: answers_ok_def demo_answers_def METRIC_TYPES_def OPERATORS_def fields_of_def
        DOCKER_METRIC_FIELDS_def del: startswith.simps)
qed

lemma demo_typed:
  "typed demo_answers = [str_nat 1, ''docker'', ''hot box'', ''cpu_percent'', ''*'', ''gte'', ''90.5'', ''both'']"
  by (simp add: typed_def demo_answers_def)

lemma demo_talk_times:
  "map snd demo_talk = typed demo_answers" "timely (env_at 0) demo_talk"
  "in_time (last_env (env_at 0) demo_talk) (env_at (secs (599 * 9)))"
  by (simp_all add: demo_talk_def demo_typed upto_rec1 in_time_def)

theorem dialogue_creates_witness:
  "app_db (foldl (say kv_redis enc_draft dec_draft 5) (bot_state [])
     ((env_at 0, ''/createrule'') # demo_talk @ [(env_at (secs (599 * 9)), ''y'')])) =
   (app_db (bot_state []))\<lparr>alert_rules := insert_row (asked_rule (env_at (secs (599 * 9))) bot_user demo_answers)
     (alert_rules (app_db (bot_state [])))\<rparr>"
  using dialogue_creates_rule [OF wire_store bot_state_ok bot_state_server(1) _ bot_state_server(3,4) _
      bot_state_user demo_answers_ok demo_talk_times refl, of "[]"] bot_state_server(2)
  by (simp add: demo_answers_def)

end
