(* ===== verification/PW_LogStream.thy ===== *)
theory PW_LogStream
  imports PW_Security PW_Fixtures "HOL-Library.Multiset" "HOL-Library.Sublist"
begin

text \<open>
  Live streams: the registry of dashboards subscribed to the log of a server
  (\<open>app/core/connection_manager.py\<close>), the WebSocket endpoints of the dashboards and of the agent
  (\<open>app/api/websocket.py\<close>) and the subscriptions to Redis channels (\<open>app/api/ws_metrics.py\<close>).
  The registry is shown to implement a relation between servers and sockets. An agent's
  connection is a machine with two tasks, the receiver and the periodic flush, which meet at
  every await; \<open>log_step\<close> is one step between two awaits, with what the world answers (a
  commit that works or not) in the event.
\<close>

section \<open>The registry of subscribers\<close>

text \<open>A set of sockets is a list without repetitions; sockets are numbered.\<close>

type_synonym registry = "int \<rightharpoonup> nat list"

definition subscribe :: "int \<Rightarrow> nat \<Rightarrow> registry \<Rightarrow> registry" where
  "subscribe server_id ws m =
     m(server_id \<mapsto> List.insert ws (case m server_id of None \<Rightarrow> [] | Some subs \<Rightarrow> subs))"

text \<open>Discards sockets and drops the entry of a server when nobody is left.\<close>

definition discard :: "int \<Rightarrow> nat list \<Rightarrow> registry \<Rightarrow> registry" where
  "discard server_id wss m = (case m server_id of
     None \<Rightarrow> m
   | Some subs \<Rightarrow>
       let left = filter (\<lambda>w. w \<notin> set wss) subs in
       if left = [] then m(server_id := None) else m(server_id \<mapsto> left))"

definition unsubscribe :: "int \<Rightarrow> nat \<Rightarrow> registry \<Rightarrow> registry" where
  "unsubscribe server_id ws = discard server_id [ws]"

text \<open>
  A broadcast takes a snapshot of the targets, sends to them without the lock (the registry may
  change meanwhile) and afterwards discards the sockets that failed.
\<close>

definition broadcast_targets :: "int \<Rightarrow> registry \<Rightarrow> nat list" where
  "broadcast_targets server_id m = (case m server_id of None \<Rightarrow> [] | Some subs \<Rightarrow> subs)"

definition broadcast_sends :: "(nat \<Rightarrow> bool) \<Rightarrow> nat list \<Rightarrow> nat list \<times> nat list" where
  "broadcast_sends send_ok targets = (filter send_ok targets, filter (\<lambda>w. \<not> send_ok w) targets)"

definition broadcast_cleanup :: "int \<Rightarrow> nat list \<Rightarrow> registry \<Rightarrow> registry" where
  "broadcast_cleanup server_id failed m = (if failed = [] then m else discard server_id failed m)"

section \<open>Dashboards\<close>

datatype ws_answer = ClosedPolicyViolation | Accepted

definition ws_own_server :: "crypto \<Rightarrow> env \<Rightarrow> int \<Rightarrow> string option \<Rightarrow> db \<Rightarrow> exc + server option" where
  "ws_own_server C e server_id token d = (case authenticate_ws_user C (clock e) token d of
     Inl x \<Rightarrow> Inl x
   | Inr None \<Rightarrow> Inr None
   | Inr (Some u) \<Rightarrow> fetch_by_id srv_id server_id (\<lambda>s. srv_owner_id s = usr_id u) (servers d))"

text \<open>The connection until it is accepted and subscribed; when it ends, it is unsubscribed.\<close>

definition ws_dashboard_logs :: "crypto \<Rightarrow> env \<Rightarrow> int \<Rightarrow> string option \<Rightarrow> nat \<Rightarrow> db \<Rightarrow> registry
    \<Rightarrow> (exc + ws_answer) \<times> registry" where
  "ws_dashboard_logs C e server_id token ws d m = (case ws_own_server C e server_id token d of
     Inl x \<Rightarrow> (Inl x, m)
   | Inr None \<Rightarrow> (Inr ClosedPolicyViolation, m)
   | Inr (Some _) \<Rightarrow> (Inr Accepted, subscribe server_id ws m))"

text \<open>
  The subscription to a Redis channel: the gate is the same, and what the socket is sent is
  what is published on the channel of the server while it is open.
\<close>

definition channel_name :: "string \<Rightarrow> int \<Rightarrow> string" where
  "channel_name kind server_id = kind @ '':'' @ str_int server_id"

definition ws_subscribe :: "crypto \<Rightarrow> env \<Rightarrow> int \<Rightarrow> string option \<Rightarrow> string \<Rightarrow> db
    \<Rightarrow> exc + string option" where
  "ws_subscribe C e server_id token kind d = (case ws_own_server C e server_id token d of
     Inl x \<Rightarrow> Inl x
   | Inr None \<Rightarrow> Inr None
   | Inr (Some _) \<Rightarrow> Inr (Some (channel_name kind server_id)))"

definition ws_metrics :: "crypto \<Rightarrow> env \<Rightarrow> int \<Rightarrow> string option \<Rightarrow> db \<Rightarrow> exc + string option" where
  "ws_metrics C e server_id token = ws_subscribe C e server_id token ''metrics''"

definition ws_docker_metrics :: "crypto \<Rightarrow> env \<Rightarrow> int \<Rightarrow> string option \<Rightarrow> db \<Rightarrow> exc + string option" where
  "ws_docker_metrics C e server_id token = ws_subscribe C e server_id token ''docker_metrics''"

definition ws_alerts :: "crypto \<Rightarrow> env \<Rightarrow> int \<Rightarrow> string option \<Rightarrow> db \<Rightarrow> exc + string option" where
  "ws_alerts C e server_id token = ws_subscribe C e server_id token ''alerts''"

definition ws_feed :: "string \<Rightarrow> (string \<times> payload) list \<Rightarrow> payload list" where
  "ws_feed channel published = map snd (filter (\<lambda>p. fst p = channel) published)"

section \<open>The connection of an agent\<close>

definition LOG_BATCH_MAX_SIZE :: nat where
  "LOG_BATCH_MAX_SIZE = 50"

text \<open>
  Where the receiver stands: waiting for a line, sending it to the dashboards, waiting for the
  lock of the flush, committing a batch, or past the end of the connection, before and after
  its last flush.
\<close>

datatype receiver = Receiving | Broadcasting | WantsFlush | Committing | Closing | ClosingCommit | Closed

text \<open>
  \<open>lc_batch\<close> is the batch the holder of the lock is committing and \<open>lc_tick\<close> says that the holder
  is the periodic task. \<open>lc_expired\<close> says that a rollback has expired the row of the server in the
  session, so that reading its id raises. \<open>lc_received\<close> and \<open>lc_lost\<close> are history: the lines that
  came and the lines that were dropped.
\<close>

record log_conn =
  lc_receiver :: receiver
  lc_buffer :: "string list"
  lc_batch :: "string list option"
  lc_tick :: bool
  lc_expired :: bool
  lc_received :: "string list"
  lc_lost :: "string list"

definition new_conn :: log_conn where
  "new_conn = \<lparr>lc_receiver = Receiving, lc_buffer = [], lc_batch = None, lc_tick = False,
     lc_expired = False, lc_received = [], lc_lost = []\<rparr>"

definition ws_agent_logs :: "crypto \<Rightarrow> string option \<Rightarrow> db \<Rightarrow> exc + (int \<times> log_conn) option" where
  "ws_agent_logs C api_key d = map_sum id (map_option (\<lambda>s. (srv_id s, new_conn))) (authenticate_ws_agent C api_key d)"

definition new_log :: "env \<Rightarrow> int \<Rightarrow> string \<Rightarrow> int \<Rightarrow> log_entry" where
  "new_log e server_id line i =
     \<lparr>log_id = i, log_server_id = server_id, log_message = line, log_created_at = db_clock e\<rparr>"

text \<open>The commit of a batch; it fails when the server is gone, or when the database refuses.\<close>

definition commit_batch :: "env \<Rightarrow> bool \<Rightarrow> int \<Rightarrow> string list \<Rightarrow> db \<Rightarrow> db option" where
  "commit_batch e works server_id lines d =
     (if works \<and> server_id \<in> server_ids d
      then Some (d\<lparr>logs := insert_all (map (new_log e server_id) lines) (logs d)\<rparr>)
      else None)"

text \<open>
  The events: a line arrives (after a rollback, reading the id of the server raises instead, which
  ends the connection); its broadcast ends; the receiver gets the lock of the flush; its
  commit ends; the periodic task gets the lock; its commit ends; the connection ends, which
  cancels the periodic task, in the middle of its commit when it has the lock (the commit may
  have reached the database or not); the last flush begins and ends. The flag is whether the
  database carries the commit out.
\<close>

datatype log_event =
    Line string
  | LineRaises string env bool
  | BroadcastDone
  | FlushBegins
  | FlushEnds env bool
  | TickBegins
  | TickEnds env bool
  | Disconnected env bool
  | LastFlushBegins
  | LastFlushEnds env bool

definition take_batch :: "bool \<Rightarrow> receiver \<Rightarrow> log_conn \<Rightarrow> log_conn" where
  "take_batch tick r c = c\<lparr>lc_receiver := r, lc_buffer := [], lc_batch := Some (lc_buffer c), lc_tick := tick\<rparr>"

definition end_batch :: "env \<Rightarrow> bool \<Rightarrow> int \<Rightarrow> receiver \<Rightarrow> log_conn \<times> db \<Rightarrow> log_conn \<times> db" where
  "end_batch e works server_id r st = (case st of (c, d) \<Rightarrow>
     let lines = (case lc_batch c of None \<Rightarrow> [] | Some xs \<Rightarrow> xs);
         c' = c\<lparr>lc_receiver := r, lc_batch := None, lc_tick := False\<rparr>
     in case commit_batch e works server_id lines d of
          Some d' \<Rightarrow> (c', d')
        | None \<Rightarrow> (c'\<lparr>lc_expired := True, lc_lost := lc_lost c @ lines\<rparr>, d))"

definition end_conn :: "env \<Rightarrow> bool \<Rightarrow> int \<Rightarrow> log_conn \<times> db \<Rightarrow> log_conn \<times> db" where
  "end_conn e works server_id st = (case st of (c, d) \<Rightarrow>
     if lc_tick c then end_batch e works server_id Closing (c, d) else (c\<lparr>lc_receiver := Closing\<rparr>, d))"

text \<open>None: the event cannot happen in this state.\<close>

fun log_step :: "int \<Rightarrow> log_event \<Rightarrow> log_conn \<times> db \<Rightarrow> (log_conn \<times> db) option" where
  "log_step i (Line line) (c, d) =
     (if lc_receiver c = Receiving \<and> \<not> lc_expired c
      then Some (c\<lparr>lc_receiver := Broadcasting, lc_buffer := lc_buffer c @ [line],
        lc_received := lc_received c @ [line]\<rparr>, d)
      else None)"
| "log_step i (LineRaises line e works) (c, d) =
     (if lc_receiver c = Receiving \<and> lc_expired c
      then Some (end_conn e works i (c\<lparr>lc_received := lc_received c @ [line], lc_lost := lc_lost c @ [line]\<rparr>, d))
      else None)"
| "log_step i BroadcastDone (c, d) =
     (if lc_receiver c = Broadcasting
      then Some (c\<lparr>lc_receiver := (if LOG_BATCH_MAX_SIZE \<le> length (lc_buffer c) then WantsFlush else Receiving)\<rparr>, d)
      else None)"
| "log_step i FlushBegins (c, d) =
     (if lc_receiver c = WantsFlush \<and> lc_batch c = None
      then Some (if lc_buffer c = [] then c\<lparr>lc_receiver := Receiving\<rparr> else take_batch False Committing c, d)
      else None)"
| "log_step i (FlushEnds e works) (c, d) =
     (if lc_receiver c = Committing then Some (end_batch e works i Receiving (c, d)) else None)"
| "log_step i TickBegins (c, d) =
     (if lc_receiver c \<notin> {Closing, ClosingCommit, Closed} \<and> lc_batch c = None \<and> lc_buffer c \<noteq> []
      then Some (take_batch True (lc_receiver c) c, d)
      else None)"
| "log_step i (TickEnds e works) (c, d) =
     (if lc_tick c then Some (end_batch e works i (lc_receiver c) (c, d)) else None)"
| "log_step i (Disconnected e works) (c, d) =
     (if lc_receiver c = Receiving
      then Some (end_conn e works i (c, d))
      else None)"
| "log_step i LastFlushBegins (c, d) =
     (if lc_receiver c = Closing
      then Some (if lc_buffer c = [] then c\<lparr>lc_receiver := Closed\<rparr> else take_batch False ClosingCommit c, d)
      else None)"
| "log_step i (LastFlushEnds e works) (c, d) =
     (if lc_receiver c = ClosingCommit then Some (end_batch e works i Closed (c, d)) else None)"

fun log_run :: "int \<Rightarrow> log_event list \<Rightarrow> log_conn \<times> db \<Rightarrow> (log_conn \<times> db) option" where
  "log_run i [] st = Some st"
| "log_run i (ev # evs) st = Option.bind (log_step i ev st) (log_run i evs)"

section \<open>The registry implements a relation\<close>

definition reg_ok :: "registry \<Rightarrow> bool" where
  "reg_ok m \<longleftrightarrow> (\<forall>i subs. m i = Some subs \<longrightarrow> subs \<noteq> [] \<and> distinct subs)"

definition subscriptions :: "registry \<Rightarrow> (int \<times> nat) set" where
  "subscriptions m = {(i, w). \<exists>subs. m i = Some subs \<and> w \<in> set subs}"

lemma subscribe_abs:
  "reg_ok m \<Longrightarrow> reg_ok (subscribe i w m)"
  "subscriptions (subscribe i w m) = insert (i, w) (subscriptions m)"
  by (auto simp: reg_ok_def subscribe_def subscriptions_def List.insert_def split: option.splits if_splits)

lemma discard_ok: "reg_ok m \<Longrightarrow> reg_ok (discard i ws m)"
  by (auto simp: reg_ok_def discard_def Let_def split: option.split)

lemma discard_abs: "subscriptions (discard i ws m) = subscriptions m - {i} \<times> set ws"
proof (cases "m i")
  case (Some subs)
  let ?left = "filter (\<lambda>w. w \<notin> set ws) subs"
  have m: "(discard i ws m) j = (if j = i then (if ?left = [] then None else Some ?left) else m j)" for j
    by (simp add: discard_def Some Let_def)
  have "(j, w) \<in> subscriptions (discard i ws m) \<longleftrightarrow> (j, w) \<in> subscriptions m - {i} \<times> set ws" for j w
  proof (cases "j = i")
    case True
    have "w \<in> set ?left \<Longrightarrow> ?left \<noteq> []" by (metis list.set(1) empty_iff)
    with True show ?thesis
      by (auto simp: subscriptions_def m Some simp del: filter_empty_conv)
  qed (simp add: subscriptions_def m)
  then show ?thesis by auto
qed (auto simp: discard_def subscriptions_def)

text \<open>
  The interface the broadcast works on: sockets are added and discarded per server, and the
  targets of a server are the sockets subscribed to it.
\<close>

locale subscriber_registry =
  fixes ok :: "'m \<Rightarrow> bool"
    and abs_rel :: "'m \<Rightarrow> (int \<times> nat) set"
    and add :: "int \<Rightarrow> nat \<Rightarrow> 'm \<Rightarrow> 'm"
    and drop_all :: "int \<Rightarrow> nat list \<Rightarrow> 'm \<Rightarrow> 'm"
    and targets :: "int \<Rightarrow> 'm \<Rightarrow> nat list"
  assumes add_ok: "ok m \<Longrightarrow> ok (add i w m)"
    and add_abs: "ok m \<Longrightarrow> abs_rel (add i w m) = insert (i, w) (abs_rel m)"
    and drop_ok: "ok m \<Longrightarrow> ok (drop_all i ws m)"
    and drop_abs: "ok m \<Longrightarrow> abs_rel (drop_all i ws m) = abs_rel m - {i} \<times> set ws"
    and targets_abs: "ok m \<Longrightarrow> set (targets i m) = {w. (i, w) \<in> abs_rel m}"
    and targets_distinct: "ok m \<Longrightarrow> distinct (targets i m)"
begin

text \<open>
  A broadcast that took its snapshot in \<open>m\<close> and ends in \<open>m'\<close> reaches every socket subscribed
  at the snapshot that works, each once, and unsubscribes only sockets that failed.
\<close>

lemma broadcast_effect:
  assumes "ok m" and "ok m'" and "broadcast_sends send_ok (targets i m) = (reached, failed)"
  shows "set reached = {w. (i, w) \<in> abs_rel m \<and> send_ok w}" and "distinct reached"
    and "abs_rel (drop_all i failed m') = abs_rel m' - {(i, w) | w. (i, w) \<in> abs_rel m \<and> \<not> send_ok w}"
  using assms targets_abs [OF assms(1), of i] targets_distinct [OF assms(1), of i] drop_abs [OF assms(2)]
  by (auto simp: broadcast_sends_def)

end

lemma cleanup_is_discard: "reg_ok m \<Longrightarrow> broadcast_cleanup i ws m = discard i ws m"
proof -
  assume ok: "reg_ok m"
  have "discard i [] m = m"
    using ok by (auto simp: discard_def reg_ok_def Let_def map_upd_triv split: option.split)
  then show ?thesis by (simp add: broadcast_cleanup_def)
qed

lemma targets_facts:
  "set (broadcast_targets i m) = {w. (i, w) \<in> subscriptions m}"
  "reg_ok m \<Longrightarrow> distinct (broadcast_targets i m)"
  by (cases "m i"; auto simp: broadcast_targets_def subscriptions_def reg_ok_def)+

interpretation logs_manager: subscriber_registry reg_ok subscriptions subscribe broadcast_cleanup broadcast_targets
  by unfold_locales
    (simp_all add: subscribe_abs cleanup_is_discard discard_ok discard_abs targets_facts)

section \<open>The machine of an agent's connection\<close>

definition server_lines :: "int \<Rightarrow> db \<Rightarrow> string list" where
  "server_lines i d = map log_message (filter (\<lambda>l. log_server_id l = i) (rows (logs d)))"

definition in_flight :: "log_conn \<Rightarrow> string list" where
  "in_flight c = (case lc_batch c of None \<Rightarrow> [] | Some xs \<Rightarrow> xs)"

lemma in_flight_simps [simp]:
  "lc_batch c = None \<Longrightarrow> in_flight c = []" "lc_batch c = Some xs \<Longrightarrow> in_flight c = xs"
  by (simp_all add: in_flight_def)

lemma commit_batch_lines:
  assumes "commit_batch e w i xs d = Some d'"
  shows "server_lines i d' = server_lines i d @ xs" and "server_ids d' = server_ids d"
proof -
  have "map log_message (filter (\<lambda>l. log_server_id l = i) (new_rows (map (new_log e i) xs) n)) = xs" for n
    by (induction xs arbitrary: n) (simp_all add: new_log_def)
  then show "server_lines i d' = server_lines i d @ xs" and "server_ids d' = server_ids d"
    using assms by (auto simp: commit_batch_def server_lines_def server_ids_def split: if_splits)
qed

text \<open>The lock, the bound of the buffer, and where every line is.\<close>

definition conn_shape :: "log_conn \<Rightarrow> bool" where
  "conn_shape c \<longleftrightarrow> (lc_batch c \<noteq> None \<longleftrightarrow> lc_tick c \<or> lc_receiver c \<in> {Committing, ClosingCommit})
     \<and> (lc_tick c \<longrightarrow> lc_receiver c \<in> {Receiving, Broadcasting, WantsFlush})
     \<and> length (lc_buffer c) \<le> LOG_BATCH_MAX_SIZE
     \<and> (lc_receiver c \<in> {Receiving, Closing} \<longrightarrow> length (lc_buffer c) < LOG_BATCH_MAX_SIZE)
     \<and> (lc_receiver c \<in> {Committing, ClosingCommit, Closed} \<longrightarrow> lc_buffer c = [])"

definition conn_accounts :: "int \<Rightarrow> db \<Rightarrow> log_conn \<Rightarrow> db \<Rightarrow> bool" where
  "conn_accounts i d0 c d \<longleftrightarrow> (\<exists>new. server_lines i d = server_lines i d0 @ new
     \<and> subseq (new @ in_flight c @ lc_buffer c) (lc_received c)
     \<and> mset (lc_received c) = mset new + mset (lc_lost c) + mset (in_flight c) + mset (lc_buffer c))"

lemma end_batch_fields:
  assumes "end_batch e w i r (c, d) = (c', d')"
  shows "lc_receiver c' = r \<and> lc_buffer c' = lc_buffer c \<and> lc_batch c' = None \<and> \<not> lc_tick c'
    \<and> lc_received c' = lc_received c"
  using assms by (auto simp: end_batch_def Let_def split: option.splits)

lemma end_conn_cases:
  assumes "end_conn e w i (c, d) = (c', d')"
  obtains "lc_tick c" "end_batch e w i Closing (c, d) = (c', d')"
    | "\<not> lc_tick c" "c' = c\<lparr>lc_receiver := Closing\<rparr>" "d' = d"
  using assms by (auto simp: end_conn_def split: if_splits)

lemma end_conn_fields:
  assumes "end_conn e w i (c, d) = (c', d')"
  shows "lc_receiver c' = Closing \<and> lc_buffer c' = lc_buffer c \<and> (lc_tick c \<or> lc_batch c = None \<longrightarrow> lc_batch c' = None)
    \<and> \<not> lc_tick c' \<and> lc_received c' = lc_received c"
  using assms by (cases rule: end_conn_cases) (auto dest: end_batch_fields)

lemma take_batch_fields [simp]:
  "lc_receiver (take_batch t r c) = r" "lc_buffer (take_batch t r c) = []"
  "lc_batch (take_batch t r c) = Some (lc_buffer c)" "lc_tick (take_batch t r c) = t"
  "lc_received (take_batch t r c) = lc_received c" "lc_lost (take_batch t r c) = lc_lost c"
  "lc_expired (take_batch t r c) = lc_expired c"
  by (simp_all add: take_batch_def)

lemma shape_step:
  assumes "log_step i ev (c, d) = Some (c', d')" and "conn_shape c"
  shows "conn_shape c'"
proof (cases ev)
  case (FlushEnds e w)
  with assms show ?thesis
    by (auto simp: conn_shape_def LOG_BATCH_MAX_SIZE_def dest!: end_batch_fields split: if_splits)
next
  case (TickEnds e w)
  then have "lc_tick c" and "end_batch e w i (lc_receiver c) (c, d) = (c', d')"
    using assms(1) by (auto split: if_splits)
  with assms(2) end_batch_fields [OF this(2)] show ?thesis
    by (cases "lc_receiver c") (simp_all add: conn_shape_def)
next
  case (Disconnected e w)
  with assms show ?thesis
    by (auto simp: conn_shape_def dest!: end_conn_fields split: if_splits)
next
  case (LineRaises l e w)
  with assms show ?thesis
    by (auto simp: conn_shape_def dest!: end_conn_fields split: if_splits)
next
  case (LastFlushEnds e w)
  with assms show ?thesis
    by (auto simp: conn_shape_def LOG_BATCH_MAX_SIZE_def dest!: end_batch_fields split: if_splits)
next
  case TickBegins
  with assms show ?thesis
    by (cases "lc_receiver c") (auto simp: conn_shape_def LOG_BATCH_MAX_SIZE_def split: if_splits)
qed (use assms in \<open>auto simp: conn_shape_def LOG_BATCH_MAX_SIZE_def split: if_splits\<close>)

lemma end_batch_accounts:
  assumes "end_batch e w i r (c, d) = (c', d')" and "conn_accounts i d0 c d"
  shows "conn_accounts i d0 c' d'"
proof (cases "commit_batch e w i (in_flight c) d")
  case None
  obtain new where new: "server_lines i d = server_lines i d0 @ new"
    "subseq (new @ in_flight c @ lc_buffer c) (lc_received c)"
    "mset (lc_received c) = mset new + mset (lc_lost c) + mset (in_flight c) + mset (lc_buffer c)"
    using assms(2) by (auto simp: conn_accounts_def)
  have "subseq (new @ lc_buffer c) (new @ in_flight c @ lc_buffer c)"
    by (simp add: list_emb_append_mono list_emb_append2)
  then have "subseq (new @ lc_buffer c) (lc_received c)"
    using new(2) subseq_order.order_trans by blast
  moreover have "d' = d" "lc_lost c' = lc_lost c @ in_flight c"
    using assms(1) None by (auto simp: end_batch_def Let_def in_flight_def split: option.splits)
  ultimately show ?thesis
    using new end_batch_fields [OF assms(1)] by (auto simp: conn_accounts_def in_flight_def)
next
  case (Some d1)
  then have "d' = d1" "lc_lost c' = lc_lost c"
    using assms(1) by (auto simp: end_batch_def Let_def in_flight_def split: option.splits)
  with Some assms(2) end_batch_fields [OF assms(1)] show ?thesis
    by (auto simp: conn_accounts_def in_flight_def commit_batch_lines(1) [OF Some])
qed

lemma end_conn_accounts:
  assumes "end_conn e w i (c, d) = (c', d')" and "conn_accounts i d0 c d"
  shows "conn_accounts i d0 c' d'"
  using assms(1)
proof (cases rule: end_conn_cases)
  case 1
  from end_batch_accounts [OF 1(2) assms(2)] show ?thesis .
next
  case 2
  with assms(2) show ?thesis by (simp add: conn_accounts_def in_flight_def)
qed

text \<open>A line that is dropped on arrival.\<close>

lemma accounts_dropped:
  assumes "conn_accounts i d0 c d"
  shows "conn_accounts i d0 (c\<lparr>lc_received := lc_received c @ [l], lc_lost := lc_lost c @ [l]\<rparr>) d"
proof -
  obtain new where new: "server_lines i d = server_lines i d0 @ new"
    "subseq (new @ in_flight c @ lc_buffer c) (lc_received c)"
    "mset (lc_received c) = mset new + mset (lc_lost c) + mset (in_flight c) + mset (lc_buffer c)"
    using assms by (auto simp: conn_accounts_def)
  from new(2) have "subseq (new @ in_flight c @ lc_buffer c) (lc_received c @ [l])" by (rule list_emb_prefix)
  with new(1,3) show ?thesis unfolding conn_accounts_def in_flight_def by (intro exI [of _ new]) simp
qed

lemma accounts_step:
  assumes "log_step i ev (c, d) = Some (c', d')" and "conn_accounts i d0 c d" and "conn_shape c"
  shows "conn_accounts i d0 c' d'"
proof -
  show ?thesis
  proof (cases ev)
    case (Line l)
    then have c': "c' = c\<lparr>lc_receiver := Broadcasting, lc_buffer := lc_buffer c @ [l],
        lc_received := lc_received c @ [l]\<rparr>" "d' = d"
      using assms(1) by (auto split: if_splits)
    obtain new where new: "server_lines i d = server_lines i d0 @ new"
      "subseq (new @ in_flight c @ lc_buffer c) (lc_received c)"
      "mset (lc_received c) = mset new + mset (lc_lost c) + mset (in_flight c) + mset (lc_buffer c)"
      using assms(2) by (auto simp: conn_accounts_def)
    have "subseq ((new @ in_flight c @ lc_buffer c) @ [l]) (lc_received c @ [l])"
      using new(2) by (rule list_emb_append_mono) simp
    with new show ?thesis
      unfolding c' conn_accounts_def by (intro exI [of _ new]) (simp add: in_flight_def)
  next
    case (FlushEnds e w)
    with assms end_batch_accounts show ?thesis by (auto split: if_splits)
  next
    case (TickEnds e w)
    with assms end_batch_accounts show ?thesis by (auto split: if_splits)
  next
    case (Disconnected e w)
    with assms end_conn_accounts show ?thesis by (auto split: if_splits)
  next
    case (LineRaises l e w)
    then have "end_conn e w i (c\<lparr>lc_received := lc_received c @ [l], lc_lost := lc_lost c @ [l]\<rparr>, d) = (c', d')"
      using assms(1) by (auto split: if_splits)
    from end_conn_accounts [OF this accounts_dropped [OF assms(2)]] show ?thesis .
  next
    case (LastFlushEnds e w)
    with assms end_batch_accounts show ?thesis by (auto split: if_splits)
  next
    case LastFlushBegins
    with assms show ?thesis
      by (auto simp: conn_accounts_def conn_shape_def in_flight_def split: if_splits)
  qed (use assms in \<open>auto simp: conn_accounts_def in_flight_def split: if_splits\<close>)
qed

lemma run_facts:
  assumes "log_run i evs (c, d) = Some (c', d')" and "conn_shape c" and "conn_accounts i d0 c d"
  shows "conn_shape c' \<and> conn_accounts i d0 c' d'"
  using assms
proof (induction evs arbitrary: c d)
  case (Cons ev evs)
  then obtain c1 d1 where st: "log_step i ev (c, d) = Some (c1, d1)" and "log_run i evs (c1, d1) = Some (c', d')"
    by (auto simp: bind_eq_Some_conv)
  with Cons.IH shape_step [OF st] accounts_step [OF st] Cons.prems show ?case by blast
qed simp

lemma new_conn_facts: "conn_shape new_conn" "conn_accounts i d new_conn d"
  by (simp_all add: conn_shape_def conn_accounts_def new_conn_def LOG_BATCH_MAX_SIZE_def in_flight_def)

text \<open>What came in, and a run in which the database carries out every commit.\<close>

fun lines_of :: "log_event list \<Rightarrow> string list" where
  "lines_of [] = []"
| "lines_of (Line l # evs) = l # lines_of evs"
| "lines_of (LineRaises l e w # evs) = l # lines_of evs"
| "lines_of (_ # evs) = lines_of evs"

fun event_works :: "log_event \<Rightarrow> bool" where
  "event_works (FlushEnds e w) = w"
| "event_works (TickEnds e w) = w"
| "event_works (Disconnected e w) = w"
| "event_works (LineRaises l e w) = w"
| "event_works (LastFlushEnds e w) = w"
| "event_works _ = True"

lemma end_batch_works:
  assumes "end_batch e True i r (c, d) = (c', d')" and "i \<in> server_ids d"
  shows "lc_lost c' = lc_lost c \<and> lc_expired c' = lc_expired c \<and> i \<in> server_ids d'"
  using assms by (auto simp: end_batch_def commit_batch_def server_ids_def Let_def split: option.splits)

lemma end_conn_works:
  assumes "end_conn e True i (c, d) = (c', d')" and "i \<in> server_ids d"
  shows "lc_lost c' = lc_lost c \<and> lc_expired c' = lc_expired c \<and> i \<in> server_ids d'"
  using assms(1)
proof (cases rule: end_conn_cases)
  case 1
  from end_batch_works [OF 1(2) assms(2)] show ?thesis .
qed (use assms(2) in simp)

lemma step_works:
  assumes "log_step i ev (c, d) = Some (c', d')" and "event_works ev" and "i \<in> server_ids d" and "\<not> lc_expired c"
  shows "lc_lost c' = lc_lost c \<and> \<not> lc_expired c' \<and> i \<in> server_ids d'"
  using assms by (cases ev) (auto dest!: end_batch_works end_conn_works split: if_splits)

lemma step_received:
  assumes "log_step i ev (c, d) = Some (c', d')"
  shows "lc_received c' = lc_received c @ lines_of [ev]"
  using assms by (cases ev) (auto dest!: end_batch_fields end_conn_fields split: if_splits)

lemma lines_of_Cons: "lines_of (ev # evs) = lines_of [ev] @ lines_of evs"
  by (cases ev) simp_all

lemma run_received:
  assumes "log_run i evs (c, d) = Some (c', d')"
  shows "lc_received c' = lc_received c @ lines_of evs"
  using assms
proof (induction evs arbitrary: c d)
  case (Cons ev evs)
  then obtain c1 d1 where st: "log_step i ev (c, d) = Some (c1, d1)" and "log_run i evs (c1, d1) = Some (c', d')"
    by (auto simp: bind_eq_Some_conv)
  with Cons.IH step_received [OF st] show ?case by (subst lines_of_Cons) simp
qed simp

lemma run_works:
  assumes "log_run i evs (c, d) = Some (c', d')" and "list_all event_works evs" and "i \<in> server_ids d"
    and "\<not> lc_expired c"
  shows "lc_lost c' = lc_lost c"
  using assms
proof (induction evs arbitrary: c d)
  case (Cons ev evs)
  then obtain c1 d1 where st: "log_step i ev (c, d) = Some (c1, d1)" and "log_run i evs (c1, d1) = Some (c', d')"
    by (auto simp: bind_eq_Some_conv)
  with Cons.IH [of c1 d1] step_works [OF st] Cons.prems show ?case by auto
qed simp

text \<open>After a batch that failed.\<close>

lemma end_batch_expired:
  assumes "end_batch e w i r (c, d) = (c', d')" and "lc_expired c"
  shows "lc_expired c' \<and> set (lc_lost c) \<subseteq> set (lc_lost c') \<and> lc_receiver c' = r"
  using assms by (auto simp: end_batch_def Let_def split: option.splits)

lemma end_conn_expired:
  assumes "end_conn e w i (c, d) = (c', d')" and "lc_expired c"
  shows "lc_expired c' \<and> set (lc_lost c) \<subseteq> set (lc_lost c') \<and> lc_receiver c' = Closing"
  using assms(1)
proof (cases rule: end_conn_cases)
  case 1
  from end_batch_expired [OF 1(2) assms(2)] show ?thesis .
qed (use assms(2) in simp)

definition conn_over :: "log_conn \<Rightarrow> bool" where
  "conn_over c \<longleftrightarrow> lc_receiver c \<in> {Closing, ClosingCommit, Closed}"

lemma expired_step:
  assumes "log_step i ev (c, d) = Some (c', d')" and "lc_expired c"
  shows "lc_expired c' \<and> set (lc_lost c) \<subseteq> set (lc_lost c') \<and> set (lines_of [ev]) \<subseteq> set (lc_lost c')
    \<and> (conn_over c \<longrightarrow> conn_over c')
    \<and> (lines_of [ev] = [] \<or> \<not> conn_over c \<and> conn_over c' \<and> length (lines_of [ev]) = 1)"
proof (cases ev)
  case (FlushEnds e w)
  with assms have "lc_receiver c = Committing" "end_batch e w i Receiving (c, d) = (c', d')" by (auto split: if_splits)
  with FlushEnds end_batch_expired [OF this(2) assms(2)] show ?thesis by (simp add: conn_over_def)
next
  case (TickEnds e w)
  with assms have "end_batch e w i (lc_receiver c) (c, d) = (c', d')" by (auto split: if_splits)
  with TickEnds end_batch_expired [OF this assms(2)] show ?thesis by (simp add: conn_over_def)
next
  case (LastFlushEnds e w)
  with assms have "end_batch e w i Closed (c, d) = (c', d')" by (auto split: if_splits)
  with LastFlushEnds end_batch_expired [OF this assms(2)] show ?thesis by (simp add: conn_over_def)
next
  case (Disconnected e w)
  with assms have "end_conn e w i (c, d) = (c', d')" by (auto split: if_splits)
  with Disconnected end_conn_expired [OF this assms(2)] show ?thesis by (simp add: conn_over_def)
next
  case (LineRaises l e w)
  let ?c = "c\<lparr>lc_received := lc_received c @ [l], lc_lost := lc_lost c @ [l]\<rparr>"
  from LineRaises assms have "lc_receiver c = Receiving" "end_conn e w i (?c, d) = (c', d')" by (auto split: if_splits)
  with LineRaises end_conn_expired [OF this(2)] assms(2) show ?thesis by (simp add: conn_over_def)
qed (use assms in \<open>auto simp: conn_over_def split: if_splits\<close>)

lemma expired_run:
  assumes "log_run i evs (c, d) = Some (c', d')" and "lc_expired c"
  shows "length (lines_of evs) \<le> (if conn_over c then 0 else 1) \<and> set (lines_of evs) \<subseteq> set (lc_lost c')
    \<and> set (lc_lost c) \<subseteq> set (lc_lost c')"
  using assms
proof (induction evs arbitrary: c d)
  case (Cons ev evs)
  then obtain c1 d1 where st: "log_step i ev (c, d) = Some (c1, d1)" and run: "log_run i evs (c1, d1) = Some (c', d')"
    by (auto simp: bind_eq_Some_conv)
  note s = expired_step [OF st Cons.prems(2)]
  have rest: "length (lines_of evs) \<le> (if conn_over c1 then 0 else 1) \<and> set (lines_of evs) \<subseteq> set (lc_lost c')
    \<and> set (lc_lost c1) \<subseteq> set (lc_lost c')" by (rule Cons.IH [OF run]) (use s in blast)
  show ?case
    unfolding lines_of_Cons [of ev evs] using s rest
    by (elim conjE disjE) (simp_all split: if_splits, blast+)
qed simp

section \<open>Properties\<close>

text \<open>The registry of log subscribers implements a relation between servers and sockets.
  Subscribing adds one pair, unsubscribing removes one, and a broadcast reaches each socket
  subscribed at its snapshot that works exactly once, and removes exactly the pairs of the sockets
  that failed, from whatever the registry has become meanwhile; entries stay free of repetitions
  and no server keeps an empty entry.\<close>

theorem registry_refines_relation:
  assumes "reg_ok m" and "reg_ok m'" and "broadcast_sends send_ok (broadcast_targets i m) = (reached, failed)"
  shows "reg_ok (subscribe i w m) \<and> subscriptions (subscribe i w m) = insert (i, w) (subscriptions m)
    \<and> reg_ok (unsubscribe i w m) \<and> subscriptions (unsubscribe i w m) = subscriptions m - {(i, w)}
    \<and> distinct reached \<and> set reached = {v. (i, v) \<in> subscriptions m \<and> send_ok v}
    \<and> reg_ok (broadcast_cleanup i failed m')
    \<and> subscriptions (broadcast_cleanup i failed m') =
        subscriptions m' - {(j, v). j = i \<and> (i, v) \<in> subscriptions m \<and> \<not> send_ok v}"
proof -
  note b = logs_manager.broadcast_effect [OF assms]
  have "{(i, v) |v. (i, v) \<in> subscriptions m \<and> \<not> send_ok v} =
      {(j, v). j = i \<and> (i, v) \<in> subscriptions m \<and> \<not> send_ok v}" by auto
  with b show ?thesis
    using logs_manager.add_ok [OF assms(1)] logs_manager.add_abs [OF assms(1)]
      logs_manager.drop_ok [OF assms(2)] discard_ok [OF assms(1)] discard_abs [of i "[w]" m]
    by (simp add: unsubscribe_def)
qed

theorem registry_witness:
  "subscriptions (broadcast_cleanup 1 (snd (broadcast_sends (\<lambda>v. v \<noteq> 7) (broadcast_targets 1 [1 \<mapsto> [7, 8]])))
     [1 \<mapsto> [7, 8, 9]]) = {(1, 8), (1, 9)}"
proof -
  have ok: "reg_ok [1 \<mapsto> [7, 8]]" "reg_ok [1 \<mapsto> [7, 8, 9]]" by (simp_all add: reg_ok_def)
  have "subscriptions [1 \<mapsto> [7, 8]] = {(1, 7), (1, 8)}" "subscriptions [1 \<mapsto> [7, 8, 9]] = {(1, 7), (1, 8), (1, 9)}"
    by (auto simp: subscriptions_def split: if_splits)
  then show ?thesis
    using registry_refines_relation [OF ok prod.collapse [symmetric],
      where send_ok = "\<lambda>v. v \<noteq> 7" and i = 1]
    by auto
qed

text \<open>C23: no log line is duplicated, invented or reordered. In every run of an agent's connection,
  with periodic and size-triggered flushes interleaved in any way, commits that fail and a
  disconnect at any moment, the buffer never exceeds its limit; the lines stored for the server,
  then those being committed, then the buffer are a subsequence of the lines received; and every
  received line is stored, lost with a failed batch, being committed or buffered, exactly once.\<close>

theorem log_lines_accounted:
  assumes "log_run i evs (new_conn, d) = Some (c, d')"
  shows "lc_received c = lines_of evs \<and> length (lc_buffer c) \<le> LOG_BATCH_MAX_SIZE
    \<and> (\<exists>new. server_lines i d' = server_lines i d @ new
        \<and> subseq (new @ in_flight c @ lc_buffer c) (lines_of evs)
        \<and> mset (lines_of evs) = mset new + mset (lc_lost c) + mset (in_flight c) + mset (lc_buffer c))"
  using run_facts [OF assms new_conn_facts] run_received [OF assms]
  by (simp add: conn_shape_def conn_accounts_def) (simp add: new_conn_def)

text \<open>C24: when the server exists and the database carries out every commit, a connection that has
  closed has stored exactly the lines the agent sent, in their order.\<close>

theorem closed_connection_stored_all:
  assumes "log_run i evs (new_conn, d) = Some (c, d')" and "lc_receiver c = Closed"
    and "list_all event_works evs" and "i \<in> server_ids d"
  shows "server_lines i d' = server_lines i d @ lines_of evs"
proof -
  obtain new where new: "server_lines i d' = server_lines i d @ new"
    "subseq (new @ in_flight c @ lc_buffer c) (lc_received c)"
    "mset (lc_received c) = mset new + mset (lc_lost c) + mset (in_flight c) + mset (lc_buffer c)"
    and shape: "conn_shape c"
    using run_facts [OF assms(1) new_conn_facts] by (auto simp: conn_accounts_def)
  have "lc_buffer c = []" "in_flight c = []"
    using shape assms(2) by (auto simp: conn_shape_def in_flight_def)
  moreover have "lc_lost c = []"
    using run_works [OF assms(1,3,4)] by (simp add: new_conn_def)
  ultimately have "subseq new (lc_received c)" and "mset (lc_received c) = mset new"
    using new by simp_all
  then have "new = lc_received c"
    by (metis mset_eq_length subseq_same_length)
  with new(1) run_received [OF assms(1)] show ?thesis by (simp add: new_conn_def)
qed

definition demo_log_events :: "log_event list" where
  "demo_log_events = [Line ''a'', TickBegins, BroadcastDone, Line ''b'', BroadcastDone, TickEnds (env_at 1) True,
     Disconnected (env_at 2) True, LastFlushBegins, LastFlushEnds (env_at 2) True]"

lemma demo_log_run:
  "\<exists>c d. log_run 1 demo_log_events (new_conn, demo_db) = Some (c, d) \<and> lc_receiver c = Closed"
  by (simp add: demo_log_events_def new_conn_def LOG_BATCH_MAX_SIZE_def take_batch_def end_batch_def
      end_conn_def commit_batch_def server_ids_def demo_server_def)

theorem log_lines_witness:
  "\<exists>c d. log_run 1 demo_log_events (new_conn, demo_db) = Some (c, d) \<and> lc_received c = [''a'', ''b'']"
proof -
  obtain c d where r: "log_run 1 demo_log_events (new_conn, demo_db) = Some (c, d)"
    using demo_log_run by blast
  from log_lines_accounted [OF r] r show ?thesis by (simp add: demo_log_events_def)
qed

theorem closed_connection_witness:
  "\<exists>c d. log_run 1 demo_log_events (new_conn, demo_db) = Some (c, d) \<and> server_lines 1 d = [''a'', ''b'']"
proof -
  obtain c d where r: "log_run 1 demo_log_events (new_conn, demo_db) = Some (c, d)" and "lc_receiver c = Closed"
    using demo_log_run by blast
  moreover have "list_all event_works demo_log_events" "1 \<in> server_ids demo_db"
    by (simp_all add: demo_log_events_def server_ids_def demo_server_def)
  ultimately have "server_lines 1 d = server_lines 1 demo_db @ lines_of demo_log_events"
    by (rule closed_connection_stored_all)
  with r show ?thesis by (simp add: demo_log_events_def server_lines_def empty_table_def)
qed

text \<open>One batch that fails ends the stream. The failed commit is meant to be tolerated (it is
  logged and the loop goes on), but its rollback expires the row of the server, so that the next
  line of the agent raises: at most one more line is received on that connection, and it is lost.\<close>

theorem failed_batch_ends_stream:
  assumes "log_run i evs (new_conn, d) = Some (c, d1)" and "ev = FlushEnds e works \<or> ev = TickEnds e works"
    and "\<not> (works \<and> i \<in> server_ids d1)" and "log_run i (ev # evs') (c, d1) = Some (c', d')"
  shows "length (lines_of evs') \<le> 1 \<and> set (lines_of evs') \<subseteq> set (lc_lost c') \<and> set (in_flight c) \<subseteq> set (lc_lost c')"
proof -
  obtain r c2 d2 where c2: "end_batch e works i r (c, d1) = (c2, d2)" and run: "log_run i evs' (c2, d2) = Some (c', d')"
    using assms(2,4) by (auto simp: bind_eq_Some_conv split: if_splits)
  from c2 assms(3) have "lc_expired c2" "set (in_flight c) \<subseteq> set (lc_lost c2)"
    by (auto simp: end_batch_def commit_batch_def in_flight_def Let_def split: if_splits)
  with expired_run [OF run] show ?thesis by (auto split: if_splits)
qed

theorem failed_batch_witness:
  "\<exists>c d c' d'. log_run 1 [Line ''a'', BroadcastDone, TickBegins] (new_conn, demo_db) = Some (c, d)
    \<and> log_run 1 [TickEnds (env_at 1) False, LineRaises ''b'' (env_at 2) True] (c, d) = Some (c', d')
    \<and> {''a'', ''b''} \<subseteq> set (lc_lost c')"
proof -
  obtain c d where r: "log_run 1 [Line ''a'', BroadcastDone, TickBegins] (new_conn, demo_db) = Some (c, d)"
    and a: "in_flight c = [''a'']"
    by (simp add: new_conn_def LOG_BATCH_MAX_SIZE_def take_batch_def in_flight_def)
  from r obtain c' d' where r': "log_run 1 (TickEnds (env_at 1) False # [LineRaises ''b'' (env_at 2) True]) (c, d) = Some (c', d')"
    by (auto simp: new_conn_def LOG_BATCH_MAX_SIZE_def take_batch_def end_batch_def commit_batch_def end_conn_def)
  from failed_batch_ends_stream [OF r disjI2 [OF refl] _ r'] a have "{''a'', ''b''} \<subseteq> set (lc_lost c')" by simp
  with r r' show ?thesis by blast
qed

end
