(* ===== verification/PW_System.thy ===== *)
theory PW_System
  imports PW_Auth PW_Resolver PW_Aggregation PW_Heartbeat PW_Notifications PW_AlertRules PW_Servers
    PW_Dialogue PW_LogStream
begin

text \<open>
  The whole service as one system: every operation that writes, with the gate of its endpoint,
  as a step of one state, and what holds in every state it reaches. Each handler is one step.
\<close>

section \<open>The tables of aggregates\<close>

definition aggs :: "db \<Rightarrow> metric_aggregate table \<times> docker_aggregate table" where
  "aggs d = (metric_aggregates d, docker_aggregates d)"

lemma aggs_unique: "aggs d' = aggs d \<Longrightarrow> aggregates_unique d \<Longrightarrow> aggregates_unique d'"
  by (simp add: aggs_def aggregates_unique_def)

lemma aggs_writes [simp]:
  "aggs (d\<lparr>users := t1\<rparr>) = aggs d" "aggs (d\<lparr>servers := t2\<rparr>) = aggs d" "aggs (d\<lparr>metrics := t3\<rparr>) = aggs d"
  "aggs (d\<lparr>docker_metrics := t4\<rparr>) = aggs d" "aggs (d\<lparr>alert_rules := t5\<rparr>) = aggs d"
  "aggs (d\<lparr>alert_events := t6\<rparr>) = aggs d" "aggs (d\<lparr>audit_logs := t7\<rparr>) = aggs d" "aggs (d\<lparr>logs := t8\<rparr>) = aggs d"
  by (simp_all add: aggs_def)

lemma aggs_helpers [simp]:
  "aggs (set_user i f d) = aggs d" "aggs (set_server i g d) = aggs d" "aggs (set_key_hash i h d) = aggs d"
  "aggs (record_audit e ac u rt ri rq m d) = aggs d" "aggs (set_rule i k d) = aggs d" "aggs (delete_rule i d) = aggs d"
  "aggs (rule_audit e rac v i rm d) = aggs d"
  by (simp_all add: set_user_def set_server_def set_key_hash_def record_audit_def set_rule_def delete_rule_def
      rule_audit_def)

lemma aggs_evaluate [simp]:
  "aggs (app_db (snd (evaluate_system_metrics e i x a))) = aggs (app_db a)"
  "aggs (app_db (snd (evaluate_docker_metrics e i y a))) = aggs (app_db a)"
  by (simp_all add: evaluate_system_metrics_def evaluate_docker_metrics_def evaluate_rules_def Let_def)

lemma aggs_evaluate_items [simp]: "aggs (app_db (snd (evaluate_items e i items a))) = aggs (app_db a)"
proof (induction items arbitrary: a)
  case (Cons item items)
  obtain r a1 where ev: "evaluate_docker_metrics e i (docker_data_of item) a = (r, a1)" by force
  with aggs_evaluate(2) [of e i "docker_data_of item" a] have "aggs (app_db a1) = aggs (app_db a)" by simp
  with Cons [of a1] ev show ?case by (cases r) simp_all
qed simp

lemma aggs_accounts [simp]:
  "aggs (app_db (snd (register_user C e salt email password a))) = aggs (app_db a)"
  "aggs (app_db (snd (login S C R e jti name pw code a))) = aggs (app_db a)"
  "aggs (app_db (snd (refresh_tokens S C R e jti token a))) = aggs (app_db a)"
  "aggs (app_db (snd (logout C R e token a))) = aggs (app_db a)"
  "aggs (app_db (snd (forgot_password S R e token email a))) = aggs (app_db a)"
  "aggs (app_db (snd (reset_password C R e salt token pw a))) = aggs (app_db a)"
  by (auto simp: register_user_def register_commit_def login_def refresh_tokens_def logout_def forgot_password_def
      reset_password_def Let_def split: sum.splits option.splits prod.splits if_splits detail.splits)

lemma aggs_profile [simp]:
  "aggs (app_db (snd (commit_user f u a))) = aggs (app_db a)"
  "aggs (app_db (snd (link_telegram v u a))) = aggs (app_db a)"
  "aggs (app_db (snd (toggle_email_alerts b u a))) = aggs (app_db a)"
  "aggs (app_db (snd (setup_totp secret u a))) = aggs (app_db a)"
  "aggs (app_db (snd (enable_totp C e totp u a))) = aggs (app_db a)"
  "aggs (app_db (snd (disable_totp C pw u a))) = aggs (app_db a)"
  "aggs (app_db (snd (create_telegram_link_code S R e code u a))) = aggs (app_db a)"
  by (auto simp: commit_user_def link_telegram_def toggle_email_alerts_def setup_totp_def enable_totp_def
      disable_totp_def create_telegram_link_code_def Let_def split: sum.splits option.splits)

lemma aggs_rules [simp]:
  "aggs (app_db (snd (create_alert_rule e data u a))) = aggs (app_db a)"
  "aggs (app_db (snd (update_alert_rule e i upd u a))) = aggs (app_db a)"
  "aggs (app_db (snd (delete_alert_rule e i u a))) = aggs (app_db a)"
  by (auto simp: create_alert_rule_def update_alert_rule_def delete_alert_rule_def Let_def
      split: sum.splits option.splits prod.splits if_splits)

lemma aggs_servers [simp]:
  "aggs (app_db (snd (register_server C e salt secret name u a))) = aggs (app_db a)"
  "aggs (app_db (snd (rotate_api_key C e salt secret i u a))) = aggs (app_db a)"
  "aggs (app_db (snd (submit_metric e data srv a))) = aggs (app_db a)"
  "aggs (app_db (snd (submit_docker_metrics e items srv a))) = aggs (app_db a)"
  by (auto simp: register_server_def rotate_api_key_def submit_metric_def submit_docker_metrics_def publish_after_def
      Let_def split_beta split: sum.splits option.splits if_splits)

lemma aggs_jobs [simp]:
  "aggs (app_db (snd (run_heartbeat_check e a))) = aggs (app_db a)"
  "aggs (prune_old_logs S e d) = aggs d"
  by (auto simp: run_heartbeat_check_def prune_old_logs_def Let_def split_beta)

lemma aggs_resolve [simp]: "aggs (snd (task_resolve_alerts e other d)) = aggs d"
proof -
  have c: "aggs (close_events now ids d) = aggs d" for now ids d by (simp add: close_events_def)
  have "aggs (snd (auto_resolve_system_alerts e other d)) = aggs d"
    "aggs (snd (auto_resolve_docker_alerts e other d)) = aggs d" for d
    by (auto simp: auto_resolve_system_alerts_def auto_resolve_docker_alerts_def Let_def c split: sum.split)
  then show ?thesis
    by (auto simp: task_resolve_alerts_def split: sum.split prod.split dest!: arg_cong [where f = "\<lambda>p. aggs (snd p)"])
qed

section \<open>The constraints of the store\<close>

definition store_ok :: "db \<Rightarrow> bool" where
  "store_ok d \<longleftrightarrow> db_ok d \<and> aggregates_unique d"

lemma store_okI: "db_ok d' \<Longrightarrow> aggs d' = aggs d \<Longrightarrow> store_ok d \<Longrightarrow> store_ok d'"
  using aggs_unique by (auto simp: store_ok_def)

text \<open>Aggregation writes rows of the server it is asked about, at most one per key.\<close>

lemma upsert_ma_ok:
  assumes "store_ok d" and "sid \<in> server_ids d" and "\<And>i. ma_id (mk i) = i \<and> ma_server_id (mk i) = sid"
  shows "store_ok (d\<lparr>metric_aggregates := upsert ma_key merge_metric_aggregate now mk (metric_aggregates d)\<rparr>)"
proof -
  let ?t = "upsert ma_key merge_metric_aggregate now mk (metric_aggregates d)"
  have d: "db_ok d" "distinct (map ma_key (rows (metric_aggregates d)))" "distinct (map da_key (rows (docker_aggregates d)))"
    using assms(1) by (simp_all add: store_ok_def aggregates_unique_def)
  have "ma_server_id ` set (rows ?t) \<subseteq> server_ids d"
    using ma.upsert_image [of ma_server_id now mk "metric_aggregates d"] assms(2,3) db_ok_fk(4) [OF d(1)]
    by (auto simp: merge_metric_aggregate_def)
  moreover have "keyed ma_id ?t"
    by (rule ma.upsert_keyed [OF db_ok_keyed(5) [OF d(1)]]) (use assms(3) in blast)
  moreover have "distinct (map ma_key (rows ?t))" using ma.upsert_unique [OF d(2)] .
  ultimately show ?thesis
    using d db_ok_metric_aggregates [OF d(1)] by (simp add: store_ok_def aggregates_unique_def)
qed

lemma upsert_da_ok:
  assumes "store_ok d" and "sid \<in> server_ids d" and "\<And>i. da_id (mk i) = i \<and> da_server_id (mk i) = sid"
  shows "store_ok (d\<lparr>docker_aggregates := upsert da_key merge_docker_aggregate now mk (docker_aggregates d)\<rparr>)"
proof -
  let ?t = "upsert da_key merge_docker_aggregate now mk (docker_aggregates d)"
  have d: "db_ok d" "distinct (map ma_key (rows (metric_aggregates d)))" "distinct (map da_key (rows (docker_aggregates d)))"
    using assms(1) by (simp_all add: store_ok_def aggregates_unique_def)
  have "da_server_id ` set (rows ?t) \<subseteq> server_ids d"
    using da.upsert_image [of da_server_id now mk "docker_aggregates d"] assms(2,3) db_ok_fk(5) [OF d(1)]
    by (auto simp: merge_docker_aggregate_def)
  moreover have "keyed da_id ?t"
    by (rule da.upsert_keyed [OF db_ok_keyed(6) [OF d(1)]]) (use assms(3) in blast)
  moreover have "distinct (map da_key (rows ?t))" using da.upsert_unique [OF d(3)] .
  ultimately show ?thesis
    using d db_ok_docker_aggregates [OF d(1)] by (simp add: store_ok_def aggregates_unique_def)
qed

text \<open>A table of the store in which the servers are still the same.\<close>

definition kept :: "db \<Rightarrow> db \<Rightarrow> bool" where
  "kept d d' \<longleftrightarrow> store_ok d' \<and> server_ids d' = server_ids d"

lemma aggregate_system_kept:
  assumes "store_ok d" and "sid \<in> server_ids d"
  shows "kept d (snd (aggregate_system_metrics avg e sid pt ps pe d))"
proof -
  have "server_ids (d\<lparr>metric_aggregates := t\<rparr>) = server_ids d" for t by (simp add: server_ids_def)
  with assms show ?thesis
    by (auto simp: aggregate_system_metrics_def kept_def Let_def intro!: upsert_ma_ok
        split: sum.split prod.split)
qed

lemma aggregate_container_kept:
  assumes "aggregate_container avg e sid pt ps pe c d = Inr (x, d')" and "store_ok d" and "sid \<in> server_ids d"
  shows "kept d d'"
proof -
  have "server_ids (d\<lparr>docker_aggregates := t\<rparr>) = server_ids d" for t by (simp add: server_ids_def)
  with assms show ?thesis
    by (auto simp: aggregate_container_def kept_def Let_def intro!: upsert_da_ok
        split: sum.splits prod.splits if_splits list.splits)
qed

lemma aggregate_containers_kept:
  assumes "aggregate_containers avg e sid pt ps pe cs d = Inr (xs, d')" and "store_ok d" and "sid \<in> server_ids d"
  shows "kept d d'"
  using assms
proof (induction cs arbitrary: d xs)
  case (Cons c cs)
  then obtain x d1 ys where c: "aggregate_container avg e sid pt ps pe c d = Inr (x, d1)"
    and rest: "aggregate_containers avg e sid pt ps pe cs d1 = Inr (ys, d')"
    by (auto split: sum.splits prod.splits)
  from aggregate_container_kept [OF c Cons.prems(2,3)] Cons.IH [OF rest] Cons.prems(3) show ?case
    by (simp add: kept_def)
qed (simp add: kept_def)

lemma aggregate_docker_kept:
  assumes "store_ok d" and "sid \<in> server_ids d"
  shows "kept d (snd (aggregate_docker_metrics avg e sid pt ps pe d))"
proof -
  have "kept d d" using assms(1) by (simp add: kept_def)
  with assms show ?thesis
    by (auto simp: aggregate_docker_metrics_def Let_def dest: aggregate_containers_kept split: sum.split prod.split)
qed

lemma aggregate_server_kept:
  assumes "store_ok (snd st)" and "sid \<in> server_ids (snd st)"
  shows "kept (snd st) (snd (aggregate_server avg e pt ps pe sid st))"
proof -
  let ?d = "snd st" and ?p = "aggregate_system_metrics avg e sid pt ps pe (snd st)"
  have s: "kept ?d (snd ?p)" by (rule aggregate_system_kept [OF assms])
  then have "kept (snd ?p) (snd (aggregate_docker_metrics avg e sid pt ps pe (snd ?p)))"
    using aggregate_docker_kept assms(2) by (simp add: kept_def)
  with s assms show ?thesis
    by (cases st) (auto simp: aggregate_server_def kept_def split: sum.split prod.split)
qed

lemma aggregate_fold_kept:
  assumes "store_ok (snd st)" and "set sids \<subseteq> server_ids (snd st)"
  shows "kept (snd st) (snd (fold (aggregate_server avg e pt ps pe) sids st))"
  using assms
proof (induction sids arbitrary: st)
  case (Cons sid sids)
  from Cons.prems have "kept (snd st) (snd (aggregate_server avg e pt ps pe sid st))"
    by (intro aggregate_server_kept) auto
  with Cons.IH [of "aggregate_server avg e pt ps pe sid st"] Cons.prems show ?case by (simp add: kept_def)
qed (simp add: kept_def)

lemma task_aggregate_ok: "store_ok d \<Longrightarrow> store_ok (task_aggregate avg e pt d)"
  using aggregate_fold_kept [of "(False, d)" "map srv_id (rows (servers d))"]
  by (simp add: task_aggregate_def aggregate_all_servers_def kept_def server_ids_def Let_def)

text \<open>The bot.\<close>

lemma delete_server_store: "store_ok d \<Longrightarrow> store_ok (delete_server i d)"
proof -
  have "aggregates_unique d \<Longrightarrow> aggregates_unique (delete_server i d)"
    by (simp add: aggregates_unique_def delete_server_def delete_where_def distinct_map_filter)
  then show "store_ok d \<Longrightarrow> store_ok (delete_server i d)" by (simp add: store_ok_def delete_server_ok)
qed

lemma update_servers_ok:
  assumes "store_ok d" and "\<And>s. srv_id (f s) = srv_id s" and "\<And>s. srv_owner_id (f s) = srv_owner_id s"
    and "\<And>s. srv_name (f s) = srv_name s"
  shows "store_ok (d\<lparr>servers := update_where P f (servers d)\<rparr>)"
proof -
  have d: "db_ok d" using assms(1) by (simp add: store_ok_def)
  have "db_ok (d\<lparr>servers := update_where P f (servers d)\<rparr>)"
    by (rule db_ok_servers)
      (use d db_ok_keyed [OF d] db_ok_unique [OF d] db_ok_fk [OF d] assms(2-) in
        \<open>auto simp: map_update_where image_update_where server_ids_def keyed_update\<close>)
  then show ?thesis by (rule store_okI [OF _ _ assms(1)]) simp
qed

lemma update_rules_ok:
  assumes "store_ok d" and "\<And>r. rule_id (f r) = rule_id r" and "\<And>r. rule_server_id (f r) = rule_server_id r"
    and "\<And>r. rule_owner_id (f r) = rule_owner_id r"
  shows "store_ok (d\<lparr>alert_rules := update_where P f (alert_rules d)\<rparr>)"
proof -
  have d: "db_ok d" using assms(1) by (simp add: store_ok_def)
  have "db_ok (d\<lparr>alert_rules := update_where P f (alert_rules d)\<rparr>)"
    by (rule db_ok_alert_rules)
      (use d db_ok_keyed [OF d] db_ok_fk [OF d] assms(2-) in
        \<open>auto simp: image_update_where rule_ids_def keyed_update\<close>)
  then show ?thesis by (rule store_okI [OF _ _ assms(1)]) simp
qed

lemma link_user_ok: "link_user i chat d = (r, d') \<Longrightarrow> store_ok d \<Longrightarrow> store_ok d'"
proof -
  assume link: "link_user i chat d = (r, d')" and ok: "store_ok d"
  let ?t = "update_where (\<lambda>u. usr_id u = i) (\<lambda>u. u\<lparr>usr_telegram_chat_id := Some (str_int chat)\<rparr>) (users d)"
  have d: "db_ok d" using ok by (simp add: store_ok_def)
  have "db_ok (d\<lparr>users := ?t\<rparr>)"
    by (rule db_ok_users)
      (use d db_ok_keyed [OF d] db_ok_unique [OF d] in
        \<open>auto simp: map_update_where image_update_where user_ids_def keyed_update\<close>)
  then have "store_ok (d\<lparr>users := ?t\<rparr>)" by (rule store_okI [OF _ _ ok]) simp
  with link ok show ?thesis by (auto simp: link_user_def Let_def split: if_splits)
qed

lemma insert_draft_ok:
  assumes "insert_draft_rule e u x d = (r, d')" and "store_ok d" and "u \<in> set (rows (users d))"
  shows "store_ok d'"
proof (cases "d' = d")
  case False
  with assms(1) obtain mk where mk: "draft_rule e u x = Inr mk" and d': "d' = d\<lparr>alert_rules := insert_row mk (alert_rules d)\<rparr>"
    and s: "rule_server_id (mk (seq (alert_rules d))) \<in> server_ids d"
    by (auto simp: insert_draft_rule_def Let_def split: sum.splits if_splits)
  have ids: "rule_id (mk i) = i \<and> rule_owner_id (mk i) = usr_id u" for i
    using mk by (auto simp: draft_rule_def split: option.splits)
  have d: "db_ok d" using assms(2) by (simp add: store_ok_def)
  have "db_ok d'"
    unfolding d'
    by (rule db_ok_alert_rules)
      (use d db_ok_keyed(7) [OF d] db_ok_fk [OF d] s ids assms(3) in \<open>auto simp: rule_ids_def user_ids_def keyed_insert\<close>)
  then show ?thesis by (rule store_okI [OF _ _ assms(2)]) (simp add: d')
qed (use assms(2) in simp)

lemma process_draft_ok:
  assumes "store_ok (app_db a)" and "u \<in> set (rows (users (app_db a)))"
  shows "store_ok (app_db (snd (process_rule_draft R dumps e chat u t dr a)))"
proof -
  define own where "own = (\<lambda>i. fetch_by_id srv_id i (\<lambda>s. srv_owner_id s = usr_id u) (servers (app_db a)))"
  have ins: "store_ok d'" if "insert_draft_rule e u x (app_db a) = (r, d')" for x r d'
    using insert_draft_ok [OF that assms] .
  show ?thesis
    unfolding process_rule_draft_def own_def [symmetric] Let_def
    using assms(1) by (cases "dialogue_step own dr t") (auto split: prod.split sum.split dest: ins)
qed

lemma handle_command_ok:
  assumes "store_ok (app_db a)"
  shows "store_ok (app_db (snd (handle_command R dumps e chat u t a)))"
proof -
  have "store_ok (app_db (snd (handle_toggle e u t a)))"
    using assms by (auto simp: handle_toggle_def intro!: update_rules_ok split: option.split sum.split)
  moreover have "store_ok (app_db (snd (handle_delete R e chat u t a)))"
    using assms by (auto simp: handle_delete_def Let_def intro!: delete_server_store
        split: option.split sum.split prod.split bool.split)
  moreover have "store_ok (app_db (snd (set_server_paused u m v a)))" for m v
    using assms by (auto simp: set_server_paused_def intro!: update_servers_ok split: option.split sum.split)
  ultimately show ?thesis
    using assms by (simp add: handle_command_def handle_pause_def handle_resume_def del: startswith.simps)
qed

lemma handle_message_ok:
  assumes "store_ok (app_db a)"
  shows "store_ok (app_db (snd (handle_message R dumps loads e msg a)))"
proof -
  have start: "store_ok (app_db (snd (handle_start R e chat t a)))" for chat t
    using assms by (auto simp: handle_start_def Let_def dest: link_user_ok split: option.split sum.split prod.split)
  have linked: "store_ok (app_db (snd (handle_linked R dumps loads e chat u t a)))"
    if "u \<in> set (rows (users (app_db a)))" for chat u t
    using assms process_draft_ok [OF assms that] handle_command_ok [of "drop_draft R loads e chat a"]
    by (auto simp: handle_linked_def split_beta simp del: startswith.simps split: option.split)
  have row: "u \<in> set (rows (users (app_db a)))" if "find_user_by_chat_id chat (app_db a) = Inr (Some u)" for chat u
    using find_user_row [OF that] by blast
  show ?thesis
  proof (cases "msg_chat_id msg")
    case (Some chat)
    then show ?thesis
      using assms start linked row unfolding handle_message_def Let_def
      by (cases "find_user_by_chat_id chat (app_db a)")
        (auto simp del: startswith.simps split: option.split)
  qed (use assms in \<open>simp add: handle_message_def\<close>)
qed

text \<open>A batch of log lines.\<close>

lemma commit_batch_ok: "commit_batch e w i lines d = Some d' \<Longrightarrow> store_ok d \<Longrightarrow> store_ok d'"
proof -
  assume c: "commit_batch e w i lines d = Some d'" and ok: "store_ok d"
  let ?t = "insert_all (map (new_log e i) lines) (logs d)"
  from c have d': "d' = d\<lparr>logs := ?t\<rparr>" and i: "i \<in> server_ids d" by (auto simp: commit_batch_def split: if_splits)
  have d: "db_ok d" using ok by (simp add: store_ok_def)
  have "db_ok (d\<lparr>logs := ?t\<rparr>)"
    by (intro db_ok_logs keyed_insert_all d db_ok_keyed(10) [OF d])
      (use db_ok_fk(10) [OF d] i in \<open>auto simp: new_log_def dest!: new_rows_from\<close>)
  then show ?thesis unfolding d' by (rule store_okI [OF _ _ ok]) simp
qed

section \<open>The system\<close>

text \<open>What the service is built on, and the operations that write, with their arguments.\<close>

record 'r services =
  sv_settings :: settings
  sv_crypto :: crypto
  sv_redis :: "'r redis"
  sv_avg :: sql_avg
  sv_dump_draft :: "draft \<Rightarrow> string"
  sv_load_draft :: "string \<Rightarrow> draft"
  sv_dump_dashboard :: "dashboard_entry list \<Rightarrow> string"
  sv_load_dashboard :: "string \<Rightarrow> dashboard_entry list option"

datatype user_request =
    LinkTelegram "string option"
  | TelegramCode string
  | ToggleEmail bool
  | SetupTotp string
  | EnableTotp string
  | DisableTotp string
  | RegisterServer string string string
  | RotateKey string string int
  | Dashboard bool
  | CreateRule rule_create
  | UpdateRule int rule_update
  | DeleteRule int

datatype operation =
    Register string string string
  | Login string string string "string option"
  | Refresh string string
  | Logout string
  | Forgot string string
  | Reset string string string
  | AsUser string user_request
  | Upload "string option" metric_create
  | DockerUpload "string option" "docker_item list"
  | LogBatch int "string list" bool
  | Heartbeat
  | Resolve "string \<Rightarrow> bool"
  | Aggregate period_type
  | PruneLogs
  | BotMessage message

fun serve_user :: "'r services \<Rightarrow> env \<Rightarrow> user \<Rightarrow> user_request \<Rightarrow> 'r app \<Rightarrow> 'r app" where
  "serve_user P e u (LinkTelegram v) a = snd (link_telegram v u a)"
| "serve_user P e u (TelegramCode code) a = snd (create_telegram_link_code (sv_settings P) (sv_redis P) e code u a)"
| "serve_user P e u (ToggleEmail b) a = snd (toggle_email_alerts b u a)"
| "serve_user P e u (SetupTotp secret) a = snd (setup_totp secret u a)"
| "serve_user P e u (EnableTotp code) a = snd (enable_totp (sv_crypto P) e code u a)"
| "serve_user P e u (DisableTotp pw) a = snd (disable_totp (sv_crypto P) pw u a)"
| "serve_user P e u (RegisterServer salt secret name) a = snd (register_server (sv_crypto P) e salt secret name u a)"
| "serve_user P e u (RotateKey salt secret i) a = snd (rotate_api_key (sv_crypto P) e salt secret i u a)"
| "serve_user P e u (Dashboard redis_up) a =
     snd (dashboard (sv_redis P) (sv_dump_dashboard P) (sv_load_dashboard P) e redis_up u a)"
| "serve_user P e u (CreateRule data) a = snd (create_alert_rule e data u a)"
| "serve_user P e u (UpdateRule i data) a = snd (update_alert_rule e i data u a)"
| "serve_user P e u (DeleteRule i) a = snd (delete_alert_rule e i u a)"

text \<open>A request without a valid token has no effect.\<close>

definition as_user :: "crypto \<Rightarrow> env \<Rightarrow> string \<Rightarrow> (user \<Rightarrow> 'r app \<Rightarrow> 'r app) \<Rightarrow> 'r app \<Rightarrow> 'r app" where
  "as_user C e token handler a = (case get_current_user C (clock e) token (app_db a) of
     Inl _ \<Rightarrow> a
   | Inr u \<Rightarrow> handler u a)"

fun operate :: "'r services \<Rightarrow> env \<Rightarrow> operation \<Rightarrow> 'r app \<Rightarrow> 'r app" where
  "operate P e (Register salt email pw) a = snd (register_user (sv_crypto P) e salt email pw a)"
| "operate P e (Login jti name pw code) a =
     snd (login (sv_settings P) (sv_crypto P) (sv_redis P) e jti name pw code a)"
| "operate P e (Refresh jti token) a = snd (refresh_tokens (sv_settings P) (sv_crypto P) (sv_redis P) e jti token a)"
| "operate P e (Logout token) a = snd (logout (sv_crypto P) (sv_redis P) e token a)"
| "operate P e (Forgot token email) a = snd (forgot_password (sv_settings P) (sv_redis P) e token email a)"
| "operate P e (Reset salt token pw) a = snd (reset_password (sv_crypto P) (sv_redis P) e salt token pw a)"
| "operate P e (AsUser token rq) a = as_user (sv_crypto P) e token (\<lambda>u. serve_user P e u rq) a"
| "operate P e (Upload key data) a = snd (with_api_key (sv_crypto P) key (submit_metric e data) a)"
| "operate P e (DockerUpload key items) a = snd (with_api_key (sv_crypto P) key (submit_docker_metrics e items) a)"
| "operate P e (LogBatch i lines works) a =
     (case commit_batch e works i lines (app_db a) of None \<Rightarrow> a | Some d \<Rightarrow> a\<lparr>app_db := d\<rparr>)"
| "operate P e Heartbeat a = snd (run_heartbeat_check e a)"
| "operate P e (Resolve other) a = a\<lparr>app_db := snd (task_resolve_alerts e other (app_db a))\<rparr>"
| "operate P e (Aggregate pt) a = a\<lparr>app_db := task_aggregate (sv_avg P) e pt (app_db a)\<rparr>"
| "operate P e PruneLogs a = a\<lparr>app_db := prune_old_logs (sv_settings P) e (app_db a)\<rparr>"
| "operate P e (BotMessage msg) a =
     snd (handle_message (sv_redis P) (sv_dump_draft P) (sv_load_draft P) e msg a)"

text \<open>The states a run of the service reaches.\<close>

inductive service_run :: "'r services \<Rightarrow> 'r app \<Rightarrow> 'r app \<Rightarrow> bool" for P a0 where
  start: "service_run P a0 a0"
| step: "service_run P a0 a \<Longrightarrow> service_run P a0 (operate P e op a)"

lemma store_ok_empty: "store_ok empty_db"
  by (simp add: store_ok_def aggregates_unique_def) (simp add: empty_db_def empty_table_def)

lemma as_user_ok:
  assumes "store_ok (app_db a)"
    and "\<And>u. u \<in> set (rows (users (app_db a))) \<Longrightarrow> store_ok (app_db (handler u a))"
  shows "store_ok (app_db (as_user C e token handler a))"
  using assms get_current_user_row by (auto simp: as_user_def split: sum.split)

lemma serve_user_ok:
  assumes "store_ok (app_db a)" and "u \<in> set (rows (users (app_db a)))"
  shows "store_ok (app_db (serve_user P e u rq a))"
proof -
  have d: "db_ok (app_db a)" using assms(1) by (simp add: store_ok_def)
  have rd: "app_db (snd (create_telegram_link_code S R e code u a)) = app_db a" for S R code
    by (simp add: create_telegram_link_code_def)
  have "db_ok (app_db (serve_user P e u rq a)) \<and> aggs (app_db (serve_user P e u rq a)) = aggs (app_db a)"
    by (cases rq) (simp_all add: rd d profile_db_ok register_server_ok [OF d assms(2)] rotate_api_key_ok [OF d assms(2)]
        create_rule_ok [OF d assms(2)] update_rule_ok [OF d assms(2)] delete_alert_rule_ok [OF d assms(2)])
  then show ?thesis using store_okI assms(1) by blast
qed

lemma with_api_key_ok:
  assumes "db_ok (app_db a)"
    and "\<And>srv. srv \<in> set (rows (servers (app_db a))) \<Longrightarrow> db_ok (app_db (snd (handler srv a)))"
    and "\<And>srv. aggs (app_db (snd (handler srv a))) = aggs (app_db a)"
  shows "db_ok (app_db (snd (with_api_key C key handler a)))
    \<and> aggs (app_db (snd (with_api_key C key handler a))) = aggs (app_db a)"
  using assms verify_api_key_active(2) by (auto simp: with_api_key_def split: sum.split)

lemma operate_ok:
  assumes "store_ok (app_db a)"
  shows "store_ok (app_db (operate P e op a))"
proof -
  have d: "db_ok (app_db a)" using assms by (simp add: store_ok_def)
  have rd: "app_db (snd (refresh_tokens S C R e jti token a)) = app_db a" "app_db (snd (logout C R e token a)) = app_db a"
    "app_db (snd (forgot_password S R e token email a)) = app_db a" for S C R jti token email
    by (auto simp: refresh_tokens_def logout_def forgot_password_def Let_def
        split: sum.splits option.splits prod.splits if_splits)
  have ups: "db_ok (app_db (snd (with_api_key C key (submit_metric e data) a)))
      \<and> aggs (app_db (snd (with_api_key C key (submit_metric e data) a))) = aggs (app_db a)"
    "db_ok (app_db (snd (with_api_key C key (submit_docker_metrics e items) a)))
      \<and> aggs (app_db (snd (with_api_key C key (submit_docker_metrics e items) a))) = aggs (app_db a)"
    for C key data items
    by (rule with_api_key_ok [OF d]; simp add: submit_metric_ok [OF d] submit_docker_metrics_ok [OF d])+
  note keep = store_okI [OF _ _ assms]
  show ?thesis
  proof (cases op)
    case (AsUser token rq)
    then show ?thesis using as_user_ok [OF assms, of "\<lambda>u. serve_user P e u rq"] serve_user_ok [OF assms] by simp
  next
    case (LogBatch i lines works)
    then show ?thesis using assms by (auto dest: commit_batch_ok split: option.split)
  next
    case (Aggregate pt)
    then show ?thesis using task_aggregate_ok [OF assms] by simp
  next
    case (BotMessage msg)
    then show ?thesis using handle_message_ok [OF assms] by simp
  qed (use ups in \<open>simp_all add: keep d assms rd register_user_ok login_db_ok reset_password_db_ok heartbeat_ok
      task_resolve_ok prune_ok\<close>)
qed

lemma run_store_ok: "service_run P a0 a \<Longrightarrow> store_ok (app_db a0) \<Longrightarrow> store_ok (app_db a)"
  by (induction rule: service_run.induct) (simp_all add: operate_ok)

end
