(* ===== verification/PW_Live.thy ===== *)
theory PW_Live
  imports PW_System
begin

text \<open>
  Properties of the system as a whole: the constraints of the store hold in every state it
  reaches, what is published reaches the dashboards of its server and nobody else, and a rule
  draft that outlives a re-link of its chat crosses accounts.
\<close>

section \<open>Publications\<close>

definition payload_server :: "payload \<Rightarrow> int" where
  "payload_server p = (case p of MetricPayload i _ \<Rightarrow> i | DockerPayload i _ \<Rightarrow> i | AlertPayload i _ \<Rightarrow> i)"

definition payload_kind :: "payload \<Rightarrow> string" where
  "payload_kind p = (case p of MetricPayload _ _ \<Rightarrow> ''metrics'' | DockerPayload _ _ \<Rightarrow> ''docker_metrics''
     | AlertPayload _ _ \<Rightarrow> ''alerts'')"

text \<open>A payload travels on the channel of its kind and server.\<close>

definition addressed :: "string \<times> payload \<Rightarrow> bool" where
  "addressed m \<longleftrightarrow> fst m = channel_name (payload_kind (snd m)) (payload_server (snd m))"

lemma publications_addressed [simp]:
  "addressed (publish_metric i m)" "addressed (publish_docker_metric i items)" "addressed (publish_alert i al)"
  by (simp_all add: addressed_def publish_metric_def publish_docker_metric_def publish_alert_def
      payload_kind_def payload_server_def channel_name_def)

definition KINDS :: "string list" where
  "KINDS = [''metrics'', ''docker_metrics'', ''alerts'']"

lemma payload_kind_KINDS: "payload_kind p \<in> set KINDS"
  by (simp add: payload_kind_def KINDS_def split: payload.split)

lemma channel_inject:
  assumes "channel_name k i = channel_name k' j" and "k \<in> set KINDS" and "k' \<in> set KINDS"
  shows "k = k'" "i = j"
proof -
  have "takeWhile (\<lambda>c. c \<noteq> CHR '':'') (channel_name v n) = v" if "v \<in> set KINDS" for v n
    using that by (auto simp: KINDS_def channel_name_def)
  with assms show k: "k = k'" by metis
  with assms(1) show "i = j" by (simp add: channel_name_def)
qed

lemma pub_evaluate:
  "\<exists>ps. app_pub (snd (evaluate_rules c f ev e i a)) = app_pub a @ ps \<and> (\<forall>p \<in> set ps. \<exists>al. p = publish_alert i al)"
proof -
  have "\<exists>al. p = publish_alert i al" if "p \<in> set (alert_publication e i r x)" for p r x
    using that by (auto simp: alert_publication_def split: if_splits)
  then have "\<forall>p \<in> set (concat (map2 (\<lambda>(r, v) x. alert_publication e i r x) rs xs)). \<exists>al. p = publish_alert i al" for rs xs
    by fastforce
  then show ?thesis
    by (auto simp: evaluate_rules_def Let_def simp del: set_concat)
qed

lemma pub_evaluate_items:
  "\<exists>ps. app_pub (snd (evaluate_items e i items a)) = app_pub a @ ps \<and> (\<forall>p \<in> set ps. \<exists>al. p = publish_alert i al)"
proof (induction items arbitrary: a)
  case (Cons item items)
  obtain r a1 where ev: "evaluate_docker_metrics e i (docker_data_of item) a = (r, a1)" by force
  obtain ps where ps: "app_pub a1 = app_pub a @ ps" "\<forall>p \<in> set ps. \<exists>al. p = publish_alert i al"
    using pub_evaluate [of "docker_candidate i" "docker_firing (clock e) (docker_data_of item)"
        "docker_event e i (docker_data_of item)" e i a] ev by (auto simp: evaluate_docker_metrics_def)
  obtain qs where "app_pub (snd (evaluate_items e i items a1)) = app_pub a1 @ qs" "\<forall>p \<in> set qs. \<exists>al. p = publish_alert i al"
    using Cons by blast
  with ps ev show ?case by (cases r) (auto intro: exI [of _ ps] exI [of _ "ps @ qs"])
qed simp

lemma pub_handlers [simp]:
  "app_pub (snd (register_user C e salt email password a)) = app_pub a"
  "app_pub (snd (login S C R e jti name pw code a)) = app_pub a"
  "app_pub (snd (refresh_tokens S C R e jti token a)) = app_pub a"
  "app_pub (snd (logout C R e token a)) = app_pub a"
  "app_pub (snd (forgot_password S R e token email a)) = app_pub a"
  "app_pub (snd (reset_password C R e salt token pw a)) = app_pub a"
  by (auto simp: register_user_def login_def refresh_tokens_def logout_def forgot_password_def
      reset_password_def Let_def split: sum.splits option.splits prod.splits if_splits detail.splits)

lemma pub_profile [simp]:
  "app_pub (snd (link_telegram v u a)) = app_pub a"
  "app_pub (snd (toggle_email_alerts b u a)) = app_pub a"
  "app_pub (snd (setup_totp secret u a)) = app_pub a"
  "app_pub (snd (enable_totp C e totp u a)) = app_pub a"
  "app_pub (snd (disable_totp C pw u a)) = app_pub a"
  "app_pub (snd (create_telegram_link_code S R e code u a)) = app_pub a"
  by (auto simp: commit_user_def link_telegram_def toggle_email_alerts_def setup_totp_def enable_totp_def
      disable_totp_def create_telegram_link_code_def Let_def split: sum.splits option.splits)

lemma pub_users [simp]:
  "app_pub (snd (create_alert_rule e data u a)) = app_pub a"
  "app_pub (snd (update_alert_rule e i upd u a)) = app_pub a"
  "app_pub (snd (delete_alert_rule e i u a)) = app_pub a"
  "app_pub (snd (register_server C e salt secret name u a)) = app_pub a"
  "app_pub (snd (rotate_api_key C e salt secret i u a)) = app_pub a"
  "app_pub (snd (dashboard R dd ld e up u a)) = app_pub a"
  by (auto simp: create_alert_rule_def update_alert_rule_def delete_alert_rule_def register_server_def
      rotate_api_key_def dashboard_def Let_def split_beta split: sum.splits option.splits prod.splits if_splits)

lemma pub_heartbeat [simp]: "app_pub (snd (run_heartbeat_check e a)) = app_pub a"
  by (simp add: run_heartbeat_check_def Let_def split_beta)

lemma pub_draft: "app_pub (snd (process_rule_draft R dumps e chat u t dr a)) = app_pub a"
proof -
  define own where "own = (\<lambda>i. fetch_by_id srv_id i (\<lambda>s. srv_owner_id s = usr_id u) (servers (app_db a)))"
  show ?thesis
    unfolding process_rule_draft_def own_def [symmetric] Let_def
    by (cases "dialogue_step own dr t") (simp_all split: prod.split sum.split)
qed

lemma pub_commands [simp]:
  "app_pub (snd (handle_mute R e u t a)) = app_pub a" "app_pub (snd (handle_toggle e u t a)) = app_pub a"
  "app_pub (snd (handle_delete R e chat u t a)) = app_pub a" "app_pub (snd (set_server_paused u m v a)) = app_pub a"
  "app_pub (snd (handle_createrule_start R dumps e chat u a)) = app_pub a"
  "app_pub (snd (handle_start R e chat t a)) = app_pub a" "app_pub (drop_draft R loads e chat a) = app_pub a"
  "app_pub (snd (handle_cancel R e chat a)) = app_pub a"
  by (simp_all add: handle_mute_def handle_toggle_def handle_delete_def set_server_paused_def handle_cancel_def
      handle_createrule_start_def handle_start_def drop_draft_def Let_def
      split: option.split sum.split prod.split bool.split)

lemma pub_command: "app_pub (snd (handle_command R dumps e chat u t a)) = app_pub a"
  by (simp add: handle_command_def handle_pause_def handle_resume_def del: startswith.simps)

lemma pub_linked: "app_pub (snd (handle_linked R dumps loads e chat u t a)) = app_pub a"
  by (simp add: handle_linked_def split_beta pub_draft pub_command del: startswith.simps split: option.split)

lemma pub_bot [simp]: "app_pub (snd (handle_message R dumps loads e msg a)) = app_pub a"
  by (simp add: handle_message_def pub_linked Let_def del: startswith.simps split: option.split sum.split)

text \<open>What an evaluation and an upload publish.\<close>

lemma feed_append [simp]: "ws_feed ch (ps @ qs) = ws_feed ch ps @ ws_feed ch qs"
  by (simp add: ws_feed_def)

lemma feed_Nil [simp]: "ws_feed ch [] = []"
  by (simp add: ws_feed_def)

lemma feed_one [simp]: "ws_feed ch [m] = (if fst m = ch then [snd m] else [])"
  by (simp add: ws_feed_def)

lemma alerts_addressed: "\<forall>p \<in> set ps. \<exists>al. p = publish_alert i al \<Longrightarrow> p \<in> set ps \<Longrightarrow> addressed p"
  by auto

lemma pub_submit:
  "\<exists>ps. app_pub (snd (submit_metric e data srv a)) = app_pub a @ ps \<and> (\<forall>p \<in> set ps. addressed p)"
proof -
  define touch :: "server \<Rightarrow> server" where "touch = (\<lambda>s. s\<lparr>srv_last_seen_at := Some (db_clock e),
    srv_agent_version := new_agent_version (mc_agent_version data) srv\<rparr>)"
  define b where "b = a\<lparr>app_db := set_server (srv_id srv) touch ((app_db a)\<lparr>metrics := insert_row
    (new_metric e (srv_id srv) data) (metrics (app_db a))\<rparr>)\<rparr>"
  obtain r a1 where ev: "evaluate_system_metrics e (srv_id srv) (metric_data_of data) b = (r, a1)" by force
  obtain ps where ps: "app_pub a1 = app_pub a @ ps" "\<forall>p \<in> set ps. \<exists>al. p = publish_alert (srv_id srv) al"
    using pub_evaluate [of "system_candidate (srv_id srv)" "system_firing (clock e) (metric_data_of data)"
        "system_event e (srv_id srv) (metric_data_of data)" e "srv_id srv" b] ev
    by (auto simp: evaluate_system_metrics_def b_def)
  note ad = alerts_addressed [OF ps(2)]
  have sub: "snd (submit_metric e data srv a) = (if srv_paused srv \<or> \<not> server_fits (touch srv) then a
      else publish_after e r (publish_metric (srv_id srv) (new_metric e (srv_id srv) data (seq (metrics (app_db a))))) a1)"
    using ev by (simp add: submit_metric_def touch_def b_def Let_def)
  show ?thesis
  proof (cases "srv_paused srv \<or> \<not> server_fits (touch srv)")
    case False
    show ?thesis
    proof (cases "(\<exists>v. r = Inr v) \<and> publish_ok e")
      case True
      with False sub ps ad show ?thesis
        by (intro exI [of _ "ps @ [publish_metric (srv_id srv) (new_metric e (srv_id srv) data (seq (metrics (app_db a))))]"])
          (auto simp: publish_after_def)
    next
      case nopub: False
      with False sub ps ad show ?thesis
        by (intro exI [of _ ps]) (auto simp: publish_after_def split: sum.split)
    qed
  qed (simp add: sub)
qed

lemma pub_submit_docker:
  "\<exists>ps. app_pub (snd (submit_docker_metrics e items srv a)) = app_pub a @ ps \<and> (\<forall>p \<in> set ps. addressed p)"
proof (cases "srv_paused srv")
  case False
  define b where "b = a\<lparr>app_db := set_server (srv_id srv) (\<lambda>s. s\<lparr>srv_last_seen_at := Some (db_clock e)\<rparr>)
    ((app_db a)\<lparr>docker_metrics := insert_all (map (new_docker_metric e (srv_id srv)) items) (docker_metrics (app_db a))\<rparr>)\<rparr>"
  obtain r a1 where ev: "evaluate_items e (srv_id srv) items b = (r, a1)" by force
  obtain ps where ps: "app_pub a1 = app_pub a @ ps" "\<forall>p \<in> set ps. \<exists>al. p = publish_alert (srv_id srv) al"
    using pub_evaluate_items [of e "srv_id srv" items b] ev by (auto simp: b_def)
  note ad = alerts_addressed [OF ps(2)]
  have sub: "snd (submit_docker_metrics e items srv a) = publish_after e r (publish_docker_metric (srv_id srv) items) a1"
    using ev False by (simp add: submit_docker_metrics_def b_def Let_def)
  show ?thesis
  proof (cases "(\<exists>v. r = Inr v) \<and> publish_ok e")
    case True
    with sub ps ad show ?thesis
      by (intro exI [of _ "ps @ [publish_docker_metric (srv_id srv) items]"]) (auto simp: publish_after_def)
  next
    case nopub: False
    with sub ps ad show ?thesis
      by (intro exI [of _ ps]) (auto simp: publish_after_def split: sum.split)
  qed
qed (simp add: submit_docker_metrics_def)

lemma operate_addressed:
  assumes "\<forall>p \<in> set (app_pub a). addressed p"
  shows "\<forall>p \<in> set (app_pub (operate P e op a)). addressed p"
proof (cases op)
  case (AsUser token rq)
  have "app_pub (serve_user P e u rq a) = app_pub a" for u by (cases rq) simp_all
  with AsUser assms show ?thesis by (simp add: as_user_def split: sum.split)
next
  case (Upload key data)
  show ?thesis
  proof (cases "verify_api_key (sv_crypto P) key (app_db a)")
    case (Inr srv)
    with Upload assms pub_submit [of e data srv a] show ?thesis by (auto simp: with_api_key_def)
  qed (use Upload assms in \<open>simp add: with_api_key_def\<close>)
next
  case (DockerUpload key items)
  show ?thesis
  proof (cases "verify_api_key (sv_crypto P) key (app_db a)")
    case (Inr srv)
    with DockerUpload assms pub_submit_docker [of e items srv a] show ?thesis by (auto simp: with_api_key_def)
  qed (use DockerUpload assms in \<open>simp add: with_api_key_def\<close>)
qed (use assms in \<open>simp_all split: option.split\<close>)

lemma run_addressed:
  "service_run P a0 a \<Longrightarrow> \<forall>p \<in> set (app_pub a0). addressed p \<Longrightarrow> \<forall>p \<in> set (app_pub a). addressed p"
proof (induction rule: service_run.induct)
  case (step a e op)
  from operate_addressed [OF step.IH [OF step.prems]] show ?case .
qed simp

lemma feed_addressed:
  assumes "\<forall>p \<in> set ms. addressed p" and "p \<in> set (ws_feed (channel_name k i) ms)" and "k \<in> set KINDS"
  shows "payload_server p = i" "payload_kind p = k"
proof -
  from assms(1,2) have "channel_name (payload_kind p) (payload_server p) = channel_name k i"
    by (auto simp: ws_feed_def addressed_def)
  from channel_inject [OF this payload_kind_KINDS assms(3)] show "payload_server p = i" "payload_kind p = k" by simp_all
qed

text \<open>An upload whose events can be stored, seen from the channels.\<close>

lemma alerts_published:
  assumes "evaluate_rules c f ev e i a = (Inr evs, a1)" and "publish_ok e"
  shows "\<exists>als. app_pub a1 = app_pub a @ map (publish_alert i) als \<and> map al_event_id als = map ev_id evs"
proof -
  let ?ps = "pending_of f (select c (alert_rules (app_db a)))"
  let ?als = "map2 (\<lambda>(r, v) x. alert_data_of r x) ?ps evs"
  have evs: "evs = new_rows (map (\<lambda>(r, v). ev r v) ?ps) (seq (alert_events (app_db a)))"
    by (rule evaluate_rules_Inr(1) [OF assms(1)])
  have "concat (map2 (\<lambda>(r, v) x. alert_publication e i r x) rs xs) = map (publish_alert i) (map2 (\<lambda>(r, v) x. alert_data_of r x) rs xs)"
    for rs :: "(alert_rule \<times> pyfloat) list" and xs
    by (induction rs xs rule: list_induct2') (auto simp: alert_publication_def assms(2))
  then have "app_pub a1 = app_pub a @ map (publish_alert i) ?als"
    using assms(1) evs by (auto simp: evaluate_rules_def Let_def split: if_splits)
  moreover have "map al_event_id (map2 (\<lambda>(r, v) x. alert_data_of r x) rs xs) = map ev_id xs"
    if "length rs = length xs" for rs :: "(alert_rule \<times> pyfloat) list" and xs
    using that by (induction rs xs rule: list_induct2) (auto simp: alert_data_of_def)
  moreover have "length ?ps = length evs" by (simp add: evs)
  ultimately show ?thesis by blast
qed

text \<open>The state an upload is evaluated in.\<close>

definition touched :: "env \<Rightarrow> metric_create \<Rightarrow> server \<Rightarrow> server \<Rightarrow> server" where
  "touched e data srv s = s\<lparr>srv_last_seen_at := Some (db_clock e),
     srv_agent_version := new_agent_version (mc_agent_version data) srv\<rparr>"

definition stored_upload :: "env \<Rightarrow> metric_create \<Rightarrow> server \<Rightarrow> 'r app \<Rightarrow> 'r app" where
  "stored_upload e data srv a = a\<lparr>app_db := set_server (srv_id srv) (touched e data srv)
     ((app_db a)\<lparr>metrics := insert_row (new_metric e (srv_id srv) data) (metrics (app_db a))\<rparr>)\<rparr>"

lemma upload_publishes:
  assumes "verify_api_key C key (app_db a) = Inr srv" and "\<not> srv_paused srv" and "server_fits (touched e data srv srv)"
    and "evaluate_system_metrics e (srv_id srv) (metric_data_of data) (stored_upload e data srv a) = (Inr evs, a1)"
    and "publish_ok e"
  shows "\<exists>als. map al_event_id als = map ev_id evs
    \<and> app_pub (snd (with_api_key C key (submit_metric e data) a)) = app_pub a
        @ map (publish_alert (srv_id srv)) als
        @ [publish_metric (srv_id srv) (new_metric e (srv_id srv) data (seq (metrics (app_db a))))]"
proof -
  obtain als where "app_pub a1 = app_pub a @ map (publish_alert (srv_id srv)) als" "map al_event_id als = map ev_id evs"
    using alerts_published [OF assms(4) [unfolded evaluate_system_metrics_def] assms(5)] by (auto simp: stored_upload_def)
  moreover have "snd (with_api_key C key (submit_metric e data) a) =
      publish_after e (Inr evs :: exc + alert_event list)
        (publish_metric (srv_id srv) (new_metric e (srv_id srv) data (seq (metrics (app_db a))))) a1"
    using assms(1-4) by (simp add: with_api_key_def submit_metric_def Let_def touched_def [abs_def] stored_upload_def)
  ultimately show ?thesis using assms(5) by (auto simp: publish_after_def)
qed

lemma feed_alerts:
  "ws_feed ch (map (publish_alert i) als) = (if ch = channel_name ''alerts'' i then map (AlertPayload i) als else [])"
  by (auto simp: ws_feed_def publish_alert_def channel_name_def filter_map comp_def)

lemma channel_kinds:
  "channel_name ''metrics'' i \<noteq> channel_name ''alerts'' j" "channel_name ''docker_metrics'' i \<noteq> channel_name ''alerts'' j"
  "channel_name ''docker_metrics'' i \<noteq> channel_name ''metrics'' j"
  by (simp_all add: channel_name_def)

lemma feeds_of_upload:
  assumes "app_pub b = app_pub a @ map (publish_alert i) als @ [publish_metric i m]"
  shows "ws_feed (channel_name ''metrics'' i) (app_pub b) = ws_feed (channel_name ''metrics'' i) (app_pub a) @ [MetricPayload i m]"
    and "ws_feed (channel_name ''alerts'' i) (app_pub b) = ws_feed (channel_name ''alerts'' i) (app_pub a) @ map (AlertPayload i) als"
    and "j \<noteq> i \<Longrightarrow> k \<in> set KINDS \<Longrightarrow> ws_feed (channel_name k j) (app_pub b) = ws_feed (channel_name k j) (app_pub a)"
proof -
  note kinds = channel_kinds [of i i] not_sym [OF channel_kinds(1) [of i i]]
  have m: "fst (publish_metric i m) = channel_name ''metrics'' i" "snd (publish_metric i m) = MetricPayload i m"
    by (simp_all add: publish_metric_def channel_name_def)
  show "ws_feed (channel_name ''metrics'' i) (app_pub b) = ws_feed (channel_name ''metrics'' i) (app_pub a) @ [MetricPayload i m]"
    and "ws_feed (channel_name ''alerts'' i) (app_pub b) = ws_feed (channel_name ''alerts'' i) (app_pub a) @ map (AlertPayload i) als"
    unfolding assms by (simp_all add: feed_alerts m kinds)
  assume "j \<noteq> i" and k: "k \<in> set KINDS"
  then have "channel_name k j \<noteq> channel_name ''alerts'' i" "channel_name ''metrics'' i \<noteq> channel_name k j"
    using channel_inject(2) [of k j "''alerts''" i] channel_inject(2) [of "''metrics''" i k j]
    by (auto simp: KINDS_def)
  then show "ws_feed (channel_name k j) (app_pub b) = ws_feed (channel_name k j) (app_pub a)"
    unfolding assms by (simp add: feed_alerts m)
qed

section \<open>Properties\<close>

text \<open>C1: every state the service reaches, by any sequence of requests, uploads, bot messages and
  periodic jobs at any times and with any answers of the outside world, keeps the constraints of the
  store: keys are unique and below their sequences, emails, server names and aggregate windows are
  unique, and every reference leads to a row. A service that starts on an empty database starts
  consistent.\<close>

theorem service_keeps_store_consistent:
  assumes "service_run P a0 a" and "app_db a0 = empty_db \<or> store_ok (app_db a0)"
  shows "keys_ok (app_db a) \<and> uniques_ok (app_db a) \<and> foreign_keys_ok (app_db a) \<and> aggregates_unique (app_db a)"
  using run_store_ok [OF assms(1)] assms(2) store_ok_empty by (auto simp: store_ok_def db_ok_def)

definition demo_services :: "kv services" where
  "demo_services = \<lparr>sv_settings = default_settings, sv_crypto = plain_crypto, sv_redis = kv_redis, sv_avg = demo_avg,
     sv_dump_draft = enc_draft, sv_load_draft = dec_draft, sv_dump_dashboard = (\<lambda>_. ''x''),
     sv_load_dashboard = one_dashboard\<rparr>"

definition empty_state :: "kv app" where
  "empty_state = \<lparr>app_db = empty_db, app_rd = [], app_tasks = [], app_pub = []\<rparr>"

theorem service_store_witness:
  "foreign_keys_ok (app_db (operate demo_services (env_at 1) Heartbeat
     (operate demo_services (env_at 0) (Register ''salt'' ''a@x.org'' ''secret'') empty_state)))"
proof -
  have "service_run demo_services empty_state (operate demo_services (env_at 1) Heartbeat
     (operate demo_services (env_at 0) (Register ''salt'' ''a@x.org'' ''secret'') empty_state))"
    by (intro service_run.intros)
  from service_keeps_store_consistent [OF this] show ?thesis by (simp add: empty_state_def)
qed

text \<open>The store as far as the rules of one user go: without the rules of others and their events.\<close>

definition own_rules_only :: "user \<Rightarrow> db \<Rightarrow> db" where
  "own_rules_only u d = d\<lparr>
     alert_rules := (alert_rules d)\<lparr>rows := select (\<lambda>r. rule_owner_id r = usr_id u) (alert_rules d)\<rparr>,
     alert_events := (alert_events d)\<lparr>rows := select (\<lambda>ev. \<exists>r \<in> set (rows (alert_rules d)).
       rule_id r = ev_rule_id ev \<and> rule_owner_id r = usr_id u) (alert_events d)\<rparr>\<rparr>"

lemma own_events_only: "own_events u (own_rules_only u d) = own_events u d"
proof -
  let ?own = "\<lambda>r. rule_owner_id r = usr_id u" and ?rs = "rows (alert_rules d)" and ?es = "rows (alert_events d)"
  let ?row = "\<lambda>ev r. if ev_rule_id ev = rule_id r \<and> ?own r then [(ev, r)] else []"
  let ?P = "\<lambda>ev. \<exists>r \<in> set ?rs. rule_id r = ev_rule_id ev \<and> ?own r"
  have inner: "concat (map (?row ev) (filter ?own ?rs)) = concat (map (?row ev) ?rs)" for ev
    by (rule concat_map_filter) simp
  have outer: "concat (map (\<lambda>ev. concat (map (?row ev) ?rs)) (filter ?P ?es)) = concat (map (\<lambda>ev. concat (map (?row ev) ?rs)) ?es)"
    by (rule concat_map_filter) auto
  have "own_events u (own_rules_only u d) = concat (map (\<lambda>ev. concat (map (?row ev) (filter ?own ?rs))) (filter ?P ?es))"
    by (simp add: own_events_def own_rules_only_def select_def)
  also have "\<dots> = own_events u d" unfolding inner outer own_events_def ..
  finally show ?thesis .
qed

lemma own_rules_only_tables [simp]: "servers (own_rules_only u d) = servers d" "users (own_rules_only u d) = users d"
  by (simp_all add: own_rules_only_def)

text \<open>The queries of rules name their owner.\<close>

lemma own_rules_query:
  "select (\<lambda>r. P r \<and> rule_owner_id r = usr_id u) (alert_rules (own_rules_only u d))
    = select (\<lambda>r. P r \<and> rule_owner_id r = usr_id u) (alert_rules d)"
  "select (\<lambda>r. rule_owner_id r = usr_id u \<and> P r) (alert_rules (own_rules_only u d))
    = select (\<lambda>r. rule_owner_id r = usr_id u \<and> P r) (alert_rules d)"
  by (auto simp: own_rules_only_def table_simps intro: filter_cong)

lemma handle_rules_only:
  "fst (handle_rules u (a\<lparr>app_db := own_rules_only u (app_db a)\<rparr>)) = fst (handle_rules u a)"
proof -
  let ?own = "\<lambda>r. rule_owner_id r = usr_id u"
  let ?row = "\<lambda>r s. if srv_id s = rule_server_id r \<and> ?own r then [(r, srv_name s)] else []"
  have "concat (map (\<lambda>r. concat (map (?row r) ss)) (filter ?own rs)) = concat (map (\<lambda>r. concat (map (?row r) ss)) rs)" for rs ss
    by (rule concat_map_filter) simp
  then have found: "concat (map (\<lambda>r. concat (map (?row r) ss)) (select ?own t)) = concat (map (\<lambda>r. concat (map (?row r) ss)) (rows t))"
    for t :: "alert_rule table" and ss :: "server list"
    by (simp add: select_def)
  show ?thesis unfolding handle_rules_def Let_def own_rules_only_def by (simp add: found del: concat_eq_Nil_conv Nil_eq_concat_conv)
qed

text \<open>C15: the rules of a user are closed to the others. No request of another user that creates,
  updates or deletes a rule, and no /toggle of another user's bot, touches a rule of the user; and
  what another user reads of rules and events through the API (single ones, the listings, the
  CSV export) or with the bot's /rules is what it would be if the rules that are not their own, and
  the events of these, did not exist.\<close>

theorem rules_are_isolated:
  assumes "db_ok (app_db a)" and "r \<in> set (rows (alert_rules (app_db a)))" and "rule_owner_id r \<noteq> usr_id u"
  shows "(\<forall>d \<in> {app_db (snd (update_alert_rule e i data u a)), app_db (snd (delete_alert_rule e i u a)),
        app_db (snd (create_alert_rule e new u a)), app_db (snd (handle_toggle e u text a))}.
      r \<in> set (rows (alert_rules d)))
    \<and> (let d = app_db a; own = own_rules_only u d
       in r \<notin> set (rows (alert_rules own))
        \<and> get_alert_rule i u own = get_alert_rule i u d
        \<and> list_alert_rules sid u own = list_alert_rules sid u d
        \<and> get_alert_event i u own = get_alert_event i u d
        \<and> list_alert_events sid rid limit u own = list_alert_events sid rid limit u d
        \<and> export_alert_events e fmt start fin sid rid only_open u own
            = export_alert_events e fmt start fin sid rid only_open u d
        \<and> fst (handle_rules u (a\<lparr>app_db := own\<rparr>)) = fst (handle_rules u a))"
proof -
  have other: "rule_id r \<noteq> i" if "own_rule i u (app_db a) = Inr q" for i q
    using own_rule_Inr [OF that] keyed_inj [OF db_ok_keyed(7) [OF assms(1)] assms(2)] assms(3) by metis
  have toggled: "rule_id r \<noteq> j" if "fetch_by_id rule_id j (\<lambda>r. rule_owner_id r = usr_id u) (alert_rules (app_db a)) = Inr (Some q)" for j q
    using other [of j q] that by (simp add: own_rule_def)
  have "r \<in> set (rows (alert_rules (app_db (snd (update_alert_rule e i data u a)))))"
    using assms(2) other by (force simp: update_alert_rule_def set_rule_def table_simps split: sum.split)
  moreover have "r \<in> set (rows (alert_rules (app_db (snd (delete_alert_rule e i u a)))))"
    using assms(2) other by (auto simp: delete_alert_rule_def delete_rule_def table_simps split: sum.split)
  moreover have "r \<in> set (rows (alert_rules (app_db (snd (create_alert_rule e new u a)))))"
    using assms(2) by (auto simp: create_alert_rule_def Let_def table_simps split: sum.split)
  moreover have "r \<in> set (rows (alert_rules (app_db (snd (handle_toggle e u text a)))))"
    using assms(2) toggled by (force simp: handle_toggle_def table_simps split: option.split sum.split)
  moreover have "r \<notin> set (rows (alert_rules (own_rules_only u (app_db a))))"
    using assms(3) by (simp add: own_rules_only_def table_simps)
  moreover have "get_alert_rule i u (own_rules_only u (app_db a)) = get_alert_rule i u (app_db a)"
    by (simp add: get_alert_rule_def own_rule_def fetch_by_id_def own_rules_query)
  moreover have "list_alert_rules sid u (own_rules_only u (app_db a)) = list_alert_rules sid u (app_db a)"
    by (simp add: list_alert_rules_def own_rules_query)
  moreover have "get_alert_event i u (own_rules_only u (app_db a)) = get_alert_event i u (app_db a)"
    and "list_alert_events sid rid limit u (own_rules_only u (app_db a)) = list_alert_events sid rid limit u (app_db a)"
    and "export_alert_events e fmt start fin sid rid only_open u (own_rules_only u (app_db a))
      = export_alert_events e fmt start fin sid rid only_open u (app_db a)"
    unfolding get_alert_event_def list_alert_events_def export_alert_events_def own_events_only own_rules_only_tables
    by (rule refl)+
  ultimately show ?thesis by (simp add: Let_def handle_rules_only)
qed

theorem rules_isolated_witness:
  "demo_rule \<in> set (rows (alert_rules (app_db (snd (delete_alert_rule (env_at 0) 1 other_user demo_state)))))"
  using rules_are_isolated [where a = demo_state and r = demo_rule and u = other_user and i = 1 and e = "env_at 0"]
  by (simp add: other_user_def) (simp add: demo_defs)

text \<open>C2: live streams are private. Whoever is let onto one of the three streams of a server was
  authenticated as a user who owns it, and whatever the service does then, every message that
  stream carries is of that kind and about that server.\<close>

theorem live_streams_are_private:
  assumes "ws_metrics C e i token d = Inr (Some ch) \<and> kind = ''metrics''
      \<or> ws_docker_metrics C e i token d = Inr (Some ch) \<and> kind = ''docker_metrics''
      \<or> ws_alerts C e i token d = Inr (Some ch) \<and> kind = ''alerts''"
    and "service_run P a0 a" and "app_pub a0 = []" and "p \<in> set (ws_feed ch (app_pub a))"
  shows "payload_server p = i \<and> payload_kind p = kind
    \<and> (\<exists>u s. authenticate_ws_user C (clock e) token d = Inr (Some u) \<and> s \<in> set (rows (servers d))
        \<and> srv_id s = i \<and> srv_owner_id s = usr_id u)"
proof -
  have sub: "ws_subscribe C e i token kind d = Inr (Some ch)" and k: "kind \<in> set KINDS"
    using assms(1) by (auto simp: ws_metrics_def ws_docker_metrics_def ws_alerts_def KINDS_def)
  then obtain u s where "authenticate_ws_user C (clock e) token d = Inr (Some u)"
    "fetch_by_id srv_id i (\<lambda>s. srv_owner_id s = usr_id u) (servers d) = Inr (Some s)"
    and ch: "ch = channel_name kind i"
    by (auto simp: ws_subscribe_def ws_own_server_def split: sum.splits option.splits)
  moreover have "\<forall>p \<in> set (app_pub a). addressed p"
    using run_addressed [OF assms(2)] assms(3) by simp
  ultimately show ?thesis
    using feed_addressed [of "app_pub a" p kind i] assms(4) k fetch_by_id_Some by fastforce
qed

definition live_upload :: "kv app" where
  "live_upload = operate demo_services (env_at 0) (Upload (Some (api_key_of 1 ''key'')) demo_upload) demo_state"

definition live_metric :: metric where
  "live_metric = new_metric (env_at 0) 1 demo_upload 1"

lemma live_evaluated:
  "\<exists>a1. evaluate_system_metrics (env_at 0) (srv_id demo_server) (metric_data_of demo_upload)
     (stored_upload (env_at 0) demo_upload demo_server demo_state) = (Inr [demo_event], a1)"
  by (simp add: evaluate_system_metrics_def evaluate_rules_def pending_of_def map_filter_simps metric_data_of_def
      table_simps system_candidate_def system_firing_def data_get_def in_cooldown_def stored_upload_def demo_upload_def
      demo_defs demo_event_def hot_data_def event_fits_def fits_def system_event_def empty_table_def)

lemma live_pre:
  "\<not> srv_paused demo_server" "server_fits (touched (env_at 0) demo_upload demo_server demo_server)" "publish_ok (env_at 0)"
  by (simp_all add: demo_server_def server_fits_def touched_def demo_upload_def new_agent_version_def fits_def)

lemma live_key: "verify_api_key plain_crypto (Some (api_key_of 1 ''key'')) (app_db demo_state) = Inr demo_server"
  using demo_key by simp

definition live_token :: string where
  "live_token = create_access_token plain_crypto default_settings 0 1 None"

lemma live_gate: "ws_metrics plain_crypto (env_at 0) 1 (Some live_token) demo_db = Inr (Some (channel_name ''metrics'' 1))"
proof -
  have "live_token \<noteq> []"
    by (simp add: live_token_def create_access_token_def plain_crypto_def enc_claims_def)
  then have "authenticate_ws_user plain_crypto 0 (Some live_token) demo_db = Inr (Some demo_user)"
    using crypto_service.decode_encode [OF plain_service]
    by (simp add: authenticate_ws_user_def live_token_def create_access_token_def to_seconds_def default_settings_def
        fetch_by_id_def table_simps int32_def demo_user_def)
  then show ?thesis
    by (simp add: ws_metrics_def ws_subscribe_def ws_own_server_def fetch_by_id_def table_simps int32_def demo_defs)
qed

lemma live_published:
  "\<exists>als. app_pub live_upload = app_pub demo_state @ map (publish_alert 1) als @ [publish_metric 1 live_metric]"
proof -
  obtain a1 where "evaluate_system_metrics (env_at 0) (srv_id demo_server) (metric_data_of demo_upload)
     (stored_upload (env_at 0) demo_upload demo_server demo_state) = (Inr [demo_event], a1)"
    using live_evaluated by blast
  from upload_publishes [OF live_key live_pre(1,2) this live_pre(3)] show ?thesis
    by (auto simp: live_upload_def demo_services_def live_metric_def demo_server_def empty_table_def)
qed

theorem live_streams_witness:
  "payload_server (MetricPayload 1 live_metric) = 1
    \<and> (\<exists>u s. authenticate_ws_user plain_crypto (clock (env_at 0)) (Some live_token) demo_db = Inr (Some u)
        \<and> s \<in> set (rows (servers demo_db)) \<and> srv_id s = 1 \<and> srv_owner_id s = usr_id u)"
proof -
  have run: "service_run demo_services demo_state live_upload"
    unfolding live_upload_def by (intro service_run.intros)
  obtain als where "app_pub live_upload = app_pub demo_state @ map (publish_alert 1) als @ [publish_metric 1 live_metric]"
    using live_published by blast
  then have "MetricPayload 1 live_metric \<in> set (ws_feed (channel_name ''metrics'' 1) (app_pub live_upload))"
    using feeds_of_upload(1) [of live_upload demo_state 1 als live_metric] by simp
  from live_streams_are_private [OF disjI1 [OF conjI [OF live_gate refl]] run _ this] show ?thesis by simp
qed

text \<open>C3: an accepted metric reaches the dashboards of its server at once: when the rules it fires
  have events that can be stored and Redis is up, the metrics stream of the server carries exactly
  the stored row, its alert stream one message for each new event, in order, and the streams
  of every other server stay as they were.\<close>

theorem metric_reaches_dashboards:
  assumes "verify_api_key C key (app_db a) = Inr srv" and "\<not> srv_paused srv" and "server_fits (touched e data srv srv)"
    and "evaluate_system_metrics e (srv_id srv) (metric_data_of data) (stored_upload e data srv a) = (Inr evs, a1)"
    and "publish_ok e" and "b = snd (with_api_key C key (submit_metric e data) a)"
  shows "ws_feed (channel_name ''metrics'' (srv_id srv)) (app_pub b) =
      ws_feed (channel_name ''metrics'' (srv_id srv)) (app_pub a)
        @ [MetricPayload (srv_id srv) (new_metric e (srv_id srv) data (seq (metrics (app_db a))))]
    \<and> (\<exists>als. map al_event_id als = map ev_id evs
        \<and> ws_feed (channel_name ''alerts'' (srv_id srv)) (app_pub b) =
            ws_feed (channel_name ''alerts'' (srv_id srv)) (app_pub a) @ map (AlertPayload (srv_id srv)) als)
    \<and> (\<forall>j kind. j \<noteq> srv_id srv \<and> kind \<in> {''metrics'', ''docker_metrics'', ''alerts''} \<longrightarrow>
        ws_feed (channel_name kind j) (app_pub b) = ws_feed (channel_name kind j) (app_pub a))"
proof -
  obtain als where als: "map al_event_id als = map ev_id evs"
    and b: "app_pub b = app_pub a @ map (publish_alert (srv_id srv)) als
        @ [publish_metric (srv_id srv) (new_metric e (srv_id srv) data (seq (metrics (app_db a))))]"
    using upload_publishes [OF assms(1-5)] assms(6) by blast
  have "kind \<in> {''metrics'', ''docker_metrics'', ''alerts''} \<Longrightarrow> kind \<in> set KINDS" for kind
    by (simp add: KINDS_def)
  with feeds_of_upload [OF b] als show ?thesis by blast
qed

theorem metric_reaches_witness:
  "ws_feed (channel_name ''metrics'' 1)
     (app_pub (snd (with_api_key plain_crypto (Some (api_key_of 1 ''key'')) (submit_metric (env_at 0) demo_upload) demo_state))) =
   [MetricPayload 1 live_metric]"
proof -
  obtain a1 where "evaluate_system_metrics (env_at 0) (srv_id demo_server) (metric_data_of demo_upload)
     (stored_upload (env_at 0) demo_upload demo_server demo_state) = (Inr [demo_event], a1)"
    using live_evaluated by blast
  from metric_reaches_dashboards [OF live_key live_pre(1,2) this live_pre(3) refl] show ?thesis
    by (simp add: live_metric_def demo_server_def empty_table_def)
qed

text \<open>A rule draft crosses accounts. The confirmation inserts the rule on the server the draft
  names without asking again who owns it: when the chat has been linked to another account since
  the server was chosen, that account gets a rule on a server that is not its own, which the rule
  API never allows.\<close>

theorem draft_crosses_accounts:
  assumes "draft_store R dumps loads" and "s \<in> set (rows (servers (app_db a)))" and "srv_id s = int (an_server an)"
    and "int32 (srv_id s)" and "srv_owner_id s \<noteq> usr_id u" and "chat \<noteq> 0" and "answers_ok an"
    and "find_user_by_chat_id chat (app_db a) = Inr (Some u)"
    and "app_rd a = set_rule_draft R dumps rd (clock (e :: env)) chat \<lparr>dr_step = ''confirm'', dr_data = full_draft s an\<rparr>"
    and "clock e \<le> clock e'" and "clock e' < clock e + secs 600"
  shows "\<exists>r \<in> set (rows (alert_rules (app_db (say R dumps loads chat a (e', ''y''))))).
    rule_owner_id r = usr_id u \<and> rule_server_id r = srv_id s \<and> srv_owner_id s \<noteq> rule_owner_id r"
proof -
  have held: "draft_store.holds_draft R dumps chat (app_db a) e \<lparr>dr_step = ''confirm'', dr_data = full_draft s an\<rparr> a"
    using assms(9) by (auto simp: draft_store.holds_draft_def [OF assms(1)])
  have y: "strip ''y'' = ''y''" "lower ''y'' \<in> {''y'', ''yes''}"
    using offered(1,2) [of "''y''"] by (simp_all add: words_def)
  have "in_time e e'" using assms(10,11) by (simp add: in_time_def)
  note fin = draft_store.confirmed(1) [OF assms(1,6,8) held this y asked_inserted [OF assms(7,2,3,4)]]
  show ?thesis
    using assms(3,5) by (simp add: fin table_simps asked_rule_def)
qed

definition crossed_state :: "kv app" where
  "crossed_state = (bot_state [])\<lparr>
     app_db := (app_db (bot_state []))\<lparr>users := \<lparr>rows = [demo_user, bot_user\<lparr>usr_id := 2, usr_email := ''b@x.org''\<rparr>], seq = 3\<rparr>\<rparr>,
     app_rd := set_rule_draft kv_redis enc_draft [] 0 5 \<lparr>dr_step = ''confirm'', dr_data = full_draft demo_server demo_answers\<rparr>\<rparr>"

theorem draft_crosses_witness:
  "\<exists>r \<in> set (rows (alert_rules (app_db (say kv_redis enc_draft dec_draft 5 crossed_state (env_at (secs 60), ''y''))))).
    rule_owner_id r = 2 \<and> rule_server_id r = 1"
proof -
  let ?u = "bot_user\<lparr>usr_id := 2, usr_email := ''b@x.org''\<rparr>"
  have "demo_server \<in> set (rows (servers (app_db crossed_state)))" "srv_id demo_server = int (an_server demo_answers)"
    "int32 (srv_id demo_server)" "srv_owner_id demo_server \<noteq> usr_id ?u"
    by (simp_all add: crossed_state_def bot_state_def demo_server_def demo_answers_def int32_def)
  moreover have "find_user_by_chat_id 5 (app_db crossed_state) = Inr (Some ?u)"
    by (simp add: find_user_by_chat_id_def crossed_state_def bot_user_def demo_user_def table_simps)
  moreover have "app_rd crossed_state = set_rule_draft kv_redis enc_draft [] (clock (env_at 0)) 5
      \<lparr>dr_step = ''confirm'', dr_data = full_draft demo_server demo_answers\<rparr>"
    by (simp add: crossed_state_def)
  ultimately have "\<exists>r \<in> set (rows (alert_rules (app_db (say kv_redis enc_draft dec_draft 5 crossed_state (env_at (secs 60), ''y''))))).
    rule_owner_id r = usr_id ?u \<and> rule_server_id r = srv_id demo_server \<and> srv_owner_id demo_server \<noteq> rule_owner_id r"
    by (intro draft_crosses_accounts [OF wire_store _ _ _ _ _ demo_answers_ok, where e = "env_at 0"]) simp_all
  then show ?thesis by (auto simp: demo_server_def)
qed

end
