(* ===== verification/PW_Wiring.thy ===== *)
theory PW_Wiring
  imports PW_AlertRules PW_Aggregation
begin

text \<open>
  How the parts are put together: the routes of the application in the order they are
  registered (\<open>app/main.py\<close> and the decorators of \<open>app/api/\<close>), which handler a request reaches,
  and the beat schedule of the periodic tasks (\<open>app/tasks/celery_app.py\<close>). Handlers are named
  by module and function.
\<close>

section \<open>Routes\<close>

type_synonym routes = "(verb \<times> segment list \<times> string) list"

definition auth_router :: routes where
  "auth_router =
     [(POST, [Fixed ''register''], ''auth.register_user''),
      (POST, [Fixed ''login''], ''auth.login''),
      (POST, [Fixed ''refresh''], ''auth.refresh_tokens''),
      (POST, [Fixed ''forgot-password''], ''auth.forgot_password''),
      (POST, [Fixed ''reset-password''], ''auth.reset_password''),
      (POST, [Fixed ''logout''], ''auth.logout''),
      (GET, [Fixed ''me''], ''auth.read_me''),
      (PATCH, [Fixed ''me'', Fixed ''telegram''], ''auth.link_telegram''),
      (PATCH, [Fixed ''me'', Fixed ''email-alerts''], ''auth.toggle_email_alerts''),
      (POST, [Fixed ''me'', Fixed ''totp'', Fixed ''setup''], ''auth.setup_totp''),
      (POST, [Fixed ''me'', Fixed ''totp'', Fixed ''enable''], ''auth.enable_totp''),
      (POST, [Fixed ''me'', Fixed ''totp'', Fixed ''disable''], ''auth.disable_totp''),
      (POST, [Fixed ''me'', Fixed ''telegram'', Fixed ''code''], ''auth.create_telegram_link_code'')]"

definition servers_router :: routes where
  "servers_router =
     [(POST, [Fixed ''register''], ''servers.register_server''),
      (GET, [Fixed ''me''], ''servers.list_my_servers''),
      (POST, [Param, Fixed ''rotate-key''], ''servers.rotate_api_key''),
      (GET, [Fixed ''dashboard''], ''servers.dashboard''),
      (GET, [Param, Fixed ''metrics'', Fixed ''aggregate''], ''servers.get_system_aggregates''),
      (GET, [Param, Fixed ''docker-metrics'', Fixed ''aggregate''], ''servers.get_docker_aggregates''),
      (GET, [Param, Fixed ''metrics''], ''servers.list_server_metrics''),
      (GET, [Param, Fixed ''docker-metrics''], ''servers.list_server_docker_metrics''),
      (GET, [Param, Fixed ''metrics'', Fixed ''export''], ''servers.export_system_metrics''),
      (GET, [Param, Fixed ''docker-metrics'', Fixed ''export''], ''servers.export_docker_metrics''),
      (GET, [Param, Fixed ''logs'', Fixed ''export''], ''servers.export_logs'')]"

fun endpoint_name :: "endpoint \<Rightarrow> string" where
  "endpoint_name CreateRule = ''alerts.create_alert_rule''"
| "endpoint_name ListRules = ''alerts.list_alert_rules''"
| "endpoint_name GetRule = ''alerts.get_alert_rule''"
| "endpoint_name UpdateRule = ''alerts.update_alert_rule''"
| "endpoint_name DeleteRule = ''alerts.delete_alert_rule''"
| "endpoint_name ListEvents = ''alerts.list_alert_events''"
| "endpoint_name GetEvent = ''alerts.get_alert_event''"
| "endpoint_name ExportEvents = ''alerts.export_alert_events''"

definition alerts_router :: routes where
  "alerts_router = map (\<lambda>(v, ps, ep). (v, ps, endpoint_name ep)) alert_routes"

text \<open>The routers and the first segments they are mounted under.\<close>

definition REST_ROUTERS :: "(routes \<times> string) list" where
  "REST_ROUTERS =
     [(auth_router, ''auth''), (servers_router, ''servers''), (alerts_router, ''alerts''),
      ([(POST, [], ''metrics.submit_metric'')], ''metrics''),
      ([(POST, [], ''docker_metrics.submit_docker_metrics'')], ''docker-metrics''),
      ([(POST, [Fixed ''webhook''], ''alertmanager.receive_alertmanager_webhook'')], ''alertmanager''),
      ([(GET, [Fixed ''me''], ''audit.list_my_audit'')], ''audit'')]"

definition include_router :: "string list \<Rightarrow> routes \<Rightarrow> routes" where
  "include_router prefix r = map (\<lambda>(v, ps, h). (v, map Fixed prefix @ ps, h)) r"

text \<open>Each router is mounted twice; the static files are left out.\<close>

definition app_routes :: routes where
  "app_routes = concat (map (\<lambda>(r, prefix). include_router [''v1'', prefix] r @ include_router [prefix] r) REST_ROUTERS)
     @ [(GET, [Fixed ''metrics'', Fixed ''prometheus''], ''prometheus''), (GET, [Fixed ''health''], ''health''),
        (GET, [], ''root''), (GET, [Fixed ''reset-password''], ''reset_password_page'')]"

text \<open>
  A request goes to the first route that matches path and method; a path that only other
  methods match is answered with 405.
\<close>

datatype routed = Served string | MethodNotAllowed | NotFound

definition candidates :: "routes \<Rightarrow> string list \<Rightarrow> (verb \<times> string) list" where
  "candidates rs path = map (\<lambda>(v, _, h). (v, h)) (filter (\<lambda>(_, ps, _). segments_match ps path) rs)"

definition route :: "verb \<Rightarrow> string list \<Rightarrow> routed" where
  "route v path = (let cs = candidates app_routes path in
     case find (\<lambda>(v', _). v' = v) cs of
       Some (_, h) \<Rightarrow> Served h
     | None \<Rightarrow> if cs = [] then NotFound else MethodNotAllowed)"

section \<open>The schedule\<close>

text \<open>Task and interval in seconds.\<close>

definition beat_schedule :: "(string \<times> string \<times> int) list" where
  "beat_schedule =
     [(''aggregate-fivemin'', ''app.tasks.aggregation_tasks.task_aggregate_fivemin'', 300),
      (''aggregate-hourly'', ''app.tasks.aggregation_tasks.task_aggregate_hourly'', 3600),
      (''aggregate-daily'', ''app.tasks.aggregation_tasks.task_aggregate_daily'', 86400),
      (''check-heartbeat'', ''app.tasks.heartbeat_tasks.task_check_heartbeat'', 60),
      (''resolve-alerts'', ''app.tasks.resolve_tasks.task_resolve_alerts'', 60),
      (''prune-old-logs'', ''app.tasks.log_retention.task_prune_old_logs'', 86400)]"

text \<open>
  The modules of \<open>app/tasks/\<close> that declare tasks: importing one registers its tasks, under the
  names of the decorators. None of them is imported by \<open>app/tasks/celery_app.py\<close>.
\<close>

definition AGGREGATION_TASKS :: "string list" where
  "AGGREGATION_TASKS =
     [''app.tasks.aggregation_tasks.task_aggregate_fivemin'', ''app.tasks.aggregation_tasks.task_aggregate_hourly'',
      ''app.tasks.aggregation_tasks.task_aggregate_daily'']"

definition NOTIFICATION_TASKS :: "string list" where
  "NOTIFICATION_TASKS =
     [''app.tasks.notification_tasks.send_telegram_alert'', ''app.tasks.notification_tasks.send_email_alert'',
      ''app.tasks.notification_tasks.send_heartbeat_down'', ''app.tasks.notification_tasks.send_heartbeat_recovery'']"

definition task_modules :: "(string \<times> string list) list" where
  "task_modules =
     [(''app.tasks.aggregation_tasks'', AGGREGATION_TASKS),
      (''app.tasks.heartbeat_tasks'', [''app.tasks.heartbeat_tasks.task_check_heartbeat'']),
      (''app.tasks.log_retention'', [''app.tasks.log_retention.task_prune_old_logs'']),
      (''app.tasks.notification_tasks'', NOTIFICATION_TASKS),
      (''app.tasks.resolve_tasks'', [''app.tasks.resolve_tasks.task_resolve_alerts''])]"

definition AUTODISCOVERED :: "string list" where
  "AUTODISCOVERED = [''app.tasks'']"

text \<open>
  A worker is started on \<open>app.tasks.celery_app\<close>: it imports that module and the modules Celery
  finds for the packages named in \<open>autodiscover_tasks\<close>. How Celery finds them is the parameter
  \<open>discover\<close>.
\<close>

definition worker_modules :: "(string \<Rightarrow> string list) \<Rightarrow> string list" where
  "worker_modules discover = ''app.tasks.celery_app'' # concat (map discover AUTODISCOVERED)"

definition registered_tasks :: "(string \<Rightarrow> string list) \<Rightarrow> string list" where
  "registered_tasks discover = concat (map snd (filter (\<lambda>m. fst m \<in> set (worker_modules discover)) task_modules))"

text \<open>C38: a worker knows none of the tasks of the beat schedule and none of the notification tasks:
  Celery looks for a submodule \<open>tasks\<close> of each package it is given, and the package \<open>app.tasks\<close> has
  no such module; all of them would be known if the modules of the package were imported.\<close>

theorem worker_knows_no_task:
  assumes "\<And>p m. m \<in> set (discover p) \<Longrightarrow> m = p @ ''.tasks''"
  shows "registered_tasks discover = []
    \<and> (let needed = map (fst \<circ> snd) beat_schedule @ NOTIFICATION_TASKS
       in set needed \<inter> set (registered_tasks discover) = {}
        \<and> set (registered_tasks (\<lambda>_. map fst task_modules)) = set needed)"
proof -
  have "set (worker_modules discover) \<subseteq> {''app.tasks.celery_app'', ''app.tasks.tasks''}"
    using assms by (force simp: worker_modules_def AUTODISCOVERED_def)
  then have "fst m \<notin> set (worker_modules discover)" if "m \<in> set task_modules" for m
    using that by (force simp: task_modules_def)
  then have "registered_tasks discover = []" by (simp add: registered_tasks_def)
  moreover have "set (registered_tasks (\<lambda>_. map fst task_modules))
      = set (map (fst \<circ> snd) beat_schedule @ NOTIFICATION_TASKS)"
    by code_simp
  ultimately show ?thesis by simp
qed

theorem worker_witness:
  "registered_tasks (\<lambda>p. [p @ ''.tasks'']) = []"
  using worker_knows_no_task [of "\<lambda>p. [p @ ''.tasks'']"] by simp

section \<open>The windows of the aggregation\<close>

fun aggregate_task :: "period_type \<Rightarrow> string" where
  "aggregate_task Fivemin = ''aggregate-fivemin''"
| "aggregate_task Hourly = ''aggregate-hourly''"
| "aggregate_task Daily = ''aggregate-daily''"

definition beat_interval :: "period_type \<Rightarrow> time" where
  "beat_interval pt = secs (snd (the (map_of beat_schedule (aggregate_task pt))))"

definition aggregation_window :: "period_type \<Rightarrow> time \<Rightarrow> time \<times> time" where
  "aggregation_window pt now = (case pt of
     Fivemin \<Rightarrow> fivemin_window now | Hourly \<Rightarrow> hourly_window now | Daily \<Rightarrow> daily_window now)"

lemma task_aggregate_window:
  "task_aggregate avg e pt d = aggregate_all_servers avg e pt
     (fst (aggregation_window pt (clock e))) (snd (aggregation_window pt (clock e))) d"
  by (simp add: task_aggregate_def aggregation_window_def Let_def)

lemma beat_interval_simps: "beat_interval Fivemin = minutes 5" "beat_interval Hourly = hours 1" "beat_interval Daily = days 1"
  by (simp_all add: beat_interval_def beat_schedule_def)

lemma in_aggregation_window:
  "in_window (aggregation_window pt now) t \<longleftrightarrow> t div beat_interval pt + 1 = now div beat_interval pt"
  using windows_are_previous_period [of now t]
  by (cases pt) (simp_all add: aggregation_window_def beat_interval_simps)

section \<open>Mounted routers\<close>

lemma candidates_append: "candidates (rs @ rs') path = candidates rs path @ candidates rs' path"
  by (simp add: candidates_def)

lemma fixed_match: "segments_match (map Fixed pre @ ps) (pre @ path) = segments_match ps path"
  by (induction pre) simp_all

lemma candidates_mounted: "candidates (include_router pre r) (pre @ path) = candidates r path"
proof -
  have "filter (\<lambda>(v, ps, h). segments_match ps (pre @ path)) (map (\<lambda>(v, ps, h). (v, map Fixed pre @ ps, h)) r) =
      map (\<lambda>(v, ps, h). (v, map Fixed pre @ ps, h)) (filter (\<lambda>(v, ps, h). segments_match ps path) r)"
    by (induction r) (auto simp: fixed_match)
  then show ?thesis by (simp add: candidates_def include_router_def comp_def case_prod_beta')
qed

lemma candidates_elsewhere: "p \<noteq> q \<Longrightarrow> candidates (include_router (p # pre) r) (q # path) = []"
  by (auto simp: candidates_def include_router_def filter_empty_conv)

lemma candidates_one:
  "candidates (include_router [p] r) (q # path) = (if p = q then candidates r path else [])"
  "candidates (include_router [p, p'] r) (p # q # path) = (if p' = q then candidates r path else [])"
proof -
  show "candidates (include_router [p] r) (q # path) = (if p = q then candidates r path else [])"
    using candidates_mounted [of "[p]" r path] candidates_elsewhere [of p q "[]" r path] by auto
  have "candidates (include_router [p, p'] r) (p # q # path) = candidates (include_router [p'] r) (q # path)"
    using candidates_mounted [of "[p]" "include_router [p'] r" "q # path"]
    by (simp add: include_router_def comp_def case_prod_beta')
  then show "candidates (include_router [p, p'] r) (p # q # path) = (if p' = q then candidates r path else [])"
    using candidates_mounted [of "[p']" r path] candidates_elsewhere [of p' q "[]" r path] by auto
qed

text \<open>Routers mounted under a prefix and under a version and the prefix.\<close>

lemma versions_agree:
  assumes "q \<noteq> ver" and "list_all (\<lambda>(r, p). p \<noteq> ver) rs"
  shows "candidates (concat (map (\<lambda>(r, p). include_router [ver, p] r @ include_router [p] r) rs)) (ver # q # path) =
    candidates (concat (map (\<lambda>(r, p). include_router [ver, p] r @ include_router [p] r) rs)) (q # path)"
  using assms(2)
proof (induction rs)
  case (Cons x rs)
  obtain r p where x: "x = (r, p)" by force
  with Cons assms(1) show ?case
    using candidates_elsewhere [of ver q "[p]" r path]
    by (simp add: candidates_append candidates_one)
qed (simp add: candidates_def)

lemma versions_same:
  assumes "prefix \<in> {''auth'', ''servers'', ''alerts'', ''metrics'', ''docker-metrics'', ''alertmanager'', ''audit''}"
    and "prefix # path \<noteq> [''metrics'', ''prometheus'']"
  shows "candidates app_routes (''v1'' # prefix # path) = candidates app_routes (prefix # path)"
proof -
  have "prefix \<noteq> ''v1''" "prefix \<noteq> ''health''" "prefix \<noteq> ''reset-password''" using assms(1) by auto
  moreover have "list_all (\<lambda>(r, p). p \<noteq> ''v1'') REST_ROUTERS" by (simp add: REST_ROUTERS_def)
  moreover have "\<not> (''metrics'' = prefix \<and> segments_match [Fixed ''prometheus''] path)"
    using assms(2) by (cases path rule: remdups_adj.cases) auto
  ultimately show ?thesis
    using versions_agree [of prefix "''v1''" REST_ROUTERS path]
    by (simp add: app_routes_def candidates_append) (simp add: candidates_def)
qed

section \<open>Properties\<close>

text \<open>C22: the beat loses no sample and takes none twice. With the task started every interval of
  its schedule, each run late by less than what is left of the period the beat started in, every
  sample from that period on falls in the window of exactly one run, for each of the three
  periods.\<close>

theorem every_sample_in_one_run:
  assumes "\<And>k. t0 + int k * beat_interval pt \<le> run k \<and> run k \<le> t0 + int k * beat_interval pt + late"
    and "t0 mod beat_interval pt + late < beat_interval pt" and "t0 - t0 mod beat_interval pt \<le> t"
  shows "\<exists>!k. in_window (aggregation_window pt (run k)) t"
proof -
  let ?P = "beat_interval pt"
  have P: "0 < ?P" by (cases pt) (simp_all add: beat_interval_simps)
  have "run k div ?P = t0 div ?P + int k" for k
  proof -
    have "run k = (t0 div ?P + int k) * ?P + (run k - (t0 div ?P + int k) * ?P)" by simp
    moreover have "(t0 div ?P + int k) * ?P = t0 - t0 mod ?P + int k * ?P"
      by (simp add: distrib_right minus_mod_eq_div_mult)
    then have "0 \<le> run k - (t0 div ?P + int k) * ?P" "run k - (t0 div ?P + int k) * ?P < ?P"
      using assms(1) [of k] assms(2) pos_mod_sign [OF P, of t0] by linarith+
    ultimately show ?thesis by (metis int_div_pos_eq mult.commute)
  qed
  then have w: "in_window (aggregation_window pt (run k)) t \<longleftrightarrow> int k = t div ?P + 1 - t0 div ?P" for k
    by (auto simp: in_aggregation_window)
  have "t0 div ?P \<le> t div ?P"
    using zdiv_mono1 [OF assms(3) P] P by (simp add: minus_mod_eq_div_mult)
  then have "int (nat (t div ?P + 1 - t0 div ?P)) = t div ?P + 1 - t0 div ?P" by simp
  then show ?thesis unfolding w by (metis of_nat_eq_iff)
qed

theorem every_sample_witness:
  "\<exists>!k. in_window (aggregation_window Fivemin (secs 10 + int k * beat_interval Fivemin + secs 2)) (secs 700)"
proof (rule every_sample_in_one_run)
  show "secs 10 + int k * beat_interval Fivemin \<le> secs 10 + int k * beat_interval Fivemin + secs 2
      \<and> secs 10 + int k * beat_interval Fivemin + secs 2 \<le> secs 10 + int k * beat_interval Fivemin + secs 2" for k
    by simp
qed (simp_all add: beat_interval_simps)

text \<open>
  the two versions of the API are the same: below each of its prefixes, a path and the path
  with \<open>/v1\<close> before it reach the same handler, or are refused alike, but for
  \<open>/metrics/prometheus\<close>, which has no \<open>/v1\<close> form.\<close>

theorem api_versions_agree:
  assumes "prefix \<in> {''auth'', ''servers'', ''alerts'', ''metrics'', ''docker-metrics'', ''alertmanager'', ''audit''}"
    and "prefix # path \<noteq> [''metrics'', ''prometheus'']"
  shows "route v (''v1'' # prefix # path) = route v (prefix # path)"
  using versions_same [OF assms] by (simp add: route_def)

theorem api_versions_witness:
  "route GET [''v1'', ''servers'', ''7'', ''logs'', ''export''] = route GET [''servers'', ''7'', ''logs'', ''export'']"
  by (rule api_versions_agree) simp_all

text \<open>The path a template serves, and templates that take every path of another.\<close>

definition sample :: "segment list \<Rightarrow> string list" where
  "sample ps = map (\<lambda>p. case p of Fixed t \<Rightarrow> t | Param \<Rightarrow> ''1'') ps"

lemma served_route:
  assumes "route v path = Served h"
  shows "\<exists>ps. (v, ps, h) \<in> set app_routes \<and> segments_match ps path"
proof -
  obtain v' where "find (\<lambda>(v', _). v' = v) (candidates app_routes path) = Some (v', h)"
    using assms by (auto simp: route_def Let_def split: option.splits if_splits)
  then have "(v', h) \<in> set (candidates app_routes path)" "v' = v"
    unfolding find_Some_iff by (auto intro: nth_mem, metis nth_mem)
  then show ?thesis unfolding candidates_def by fastforce
qed

lemma export_routes:
  "filter (\<lambda>(v, ps, h). h = ''alerts.export_alert_events'') app_routes =
    [(GET, [Fixed ''v1'', Fixed ''alerts'', Fixed ''events'', Fixed ''export''], ''alerts.export_alert_events''),
     (GET, [Fixed ''alerts'', Fixed ''events'', Fixed ''export''], ''alerts.export_alert_events'')]"
  by code_simp

text \<open>Below a prefix only its router answers, so each router can be looked at by itself.\<close>

lemma candidates_router:
  assumes "distinct (map snd rs)" and "(r, p) \<in> set rs" and "p \<noteq> ver"
  shows "candidates (concat (map (\<lambda>(r, p). include_router [ver, p] r @ include_router [p] r) rs)) (p # path) = candidates r path"
  using assms(1,2)
proof (induction rs)
  case (Cons x rs)
  obtain r' p' where x: "x = (r', p')" by force
  have v: "candidates (include_router [ver, p'] r') (p # path) = []"
    using candidates_elsewhere [of ver p "[p']" r' path] assms(3) by simp
  have none: "candidates (concat (map (\<lambda>(r, p). include_router [ver, p] r @ include_router [p] r) qs)) (p # path) = []"
    if "p \<notin> snd ` set qs" for qs
    using that
  proof (induction qs)
    case (Cons y qs)
    obtain r'' p'' where y: "y = (r'', p'')" by force
    with Cons show ?case
      using candidates_elsewhere [of ver p "[p'']" r'' path] assms(3) by (auto simp: candidates_append candidates_one)
  qed (simp add: candidates_def)
  show ?case
  proof (cases "p' = p")
    case True
    with Cons.prems x have "r' = r" "p \<notin> snd ` set rs" by (auto dest: rev_image_eqI [where f = snd])
    with True none [of rs] v show ?thesis by (simp add: x candidates_append candidates_one)
  next
    case False
    with Cons x v show ?thesis by (auto simp: candidates_append candidates_one)
  qed
qed simp

definition serves :: "routes \<Rightarrow> verb \<times> segment list \<times> string \<Rightarrow> bool" where
  "serves r x = (case x of (v, ps, h) \<Rightarrow>
     h = ''alerts.export_alert_events'' \<or> find (\<lambda>(v', _). v' = v) (candidates r (sample ps)) = Some (v, h))"

lemma routers_serve: "list_all (\<lambda>(r, p). list_all (serves r) r) REST_ROUTERS"
  by code_simp

lemma app_candidates:
  assumes "(r, p) \<in> set REST_ROUTERS" and "p # path \<noteq> [''metrics'', ''prometheus'']"
  shows "candidates app_routes (p # path) = candidates r path"
    and "candidates app_routes (''v1'' # p # path) = candidates r path"
proof -
  have d: "distinct (map snd REST_ROUTERS)" "p \<in> {''auth'', ''servers'', ''alerts'', ''metrics'', ''docker-metrics'', ''alertmanager'', ''audit''}"
    using assms(1) by (auto simp: REST_ROUTERS_def)
  then have p: "p \<noteq> ''v1''" "p \<noteq> ''health''" "p \<noteq> ''reset-password''" by auto
  have "\<not> (''metrics'' = p \<and> segments_match [Fixed ''prometheus''] path)"
    using assms(2) by (cases path rule: remdups_adj.cases) auto
  then have "candidates [(GET, [Fixed ''metrics'', Fixed ''prometheus''], ''prometheus''),
      (GET, [Fixed ''health''], ''health''), (GET, [], ''root''),
      (GET, [Fixed ''reset-password''], ''reset_password_page'')] (p # path) = []"
    using p by (simp add: candidates_def)
  then show "candidates app_routes (p # path) = candidates r path"
    using candidates_router [OF d(1) assms(1) p(1), of path] by (simp add: app_routes_def candidates_append)
  then show "candidates app_routes (''v1'' # p # path) = candidates r path"
    using versions_same [OF d(2) assms(2)] by simp
qed

lemma app_routes_cases:
  assumes "x \<in> set app_routes"
  obtains (mounted) r p v ps h where "(r, p) \<in> set REST_ROUTERS" "(v, ps, h) \<in> set r"
      "x = (v, Fixed p # ps, h) \<or> x = (v, Fixed ''v1'' # Fixed p # ps, h)"
    | (own) "x \<in> {(GET, [Fixed ''metrics'', Fixed ''prometheus''], ''prometheus''), (GET, [Fixed ''health''], ''health''),
        (GET, [], ''root''), (GET, [Fixed ''reset-password''], ''reset_password_page'')}"
proof -
  let ?own = "[(GET, [Fixed ''metrics'', Fixed ''prometheus''], ''prometheus''), (GET, [Fixed ''health''], ''health''),
        (GET, [], ''root''), (GET, [Fixed ''reset-password''], ''reset_password_page'')]"
  consider "x \<in> set ?own" | r p where "(r, p) \<in> set REST_ROUTERS" "x \<in> set (include_router [''v1'', p] r @ include_router [p] r)"
    using assms unfolding app_routes_def set_append [of _ ?own] set_concat set_map Un_iff by (elim disjE UN_E imageE) (auto simp del: list.set)
  then show thesis
  proof cases
    case 1
    then show thesis unfolding list.set by (rule own)
  next
    case 2
    obtain v ps h where x: "x = (v, ps, h)" using prod_cases3 .
    have "\<exists>ps0. (v, ps0, h) \<in> set r \<and> (ps = Fixed p # ps0 \<or> ps = Fixed ''v1'' # Fixed p # ps0)"
      using 2(2) unfolding x include_router_def by auto
    with 2(1) mounted x show thesis by blast
  qed
qed

lemma sample_simps: "sample (Fixed t # ps) = t # sample ps"
  by (simp add: sample_def)

lemma no_prometheus:
  "(r, p) \<in> set REST_ROUTERS \<Longrightarrow> (v, ps, h) \<in> set r \<Longrightarrow> p # sample ps \<noteq> [''metrics'', ''prometheus'']"
proof -
  assume r: "(r, p) \<in> set REST_ROUTERS" "(v, ps, h) \<in> set r"
  have "list_all (\<lambda>(r, p). list_all (\<lambda>(v, ps, h). p # sample ps \<noteq> [''metrics'', ''prometheus'']) r) REST_ROUTERS"
    by code_simp
  with r show ?thesis by (auto simp: list_all_iff)
qed

lemma other_routes:
  "list_all (\<lambda>(v, ps, h). h = ''alerts.export_alert_events'' \<or> route v (sample ps) = Served h) app_routes"
proof -
  have "h = ''alerts.export_alert_events'' \<or> route v (sample ps) = Served h" if x: "(v, ps, h) \<in> set app_routes" for v ps h
    using x
  proof (cases rule: app_routes_cases)
    case (mounted r p v' ps0 h')
    then have "serves r (v, ps0, h)" and m: "(v, ps0, h) \<in> set r"
      using routers_serve by (auto simp: list_all_iff)
    moreover from mounted have "candidates app_routes (sample ps) = candidates r (sample ps0)"
      using app_candidates [OF mounted(1) no_prometheus [OF mounted(1) m]] by (auto simp: sample_simps)
    ultimately show ?thesis by (auto simp: serves_def route_def Let_def)
  next
    case own
    then consider "(v, ps, h) = (GET, [Fixed ''metrics'', Fixed ''prometheus''], ''prometheus'')"
      | "(v, ps, h) = (GET, [Fixed ''health''], ''health'')" | "(v, ps, h) = (GET, [], ''root'')"
      | "(v, ps, h) = (GET, [Fixed ''reset-password''], ''reset_password_page'')" by blast
    then have "route v (sample ps) = Served h" by cases (clarsimp; code_simp)+
    then show ?thesis by blast
  qed
  then show ?thesis by (auto simp: list_all_iff)
qed

lemma fixed_path: "segments_match (map Fixed ts) path \<longleftrightarrow> path = ts"
  by (induction ts arbitrary: path; case_tac path) auto

text \<open>Every endpoint but one can be reached: each registered route has a path of its template
  that its own handler serves, except the export of events, which no request reaches at all: the
  handler of a single event, registered before, takes the word export for an id.\<close>

theorem one_endpoint_is_unreachable:
  "list_all (\<lambda>(v, ps, h). h = ''alerts.export_alert_events'' \<or> route v (sample ps) = Served h) app_routes
   \<and> route v path \<noteq> Served ''alerts.export_alert_events''
   \<and> route GET [''alerts'', ''events'', ''export''] = Served ''alerts.get_alert_event''"
proof (intro conjI other_routes notI)
  show "route GET [''alerts'', ''events'', ''export''] = Served ''alerts.get_alert_event''" by code_simp
  assume served: "route v path = Served ''alerts.export_alert_events''"
  then obtain ps where "(v, ps, ''alerts.export_alert_events'') \<in> set app_routes" and m: "segments_match ps path"
    using served_route by blast
  then have "(v, ps, ''alerts.export_alert_events'') \<in> set (filter (\<lambda>(v, ps, h). h = ''alerts.export_alert_events'') app_routes)"
    by simp
  then have "v = GET" and "ps = map Fixed [''v1'', ''alerts'', ''events'', ''export''] \<or> ps = map Fixed [''alerts'', ''events'', ''export'']"
    unfolding export_routes by auto
  then consider "path = [''v1'', ''alerts'', ''events'', ''export'']" | "path = [''alerts'', ''events'', ''export'']"
    using m fixed_path by metis
  then show False
  proof cases
    case 1
    have "route GET [''v1'', ''alerts'', ''events'', ''export''] = Served ''alerts.get_alert_event''" by code_simp
    with served show False unfolding 1 \<open>v = GET\<close> by simp
  next
    case 2
    have "route GET [''alerts'', ''events'', ''export''] = Served ''alerts.get_alert_event''" by code_simp
    with served show False unfolding 2 \<open>v = GET\<close> by simp
  qed
qed

end
