(* ===== verification/PW_Agent.thy ===== *)
theory PW_Agent
  imports PW_Notifications PW_Ingest
begin

text \<open>
  The agent that runs on a monitored server (\<open>agent/\<close>): its settings, the collectors of
  container metrics, the sender, the loop that sends a round of metrics per interval and the
  loop that streams the journal over a WebSocket with a growing pause between connections.
  psutil, the Docker client, journalctl and the network are inputs. Both loops end only when
  the stop event is set, so they are partial functions of the whole sequence of rounds, and that
  they return is proved, not assumed. Floats are exact rationals.
\<close>

section \<open>Settings\<close>

record agent_settings =
  ag_api_url :: string
  ag_api_key :: string
  ag_logs_enabled :: bool
  ag_logs_ws_path :: string
  ag_logs_reconnect_max_seconds :: rat

definition ws_base_url :: "agent_settings \<Rightarrow> string" where
  "ws_base_url S = (let u = ag_api_url S in
     if startswith u ''https://'' then ''wss://'' @ drop (length ''https://'') u
     else if startswith u ''http://'' then ''ws://'' @ drop (length ''http://'') u
     else u)"

definition rstrip_slash :: "string \<Rightarrow> string" where
  "rstrip_slash = rstrip_class (\<lambda>c. c = CHR ''/'')"

definition streamer_url :: "agent_settings \<Rightarrow> string" where
  "streamer_url S = rstrip_slash (ws_base_url S) @ ag_logs_ws_path S @ ''?api_key='' @ ag_api_key S"

section \<open>Containers\<close>

text \<open>The numbers of a stats answer the code reads; None is a missing key.\<close>

record docker_stats =
  ds_total_usage :: "int option"
  ds_percpu_usage :: "int list option"
  ds_system_cpu_usage :: "int option"
  ds_online_cpus :: "int option"
  ds_pre_total_usage :: "int option"
  ds_pre_system_cpu_usage :: "int option"
  ds_memory_usage :: "int option"

definition get_or :: "'a \<Rightarrow> 'a option \<Rightarrow> 'a" where
  "get_or x v = (case v of None \<Rightarrow> x | Some y \<Rightarrow> y)"

text \<open>\<open>online_cpus or len(percpu_usage or []) or 1\<close>.\<close>

definition online_cpus :: "docker_stats \<Rightarrow> int" where
  "online_cpus st = (if get_or 0 (ds_online_cpus st) \<noteq> 0 then get_or 0 (ds_online_cpus st)
     else if get_or [] (ds_percpu_usage st) \<noteq> [] then int (length (get_or [] (ds_percpu_usage st)))
     else 1)"

definition calculate_cpu_percent :: "docker_stats \<Rightarrow> rat" where
  "calculate_cpu_percent st =
     (let cpu_delta = get_or 0 (ds_total_usage st) - get_or 0 (ds_pre_total_usage st);
          system_delta = get_or 0 (ds_system_cpu_usage st) - get_or 0 (ds_pre_system_cpu_usage st)
      in if system_delta \<le> 0 \<or> cpu_delta < 0 then 0
         else of_int cpu_delta / of_int system_delta * of_int (online_cpus st) * 100)"

text \<open>
  A container as the Docker client shows it: \<open>ct_config_image\<close> is \<open>Config.Image\<close>, \<open>ct_image\<close> the
  top-level \<open>Image\<close>, \<open>ct_memory\<close> is \<open>HostConfig.Memory\<close>, and \<open>ct_stats\<close> is None where asking for
  the stats raises DockerException.
\<close>

record container =
  ct_short_id :: string
  ct_name :: "string option"
  ct_config_image :: "string option"
  ct_image :: "string option"
  ct_memory :: "int option"
  ct_status :: string
  ct_stats :: "docker_stats option"

definition BYTES_IN_MB :: rat where
  "BYTES_IN_MB = 1024 * 1024"

definition removeprefix :: "string \<Rightarrow> string \<Rightarrow> string" where
  "removeprefix p s = (if startswith s p then drop (length p) s else s)"

definition container_image :: "container \<Rightarrow> string" where
  "container_image c =
     (let image = (if get_or [] (ct_config_image c) \<noteq> [] then get_or [] (ct_config_image c)
          else get_or [] (ct_image c))
      in removeprefix ''sha256:'' image)"

definition container_memory_limit_mb :: "container \<Rightarrow> rat option" where
  "container_memory_limit_mb c = (let mem_limit_bytes = get_or 0 (ct_memory c) in
     if mem_limit_bytes \<le> 0 then None else Some (of_int mem_limit_bytes / BYTES_IN_MB))"

text \<open>None is a DockerException.\<close>

definition collect_one :: "container \<Rightarrow> docker_item option" where
  "collect_one c =
     (let item = (\<lambda>cpu mem. \<lparr>di_container_id = ct_short_id c, di_container_name = get_or [] (ct_name c),
          di_image = container_image c, di_status = ct_status c, di_cpu_percent = Fin cpu,
          di_memory_usage_mb = Fin mem,
          di_memory_limit_mb = map_option Fin (container_memory_limit_mb c)\<rparr>)
      in if ct_status c \<noteq> ''running'' then Some (item 0 0)
         else map_option (\<lambda>st. item (calculate_cpu_percent st)
           (of_int (get_or 0 (ds_memory_usage st)) / BYTES_IN_MB)) (ct_stats c))"

text \<open>The daemon is None when it cannot be reached, or when listing its containers fails.\<close>

definition collect_docker_metrics :: "container list option \<Rightarrow> docker_item list" where
  "collect_docker_metrics daemon = (case daemon of
     None \<Rightarrow> []
   | Some containers \<Rightarrow> List.map_filter collect_one containers)"

section \<open>The sender\<close>

record sender =
  se_base_url :: string
  se_api_key :: string
  se_agent_version :: "string option"

definition new_sender :: "agent_settings \<Rightarrow> string option \<Rightarrow> sender" where
  "new_sender S version = \<lparr>se_base_url = rstrip_slash (ag_api_url S), se_api_key = ag_api_key S,
     se_agent_version = version\<rparr>"

datatype body = MetricBody metric_create | DockerBody "docker_item list"

record request =
  rq_url :: string
  rq_api_key :: string
  rq_body :: body

text \<open>A post succeeds only on 201; network errors and other answers are logged.\<close>

definition post :: "sender \<Rightarrow> (request \<Rightarrow> http_answer) \<Rightarrow> string \<Rightarrow> body \<Rightarrow> bool \<times> request" where
  "post s net path payload =
     (let rq = \<lparr>rq_url = se_base_url s @ path, rq_api_key = se_api_key s, rq_body = payload\<rparr>
      in (net rq = Status 201, rq))"

definition send :: "sender \<Rightarrow> (request \<Rightarrow> http_answer) \<Rightarrow> metric_create \<Rightarrow> bool \<times> request" where
  "send s net payload = post s net ''/metrics'' (MetricBody (case se_agent_version s of
     None \<Rightarrow> payload | Some v \<Rightarrow> payload\<lparr>mc_agent_version := Some v\<rparr>))"

definition send_docker :: "sender \<Rightarrow> (request \<Rightarrow> http_answer) \<Rightarrow> docker_item list \<Rightarrow> bool \<times> request" where
  "send_docker s net payload = post s net ''/docker-metrics'' (DockerBody payload)"

definition collect_system_metrics :: "pyfloat \<Rightarrow> pyfloat \<Rightarrow> pyfloat \<Rightarrow> metric_create" where
  "collect_system_metrics cpu memory disk = \<lparr>mc_cpu_percent = cpu, mc_memory_percent = memory,
     mc_disk_percent = disk, mc_agent_version = None\<rparr>"

section \<open>The loops\<close>

text \<open>What a round of the metrics loop meets.\<close>

record metrics_round =
  mr_stop :: bool
  mr_system :: metric_create
  mr_daemon :: "container list option"
  mr_net :: "request \<Rightarrow> http_answer"

definition round_requests :: "sender \<Rightarrow> metrics_round \<Rightarrow> request list" where
  "round_requests s r = [snd (send s (mr_net r) (mr_system r)),
     snd (send_docker s (mr_net r) (collect_docker_metrics (mr_daemon r)))]"

partial_function (option) metrics_loop :: "sender \<Rightarrow> (nat \<Rightarrow> metrics_round) \<Rightarrow> nat \<Rightarrow> request list option" where
  "metrics_loop s rounds n =
     (if mr_stop (rounds n) then Some []
      else Option.bind (metrics_loop s rounds (Suc n)) (\<lambda>rs. Some (round_requests s (rounds n) @ rs)))"

text \<open>
  A round of the streamer: whether the stop event is set before it, whether it connects, whether
  the connection ever ends (by an error, by the end of \<open>journalctl\<close> or by the first line after
  the stop event; it does not while the journal stays silent), and whether the event is set after it.
\<close>

record streamer_round =
  sr_stop :: bool
  sr_connected :: bool
  sr_ends :: bool
  sr_stop_after :: bool

text \<open>The pauses between the rounds, in seconds; None where the loop does not return.\<close>

partial_function (option) streamer_run :: "(nat \<Rightarrow> streamer_round) \<Rightarrow> rat \<Rightarrow> rat \<Rightarrow> nat \<Rightarrow> rat list option" where
  "streamer_run rounds max_backoff backoff n =
     (if sr_stop (rounds n) then Some []
      else if \<not> sr_ends (rounds n) then None
      else let pause = (if sr_connected (rounds n) then 1 else backoff) in
        if sr_stop_after (rounds n) then Some []
        else Option.bind (streamer_run rounds max_backoff (min (pause * 2) max_backoff) (Suc n))
          (\<lambda>ps. Some (pause # ps)))"

declare metrics_loop.simps [code] streamer_run.simps [code]

section \<open>Containers in bounds\<close>

lemma online_cpus_pos:
  assumes "0 \<le> get_or 0 (ds_online_cpus st)"
  shows "1 \<le> online_cpus st"
proof -
  have "1 \<le> int (length xs)" if "xs \<noteq> []" for xs :: "int list" using that by (cases xs) simp_all
  with assms show ?thesis by (simp add: online_cpus_def)
qed

lemma cpu_percent_bounds:
  assumes "0 \<le> get_or 0 (ds_online_cpus st)"
    and "get_or 0 (ds_total_usage st) - get_or 0 (ds_pre_total_usage st)
      \<le> get_or 0 (ds_system_cpu_usage st) - get_or 0 (ds_pre_system_cpu_usage st)"
  shows "0 \<le> calculate_cpu_percent st \<and> calculate_cpu_percent st \<le> 100 * of_int (online_cpus st)"
proof -
  let ?c = "get_or 0 (ds_total_usage st) - get_or 0 (ds_pre_total_usage st)"
  let ?s = "get_or 0 (ds_system_cpu_usage st) - get_or 0 (ds_pre_system_cpu_usage st)"
  have n: "0 \<le> (of_int (online_cpus st) :: rat)" using online_cpus_pos [OF assms(1)] by simp
  show ?thesis
  proof (cases "?s \<le> 0 \<or> ?c < 0")
    case False
    then have q: "0 \<le> (of_int ?c / of_int ?s :: rat)" "(of_int ?c / of_int ?s :: rat) \<le> 1"
      using assms(2) by (simp_all del: of_int_diff)
    then have "of_int ?c / of_int ?s * of_int (online_cpus st) \<le> (1 * of_int (online_cpus st) :: rat)"
      by (rule_tac mult_right_mono) (use n in simp_all)
    moreover have "0 \<le> (of_int ?c / of_int ?s * of_int (online_cpus st) :: rat)" using q(1) n by (rule mult_nonneg_nonneg)
    moreover have "calculate_cpu_percent st = of_int ?c / of_int ?s * of_int (online_cpus st) * 100"
      using False by (simp add: calculate_cpu_percent_def Let_def)
    moreover have "0 \<le> p \<and> p \<le> 100 * n" if "x \<le> 1 * n" "0 \<le> x" "p = x * 100" for x n p :: rat
      using that by simp
    ultimately show ?thesis by blast
  qed (use n in \<open>auto simp: calculate_cpu_percent_def Let_def\<close>)
qed

text \<open>A container whose stats fail is left out, the others are reported in order.\<close>

lemma collected_containers:
  "collect_docker_metrics (Some cs) =
    map (the \<circ> collect_one) (filter (\<lambda>c. ct_status c = ''running'' \<longrightarrow> ct_stats c \<noteq> None) cs)"
proof -
  have "collect_one c \<noteq> None \<longleftrightarrow> (ct_status c = ''running'' \<longrightarrow> ct_stats c \<noteq> None)" for c
    by (cases "ct_stats c") (simp_all add: collect_one_def Let_def)
  then show ?thesis
    by (simp add: collect_docker_metrics_def List.map_filter_def)
qed

section \<open>The pauses of the streamer\<close>

definition stops :: "(nat \<Rightarrow> streamer_round) \<Rightarrow> nat \<Rightarrow> bool" where
  "stops rounds n = (sr_stop (rounds n) \<or> sr_ends (rounds n) \<and> sr_stop_after (rounds n))"

definition hangs :: "(nat \<Rightarrow> streamer_round) \<Rightarrow> nat \<Rightarrow> bool" where
  "hangs rounds n = (\<not> sr_stop (rounds n) \<and> \<not> sr_ends (rounds n))"

text \<open>Rounds since the last connection, or since the start.\<close>

fun failures :: "(nat \<Rightarrow> streamer_round) \<Rightarrow> nat \<Rightarrow> nat" where
  "failures rounds 0 = 0"
| "failures rounds (Suc n) = (if sr_connected (rounds (Suc n)) then 0 else Suc (failures rounds n))"

definition pause_after :: "(nat \<Rightarrow> streamer_round) \<Rightarrow> rat \<Rightarrow> nat \<Rightarrow> rat" where
  "pause_after rounds max_backoff n = min (2 ^ failures rounds n) max_backoff"

lemma pause_0: "1 \<le> m \<Longrightarrow> pause_after rounds m 0 = 1"
  by (simp add: pause_after_def)

lemma pause_Suc:
  assumes "1 \<le> m"
  shows "pause_after rounds m (Suc n) =
    (if sr_connected (rounds (Suc n)) then 1 else min (pause_after rounds m n * 2) m)"
  using assms by (auto simp: pause_after_def min_def)

text \<open>Started in round \<open>n\<close> with the backoff the rounds before it leave, up to a stop in round \<open>n + k\<close>.\<close>

lemma streamer_up_to:
  assumes "1 \<le> m" and "stops rounds (n + k)" and "\<forall>j<k. \<not> stops rounds (n + j) \<and> \<not> hangs rounds (n + j)"
    and "pause_after rounds m n = (if sr_connected (rounds n) then 1 else backoff)"
  shows "streamer_run rounds m backoff n = Some (map (pause_after rounds m) [n..<n + k])"
  using assms
proof (induction k arbitrary: n backoff)
  case 0
  then show ?case by (subst streamer_run.simps) (auto simp: stops_def)
next
  case (Suc k)
  let ?p = "pause_after rounds m n"
  have "\<not> stops rounds n \<and> \<not> hangs rounds n" using Suc.prems(3) by (metis add_0_right zero_less_Suc)
  then have go: "\<not> sr_stop (rounds n)" "sr_ends (rounds n)" "\<not> sr_stop_after (rounds n)"
    by (auto simp: stops_def hangs_def)
  have later: "\<forall>j<k. \<not> stops rounds (Suc n + j) \<and> \<not> hangs rounds (Suc n + j)"
    using Suc.prems(3) by (metis Suc_less_eq add_Suc_right add_Suc)
  have "streamer_run rounds m (min (?p * 2) m) (Suc n) = Some (map (pause_after rounds m) [Suc n..<Suc n + k])"
    by (rule Suc.IH [OF Suc.prems(1) _ later]) (use Suc.prems in \<open>simp_all add: pause_Suc\<close>)
  with go Suc.prems(4) show ?case
    by (subst streamer_run.simps) (simp add: upt_conv_Cons Let_def del: upt_Suc)
qed

lemma streamer_returns_stops:
  assumes "streamer_run rounds m backoff n = Some ps"
  shows "\<exists>k\<ge>n. stops rounds k \<and> (\<forall>j. n \<le> j \<and> j < k \<longrightarrow> \<not> hangs rounds j)"
proof (rule streamer_run.raw_induct [where P = "\<lambda>rounds m b n ps.
    \<exists>k\<ge>n. stops rounds k \<and> (\<forall>j. n \<le> j \<and> j < k \<longrightarrow> \<not> hangs rounds j)", OF _ assms])
  fix run rounds m backoff n ps
  assume IH: "\<And>rounds m b n ps. run rounds m b n = Some ps \<Longrightarrow>
      \<exists>k\<ge>n. stops rounds k \<and> (\<forall>j. n \<le> j \<and> j < k \<longrightarrow> \<not> hangs rounds j)"
    and returns: "(if sr_stop (rounds n) then Some [] else if \<not> sr_ends (rounds n) then None
      else let pause = if sr_connected (rounds n) then 1 else backoff
      in if sr_stop_after (rounds n) then Some []
         else Option.bind (run rounds m (min (pause * 2) m) (Suc n)) (\<lambda>ps. Some (pause # ps))) = Some (ps :: rat list)"
  have "stops rounds n \<or> \<not> hangs rounds n \<and> (\<exists>b ps'. run rounds m b (Suc n) = Some ps')"
    using returns by (auto simp: stops_def hangs_def Let_def bind_eq_Some_conv split: if_splits)
  then show "\<exists>k\<ge>n. stops rounds k \<and> (\<forall>j. n \<le> j \<and> j < k \<longrightarrow> \<not> hangs rounds j)"
  proof (elim disjE conjE exE)
    fix b ps' assume "\<not> hangs rounds n" and "run rounds m b (Suc n) = Some ps'"
    then obtain k where "Suc n \<le> k" "stops rounds k" "\<forall>j. Suc n \<le> j \<and> j < k \<longrightarrow> \<not> hangs rounds j"
      using IH by blast
    with \<open>\<not> hangs rounds n\<close> show ?thesis by (metis Suc_leD Suc_leI le_neq_implies_less)
  qed auto
qed

section \<open>Properties\<close>

text \<open>C25: the loop that streams the journal returns exactly when a round sees the stop event and no
  round before it hangs (a connection that waits on a silent journal sees no event), and the
  pauses between its connections are powers of two of the failures since the last connection,
  capped by the setting.\<close>

theorem streamer_backs_off:
  assumes "1 \<le> ag_logs_reconnect_max_seconds S"
  shows "streamer_run rounds (ag_logs_reconnect_max_seconds S) 1 0 =
    (if \<exists>k. stops rounds k \<and> (\<forall>j<k. \<not> hangs rounds j)
     then Some (map (\<lambda>n. min (2 ^ failures rounds n) (ag_logs_reconnect_max_seconds S)) [0..<LEAST k. stops rounds k])
     else None)"
proof (cases "\<exists>k. stops rounds k \<and> (\<forall>j<k. \<not> hangs rounds j)")
  case True
  then obtain k where k: "stops rounds k" "\<forall>j<k. \<not> hangs rounds j" by blast
  let ?k = "LEAST k. stops rounds k"
  have "\<forall>j<?k. \<not> stops rounds j \<and> \<not> hangs rounds j"
    using k(2) Least_le [of "stops rounds", OF k(1)] not_less_Least [of _ "stops rounds"] by (meson less_le_trans)
  moreover have "stops rounds ?k" by (rule LeastI [of "stops rounds", OF k(1)])
  ultimately have "streamer_run rounds (ag_logs_reconnect_max_seconds S) 1 0 =
      Some (map (pause_after rounds (ag_logs_reconnect_max_seconds S)) [0..<0 + ?k])"
    by (intro streamer_up_to) (use assms pause_0 [OF assms] in \<open>simp_all only: add_0 if_cancel\<close>)
  with True show ?thesis by (simp add: pause_after_def fun_eq_iff)
next
  case False
  then show ?thesis
    using streamer_returns_stops [of rounds "ag_logs_reconnect_max_seconds S" 1 0]
    by (cases "streamer_run rounds (ag_logs_reconnect_max_seconds S) 1 0") auto
qed

definition demo_agent :: agent_settings where
  "demo_agent = \<lparr>ag_api_url = ''https://pulse/'', ag_api_key = ''key'', ag_logs_enabled = True, ag_logs_ws_path = ''/ws/agent/logs'',
     ag_logs_reconnect_max_seconds = 5\<rparr>"

definition demo_rounds :: "nat \<Rightarrow> streamer_round" where
  "demo_rounds n = \<lparr>sr_stop = False, sr_connected = (n = 4), sr_ends = (n < 7), sr_stop_after = (n = 6)\<rparr>"

theorem streamer_witness:
  "streamer_run demo_rounds (ag_logs_reconnect_max_seconds demo_agent) 1 0 = Some [1, 2, 4, 5, 1, 2]"
proof -
  have "stops demo_rounds k = (k = 6)" for k by (auto simp: stops_def demo_rounds_def)
  moreover have "\<not> hangs demo_rounds j" if "j < 6" for j using that by (simp add: hangs_def demo_rounds_def)
  ultimately have l: "(LEAST k. stops demo_rounds k) = 6" "\<exists>k. stops demo_rounds k \<and> (\<forall>j<k. \<not> hangs demo_rounds j)"
    by (auto intro: Least_equality)
  have "map (\<lambda>n. min (2 ^ failures demo_rounds n) (5 :: rat)) [0..<6] = [1, 2, 4, 5, 1, 2]"
    by (simp add: eval_nat_numeral) (simp add: demo_rounds_def)
  then show ?thesis
    using streamer_backs_off [of demo_agent demo_rounds] l by (simp add: demo_agent_def)
qed

end
