(* ===== verification/PW_Machine.thy ===== *)
theory PW_Machine
  imports Main
begin

text \<open>
  Machines of labelled steps, for the processes that run several tasks at once: runs over a list
  of labels, the contract of an invariant that every step keeps, and the contract of a machine
  that has a bounded amount of work left once it is told to stop.
\<close>

inductive machine_run :: "('s \<Rightarrow> 'l \<Rightarrow> 's \<Rightarrow> bool) \<Rightarrow> 's \<Rightarrow> 'l list \<Rightarrow> 's \<Rightarrow> bool" for step where
  stay: "machine_run step s [] s"
| move: "step s l s' \<Longrightarrow> machine_run step s' ls s'' \<Longrightarrow> machine_run step s (l # ls) s''"

inductive_simps machine_run_Nil [simp]: "machine_run step s [] s'"
inductive_simps machine_run_Cons: "machine_run step s (l # ls) s'"

lemma machine_run_append:
  "machine_run step s (ls @ ms) s'' \<longleftrightarrow> (\<exists>s'. machine_run step s ls s' \<and> machine_run step s' ms s'')"
  by (induction ls arbitrary: s) (auto simp: machine_run_Cons)

text \<open>A predicate that every step with an allowed label keeps is kept by every such run.\<close>

lemma machine_run_keeps:
  assumes "machine_run step s ls s'" and "P s" and "\<forall>l \<in> set ls. A l"
    and "\<And>s l s'. step s l s' \<Longrightarrow> A l \<Longrightarrow> P s \<Longrightarrow> P s'"
  shows "P s'"
  using assms(1-3) by (induction rule: machine_run.induct) (auto dest: assms(4))

definition stuck :: "('s \<Rightarrow> 'l \<Rightarrow> 's \<Rightarrow> bool) \<Rightarrow> 's \<Rightarrow> bool" where
  "stuck step s \<longleftrightarrow> (\<forall>l s'. \<not> step s l s')"

locale machine =
  fixes step :: "'s \<Rightarrow> 'l \<Rightarrow> 's \<Rightarrow> bool"
    and inv :: "'s \<Rightarrow> bool"
  assumes step_inv: "step s l s' \<Longrightarrow> inv s \<Longrightarrow> inv s'"
begin

lemma run_inv: "machine_run step s ls s' \<Longrightarrow> inv s \<Longrightarrow> inv s'"
  by (erule machine_run_keeps [where A = "\<lambda>_. True"]) (auto intro: step_inv)

end

text \<open>
  Once \<open>told\<close>, a machine stays told and every step uses up work; where it can do nothing more it
  is at rest.
\<close>

locale stopping_machine = machine step inv
  for step :: "'s \<Rightarrow> 'l \<Rightarrow> 's \<Rightarrow> bool" and inv +
  fixes told :: "'s \<Rightarrow> bool"
    and work :: "'s \<Rightarrow> nat"
    and at_rest :: "'s \<Rightarrow> bool"
  assumes told_step: "step s l s' \<Longrightarrow> told s \<Longrightarrow> told s'"
    and work_step: "step s l s' \<Longrightarrow> inv s \<Longrightarrow> told s \<Longrightarrow> work s' < work s"
    and stuck_rest: "inv s \<Longrightarrow> told s \<Longrightarrow> stuck step s \<Longrightarrow> at_rest s"
begin

lemma run_work:
  assumes "machine_run step s ls s'" and "inv s" and "told s"
  shows "length ls + work s' \<le> work s"
  using assms
proof (induction rule: machine_run.induct)
  case (move s l s' ls s'')
  then have "work s' < work s" and "length ls + work s'' \<le> work s'"
    by (auto intro: work_step step_inv told_step)
  then show ?case by simp
qed simp

lemma run_told: "machine_run step s ls s' \<Longrightarrow> told s \<Longrightarrow> told s'"
  by (erule machine_run_keeps [where A = "\<lambda>_. True"]) (auto intro: told_step)

text \<open>Every run ends after at most \<open>work\<close> steps, and where it ends, it is at rest.\<close>

lemma run_comes_to_rest:
  assumes "machine_run step s ls s'" and "inv s" and "told s"
  shows "length ls \<le> work s" and "stuck step s' \<Longrightarrow> at_rest s'"
  using run_work [OF assms] stuck_rest [OF run_inv [OF assms(1,2)] run_told [OF assms(1,3)]] by auto

lemma can_come_to_rest:
  assumes "inv s" and "told s"
  shows "\<exists>ls s'. machine_run step s ls s' \<and> stuck step s' \<and> at_rest s'"
  using assms
proof (induction "work s" arbitrary: s rule: less_induct)
  case less
  show ?case
  proof (cases "stuck step s")
    case True
    with less.prems have "at_rest s" by (intro stuck_rest)
    with True machine_run.stay [of step s] show ?thesis by blast
  next
    case False
    then obtain l s' where l: "step s l s'" by (auto simp: stuck_def)
    have "work s' < work s" "inv s'" "told s'"
      using work_step [OF l] step_inv [OF l] told_step [OF l] less.prems by blast+
    then obtain ls s'' where "machine_run step s' ls s''" "stuck step s''" "at_rest s''"
      using less.hyps by blast
    with l show ?thesis by (blast intro: machine_run.move)
  qed
qed

end

end
