(* ===== verification/PW_AgentRun.thy ===== *)
theory PW_AgentRun
  imports PW_Agent PW_Machine "HOL-Library.Sublist"
begin

text \<open>
  The agent as a process (\<open>run\<close> of \<open>agent/agent.py\<close>): the two tasks and the coroutine that waits
  for them, the signal that sets the stop event, cancellation, and the journalctl processes the
  streamer starts (\<open>agent/collectors/logs_collector.py\<close>). \<open>agent_step\<close> is one step between two
  awaits of one of the tasks, of the main coroutine, or of a journalctl process; its label holds
  what the world answered. Nothing is assumed of the order in which the steps come.

  A generator of journal lines that its loop abandons is closed by the event loop at some later
  moment, which runs its \<open>finally\<close> block: such processes are the orphans of the state.
\<close>

section \<open>Tasks\<close>

datatype 'a task = Running 'a | Finished | Crashed | Cancelled

fun over :: "'a task \<Rightarrow> bool" where
  "over (Running _) = False"
| "over _ = True"

text \<open>The awaits of \<open>_metrics_loop\<close>; the first stage is the task that has not begun.\<close>

datatype metrics_stage =
    MetricsStart
  | CollectingSystem
  | PostingSystem metric_create
  | CollectingDocker
  | PostingDocker "docker_item list"
  | Pausing

text \<open>
  The awaits of \<open>LogsStreamer.run\<close>. \<open>LeavingJournal\<close> is the \<open>finally\<close> block of the generator inside
  the loop and \<open>ClosingSocket\<close> the end of the \<open>async with\<close>; their flag says that a cancellation
  is being raised through them.
\<close>

datatype stream_stage =
    StreamStart
  | Connecting
  | SpawningJournal
  | ReadingJournal
  | SendingLine string
  | LeavingJournal bool
  | ClosingSocket bool
  | BackingOff

text \<open>
  A journalctl process: followed, sent SIGTERM, sent SIGKILL, exited, or signalled by a \<open>finally\<close>
  block that was itself cancelled before the process exited.
\<close>

datatype journal = Following | Terminated | Killed | Gone | Released

datatype main_stage = Waiting | Gathering | ClosingSender | Returned

record agent =
  ag_main :: main_stage
  ag_stop :: bool
  ag_cancel :: bool
  ag_metrics :: "metrics_stage task"
  ag_stream :: "stream_stage task option"
  ag_journal :: "journal option"
  ag_orphans :: "journal list"
  ag_open :: bool
  ag_posts :: "request list"
  ag_read :: "string list"
  ag_sent :: "string list"

text \<open>The state in which \<open>run\<close> waits for its tasks; the streamer runs if logs are enabled.\<close>

definition agent_start :: "agent_settings \<Rightarrow> agent" where
  "agent_start S = \<lparr>ag_main = Waiting, ag_stop = False, ag_cancel = False,
     ag_metrics = Running MetricsStart,
     ag_stream = (if ag_logs_enabled S then Some (Running StreamStart) else None),
     ag_journal = None, ag_orphans = [], ag_open = True, ag_posts = [], ag_read = [], ag_sent = []\<rparr>"

definition stream_over :: "agent \<Rightarrow> bool" where
  "stream_over st = (case ag_stream st of None \<Rightarrow> True | Some t \<Rightarrow> over t)"

text \<open>The conditions of the two loops, and the end of a round of the streamer.\<close>

definition metrics_head :: "agent \<Rightarrow> metrics_stage task" where
  "metrics_head st = (if ag_stop st then Finished else Running CollectingSystem)"

definition stream_head :: "agent \<Rightarrow> stream_stage task" where
  "stream_head st = (if ag_stop st then Finished else Running Connecting)"

definition after_round :: "agent \<Rightarrow> stream_stage task" where
  "after_round st = (if ag_stop st then Finished else Running BackingOff)"

section \<open>The journal\<close>

text \<open>\<open>line.decode("utf-8", errors="replace")\<close> is the text, which keeps its newline.\<close>

definition journal_line :: "string \<Rightarrow> string" where
  "journal_line text = rstrip_class (\<lambda>c. c = CHR 0x0A) text"

text \<open>
  What becomes of a process in the \<open>finally\<close> block: it had exited already, or it is terminated
  and exits, or does not within two seconds and is killed.
\<close>

inductive journal_step :: "journal \<Rightarrow> journal \<Rightarrow> bool" where
  had_exited: "journal_step Following Gone"
| terminate: "journal_step Following Terminated"
| exits: "journal_step Terminated Gone"
| times_out: "journal_step Terminated Killed"
| reaped: "journal_step Killed Gone"

inductive_simps journal_step_simps [simp]:
  "journal_step Following j" "journal_step Terminated j" "journal_step Killed j" "journal_step Gone j"
  "journal_step Released j"

section \<open>Steps\<close>

abbreviation set_stream :: "stream_stage task \<Rightarrow> agent \<Rightarrow> agent" where
  "set_stream t st \<equiv> st\<lparr>ag_stream := Some t\<rparr>"

abbreviation at_stream :: "agent \<Rightarrow> stream_stage \<Rightarrow> bool" where
  "at_stream st s \<equiv> ag_stream st = Some (Running s)"

text \<open>The loop over the journal is left with its generator still suspended at a line.\<close>

definition abandon :: "agent \<Rightarrow> agent" where
  "abandon st = st\<lparr>ag_journal := None, ag_orphans := ag_orphans st @ (case ag_journal st of None \<Rightarrow> [] | Some j \<Rightarrow> [j])\<rparr>"

fun release :: "journal \<Rightarrow> journal" where
  "release Gone = Gone"
| "release Following = Following"
| "release _ = Released"

datatype agent_label =
    Signal
  | MetricsBegins
  | SystemCollected metric_create
  | Posted "request \<Rightarrow> http_answer"
  | DockerCollected "container list option"
  | MetricsWakes
  | MetricsRaises
  | MetricsCancelled
  | StreamBegins
  | Connected bool
  | Spawned bool
  | JournalLine string
  | JournalEnds
  | LineSent bool
  | JournalLeft
  | SocketClosed
  | StreamWakes
  | StreamCancelled
  | JournalCleanup
  | OrphanCleanup
  | MainWakes
  | Gathered
  | SenderClosed

text \<open>The metrics loop; once cancelled, the next thing a task sees is the cancellation.\<close>

inductive metrics_step :: "sender \<Rightarrow> agent \<Rightarrow> agent_label \<Rightarrow> agent \<Rightarrow> bool" for s where
  begins: "\<not> ag_cancel st \<Longrightarrow> ag_metrics st = Running MetricsStart \<Longrightarrow>
    metrics_step s st MetricsBegins (st\<lparr>ag_metrics := metrics_head st\<rparr>)"
| system_collected: "\<not> ag_cancel st \<Longrightarrow> ag_metrics st = Running CollectingSystem \<Longrightarrow>
    metrics_step s st (SystemCollected p) (st\<lparr>ag_metrics := Running (PostingSystem p)\<rparr>)"
| system_posted: "\<not> ag_cancel st \<Longrightarrow> ag_metrics st = Running (PostingSystem p) \<Longrightarrow>
    metrics_step s st (Posted net) (st\<lparr>ag_metrics := Running CollectingDocker,
      ag_posts := ag_posts st @ [snd (send s net p)]\<rparr>)"
| docker_collected: "\<not> ag_cancel st \<Longrightarrow> ag_metrics st = Running CollectingDocker \<Longrightarrow>
    metrics_step s st (DockerCollected daemon)
      (st\<lparr>ag_metrics := Running (PostingDocker (collect_docker_metrics daemon))\<rparr>)"
| docker_posted: "\<not> ag_cancel st \<Longrightarrow> ag_metrics st = Running (PostingDocker items) \<Longrightarrow>
    metrics_step s st (Posted net) (st\<lparr>ag_metrics := Running Pausing,
      ag_posts := ag_posts st @ [snd (send_docker s net items)]\<rparr>)"
| wakes: "\<not> ag_cancel st \<Longrightarrow> ag_metrics st = Running Pausing \<Longrightarrow>
    metrics_step s st MetricsWakes (st\<lparr>ag_metrics := metrics_head st\<rparr>)"
| raises: "\<not> ag_cancel st \<Longrightarrow> ag_metrics st = Running m \<Longrightarrow> m \<noteq> MetricsStart \<Longrightarrow> m \<noteq> Pausing \<Longrightarrow>
    metrics_step s st MetricsRaises (st\<lparr>ag_metrics := Crashed\<rparr>)"
| cancelled: "ag_cancel st \<Longrightarrow> ag_metrics st = Running m \<Longrightarrow>
    metrics_step s st MetricsCancelled (st\<lparr>ag_metrics := Cancelled\<rparr>)"

text \<open>
  The streamer. Every exception but a cancellation is logged and ends the round, so a refused
  connection, a journalctl that does not start, a line that cannot be sent and a journal that
  cannot be read all lead to the end of the round.
\<close>

inductive stream_step :: "agent \<Rightarrow> agent_label \<Rightarrow> agent \<Rightarrow> bool" where
  begins: "\<not> ag_cancel st \<Longrightarrow> at_stream st StreamStart \<Longrightarrow>
    stream_step st StreamBegins (set_stream (stream_head st) st)"
| connected: "\<not> ag_cancel st \<Longrightarrow> at_stream st Connecting \<Longrightarrow>
    stream_step st (Connected ok) (set_stream (if ok then Running SpawningJournal else after_round st) st)"
| spawned: "\<not> ag_cancel st \<Longrightarrow> at_stream st SpawningJournal \<Longrightarrow>
    stream_step st (Spawned True) (set_stream (Running ReadingJournal) (st\<lparr>ag_journal := Some Following\<rparr>))"
| not_spawned: "\<not> ag_cancel st \<Longrightarrow> at_stream st SpawningJournal \<Longrightarrow>
    stream_step st (Spawned False) (set_stream (Running (ClosingSocket False)) st)"
| line: "\<not> ag_cancel st \<Longrightarrow> at_stream st ReadingJournal \<Longrightarrow> \<not> ag_stop st \<Longrightarrow>
    stream_step st (JournalLine text) (set_stream (Running (SendingLine (journal_line text)))
      (st\<lparr>ag_read := ag_read st @ [journal_line text]\<rparr>))"
| line_stops: "\<not> ag_cancel st \<Longrightarrow> at_stream st ReadingJournal \<Longrightarrow> ag_stop st \<Longrightarrow>
    stream_step st (JournalLine text) (set_stream (Running (ClosingSocket False))
      (abandon (st\<lparr>ag_read := ag_read st @ [journal_line text]\<rparr>)))"
| journal_ends: "\<not> ag_cancel st \<Longrightarrow> at_stream st ReadingJournal \<Longrightarrow> ag_journal st = Some j \<Longrightarrow> journal_step j j' \<Longrightarrow>
    stream_step st JournalEnds (set_stream (Running (LeavingJournal False)) (st\<lparr>ag_journal := Some j'\<rparr>))"
| line_sent: "\<not> ag_cancel st \<Longrightarrow> at_stream st (SendingLine l) \<Longrightarrow>
    stream_step st (LineSent True) (set_stream (Running ReadingJournal) (st\<lparr>ag_sent := ag_sent st @ [l]\<rparr>))"
| line_not_sent: "\<not> ag_cancel st \<Longrightarrow> at_stream st (SendingLine l) \<Longrightarrow>
    stream_step st (LineSent False) (set_stream (Running (ClosingSocket False)) (abandon st))"
| journal_cleanup: "c \<or> \<not> ag_cancel st \<Longrightarrow> at_stream st (LeavingJournal c) \<Longrightarrow> ag_journal st = Some j \<Longrightarrow>
    journal_step j j' \<Longrightarrow> stream_step st JournalCleanup (st\<lparr>ag_journal := Some j'\<rparr>)"
| journal_left: "c \<or> \<not> ag_cancel st \<Longrightarrow> at_stream st (LeavingJournal c) \<Longrightarrow> ag_journal st = Some Gone \<Longrightarrow>
    stream_step st JournalLeft (set_stream (Running (ClosingSocket c)) (st\<lparr>ag_journal := None\<rparr>))"
| socket_closed: "c \<or> \<not> ag_cancel st \<Longrightarrow> at_stream st (ClosingSocket c) \<Longrightarrow>
    stream_step st SocketClosed (set_stream (if c then Cancelled else after_round st) st)"
| wakes: "\<not> ag_cancel st \<Longrightarrow> at_stream st BackingOff \<Longrightarrow>
    stream_step st StreamWakes (set_stream (stream_head st) st)"
| cancelled: "ag_cancel st \<Longrightarrow> at_stream st m \<Longrightarrow> m \<in> {StreamStart, Connecting, BackingOff, ClosingSocket False} \<Longrightarrow>
    stream_step st StreamCancelled (set_stream Cancelled st)"
| cancelled_spawning: "ag_cancel st \<Longrightarrow> at_stream st SpawningJournal \<Longrightarrow>
    stream_step st StreamCancelled (set_stream (Running (ClosingSocket True)) st)"
| cancelled_reading: "ag_cancel st \<Longrightarrow> at_stream st ReadingJournal \<Longrightarrow> ag_journal st = Some j \<Longrightarrow> journal_step j j' \<Longrightarrow>
    stream_step st StreamCancelled (set_stream (Running (LeavingJournal True)) (st\<lparr>ag_journal := Some j'\<rparr>))"
| cancelled_sending: "ag_cancel st \<Longrightarrow> at_stream st (SendingLine l) \<Longrightarrow>
    stream_step st StreamCancelled (set_stream (Running (ClosingSocket True)) (abandon st))"
| cancelled_leaving: "ag_cancel st \<Longrightarrow> at_stream st (LeavingJournal False) \<Longrightarrow>
    stream_step st StreamCancelled (set_stream (Running (ClosingSocket True))
      (abandon (st\<lparr>ag_journal := map_option release (ag_journal st)\<rparr>)))"

text \<open>
  The main coroutine: \<open>asyncio.wait\<close> returns when a task has failed or both are over, and the
  \<open>finally\<close> block sets the stop event, cancels what still runs, waits for it and closes the sender.
\<close>

inductive main_step :: "agent \<Rightarrow> agent_label \<Rightarrow> agent \<Rightarrow> bool" where
  signal: "ag_main st \<noteq> Returned \<Longrightarrow> \<not> ag_stop st \<Longrightarrow> main_step st Signal (st\<lparr>ag_stop := True\<rparr>)"
| wakes: "ag_main st = Waiting \<Longrightarrow>
    ag_metrics st = Crashed \<or> ag_stream st = Some Crashed \<or> over (ag_metrics st) \<and> stream_over st \<Longrightarrow>
    main_step st MainWakes (st\<lparr>ag_main := Gathering, ag_stop := True, ag_cancel := True\<rparr>)"
| gathered: "ag_main st = Gathering \<Longrightarrow> over (ag_metrics st) \<Longrightarrow> stream_over st \<Longrightarrow>
    main_step st Gathered (st\<lparr>ag_main := ClosingSender\<rparr>)"
| sender_closed: "ag_main st = ClosingSender \<Longrightarrow>
    main_step st SenderClosed (st\<lparr>ag_main := Returned, ag_open := False\<rparr>)"

text \<open>
  A step of any part. The event loop closes an abandoned generator in a task of its own; when \<open>run\<close>
  has returned, such a task that still waits for its process is cancelled.
\<close>

inductive agent_step :: "sender \<Rightarrow> agent \<Rightarrow> agent_label \<Rightarrow> agent \<Rightarrow> bool" for s where
  metrics: "metrics_step s st l st' \<Longrightarrow> agent_step s st l st'"
| stream: "stream_step st l st' \<Longrightarrow> agent_step s st l st'"
| main: "main_step st l st' \<Longrightarrow> agent_step s st l st'"
| orphan: "i < length (ag_orphans st) \<Longrightarrow> journal_step (ag_orphans st ! i) j \<Longrightarrow>
    agent_step s st OrphanCleanup (st\<lparr>ag_orphans := (ag_orphans st)[i := j]\<rparr>)"
| released: "i < length (ag_orphans st) \<Longrightarrow> ag_main st = Returned \<Longrightarrow> ag_orphans st ! i \<in> {Terminated, Killed} \<Longrightarrow>
    agent_step s st OrphanCleanup (st\<lparr>ag_orphans := (ag_orphans st)[i := Released]\<rparr>)"

inductive_cases agent_stepE: "agent_step s st l st'"
inductive_cases metrics_stepE: "metrics_step s st l st'"
inductive_cases stream_stepE: "stream_step st l st'"
inductive_cases main_stepE: "main_step st l st'"

section \<open>The invariant\<close>

fun in_loop :: "stream_stage \<Rightarrow> bool" where
  "in_loop ReadingJournal = True"
| "in_loop (SendingLine _) = True"
| "in_loop _ = False"

fun leaving :: "stream_stage \<Rightarrow> bool" where
  "leaving (LeavingJournal _) = True"
| "leaving _ = False"

text \<open>
  A journalctl is attached exactly while the streamer is inside the loop over its lines, and is
  followed until the loop ends; a task is cancelled only once the main coroutine gathers; the
  sender is closed only when both tasks are over; the lines sent are lines read, in their order.
\<close>

fun journal_ok :: "stream_stage task option \<Rightarrow> journal option \<Rightarrow> bool" where
  "journal_ok (Some (Running s)) j =
     (if in_loop s then j = Some Following else if leaving s then j \<notin> {None, Some Following, Some Released} else j = None)"
| "journal_ok _ j = (j = None)"

definition main_inv :: "agent \<Rightarrow> bool" where
  "main_inv st \<longleftrightarrow> (ag_cancel st \<longleftrightarrow> ag_main st \<noteq> Waiting) \<and> (ag_cancel st \<longrightarrow> ag_stop st)
     \<and> (ag_main st \<in> {ClosingSender, Returned} \<longrightarrow> over (ag_metrics st) \<and> stream_over st)
     \<and> (ag_open st \<longleftrightarrow> ag_main st \<noteq> Returned)
     \<and> (at_stream st (LeavingJournal True) \<or> at_stream st (ClosingSocket True) \<longrightarrow> ag_cancel st)
     \<and> ag_stream st \<noteq> Some Crashed"

fun pending_line :: "stream_stage task option \<Rightarrow> string list" where
  "pending_line (Some (Running (SendingLine l))) = [l]"
| "pending_line _ = []"

definition lines_inv :: "agent \<Rightarrow> bool" where
  "lines_inv st \<longleftrightarrow> subseq (ag_sent st @ pending_line (ag_stream st)) (ag_read st)"

definition agent_inv :: "agent \<Rightarrow> bool" where
  "agent_inv st \<longleftrightarrow> journal_ok (ag_stream st) (ag_journal st) \<and> main_inv st \<and> lines_inv st"

lemma journal_step_told: "journal_step j j' \<Longrightarrow> j' \<noteq> Following \<and> j' \<noteq> Released"
  by (erule journal_step.cases) simp_all

lemma abandon_simps [simp]:
  "ag_main (abandon st) = ag_main st" "ag_stop (abandon st) = ag_stop st" "ag_cancel (abandon st) = ag_cancel st"
  "ag_metrics (abandon st) = ag_metrics st" "ag_stream (abandon st) = ag_stream st" "ag_journal (abandon st) = None"
  "ag_open (abandon st) = ag_open st" "ag_posts (abandon st) = ag_posts st" "ag_read (abandon st) = ag_read st"
  "ag_sent (abandon st) = ag_sent st"
  by (simp_all add: abandon_def)

lemma agent_start_inv: "agent_inv (agent_start S)"
  by (simp add: agent_inv_def main_inv_def lines_inv_def agent_start_def stream_over_def)

lemma journal_ok_step:
  assumes "agent_step s st l st'" and "journal_ok (ag_stream st) (ag_journal st)"
  shows "journal_ok (ag_stream st') (ag_journal st')"
  using assms(1)
proof (cases rule: agent_step.cases)
  case stream
  then show ?thesis
    using assms(2)
    by (cases rule: stream_step.cases)
      (auto simp: stream_head_def after_round_def dest: journal_step_told)
next
  case metrics
  then show ?thesis using assms(2) by (cases rule: metrics_step.cases) simp_all
next
  case main
  then show ?thesis using assms(2) by (cases rule: main_step.cases) simp_all
qed (use assms(2) in simp_all)

lemma main_inv_step:
  assumes "agent_step s st l st'" and "main_inv st"
  shows "main_inv st'"
  using assms(1)
proof (cases rule: agent_step.cases)
  case stream
  then show ?thesis
    using assms(2)
    by (cases rule: stream_step.cases)
      (auto simp: main_inv_def stream_over_def stream_head_def after_round_def)
next
  case metrics
  then show ?thesis
    using assms(2) by (cases rule: metrics_step.cases) (auto simp: main_inv_def stream_over_def metrics_head_def)
next
  case main
  then show ?thesis using assms(2) by (cases rule: main_step.cases) (auto simp: main_inv_def stream_over_def)
qed (use assms(2) in \<open>auto simp: main_inv_def stream_over_def\<close>)

lemma subseq_prefix: "subseq (xs @ ys) zs \<Longrightarrow> subseq xs zs"
  by (meson subseq_order.order_trans subseq_rev_drop_many subseq_order.order_refl)

lemma lines_inv_step:
  assumes "agent_step s st l st'" and "lines_inv st"
  shows "lines_inv st'"
  using assms(1)
proof (cases rule: agent_step.cases)
  case stream
  then show ?thesis
    using assms(2)
    by (cases rule: stream_step.cases)
      (auto simp: lines_inv_def stream_head_def after_round_def dest: subseq_prefix)
next
  case metrics
  then show ?thesis using assms(2) by (cases rule: metrics_step.cases) (simp_all add: lines_inv_def)
next
  case main
  then show ?thesis using assms(2) by (cases rule: main_step.cases) (simp_all add: lines_inv_def)
qed (use assms(2) in \<open>simp_all add: lines_inv_def\<close>)

lemma agent_inv_step: "agent_step s st l st' \<Longrightarrow> agent_inv st \<Longrightarrow> agent_inv st'"
  by (simp add: agent_inv_def journal_ok_step main_inv_step lines_inv_step)

section \<open>The work left\<close>

text \<open>
  Once the stop event is set, every step brings the agent nearer to its end: the weights of the
  stages, with a journalctl counted by what its \<open>finally\<close> block may still have to do.
\<close>

fun metrics_work :: "metrics_stage task \<Rightarrow> nat" where
  "metrics_work (Running MetricsStart) = 1"
| "metrics_work (Running CollectingSystem) = 5"
| "metrics_work (Running (PostingSystem _)) = 4"
| "metrics_work (Running CollectingDocker) = 3"
| "metrics_work (Running (PostingDocker _)) = 2"
| "metrics_work (Running Pausing) = 1"
| "metrics_work _ = 0"

fun stream_work :: "stream_stage task option \<Rightarrow> nat" where
  "stream_work (Some (Running StreamStart)) = 1"
| "stream_work (Some (Running Connecting)) = 8"
| "stream_work (Some (Running SpawningJournal)) = 7"
| "stream_work (Some (Running ReadingJournal)) = 3"
| "stream_work (Some (Running (SendingLine _))) = 4"
| "stream_work (Some (Running (LeavingJournal _))) = 2"
| "stream_work (Some (Running (ClosingSocket _))) = 1"
| "stream_work (Some (Running BackingOff)) = 1"
| "stream_work _ = 0"

fun journal_work :: "journal \<Rightarrow> nat" where
  "journal_work Following = 3"
| "journal_work Terminated = 2"
| "journal_work Killed = 1"
| "journal_work _ = 0"

fun main_work :: "main_stage \<Rightarrow> nat" where
  "main_work Waiting = 3"
| "main_work Gathering = 2"
| "main_work ClosingSender = 1"
| "main_work Returned = 0"

definition agent_work :: "agent \<Rightarrow> nat" where
  "agent_work st = metrics_work (ag_metrics st) + stream_work (ag_stream st) + main_work (ag_main st)
     + (case ag_journal st of None \<Rightarrow> 0 | Some j \<Rightarrow> journal_work j) + sum_list (map journal_work (ag_orphans st))"

lemma journal_step_work: "journal_step j j' \<Longrightarrow> journal_work j' < journal_work j"
  by (erule journal_step.cases) simp_all

lemma release_work: "journal_work (release j) \<le> journal_work j"
  by (cases j) simp_all

lemma sum_list_update_less:
  fixes f :: "'a \<Rightarrow> nat"
  assumes "i < length xs" and "f y < f (xs ! i)"
  shows "sum_list (map f (xs[i := y])) < sum_list (map f xs)"
  using assms
proof (induction xs arbitrary: i)
  case (Cons x xs)
  then show ?case by (cases i) simp_all
qed simp

lemma stop_step: "agent_step s st l st' \<Longrightarrow> ag_stop st \<Longrightarrow> ag_stop st'"
  by (elim agent_stepE metrics_stepE stream_stepE main_stepE) simp_all

lemma work_step:
  assumes "agent_step s st l st'" and "agent_inv st" and "ag_stop st"
  shows "agent_work st' < agent_work st"
  using assms(1)
proof (cases rule: agent_step.cases)
  case stream
  then show ?thesis
    using assms(2,3)
    by (cases rule: stream_step.cases)
      (auto simp: agent_inv_def agent_work_def abandon_def stream_head_def after_round_def le_imp_less_Suc release_work
        dest: journal_step_work)
next
  case metrics
  then show ?thesis
  proof (cases rule: metrics_step.cases)
    case (raises m)
    then show ?thesis by (cases m) (simp_all add: agent_work_def)
  next
    case (cancelled m)
    then show ?thesis by (cases m) (simp_all add: agent_work_def)
  qed (use assms(3) in \<open>simp_all add: agent_work_def metrics_head_def\<close>)
next
  case main
  then show ?thesis using assms(3) by (cases rule: main_step.cases) (simp_all add: agent_work_def)
next
  case (orphan i j)
  then show ?thesis
    using sum_list_update_less [of i "ag_orphans st" journal_work j] journal_step_work [of "ag_orphans st ! i" j]
    by (simp add: agent_work_def)
next
  case (released i)
  then show ?thesis
    using sum_list_update_less [of i "ag_orphans st" journal_work Released] by (auto simp: agent_work_def)
qed

section \<open>Coming to rest\<close>

definition agent_at_rest :: "agent \<Rightarrow> bool" where
  "agent_at_rest st \<longleftrightarrow> ag_main st = Returned \<and> over (ag_metrics st) \<and> stream_over st \<and> \<not> ag_open st
     \<and> ag_journal st = None \<and> set (ag_orphans st) \<subseteq> {Gone, Released}"

lemma journal_can: "j \<notin> {Gone, Released} \<Longrightarrow> \<exists>j'. journal_step j j'"
  by (cases j) auto

lemma metrics_can:
  assumes "ag_metrics st = Running m"
  shows "\<exists>l st'. metrics_step s st l st'"
proof (cases "ag_cancel st")
  case False
  with assms show ?thesis by (cases m) (blast intro: metrics_step.intros)+
qed (use assms in \<open>blast intro: metrics_step.cancelled\<close>)

lemma stream_can:
  assumes "at_stream st m" and "agent_inv st"
  shows "\<exists>l st'. stream_step st l st'"
proof -
  have ok: "journal_ok (Some (Running m)) (ag_journal st)" and unwinding: "m = ClosingSocket True \<Longrightarrow> ag_cancel st"
    using assms by (auto simp: agent_inv_def main_inv_def)
  show ?thesis
  proof (cases m)
    case ReadingJournal
    with ok assms(1) show ?thesis
      by (cases "ag_cancel st")
        (auto intro!: exI stream_step.cancelled_reading stream_step.journal_ends journal_step.terminate)
  next
    case (LeavingJournal c)
    show ?thesis
    proof (cases "c \<or> \<not> ag_cancel st")
      case True
      obtain j where j: "ag_journal st = Some j" using ok LeavingJournal by auto
      show ?thesis
      proof (cases "j = Gone")
        case True
        with \<open>c \<or> \<not> ag_cancel st\<close> j assms(1) LeavingJournal show ?thesis by (blast intro: stream_step.journal_left)
      next
        case False
        with ok j LeavingJournal have "\<exists>j'. journal_step j j'" by (intro journal_can) auto
        with \<open>c \<or> \<not> ag_cancel st\<close> j assms(1) LeavingJournal show ?thesis
          by (blast intro: stream_step.journal_cleanup)
      qed
    next
      case False
      with assms(1) LeavingJournal have "ag_cancel st" "at_stream st (LeavingJournal False)" by auto
      then show ?thesis by (blast intro: stream_step.cancelled_leaving)
    qed
  next
    case (ClosingSocket c)
    with assms(1) show ?thesis
      by (cases "c \<or> \<not> ag_cancel st") (blast intro: stream_step.intros)+
  next
    case (SendingLine l)
    with assms(1) show ?thesis by (cases "ag_cancel st") (blast intro: stream_step.intros)+
  next
    case SpawningJournal
    with assms(1) show ?thesis by (cases "ag_cancel st") (blast intro: stream_step.intros)+
  qed (use assms(1) in \<open>cases "ag_cancel st", blast intro: stream_step.intros, blast intro: stream_step.intros\<close>)+
qed

lemma stuck_at_rest:
  assumes "agent_inv st" and "ag_stop st" and "stuck (agent_step s) st"
  shows "agent_at_rest st"
proof -
  have none: "\<not> metrics_step s st l st'" "\<not> stream_step st l st'" "\<not> main_step st l st'" for l st'
    using assms(3) agent_step.metrics agent_step.stream agent_step.main unfolding stuck_def by blast+
  have m: "over (ag_metrics st)"
    using metrics_can [of st _ s] none(1) by (cases "ag_metrics st") auto
  have str: "stream_over st"
  proof (cases "ag_stream st")
    case (Some t)
    then show ?thesis using stream_can [OF _ assms(1)] none(2) by (cases t) (auto simp: stream_over_def)
  qed (simp add: stream_over_def)
  have main: "ag_main st = Returned"
    using none(3) main_step.wakes [of st] main_step.gathered [of st] main_step.sender_closed [of st] m str
    by (cases "ag_main st") auto
  have "ag_journal st = None"
    using assms(1) str by (cases "ag_stream st") (auto simp: agent_inv_def stream_over_def elim!: over.elims)
  moreover have "ag_orphans st ! i \<in> {Gone, Released}" if "i < length (ag_orphans st)" for i
    using agent_step.orphan [OF that] journal_can [of "ag_orphans st ! i"] assms(3) unfolding stuck_def by blast
  then have "set (ag_orphans st) \<subseteq> {Gone, Released}" by (metis in_set_conv_nth subsetI)
  ultimately show ?thesis
    using main m str assms(1) by (auto simp: agent_at_rest_def agent_inv_def main_inv_def)
qed

interpretation agent_process: stopping_machine "agent_step s" agent_inv ag_stop agent_work agent_at_rest for s
  by unfold_locales (simp_all add: agent_inv_step stop_step work_step stuck_at_rest)

lemmas agent_reaches = agent_process.run_inv [OF _ agent_start_inv]

section \<open>What the metrics loop has posted\<close>

text \<open>
  The posts of finished rounds, and the first post of the round that is under way; \<open>metrics_loop\<close>
  is the loop on its own, over the sequence of its rounds.
\<close>

fun halfway :: "metrics_stage task \<Rightarrow> bool" where
  "halfway (Running CollectingDocker) = True"
| "halfway (Running (PostingDocker _)) = True"
| "halfway _ = False"

definition rounds_posts :: "sender \<Rightarrow> metrics_round list \<Rightarrow> request list" where
  "rounds_posts s rs = concat (map (round_requests s) rs)"

definition half_post :: "sender \<Rightarrow> request list \<Rightarrow> bool" where
  "half_post s ps \<longleftrightarrow> (\<exists>net p. ps = [snd (send s net p)])"

text \<open>
  A task that failed or was cancelled may have been anywhere; else the posts are those of whole
  rounds, and one more in the middle of a round.
\<close>

definition posts_inv :: "sender \<Rightarrow> agent \<Rightarrow> bool" where
  "posts_inv s st \<longleftrightarrow> (\<exists>rs ps. ag_posts st = rounds_posts s rs @ ps \<and> (ps = [] \<or> half_post s ps)
     \<and> (ag_metrics st \<notin> {Crashed, Cancelled} \<longrightarrow> (ps \<noteq> [] \<longleftrightarrow> halfway (ag_metrics st))))"

lemma posts_inv_start: "posts_inv s (agent_start S)"
  by (auto simp: posts_inv_def agent_start_def rounds_posts_def intro!: exI [of _ "[]"])

lemma round_completes:
  assumes "half_post s ps"
  shows "\<exists>r. round_requests s r = ps @ [snd (send_docker s net (collect_docker_metrics daemon))]"
proof -
  from assms obtain net' p where "ps = [snd (send s net' p)]" by (auto simp: half_post_def)
  then show ?thesis
    by (intro exI [of _ "\<lparr>mr_stop = False, mr_system = p, mr_daemon = daemon, mr_net = net\<rparr>"])
      (simp add: round_requests_def send_def send_docker_def post_def Let_def)
qed

lemma rounds_posts_snoc: "rounds_posts s (rs @ [r]) = rounds_posts s rs @ round_requests s r"
  by (simp add: rounds_posts_def)

text \<open>What is being posted to the Docker endpoint was collected in this round.\<close>

definition docker_inv :: "agent \<Rightarrow> bool" where
  "docker_inv st \<longleftrightarrow> (\<forall>items. ag_metrics st = Running (PostingDocker items) \<longrightarrow> (\<exists>daemon. items = collect_docker_metrics daemon))"

lemma docker_inv_step: "agent_step s st l st' \<Longrightarrow> docker_inv st \<Longrightarrow> docker_inv st'"
  by (elim agent_stepE metrics_stepE stream_stepE main_stepE) (auto simp: docker_inv_def metrics_head_def abandon_def)

lemma posts_inv_step:
  assumes "agent_step s st l st'" and "posts_inv s st" and "docker_inv st"
  shows "posts_inv s st'"
proof -
  from assms(2) obtain rs ps where rs: "ag_posts st = rounds_posts s rs @ ps" "ps = [] \<or> half_post s ps"
    "ag_metrics st \<notin> {Crashed, Cancelled} \<Longrightarrow> (ps \<noteq> [] \<longleftrightarrow> halfway (ag_metrics st))"
    by (auto simp: posts_inv_def)
  have same: "posts_inv s st'" if "ag_posts st' = ag_posts st" "ag_metrics st' = ag_metrics st"
    using rs that by (auto simp: posts_inv_def)
  show ?thesis
    using assms(1)
  proof (cases rule: agent_step.cases)
    case metrics
    then show ?thesis
    proof (cases rule: metrics_step.cases)
      case (system_posted p net)
      then have "ps = []" using rs(3) by simp
      with system_posted rs show ?thesis
        by (auto simp: posts_inv_def half_post_def intro!: exI [of _ rs] exI [of _ net] exI [of _ p])
    next
      case (docker_posted items net)
      then have "half_post s ps" using rs(2,3) by auto
      moreover obtain daemon where "items = collect_docker_metrics daemon"
        using assms(3) docker_posted by (auto simp: docker_inv_def)
      ultimately obtain r where "round_requests s r = ps @ [snd (send_docker s net items)]"
        using round_completes by blast
      with docker_posted rs show ?thesis
        by (auto simp: posts_inv_def rounds_posts_snoc intro!: exI [of _ "rs @ [r]"])
    qed (use rs in \<open>auto simp: posts_inv_def metrics_head_def\<close>)
  next
    case stream
    then show ?thesis by (intro same) (auto elim!: stream_stepE simp: abandon_def)
  next
    case main
    then show ?thesis by (intro same) (auto elim!: main_stepE)
  next
    case (orphan i j)
    show ?thesis by (intro same) (simp_all add: orphan)
  next
    case (released i)
    show ?thesis by (intro same) (simp_all add: released)
  qed
qed

lemma metrics_loop_rounds:
  "metrics_loop s (\<lambda>i. if i < length rs then (rs ! i)\<lparr>mr_stop := False\<rparr> else r\<lparr>mr_stop := True\<rparr>) 0 =
     Some (rounds_posts s rs)"
proof -
  let ?f = "\<lambda>i. if i < length rs then (rs ! i)\<lparr>mr_stop := False\<rparr> else r\<lparr>mr_stop := True\<rparr>"
  have "metrics_loop s ?f n = Some (rounds_posts s (drop n rs))" if "n \<le> length rs" for n
    using that
  proof (induction n rule: inc_induct)
    case base
    then show ?case by (subst metrics_loop.simps) (simp add: rounds_posts_def)
  next
    case (step n)
    then have "drop n rs = rs ! n # drop (Suc n) rs" by (simp add: Cons_nth_drop_Suc)
    moreover have "round_requests s ((rs ! n)\<lparr>mr_stop := False\<rparr>) = round_requests s (rs ! n)"
      by (simp add: round_requests_def)
    ultimately show ?case
      using step by (subst metrics_loop.simps) (simp add: rounds_posts_def)
  qed
  from this [of 0] show ?thesis by simp
qed

interpretation agent_posts: machine "agent_step s" "\<lambda>st. posts_inv s st \<and> docker_inv st" for s
  by unfold_locales (auto intro: posts_inv_step docker_inv_step)

lemma reached_posts:
  assumes "machine_run (agent_step s) (agent_start S) ls st"
  shows "posts_inv s st"
  using agent_posts.run_inv [OF assms] posts_inv_start by (auto simp: docker_inv_def agent_start_def)

section \<open>A journal that says nothing\<close>

fun from_journal :: "agent_label \<Rightarrow> bool" where
  "from_journal (JournalLine _) = True"
| "from_journal JournalEnds = True"
| "from_journal _ = False"

definition held :: "agent \<Rightarrow> bool" where
  "held st \<longleftrightarrow> ag_main st = Waiting \<and> \<not> ag_cancel st \<and> at_stream st ReadingJournal \<and> ag_metrics st \<noteq> Crashed"

lemma held_step:
  assumes "agent_step s st l st'" and "\<not> from_journal l \<and> l \<noteq> MetricsRaises" and "held st"
  shows "held st'"
  using assms
  by (elim agent_stepE metrics_stepE stream_stepE main_stepE) (auto simp: held_def metrics_head_def stream_over_def)

lemma held_run:
  "machine_run (agent_step s) st ls st' \<Longrightarrow> held st \<Longrightarrow> \<forall>l \<in> set ls. \<not> from_journal l \<and> l \<noteq> MetricsRaises \<Longrightarrow> held st'"
  by (erule machine_run_keeps [where A = "\<lambda>l. \<not> from_journal l \<and> l \<noteq> MetricsRaises"]) (auto intro: held_step)

section \<open>Properties\<close>

text \<open>The bound of the work that is left, whatever the stages are.\<close>

lemma agent_work_bound:
  assumes "agent_inv st"
  shows "agent_work st \<le> 16 + 3 * length (ag_orphans st)"
proof -
  have m: "metrics_work t \<le> 5" for t by (cases t rule: metrics_work.cases) simp_all
  have main: "main_work t \<le> 3" for t by (cases t) simp_all
  have j: "journal_work j \<le> 3" for j by (cases j) simp_all
  have str: "stream_work t + (case j of None \<Rightarrow> 0 | Some j \<Rightarrow> journal_work j) \<le> 8" if "journal_ok t j" for t j
  proof -
    have "journal_work i \<le> 2" if "i \<noteq> Following" for i using that by (cases i) simp_all
    with that show ?thesis by (cases t rule: stream_work.cases) force+
  qed
  have "sum_list (map journal_work js) \<le> 3 * length js" for js
    using j by (induction js) (auto simp: add_mono)
  from this [of "ag_orphans st"] m [of "ag_metrics st"] main [of "ag_main st"]
    str [of "ag_stream st" "ag_journal st"] assms
  show ?thesis by (simp add: agent_work_def agent_inv_def)
qed

text \<open>C30: once the stop event is set, by a signal or by the end of a task, the agent takes boundedly
  many more steps, in whatever order they come; and where no step is left, \<open>run\<close> has returned,
  both tasks are over, the sender is closed and every journalctl it ever started has exited or
  was at least told to.\<close>

theorem agent_ends_once_stopped:
  assumes "machine_run (agent_step s) (agent_start S) ls st" and "ag_stop st"
    and "machine_run (agent_step s) st ms st'"
  shows "length ms \<le> 16 + 3 * length (ag_orphans st)
    \<and> (stuck (agent_step s) st' \<longrightarrow> ag_main st' = Returned \<and> over (ag_metrics st') \<and> stream_over st'
      \<and> \<not> ag_open st' \<and> ag_journal st' = None \<and> set (ag_orphans st') \<subseteq> {Gone, Released})"
  using agent_process.run_comes_to_rest [OF assms(3) agent_reaches [OF assms(1)] assms(2)]
    agent_work_bound [OF agent_reaches [OF assms(1)]]
  by (auto simp: agent_at_rest_def)

text \<open>C31: what a silent journal does to the shutdown: while the streamer waits for a line, no sequence
  of steps without a line, an end of the journal or a failure of the metrics task lets \<open>run\<close>
  return, although the stop event may be set and the metrics task over.\<close>

theorem silent_journal_holds_agent:
  assumes "machine_run (agent_step s) (agent_start S) ls st"
    and "at_stream st ReadingJournal" and "ag_main st = Waiting" and "ag_metrics st \<noteq> Crashed"
    and "machine_run (agent_step s) st ms st'"
    and "\<forall>l \<in> set ms. \<not> from_journal l \<and> l \<noteq> MetricsRaises"
  shows "ag_main st' = Waiting \<and> at_stream st' ReadingJournal \<and> ag_open st' \<and> ag_journal st' = Some Following"
proof -
  have inv: "agent_inv st" by (rule agent_reaches [OF assms(1)])
  with assms(2-4) have "held st" by (auto simp: held_def agent_inv_def main_inv_def)
  from held_run [OF assms(5) this assms(6)] agent_process.run_inv [OF assms(5) inv] show ?thesis
    by (auto simp: held_def agent_inv_def main_inv_def)
qed

text \<open>C32: the agent posts what its loop alone would post: in every reachable state the posts begin
  those of some sequence of rounds, and are all of them once the metrics task has finished.
  The sender is open until both tasks are over and no journalctl is followed, and the lines
  that were sent are lines of the journal, in their order.\<close>

theorem agent_does_what_its_loops_do:
  assumes "machine_run (agent_step s) (agent_start S) ls st"
  shows "(\<exists>rounds rest. metrics_loop s rounds 0 = Some (ag_posts st @ rest) \<and> (ag_metrics st = Finished \<longrightarrow> rest = []))
    \<and> (\<not> ag_open st \<longrightarrow> over (ag_metrics st) \<and> stream_over st \<and> ag_journal st = None)
    \<and> subseq (ag_sent st) (ag_read st)"
proof -
  obtain rs ps where rs: "ag_posts st = rounds_posts s rs @ ps" "ps = [] \<or> half_post s ps"
    "ag_metrics st = Finished \<Longrightarrow> ps = []"
    using reached_posts [OF assms] by (force simp: posts_inv_def)
  have "\<exists>qs rest. rounds_posts s qs = ag_posts st @ rest \<and> (ag_metrics st = Finished \<longrightarrow> rest = [])"
  proof (cases "ps = []")
    case True
    with rs(1) show ?thesis by auto
  next
    case False
    with rs(2) obtain r rest where "round_requests s r = ps @ rest" using round_completes by blast
    with False rs show ?thesis
      by (intro exI [of _ "rs @ [r]"] exI [of _ rest]) (auto simp: rounds_posts_snoc)
  qed
  moreover have inv: "agent_inv st" by (rule agent_reaches [OF assms])
  then have "\<not> ag_open st \<longrightarrow> over (ag_metrics st) \<and> stream_over st \<and> ag_journal st = None"
    by (cases "ag_stream st") (auto simp: agent_inv_def main_inv_def stream_over_def elim!: over.elims)
  moreover have "subseq (ag_sent st) (ag_read st)"
    using inv subseq_prefix by (auto simp: agent_inv_def lines_inv_def)
  ultimately show ?thesis using metrics_loop_rounds by metis
qed

section \<open>A run that hangs\<close>

definition demo_sender :: sender where
  "demo_sender = new_sender demo_agent (Some ''1.0'')"

definition demo_labels :: "agent_label list" where
  "demo_labels =
     [MetricsBegins, StreamBegins, SystemCollected (collect_system_metrics (Fin 10) (Fin 20) (Fin 30)), Connected True,
      Posted (\<lambda>_. Status 201), Spawned True]"

definition demo_shutdown :: "agent_label list" where
  "demo_shutdown = [DockerCollected None, Signal, Posted (\<lambda>_. NetworkError), MetricsWakes]"

lemma agent_moves:
  "metrics_step s st l st' \<Longrightarrow> machine_run (agent_step s) st' ls st'' \<Longrightarrow> machine_run (agent_step s) st (l # ls) st''"
  "stream_step st l st' \<Longrightarrow> machine_run (agent_step s) st' ls st'' \<Longrightarrow> machine_run (agent_step s) st (l # ls) st''"
  "main_step st l st' \<Longrightarrow> machine_run (agent_step s) st' ls st'' \<Longrightarrow> machine_run (agent_step s) st (l # ls) st''"
  by (blast intro: machine_run.move agent_step.intros)+

lemmas demo_simps = agent_start_def demo_agent_def metrics_head_def stream_head_def

lemma silent_run:
  "\<exists>st st'. machine_run (agent_step demo_sender) (agent_start demo_agent) demo_labels st
    \<and> machine_run (agent_step demo_sender) st demo_shutdown st'
    \<and> (at_stream st ReadingJournal \<and> ag_main st = Waiting \<and> ag_metrics st \<noteq> Crashed)
    \<and> (ag_stop st' \<and> ag_metrics st' = Finished \<and> ag_orphans st' = [])"
  unfolding demo_labels_def demo_shutdown_def
  apply (intro exI conjI)
      apply (rule agent_moves(1) [OF metrics_step.begins], simp add: demo_simps, simp add: demo_simps)
      apply (rule agent_moves(2) [OF stream_step.begins], simp add: demo_simps, simp add: demo_simps)
      apply (rule agent_moves(1) [OF metrics_step.system_collected], simp add: demo_simps, simp add: demo_simps)
      apply (rule agent_moves(2) [OF stream_step.connected], simp add: demo_simps, simp add: demo_simps)
      apply (rule agent_moves(1) [OF metrics_step.system_posted], simp add: demo_simps, simp add: demo_simps)
      apply (rule agent_moves(2) [OF stream_step.spawned], simp add: demo_simps, simp add: demo_simps)
      apply (rule machine_run.stay)
     apply (rule agent_moves(1) [OF metrics_step.docker_collected], simp add: demo_simps, simp add: demo_simps)
     apply (rule agent_moves(3) [OF main_step.signal], simp add: demo_simps, simp add: demo_simps)
     apply (rule agent_moves(1) [OF metrics_step.docker_posted], simp add: demo_simps, simp add: demo_simps)
     apply (rule agent_moves(1) [OF metrics_step.wakes], simp add: demo_simps, simp add: demo_simps)
     apply (rule machine_run.stay)
    apply (simp_all add: demo_simps)
  done

theorem agent_ends_witness:
  "\<exists>st ms st'. machine_run (agent_step demo_sender) (agent_start demo_agent) (demo_labels @ demo_shutdown) st \<and> ag_stop st
    \<and> machine_run (agent_step demo_sender) st ms st' \<and> length ms \<le> 16 \<and> ag_main st' = Returned \<and> ag_journal st' = None"
proof -
  obtain st where st: "machine_run (agent_step demo_sender) (agent_start demo_agent) (demo_labels @ demo_shutdown) st"
    "ag_stop st" "ag_orphans st = []"
    using silent_run by (auto simp: machine_run_append)
  obtain ms st' where ms: "machine_run (agent_step demo_sender) st ms st'" "stuck (agent_step demo_sender) st'"
    using agent_process.can_come_to_rest [OF agent_reaches [OF st(1)] st(2)] by blast
  show ?thesis
    using agent_ends_once_stopped [OF st(1,2) ms(1)] st ms by auto
qed

theorem silent_journal_witness:
  "\<exists>st'. machine_run (agent_step demo_sender) (agent_start demo_agent) (demo_labels @ demo_shutdown) st'
    \<and> ag_stop st' \<and> ag_metrics st' = Finished \<and> ag_main st' = Waiting \<and> at_stream st' ReadingJournal"
proof -
  obtain st st' where st: "machine_run (agent_step demo_sender) (agent_start demo_agent) demo_labels st"
    "machine_run (agent_step demo_sender) st demo_shutdown st'"
    "at_stream st ReadingJournal" "ag_main st = Waiting" "ag_metrics st \<noteq> Crashed" "ag_stop st'" "ag_metrics st' = Finished"
    using silent_run by blast
  have "\<forall>l \<in> set demo_shutdown. \<not> from_journal l \<and> l \<noteq> MetricsRaises" by (simp add: demo_shutdown_def)
  from silent_journal_holds_agent [OF st(1,3,4,5,2) this] st show ?thesis by (auto simp: machine_run_append)
qed

theorem agent_loops_witness:
  "\<exists>st rounds. machine_run (agent_step demo_sender) (agent_start demo_agent) (demo_labels @ demo_shutdown) st
    \<and> metrics_loop demo_sender rounds 0 = Some (ag_posts st)"
proof -
  obtain st where st: "machine_run (agent_step demo_sender) (agent_start demo_agent) (demo_labels @ demo_shutdown) st"
    "ag_metrics st = Finished"
    using silent_run by (auto simp: machine_run_append)
  from agent_does_what_its_loops_do [OF st(1)] st show ?thesis by auto
qed

end
