(* ===== verification/PW_BotLoop.thy ===== *)
theory PW_BotLoop
  imports PW_BotProps PW_Machine
begin

text \<open>
  The bot as a process (\<open>run_bot\<close> and \<open>_poll_loop\<close> of \<open>app/telegram_bot.py\<close>): long polling with an
  offset that lives in memory only. Telegram's queue of updates is a parameter with the locale
  \<open>telegram_service\<close> as its contract: a request confirms the updates below its offset and answers
  the earliest pending ones from it on, a hundred at most. Telegram keeps an update that is not
  confirmed for 24 hours; \<open>telegram_retention\<close> adds that the oldest ones expire. The process may
  die after any message of a batch and be started again.
\<close>

section \<open>The Bot API\<close>

type_synonym tg_update = "int \<times> message option"

record 'q telegram =
  tg_get_updates :: "'q \<Rightarrow> int option \<Rightarrow> tg_update list \<times> 'q"
  tg_arrive :: "tg_update \<Rightarrow> 'q \<Rightarrow> 'q"
  tg_pending :: "'q \<Rightarrow> tg_update list"

definition wanted :: "int option \<Rightarrow> tg_update \<Rightarrow> bool" where
  "wanted offset u = (case offset of None \<Rightarrow> True | Some n \<Rightarrow> n \<le> fst u)"

locale telegram_service =
  fixes T :: "'q telegram"
  assumes updates_answered: "fst (tg_get_updates T q offset) = take 100 (filter (wanted offset) (tg_pending T q))"
    and updates_confirmed: "tg_pending T (snd (tg_get_updates T q offset)) = filter (wanted offset) (tg_pending T q)"
    and update_arrives: "tg_pending T (tg_arrive T u q) = tg_pending T q @ [u]"

text \<open>The oldest pending updates expire; \<open>expire k\<close> is the expiry of \<open>k\<close> of them.\<close>

locale telegram_retention = telegram_service T for T :: "'q telegram" +
  fixes expire :: "nat \<Rightarrow> 'q \<Rightarrow> 'q"
  assumes update_expires: "tg_pending T (expire k q) = drop k (tg_pending T q)"

text \<open>The service as a list of pending updates.\<close>

definition list_telegram :: "tg_update list telegram" where
  "list_telegram = \<lparr>tg_get_updates = (\<lambda>q offset. (take 100 (filter (wanted offset) q), filter (wanted offset) q)),
     tg_arrive = (\<lambda>u q. q @ [u]), tg_pending = (\<lambda>q. q)\<rparr>"

lemma list_telegram_service: "telegram_service list_telegram"
  by unfold_locales (simp_all add: list_telegram_def)

interpretation list_tg: telegram_service list_telegram
  by (rule list_telegram_service)

interpretation list_tg_24h: telegram_retention list_telegram drop
  by unfold_locales (simp add: list_telegram_def)

text \<open>The URL of a method; without a token it raises RuntimeError.\<close>

definition bot_url :: "settings \<Rightarrow> string \<Rightarrow> exc + string" where
  "bot_url S method = (if \<not> set_to (telegram_bot_token S) then Inl RuntimeError
     else Inr (telegram_api_url S @ ''/bot'' @ the (telegram_bot_token S) @ ''/'' @ method))"

section \<open>The process\<close>

text \<open>
  \<open>bp_handled\<close> and \<open>bp_arrived\<close> are history: the updates handled, each with the moment of its
  handling, and the updates that were pending at the start or have arrived since.
\<close>

record ('q, 'r) bot_process =
  bp_up :: bool
  bp_offset :: "int option"
  bp_app :: "'r app"
  bp_queue :: 'q
  bp_handled :: "(int \<times> (env \<times> message) option) list"
  bp_arrived :: "tg_update list"

definition run_bot :: "'q telegram \<Rightarrow> settings \<Rightarrow> 'q \<Rightarrow> 'r app \<Rightarrow> ('q, 'r) bot_process option" where
  "run_bot T S q a = (if \<not> set_to (telegram_bot_token S) then None
     else Some \<lparr>bp_up = True, bp_offset = None, bp_app = a, bp_queue = q, bp_handled = [],
       bp_arrived = tg_pending T q\<rparr>)"

definition stamped :: "(int \<Rightarrow> env) \<Rightarrow> tg_update \<Rightarrow> int \<times> (env \<times> message) option" where
  "stamped tm u = (fst u, map_option (\<lambda>m. (tm (fst u), m)) (snd u))"

definition unstamped :: "int \<times> (env \<times> message) option \<Rightarrow> tg_update" where
  "unstamped x = (fst x, map_option snd (snd x))"

definition handle_batch :: "'r redis \<Rightarrow> (draft \<Rightarrow> string) \<Rightarrow> (string \<Rightarrow> draft) \<Rightarrow> (int \<times> (env \<times> message) option) list
    \<Rightarrow> ('q, 'r) bot_process \<Rightarrow> ('q, 'r) bot_process" where
  "handle_batch R dumps loads xs p = (case handle_updates R dumps loads xs (bp_offset p, bp_app p) of
     (offset, a) \<Rightarrow> p\<lparr>bp_offset := offset, bp_app := a, bp_handled := bp_handled p @ xs\<rparr>)"

text \<open>
  What happens: an update arrives, with a higher id than any before; another process acts on the
  database or on Redis; a request fails or is answered with another status than 200 (it may
  have reached the queue); a batch is handled; the process dies after some messages of a batch,
  or before the first when the body is not JSON; it starts again.
\<close>

datatype 'r bot_label =
    Arrives tg_update
  | Others "'r app"
  | PollFails bool
  | Polls "int \<Rightarrow> env"
  | Dies nat "int \<Rightarrow> env"
  | Restarts

inductive bot_step :: "'q telegram \<Rightarrow> 'r redis \<Rightarrow> (draft \<Rightarrow> string) \<Rightarrow> (string \<Rightarrow> draft)
    \<Rightarrow> ('q, 'r) bot_process \<Rightarrow> 'r bot_label \<Rightarrow> ('q, 'r) bot_process \<Rightarrow> bool" for T R dumps loads where
  arrives: "\<forall>v \<in> set (bp_arrived p). fst v < fst u \<Longrightarrow>
    bot_step T R dumps loads p (Arrives u)
      (p\<lparr>bp_queue := tg_arrive T u (bp_queue p), bp_arrived := bp_arrived p @ [u]\<rparr>)"
| others: "bot_step T R dumps loads p (Others a) (p\<lparr>bp_app := a\<rparr>)"
| poll_fails: "bp_up p \<Longrightarrow>
    bot_step T R dumps loads p (PollFails heard)
      (if heard then p\<lparr>bp_queue := snd (tg_get_updates T (bp_queue p) (bp_offset p))\<rparr> else p)"
| polls: "bp_up p \<Longrightarrow> tg_get_updates T (bp_queue p) (bp_offset p) = (us, q) \<Longrightarrow>
    bot_step T R dumps loads p (Polls tm)
      (handle_batch R dumps loads (map (stamped tm) us) (p\<lparr>bp_queue := q\<rparr>))"
| dies: "bp_up p \<Longrightarrow> tg_get_updates T (bp_queue p) (bp_offset p) = (us, q) \<Longrightarrow>
    bot_step T R dumps loads p (Dies k tm)
      ((handle_batch R dumps loads (map (stamped tm) (take k us)) (p\<lparr>bp_queue := q\<rparr>))\<lparr>bp_up := False\<rparr>)"
| restarts: "\<not> bp_up p \<Longrightarrow>
    bot_step T R dumps loads p Restarts (p\<lparr>bp_up := True, bp_offset := None\<rparr>)"

inductive_cases bot_stepE: "bot_step T R dumps loads p l p'"

text \<open>The process and Telegram's clean-up of updates that nobody fetched in time; the second part of
  the state is the history of what has expired.\<close>

datatype 'r kept_label = Acts "'r bot_label" | Expires nat

inductive kept_step :: "'q telegram \<Rightarrow> (nat \<Rightarrow> 'q \<Rightarrow> 'q) \<Rightarrow> 'r redis \<Rightarrow> (draft \<Rightarrow> string) \<Rightarrow> (string \<Rightarrow> draft)
    \<Rightarrow> ('q, 'r) bot_process \<times> tg_update list \<Rightarrow> 'r kept_label \<Rightarrow> ('q, 'r) bot_process \<times> tg_update list \<Rightarrow> bool"
  for T expire R dumps loads where
  acts: "bot_step T R dumps loads p l p' \<Longrightarrow> kept_step T expire R dumps loads (p, gone) (Acts l) (p', gone)"
| expires: "kept_step T expire R dumps loads (p, gone) (Expires k)
    (p\<lparr>bp_queue := expire k (bp_queue p)\<rparr>, gone @ take k (tg_pending T (bp_queue p)))"

section \<open>Batches\<close>

lemma unstamped_stamped [simp]: "unstamped (stamped tm u) = u"
  by (cases u) (simp add: stamped_def unstamped_def option.map_comp comp_def option.map_ident)

lemma unstamped_batch [simp]: "map (unstamped \<circ> stamped tm) us = us"
  by (simp add: comp_def)

lemma unstamped_image [simp]: "unstamped ` stamped tm ` U = U"
  by (simp add: image_image)

lemma handle_updates_append:
  "handle_updates R dumps loads (xs @ ys) st = handle_updates R dumps loads ys (handle_updates R dumps loads xs st)"
proof (induction xs arbitrary: st)
  case (Cons x xs)
  then show ?case by (cases x; cases st) simp
qed simp

lemma handle_updates_offset:
  "fst (handle_updates R dumps loads xs st) = (if xs = [] then fst st else Some (fst (last xs) + 1))"
proof (induction xs arbitrary: st)
  case (Cons x xs)
  then show ?case by (cases x; cases st) simp
qed simp

lemma handle_updates_app:
  "snd (handle_updates R dumps loads xs (off, a)) = snd (handle_updates R dumps loads xs (off', a))"
proof (induction xs arbitrary: off off' a)
  case (Cons x xs)
  then show ?case by (cases x) simp
qed simp

lemma handle_updates_snd [simp]:
  "snd (handle_updates R dumps loads xs (off, snd st)) = snd (handle_updates R dumps loads xs st)"
  by (metis handle_updates_app surjective_pairing)

lemma handle_batch_fields [simp]:
  "bp_up (handle_batch R dumps loads xs p) = bp_up p" "bp_queue (handle_batch R dumps loads xs p) = bp_queue p"
  "bp_handled (handle_batch R dumps loads xs p) = bp_handled p @ xs"
  "bp_arrived (handle_batch R dumps loads xs p) = bp_arrived p"
  "bp_offset (handle_batch R dumps loads xs p) = (if xs = [] then bp_offset p else Some (fst (last xs) + 1))"
  "bp_app (handle_batch R dumps loads xs p) = snd (handle_updates R dumps loads xs (bp_offset p, bp_app p))"
  using handle_updates_offset [of R dumps loads xs "(bp_offset p, bp_app p)"]
  by (simp_all add: handle_batch_def split_beta)

section \<open>Positions in the sequence of updates\<close>

definition increasing :: "tg_update list \<Rightarrow> bool" where
  "increasing us \<longleftrightarrow> sorted_wrt (\<lambda>u v. fst u < fst v) us"

text \<open>
  \<open>bot_at p m n\<close>: the updates before position \<open>m\<close> are confirmed or expired and the next to handle
  is at position \<open>n\<close>; without an offset the next is the first that is pending, and an offset is
  past the pending ones that were handled and not past the next.
\<close>

definition bot_at :: "'q telegram \<Rightarrow> ('q, 'r) bot_process \<Rightarrow> nat \<Rightarrow> nat \<Rightarrow> bool" where
  "bot_at T p m n \<longleftrightarrow> increasing (bp_arrived p) \<and> m \<le> n \<and> n \<le> length (bp_arrived p)
     \<and> tg_pending T (bp_queue p) = drop m (bp_arrived p)
     \<and> (case bp_offset p of None \<Rightarrow> n = m
        | Some k \<Rightarrow> 0 < n \<and> k \<le> fst (bp_arrived p ! (n - 1)) + 1 \<and> (\<forall>i<n. m \<le> i \<longrightarrow> fst (bp_arrived p ! i) < k))"

lemma bot_at_others [simp]:
  "bot_at T (p\<lparr>bp_up := b\<rparr>) = bot_at T p" "bot_at T (p\<lparr>bp_app := a\<rparr>) = bot_at T p"
  by (auto simp: bot_at_def fun_eq_iff split: option.splits)

lemma increasing_nth: "increasing us \<Longrightarrow> i < j \<Longrightarrow> j < length us \<Longrightarrow> fst (us ! i) < fst (us ! j)"
  by (simp add: increasing_def sorted_wrt_iff_nth_less)

lemma wanted_from:
  assumes "bot_at T p m n"
  shows "filter (wanted (bp_offset p)) (tg_pending T (bp_queue p)) = drop n (bp_arrived p)"
proof (cases "bp_offset p")
  case None
  then show ?thesis using assms by (simp add: bot_at_def wanted_def)
next
  case (Some k)
  let ?us = "bp_arrived p"
  have at: "increasing ?us" "m \<le> n" "n \<le> length ?us" "0 < n" "k \<le> fst (?us ! (n - 1)) + 1"
    "tg_pending T (bp_queue p) = drop m ?us" "\<forall>i<n. m \<le> i \<longrightarrow> fst (?us ! i) < k"
    using assms Some by (auto simp: bot_at_def)
  have "drop m ?us = take (n - m) (drop m ?us) @ drop n ?us"
    using at(2) by (metis append_take_drop_id drop_drop le_add_diff_inverse2)
  moreover have "filter (wanted (Some k)) (take (n - m) (drop m ?us)) = []"
  proof -
    have "fst u < k" if "u \<in> set (take (n - m) (drop m ?us))" for u
    proof -
      from that obtain i where i: "m \<le> i" "i < n" "u = ?us ! i"
        using at(2,3) by (auto simp: in_set_conv_nth) (metis add.commute le_add1 less_diff_conv)
      with at(7) show ?thesis by blast
    qed
    then show ?thesis unfolding filter_empty_conv wanted_def option.case by (meson not_le)
  qed
  moreover have "filter (wanted (Some k)) (drop n ?us) = drop n ?us"
  proof -
    have "k \<le> fst u" if "u \<in> set (drop n ?us)" for u
    proof -
      from that obtain i where i: "i < length ?us - n" "u = ?us ! (n + i)"
        by (auto simp: in_set_conv_nth)
      then have "fst (?us ! (n - 1)) < fst u"
        using at(1,3,4) by (auto intro: increasing_nth)
      with at(5) show ?thesis by simp
    qed
    then show ?thesis by (simp add: wanted_def)
  qed
  ultimately show ?thesis using at(6) Some by (metis filter_append append_Nil)
qed

context telegram_service begin

lemma fetched:
  assumes "bot_at T p m n" and "tg_get_updates T (bp_queue p) (bp_offset p) = (us, q)"
  shows "us = take 100 (drop n (bp_arrived p))" and "tg_pending T q = drop n (bp_arrived p)"
  using assms(2) updates_answered [of "bp_queue p" "bp_offset p"] updates_confirmed [of "bp_queue p" "bp_offset p"]
    wanted_from [OF assms(1)] by auto

text \<open>A part of the batch moves the position by its length.\<close>

lemma batch_at:
  assumes "bot_at T p m n" and "tg_get_updates T (bp_queue p) (bp_offset p) = (us, q)" and "vs = take k us"
  shows "bot_at T (handle_batch R dumps loads (map (stamped tm) vs) (p\<lparr>bp_queue := q\<rparr>)) n (n + length vs)"
    and "take (n + length vs) (bp_arrived p) = take n (bp_arrived p) @ vs"
proof -
  have vs: "vs = take (length vs) (drop n (bp_arrived p))" "length vs \<le> length (bp_arrived p) - n"
    using fetched [OF assms(1,2)] assms(3) by (auto simp: min_def)
  then show "take (n + length vs) (bp_arrived p) = take n (bp_arrived p) @ vs"
    by (metis take_add)
  have at: "increasing (bp_arrived p)" "n \<le> length (bp_arrived p)"
    "case bp_offset p of None \<Rightarrow> n = m | Some k \<Rightarrow> 0 < n \<and> k \<le> fst (bp_arrived p ! (n - 1)) + 1"
    using assms(1) by (auto simp: bot_at_def split: option.splits)
  have "fst (last (map (stamped tm) vs)) = fst (bp_arrived p ! (n + length vs - 1))" if "vs \<noteq> []"
  proof -
    have "last vs = vs ! (length vs - 1)" using that by (rule last_conv_nth)
    also have "\<dots> = bp_arrived p ! (n + (length vs - 1))"
      by (subst vs(1)) (use that vs(2) at(2) in simp)
    finally show ?thesis using that by (simp add: last_map stamped_def Suc_leI)
  qed
  moreover have "fst (bp_arrived p ! i) < fst (bp_arrived p ! (n + length vs - 1)) + 1" if "i < n + length vs" for i
  proof -
    have "n + length vs - 1 < length (bp_arrived p)" "i = n + length vs - 1 \<or> i < n + length vs - 1"
      using that vs(2) at(2) by linarith+
    then show ?thesis using increasing_nth [OF at(1), of i "n + length vs - 1"] by auto
  qed
  ultimately show "bot_at T (handle_batch R dumps loads (map (stamped tm) vs) (p\<lparr>bp_queue := q\<rparr>)) n (n + length vs)"
    using at vs(2) fetched(2) [OF assms(1,2)] by (auto simp: bot_at_def split: option.splits)
qed

lemma arrives_at:
  assumes "bot_at T p m n" and "\<forall>v \<in> set (bp_arrived p). fst v < fst u"
  shows "bot_at T (p\<lparr>bp_queue := tg_arrive T u (bp_queue p), bp_arrived := bp_arrived p @ [u]\<rparr>) m n"
  using assms update_arrives by (auto simp: bot_at_def increasing_def sorted_wrt_append nth_append split: option.splits)

lemma poll_fails_at:
  assumes "bot_at T p m n"
  shows "\<exists>m'. bot_at T (if heard then p\<lparr>bp_queue := snd (tg_get_updates T (bp_queue p) (bp_offset p))\<rparr> else p) m' n"
proof -
  have "bot_at T (p\<lparr>bp_queue := snd (tg_get_updates T (bp_queue p) (bp_offset p))\<rparr>) n n"
    using assms fetched(2) [OF assms prod.collapse [symmetric]] by (auto simp: bot_at_def split: option.splits)
  with assms show ?thesis by auto
qed

text \<open>
  What every run keeps: the position, and that the updates before it have been handled or are
  among the \<open>gone\<close>; without a restart they have been handled once, in order, and nothing else has.
\<close>

definition bot_inv :: "bool \<Rightarrow> tg_update set \<Rightarrow> ('q, 'r) bot_process \<Rightarrow> bool" where
  "bot_inv once gone p \<longleftrightarrow> (\<exists>m n. bot_at T p m n
     \<and> set (take n (bp_arrived p)) \<subseteq> unstamped ` set (bp_handled p) \<union> gone
     \<and> (once \<longrightarrow> map unstamped (bp_handled p) = take n (bp_arrived p)))"

lemma bot_invI:
  "bot_at T p m n \<Longrightarrow> set (take n (bp_arrived p)) \<subseteq> unstamped ` set (bp_handled p) \<union> gone \<Longrightarrow>
    (once \<Longrightarrow> map unstamped (bp_handled p) = take n (bp_arrived p)) \<Longrightarrow> bot_inv once gone p"
  unfolding bot_inv_def by blast

lemma bot_inv_step:
  assumes "bot_step T R dumps loads p l p'" and "l = Restarts \<longrightarrow> \<not> once" and "bot_inv once gone p"
  shows "bot_inv once gone p'"
proof -
  from assms(3) obtain m n where inv: "bot_at T p m n"
    "set (take n (bp_arrived p)) \<subseteq> unstamped ` set (bp_handled p) \<union> gone"
    "once \<Longrightarrow> map unstamped (bp_handled p) = take n (bp_arrived p)"
    by (auto simp: bot_inv_def)
  have n: "n \<le> length (bp_arrived p)" "m \<le> n" using inv(1) by (simp_all add: bot_at_def)
  show ?thesis
    using assms(1)
  proof (cases rule: bot_step.cases)
    case (arrives u)
    with arrives_at [OF inv(1), of u] inv n show ?thesis by (intro bot_invI [of p' m n]) auto
  next
    case (others a)
    with inv show ?thesis by (intro bot_invI [of p' m n]) auto
  next
    case (poll_fails heard)
    with poll_fails_at [OF inv(1), of heard] obtain m' where "bot_at T p' m' n" by blast
    with poll_fails inv show ?thesis by (intro bot_invI [of p' m' n]) auto
  next
    case (polls us q tm)
    with fetched(1) [OF inv(1) polls(4)] have "us = take 100 us" by simp
    from batch_at(1) [OF inv(1) polls(4) this, of R dumps loads tm] batch_at(2) [OF inv(1) polls(4) this]
      inv polls show ?thesis
      by (intro bot_invI [of p' n "n + length us"]) (auto simp: image_Un)
  next
    case (dies us q k tm)
    from batch_at(1) [OF inv(1) dies(4) refl, of R dumps loads tm k] batch_at(2) [OF inv(1) dies(4) refl, of k]
      inv dies show ?thesis
      by (intro bot_invI [of p' n "n + length (take k us)"]) (auto simp: image_Un)
  next
    case restarts
    have "set (take m (bp_arrived p)) \<subseteq> set (take n (bp_arrived p))" using n by (simp add: set_take_subset_set_take)
    with restarts inv assms(2) n show ?thesis by (intro bot_invI [of p' m m]) (auto simp: bot_at_def)
  qed
qed

end

sublocale telegram_service \<subseteq> poller: machine "bot_step T R dumps loads" "bot_inv False gone" for R dumps loads gone
  by unfold_locales (auto intro: bot_inv_step)

context telegram_service begin

lemma run_keeps:
  "machine_run (bot_step T R dumps loads) p ls p' \<Longrightarrow> bot_inv False gone p \<Longrightarrow> bot_inv False gone p'"
  by (rule poller.run_inv)

lemma bot_inv_start:
  assumes "run_bot T S q a = Some p" and "increasing (tg_pending T q)"
  shows "bot_inv once gone p"
  using assms by (auto simp: run_bot_def bot_inv_def bot_at_def split: if_splits intro!: exI [of _ 0])

lemma run_once:
  assumes "machine_run (bot_step T R dumps loads) p ls p'" and "bot_inv True gone p" and "Restarts \<notin> set ls"
  shows "bot_inv True gone p'"
  using assms
proof (induction rule: machine_run.induct)
  case (move p l p' ls p'')
  have "l \<noteq> Restarts" "Restarts \<notin> set ls" using move.prems(2) by auto
  with move.IH move.prems(1) bot_inv_step [OF move.hyps(1), of True] show ?case by blast
qed

end

context telegram_retention begin

text \<open>What expires may be updates the process has not seen: the next to handle moves past them.\<close>

lemma expires_at:
  assumes "bot_at T p m n"
  shows "bot_at T (p\<lparr>bp_queue := expire k (bp_queue p)\<rparr>) (min (m + k) (length (bp_arrived p)))
    (max n (min (m + k) (length (bp_arrived p))))"
proof -
  let ?us = "bp_arrived p" and ?m = "min (m + k) (length (bp_arrived p))"
  have at: "increasing ?us" "m \<le> n" "n \<le> length ?us" "tg_pending T (bp_queue p) = drop m ?us"
    using assms by (simp_all add: bot_at_def)
  have "tg_pending T (expire k (bp_queue p)) = drop ?m ?us"
    by (simp add: update_expires at(4) min_def add.commute)
  moreover have "fst (?us ! (n - 1)) \<le> fst (?us ! (max n ?m - 1))" if "0 < n"
    using increasing_nth [OF at(1), of "n - 1" "max n ?m - 1"] at(3) that
    by (cases "max n ?m = n") (auto intro: less_imp_le)
  ultimately show ?thesis
    using assms at by (fastforce simp: bot_at_def split: option.splits)
qed

lemma kept_inv_step:
  assumes "kept_step T expire R dumps loads s l s'" and "bot_inv False (set (snd s)) (fst s)"
  shows "bot_inv False (set (snd s')) (fst s')"
  using assms(1)
proof (cases rule: kept_step.cases)
  case (acts p l' p' gone)
  with bot_inv_step [OF acts(4)] assms(2) show ?thesis by simp
next
  case (expires p gone k)
  let ?us = "bp_arrived p"
  from assms(2) expires(1) obtain m n where inv: "bot_at T p m n"
    "set (take n ?us) \<subseteq> unstamped ` set (bp_handled p) \<union> set gone"
    by (auto simp: bot_inv_def)
  let ?m = "min (m + k) (length ?us)"
  have at: "m \<le> n" "tg_pending T (bp_queue p) = drop m ?us" using inv(1) by (simp_all add: bot_at_def)
  have "take ?m ?us = take (m + k) ?us" by (simp add: min_def)
  then have "take ?m ?us = take m ?us @ take k (drop m ?us)" by (simp add: take_add)
  moreover have "set (take m ?us) \<subseteq> set (take n ?us)" using at(1) by (simp add: set_take_subset_set_take)
  ultimately have "set (take (max n ?m) ?us) \<subseteq> set (take n ?us) \<union> set (take k (drop m ?us))"
    by (auto simp: max_def)
  with inv(2) at(2) expires expires_at [OF inv(1), of k] show ?thesis
    by (intro bot_invI) auto
qed

end

sublocale telegram_retention \<subseteq> kept: machine "kept_step T expire R dumps loads"
    "\<lambda>s. bot_inv False (set (snd s)) (fst s)" for R dumps loads
  by unfold_locales (rule kept_inv_step)

context telegram_retention begin

lemma kept_run:
  "machine_run (kept_step T expire R dumps loads) (p, gone) ls (p', gone') \<Longrightarrow> bot_inv False (set gone) p
    \<Longrightarrow> bot_inv False (set gone') p'"
  using kept.run_inv by fastforce

end

lemma kept_run_gone:
  assumes "machine_run (kept_step T expire R dumps loads) s ls s'" and "\<forall>k. Expires k \<notin> set ls"
  shows "snd s' = snd s"
  using assms
proof (induction rule: machine_run.induct)
  case (move s l s' ls s'')
  have "snd s' = snd s" using move.hyps(1) move.prems by (cases rule: kept_step.cases) auto
  with move show ?case by auto
qed simp

lemma run_app:
  assumes "machine_run (bot_step T R dumps loads) p ls p'" and "\<forall>l \<in> set ls. \<forall>a. l \<noteq> Others a"
    and "bp_app p = snd (handle_updates R dumps loads (bp_handled p) (None, a0))"
  shows "bp_app p' = snd (handle_updates R dumps loads (bp_handled p') (None, a0))"
  using assms
proof (induction rule: machine_run.induct)
  case (move p l p' ls p'')
  have "bp_app p' = snd (handle_updates R dumps loads (bp_handled p') (None, a0))"
    using move.hyps(1) move.prems by (cases rule: bot_step.cases) (auto simp: handle_updates_append)
  with move show ?case by auto
qed

section \<open>Properties\<close>

text \<open>C33: polling implements a loop over the sequence of updates: as long as the process is not
  started again, the updates handled are a beginning of those that arrived, each once and in
  their order, whatever requests fail in between; and when nobody else acts, the application is
  what handling just these updates makes of it.\<close>

theorem bot_handles_each_update_once:
  assumes "telegram_service T" and "run_bot T S q a = Some p" and "increasing (tg_pending T q)"
    and "machine_run (bot_step T R dumps loads) p ls p'" and "Restarts \<notin> set ls"
  shows "(\<exists>n. map unstamped (bp_handled p') = take n (bp_arrived p'))
    \<and> ((\<forall>l \<in> set ls. \<forall>b. l \<noteq> Others b) \<longrightarrow>
        bp_app p' = snd (handle_updates R dumps loads (bp_handled p') (None, a)))"
proof -
  have "telegram_service.bot_inv T True {} p'"
    by (rule telegram_service.run_once [OF assms(1,4) telegram_service.bot_inv_start [OF assms(1-3)] assms(5)])
  moreover have "bp_app p = snd (handle_updates R dumps loads (bp_handled p) (None, a))"
    using assms(2) by (auto simp: run_bot_def split: if_splits)
  ultimately show ?thesis
    using run_app [OF assms(4)] by (auto simp: telegram_service.bot_inv_def [OF assms(1)])
qed

definition demo_token :: settings where
  "demo_token = default_settings\<lparr>telegram_bot_token := Some ''t''\<rparr>"

definition demo_updates :: "tg_update list" where
  "demo_updates = [(7, Some (message_from 5 ''/toggle 1'')), (9, None)]"

definition demo_bot :: "(tg_update list, kv) bot_process" where
  "demo_bot = \<lparr>bp_up = True, bp_offset = None, bp_app = bot_state [], bp_queue = demo_updates, bp_handled = [],
     bp_arrived = demo_updates\<rparr>"

lemma demo_bot_run: "run_bot list_telegram demo_token demo_updates (bot_state []) = Some demo_bot"
  by (simp add: run_bot_def demo_token_def set_to_def demo_bot_def list_telegram_def)

lemma demo_updates_increasing: "increasing (tg_pending list_telegram demo_updates)"
  by (simp add: increasing_def demo_updates_def list_telegram_def)

lemma demo_bot_updates: "tg_get_updates list_telegram (bp_queue demo_bot) (bp_offset demo_bot) = (demo_updates, demo_updates)"
  by (simp add: list_telegram_def demo_bot_def demo_updates_def wanted_def)

abbreviation demo_bot_step :: "(tg_update list, kv) bot_process \<Rightarrow> kv bot_label \<Rightarrow> (tg_update list, kv) bot_process \<Rightarrow> bool" where
  "demo_bot_step \<equiv> bot_step list_telegram kv_redis enc_draft dec_draft"

theorem bot_once_witness:
  "\<exists>p'. machine_run demo_bot_step demo_bot [Polls (\<lambda>_. env_at 0)] p' \<and> map unstamped (bp_handled p') = demo_updates
    \<and> bp_app p' = snd (handle_updates kv_redis enc_draft dec_draft (bp_handled p') (None, bot_state []))"
proof -
  let ?p = "handle_batch kv_redis enc_draft dec_draft (map (stamped (\<lambda>_. env_at 0)) demo_updates)
    (demo_bot\<lparr>bp_queue := demo_updates\<rparr>)"
  have run: "machine_run demo_bot_step demo_bot [Polls (\<lambda>_. env_at 0)] ?p"
    by (intro machine_run.move [OF _ machine_run.stay] bot_step.polls demo_bot_updates) (simp add: demo_bot_def)
  then show ?thesis
    using bot_handles_each_update_once [OF list_telegram_service demo_bot_run demo_updates_increasing run]
    by (intro exI [of _ ?p]) (simp add: demo_bot_def)
qed

text \<open>C34: the poll loop drops no update itself. However often requests fail and the process dies in the
  middle of a batch and starts again, after an answered poll that leaves no more than a hundred
  updates pending every update that has arrived has been handled, or Telegram let it expire (it
  keeps updates for 24 hours) before it was confirmed; when none expired, all have been handled.
  The ids of updates are taken to grow, as they do unless a week passes without any.\<close>

theorem updates_handled_or_expired:
  assumes "telegram_retention T expire" and "run_bot T S q a = Some p" and "increasing (tg_pending T q)"
    and "machine_run (kept_step T expire R dumps loads) (p, []) ls (p1, expired)"
    and "bot_step T R dumps loads p1 (Polls tm) p2"
    and "length (tg_pending T (bp_queue p1)) \<le> 100"
  shows "set (bp_arrived p2) \<subseteq> unstamped ` set (bp_handled p2) \<union> set expired
    \<and> ((\<forall>k. Expires k \<notin> set ls) \<longrightarrow> set (bp_arrived p2) \<subseteq> unstamped ` set (bp_handled p2))"
proof -
  note T = telegram_retention.axioms(1) [OF assms(1)]
  have "telegram_service.bot_inv T False (set expired) p1"
    by (rule telegram_retention.kept_run [OF assms(1,4) telegram_service.bot_inv_start [OF T assms(2,3)]])
  then obtain m n where at: "bot_at T p1 m n"
    and h: "set (take n (bp_arrived p1)) \<subseteq> unstamped ` set (bp_handled p1) \<union> set expired"
    by (auto simp: telegram_service.bot_inv_def [OF T])
  have "set (bp_arrived p2) \<subseteq> unstamped ` set (bp_handled p2) \<union> set expired"
    using assms(5)
  proof (cases rule: bot_step.cases)
    case (polls us q')
    have "us = drop n (bp_arrived p1)"
      using telegram_service.fetched(1) [OF T at polls(3)] at assms(6) by (auto simp: bot_at_def)
    then have "set (bp_arrived p1) = set (take n (bp_arrived p1)) \<union> set us"
      by (metis append_take_drop_id set_append)
    with polls(1) h show ?thesis by (auto simp: image_Un)
  qed
  moreover have "expired = []" if "\<forall>k. Expires k \<notin> set ls"
    using kept_run_gone [OF assms(4) that] by simp
  ultimately show ?thesis by auto
qed

text \<open>C35: the offset is forgotten with the process: when it dies after some messages of a batch and
  starts again, its next poll handles the whole batch, those messages a second time.\<close>

theorem restart_repeats_batch:
  assumes "telegram_service T" and "run_bot T S q a = Some p" and "increasing (tg_pending T q)"
    and "machine_run (bot_step T R dumps loads) p ls p1"
    and "machine_run (bot_step T R dumps loads) p1 [Dies k tm, Restarts, Polls tm'] p2"
    and "us = fst (tg_get_updates T (bp_queue p1) (bp_offset p1))"
  shows "map unstamped (bp_handled p2) = map unstamped (bp_handled p1) @ take k us @ us"
proof -
  obtain p' p'' where dies: "bot_step T R dumps loads p1 (Dies k tm) p'" and
    restarts: "bot_step T R dumps loads p' Restarts p''" and polls: "bot_step T R dumps loads p'' (Polls tm') p2"
    using assms(5) by (auto simp: machine_run_Cons)
  have "telegram_service.bot_inv T False {} p1"
    by (rule telegram_service.run_keeps [OF assms(1,4) telegram_service.bot_inv_start [OF assms(1-3)]])
  then obtain m n where at: "bot_at T p1 m n" by (auto simp: telegram_service.bot_inv_def [OF assms(1)])
  from dies obtain q' where q': "tg_get_updates T (bp_queue p1) (bp_offset p1) = (us, q')" "bp_queue p' = q'"
    "bp_handled p' = bp_handled p1 @ map (stamped tm) (take k us)"
    using assms(6) by (auto elim!: bot_stepE)
  from restarts have p'': "bp_queue p'' = q'" "bp_offset p'' = None" "bp_handled p'' = bp_handled p'"
    using q'(2) by (auto elim!: bot_stepE)
  have "fst (tg_get_updates T q' None) = us"
    using telegram_service.updates_answered [OF assms(1), of q' None] telegram_service.fetched [OF assms(1) at q'(1)]
    by (simp add: wanted_def)
  with polls p'' q'(3) show ?thesis by (auto elim!: bot_stepE)
qed

lemma demo_bot_up: "bp_up demo_bot"
  by (simp add: demo_bot_def)

text \<open>The first update expires before the first poll, the second is handled.\<close>

theorem handled_or_expired_witness:
  "\<exists>p. demo_bot_step (demo_bot\<lparr>bp_queue := drop 1 demo_updates\<rparr>) (Polls (\<lambda>_. env_at 0)) p
    \<and> set demo_updates \<subseteq> unstamped ` set (bp_handled p) \<union> set (take 1 demo_updates)
    \<and> length (bp_handled p) = 1"
proof -
  let ?late = "demo_bot\<lparr>bp_queue := drop 1 demo_updates\<rparr>"
  let ?p = "handle_batch kv_redis enc_draft dec_draft (map (stamped (\<lambda>_. env_at 0)) (drop 1 demo_updates))
    (?late\<lparr>bp_queue := drop 1 demo_updates\<rparr>)"
  have run: "machine_run (kept_step list_telegram drop kv_redis enc_draft dec_draft) (demo_bot, [])
      [Expires 1] (?late, [] @ take 1 (tg_pending list_telegram (bp_queue demo_bot)))"
    using kept_step.expires [where T = list_telegram and expire = drop and R = kv_redis and dumps = enc_draft
      and loads = dec_draft and p = demo_bot and gone = "[]" and k = 1]
    by (simp add: machine_run_Cons demo_bot_def)
  have step: "demo_bot_step ?late (Polls (\<lambda>_. env_at 0)) ?p"
    by (rule bot_step.polls) (simp_all add: list_telegram_def demo_bot_def demo_updates_def wanted_def)
  have "length (tg_pending list_telegram (bp_queue ?late)) \<le> 100"
    by (simp add: list_telegram_def demo_bot_def demo_updates_def)
  from updates_handled_or_expired [OF list_tg_24h.telegram_retention_axioms demo_bot_run demo_updates_increasing
      run step this] step
  show ?thesis by (intro exI [of _ ?p]) (simp add: demo_bot_def list_telegram_def demo_updates_def)
qed

theorem restart_repeats_witness:
  "\<exists>p. machine_run demo_bot_step demo_bot [Dies 1 (\<lambda>_. env_at 0), Restarts, Polls (\<lambda>_. env_at 0)] p
    \<and> map unstamped (bp_handled p) = take 1 demo_updates @ demo_updates"
proof -
  let ?dead = "(handle_batch kv_redis enc_draft dec_draft (map (stamped (\<lambda>_. env_at 0)) (take 1 demo_updates))
    (demo_bot\<lparr>bp_queue := demo_updates\<rparr>))\<lparr>bp_up := False\<rparr>"
  let ?again = "?dead\<lparr>bp_up := True, bp_offset := None\<rparr>"
  let ?p = "handle_batch kv_redis enc_draft dec_draft (map (stamped (\<lambda>_. env_at 0)) demo_updates)
    (?again\<lparr>bp_queue := demo_updates\<rparr>)"
  have fetch: "tg_get_updates list_telegram (bp_queue ?again) (bp_offset ?again) = (demo_updates, demo_updates)"
    using demo_bot_updates by (simp add: demo_bot_def)
  have dies: "demo_bot_step demo_bot (Dies 1 (\<lambda>_. env_at 0)) ?dead" by (rule bot_step.dies [OF demo_bot_up demo_bot_updates])
  have restarts: "demo_bot_step ?dead Restarts ?again" by (rule bot_step.restarts) simp
  have polls: "demo_bot_step ?again (Polls (\<lambda>_. env_at 0)) ?p" by (rule bot_step.polls [OF _ fetch]) simp
  have run: "machine_run demo_bot_step demo_bot [Dies 1 (\<lambda>_. env_at 0), Restarts, Polls (\<lambda>_. env_at 0)] ?p"
    by (rule machine_run.move, rule dies, rule machine_run.move, rule restarts, rule machine_run.move, rule polls,
      rule machine_run.stay)
  have "demo_updates = fst (tg_get_updates list_telegram (bp_queue demo_bot) (bp_offset demo_bot))"
    by (simp only: demo_bot_updates fst_conv)
  from restart_repeats_batch [OF list_telegram_service demo_bot_run demo_updates_increasing machine_run.stay run this] run
  show ?thesis by (intro exI [of _ ?p]) (simp add: demo_bot_def)
qed

end
