(* ===== verification/PW_Responses.thy ===== *)
theory PW_Responses
  imports PW_Auth PW_Servers PW_AlertRules
begin

text \<open>
  What the reading endpoints answer: the response schemas (\<open>app/schemas/\<close>) on the rows the handlers
  return, and \<open>serve\<close>, a GET request with a token. The responses are shown to be a function of the
  caller's own part of the database with the secrets blanked out. The dashboard is the one
  computed on a miss of its cache.
\<close>

section \<open>Response schemas\<close>

record user_read =
  ur_id :: int
  ur_email :: string
  ur_is_active :: bool
  ur_created_at :: time
  ur_telegram_chat_id :: "string option"
  ur_email_alerts_enabled :: bool
  ur_totp_enabled :: bool

definition user_response :: "user \<Rightarrow> user_read" where
  "user_response u = \<lparr>ur_id = usr_id u, ur_email = usr_email u, ur_is_active = usr_is_active u,
     ur_created_at = usr_created_at u, ur_telegram_chat_id = usr_telegram_chat_id u,
     ur_email_alerts_enabled = usr_email_alerts_enabled u, ur_totp_enabled = usr_totp_enabled u\<rparr>"

record server_read =
  sr_id :: int
  sr_name :: string
  sr_is_active :: bool
  sr_paused :: bool
  sr_created_at :: time
  sr_last_seen_at :: "time option"
  sr_agent_version :: "string option"

definition server_response :: "server \<Rightarrow> server_read" where
  "server_response s = \<lparr>sr_id = srv_id s, sr_name = srv_name s, sr_is_active = srv_is_active s,
     sr_paused = srv_paused s, sr_created_at = srv_created_at s, sr_last_seen_at = srv_last_seen_at s,
     sr_agent_version = srv_agent_version s\<rparr>"

text \<open>The other schemas name every column of their row.\<close>

type_synonym metric_read = metric
type_synonym docker_metric_read = docker_metric
type_synonym metric_aggregate_read = metric_aggregate
type_synonym docker_aggregate_read = docker_aggregate
type_synonym alert_rule_read = alert_rule
type_synonym alert_event_read = alert_event
type_synonym audit_log_read = audit_log

section \<open>Requests\<close>

datatype query =
    Me
  | MyServers
  | Dashboard
  | SystemAggregates int period_type int
  | DockerAggregates int period_type "string option" int
  | ServerMetrics int int
  | ServerDockerMetrics int int "string option"
  | ExportSystem int py_datetime py_datetime granularity
  | ExportDocker int py_datetime py_datetime granularity "string option"
  | ExportLogs int "py_datetime option" "py_datetime option"
  | Rules "int option"
  | Rule int
  | Events "int option" "int option" int
  | Event int
  | ExportEvents "py_datetime option" "py_datetime option" "int option" "int option" bool
  | MyAudit int

datatype response =
    UserAnswer user_read
  | ServersAnswer "server_read list"
  | DashboardAnswer "dashboard_entry list"
  | SystemAggregatesAnswer "metric_aggregate_read list"
  | DockerAggregatesAnswer "docker_aggregate_read list"
  | MetricsAnswer "metric_read list"
  | DockerMetricsAnswer "docker_metric_read list"
  | CsvAnswer string
  | RulesAnswer "alert_rule_read list"
  | RuleAnswer alert_rule_read
  | EventsAnswer "alert_event_read list"
  | EventAnswer alert_event_read
  | AuditAnswer "audit_log_read list"

definition read_me :: "user \<Rightarrow> user" where
  "read_me current_user = current_user"

fun answer :: "env \<Rightarrow> (time \<Rightarrow> string) \<Rightarrow> query \<Rightarrow> user \<Rightarrow> db \<Rightarrow> response result" where
  "answer e isoformat Me u d = Inr (UserAnswer (user_response (read_me u)))"
| "answer e isoformat MyServers u d = Inr (ServersAnswer (map server_response (list_my_servers u d)))"
| "answer e isoformat Dashboard u d = Inr (DashboardAnswer (dashboard_data d u))"
| "answer e isoformat (SystemAggregates i p limit) u d =
     map_sum id SystemAggregatesAnswer (get_system_aggregates i p limit u d)"
| "answer e isoformat (DockerAggregates i p c limit) u d =
     map_sum id DockerAggregatesAnswer (get_docker_aggregates i p c limit u d)"
| "answer e isoformat (ServerMetrics i limit) u d = map_sum id MetricsAnswer (list_server_metrics i limit u d)"
| "answer e isoformat (ServerDockerMetrics i limit c) u d =
     map_sum id DockerMetricsAnswer (list_server_docker_metrics i limit c u d)"
| "answer e isoformat (ExportSystem i s f g) u d = map_sum id CsvAnswer (export_system_metrics e isoformat i s f g u d)"
| "answer e isoformat (ExportDocker i s f g c) u d = map_sum id CsvAnswer (export_docker_metrics e isoformat i s f g c u d)"
| "answer e isoformat (ExportLogs i s f) u d = map_sum id CsvAnswer (export_logs e isoformat i s f u d)"
| "answer e isoformat (Rules i) u d = map_sum id RulesAnswer (list_alert_rules i u d)"
| "answer e isoformat (Rule i) u d = map_sum id RuleAnswer (get_alert_rule i u d)"
| "answer e isoformat (Events i r limit) u d = map_sum id EventsAnswer (list_alert_events i r limit u d)"
| "answer e isoformat (Event i) u d = map_sum id EventAnswer (get_alert_event i u d)"
| "answer e isoformat (ExportEvents s f i r only_open) u d =
     map_sum id CsvAnswer (export_alert_events e isoformat s f i r only_open u d)"
| "answer e isoformat (MyAudit limit) u d = map_sum id AuditAnswer (list_my_audit limit u d)"

definition serve :: "crypto \<Rightarrow> env \<Rightarrow> (time \<Rightarrow> string) \<Rightarrow> string \<Rightarrow> query \<Rightarrow> db \<Rightarrow> response result" where
  "serve C e isoformat token q d = (case get_current_user C (clock e) token d of
     Inl x \<Rightarrow> Inl x
   | Inr u \<Rightarrow> answer e isoformat q u d)"

section \<open>The part of the database a user may read\<close>

definition hide_user :: "user \<Rightarrow> user" where
  "hide_user u = u\<lparr>usr_password_hash := [], usr_totp_secret := None\<rparr>"

definition hide_server :: "server \<Rightarrow> server" where
  "hide_server s = s\<lparr>srv_api_key_hash := []\<rparr>"

definition keep :: "('a \<Rightarrow> bool) \<Rightarrow> 'a table \<Rightarrow> 'a table" where
  "keep P t = t\<lparr>rows := filter P (rows t)\<rparr>"

definition hide_all :: "('a \<Rightarrow> 'a) \<Rightarrow> 'a table \<Rightarrow> 'a table" where
  "hide_all f t = t\<lparr>rows := map f (rows t)\<rparr>"

definition own_server_ids :: "int \<Rightarrow> db \<Rightarrow> int set" where
  "own_server_ids i d = srv_id ` {s \<in> set (rows (servers d)). srv_owner_id s = i}"

definition own_rule_ids :: "int \<Rightarrow> db \<Rightarrow> int set" where
  "own_rule_ids i d = rule_id ` {r \<in> set (rows (alert_rules d)). rule_owner_id r = i}"

text \<open>
  The servers that events of the user's own rules name: the rows the export of events joins. They
  are the user's own unless a rule and its server have different owners.
\<close>

definition alerting_server_ids :: "int \<Rightarrow> db \<Rightarrow> int set" where
  "alerting_server_ids i d = ev_server_id ` {ev \<in> set (rows (alert_events d)). ev_rule_id ev \<in> own_rule_ids i d}"

definition readable :: "int \<Rightarrow> db \<Rightarrow> db" where
  "readable i d = \<lparr>
     users = hide_all hide_user (keep (\<lambda>u. usr_id u = i) (users d)),
     servers = hide_all hide_server
       (keep (\<lambda>s. srv_owner_id s = i \<or> srv_id s \<in> alerting_server_ids i d) (servers d)),
     metrics = keep (\<lambda>m. met_server_id m \<in> own_server_ids i d) (metrics d),
     docker_metrics = keep (\<lambda>m. dm_server_id m \<in> own_server_ids i d) (docker_metrics d),
     metric_aggregates = keep (\<lambda>g. ma_server_id g \<in> own_server_ids i d) (metric_aggregates d),
     docker_aggregates = keep (\<lambda>g. da_server_id g \<in> own_server_ids i d) (docker_aggregates d),
     alert_rules = keep (\<lambda>r. rule_owner_id r = i) (alert_rules d),
     alert_events = keep (\<lambda>ev. ev_rule_id ev \<in> own_rule_ids i d \<or> ev_server_id ev \<in> own_server_ids i d) (alert_events d),
     audit_logs = keep (\<lambda>r. aud_user_id r = Some i) (audit_logs d),
     logs = keep (\<lambda>l. log_server_id l \<in> own_server_ids i d) (logs d)\<rparr>"

lemma readable_simps [simp]:
  "metrics (readable i d) = keep (\<lambda>m. met_server_id m \<in> own_server_ids i d) (metrics d)"
  "docker_metrics (readable i d) = keep (\<lambda>m. dm_server_id m \<in> own_server_ids i d) (docker_metrics d)"
  "metric_aggregates (readable i d) = keep (\<lambda>g. ma_server_id g \<in> own_server_ids i d) (metric_aggregates d)"
  "docker_aggregates (readable i d) = keep (\<lambda>g. da_server_id g \<in> own_server_ids i d) (docker_aggregates d)"
  "alert_rules (readable i d) = keep (\<lambda>r. rule_owner_id r = i) (alert_rules d)"
  "audit_logs (readable i d) = keep (\<lambda>r. aud_user_id r = Some i) (audit_logs d)"
  "logs (readable i d) = keep (\<lambda>l. log_server_id l \<in> own_server_ids i d) (logs d)"
  by (simp_all add: readable_def)

lemma hidden_simps [simp]:
  "usr_id (hide_user u) = usr_id u" "user_response (hide_user u) = user_response u"
  "srv_id (hide_server s) = srv_id s" "srv_owner_id (hide_server s) = srv_owner_id s" "srv_name (hide_server s) = srv_name s"
  "srv_is_active (hide_server s) = srv_is_active s" "srv_last_seen_at (hide_server s) = srv_last_seen_at s"
  "srv_agent_version (hide_server s) = srv_agent_version s" "server_response (hide_server s) = server_response s"
  by (simp_all add: hide_user_def hide_server_def user_response_def server_response_def)

section \<open>Queries on the readable part\<close>

lemma select_keep: "(\<And>r. P r \<Longrightarrow> Q r) \<Longrightarrow> select P (keep Q t) = select P t"
  by (auto simp: keep_def table_simps filter_filter intro: filter_cong)

lemma select_kept:
  "select Q (keep Q t) = select Q t"
  "select (\<lambda>r. Q r \<and> P r) (keep Q t) = select (\<lambda>r. Q r \<and> P r) t"
  "select (\<lambda>r. P r \<and> Q r) (keep Q t) = select (\<lambda>r. P r \<and> Q r) t"
  by (rule select_keep, simp)+

lemma select_own:
  "j \<in> A \<Longrightarrow> select (\<lambda>m. f m = j) (keep (\<lambda>m. f m \<in> A) t) = select (\<lambda>m. f m = j) t"
  "j \<in> A \<Longrightarrow> select (\<lambda>m. f m = j \<and> P m) (keep (\<lambda>m. f m \<in> A) t) = select (\<lambda>m. f m = j \<and> P m) t"
  by (rule select_keep, simp)+

lemma scalar_one_or_none_map: "scalar_one_or_none (map f xs) = map_sum id (map_option f) (scalar_one_or_none xs)"
  by (cases xs rule: scalar_one_or_none.cases) simp_all

lemma fetch_hidden:
  assumes "\<And>r. k (f r) = k r" and "\<And>r. P (f r) = P r" and "\<And>r. k r = i \<Longrightarrow> P r \<Longrightarrow> Q r"
  shows "fetch_by_id k i P (hide_all f (keep Q t)) = map_sum id (map_option f) (fetch_by_id k i P t)"
proof -
  have "select (\<lambda>r. k r = i \<and> P r) (hide_all f (keep Q t)) = map f (select (\<lambda>r. k r = i \<and> P r) t)"
    using assms by (auto simp: hide_all_def keep_def table_simps filter_map comp_def filter_filter intro!: map_cong filter_cong)
  then show ?thesis by (simp add: fetch_by_id_def scalar_one_or_none_map)
qed

lemma current_user_readable:
  assumes "get_current_user C now token d = Inr u"
  shows "get_current_user C now token (readable (usr_id u) d) = Inr (hide_user u)"
proof -
  obtain i where i: "fetch_by_id usr_id i (\<lambda>_. True) (users d) = Inr (Some u)"
    and eq: "\<And>d'. get_current_user C now token d' = (case fetch_by_id usr_id i (\<lambda>_. True) (users d') of
      Inl x \<Rightarrow> Inl (Unhandled x) | Inr None \<Rightarrow> Inl (HTTPException 401 CouldNotValidate) | Inr (Some u) \<Rightarrow> Inr u)"
    using assms by (auto simp: get_current_user_def Let_def split: option.splits sum.splits if_splits)
  have "usr_id u = i" using fetch_by_id_Some [OF i] by simp
  then have "fetch_by_id usr_id i (\<lambda>_. True) (users (readable (usr_id u) d)) = Inr (Some (hide_user u))"
    using fetch_hidden [of usr_id hide_user "\<lambda>_. True" i "\<lambda>r. usr_id r = i" "users d"] i by (simp add: readable_def)
  then show ?thesis by (simp add: eq)
qed

lemma own_events_hidden [simp]: "own_events (hide_user u) d = own_events u d"
  by (simp add: own_events_def)

lemma exports_hidden [simp]:
  "export_alert_events e isoformat s f i r only_open (hide_user u) d = export_alert_events e isoformat s f i r only_open u d"
  "export_system_metrics e isoformat j s' f' g (hide_user u) d = export_system_metrics e isoformat j s' f' g u d"
  "export_docker_metrics e isoformat j s' f' g c (hide_user u) d = export_docker_metrics e isoformat j s' f' g c u d"
  "export_logs e isoformat j s f (hide_user u) d = export_logs e isoformat j s f u d"
  unfolding export_alert_events_def export_system_metrics_def export_docker_metrics_def export_logs_def
    own_events_hidden hidden_simps(1)
  by (rule refl)+

lemma hide_user_irrelevant: "answer e isoformat q (hide_user u) d = answer e isoformat q u d"
  by (cases q)
    (simp_all add: read_me_def list_my_servers_def dashboard_data_def get_system_aggregates_def get_docker_aggregates_def
      list_server_metrics_def list_server_docker_metrics_def of_own_server_def list_alert_rules_def get_alert_rule_def own_rule_def
      list_alert_events_def get_alert_event_def list_my_audit_def)

lemma ownership_readable:
  "verify_server_ownership (readable i d) j i = map_sum id hide_server (verify_server_ownership d j i)"
proof -
  have "fetch_by_id srv_id j (\<lambda>s. srv_owner_id s = i) (servers (readable i d)) =
      map_sum id (map_option hide_server) (fetch_by_id srv_id j (\<lambda>s. srv_owner_id s = i) (servers d))"
    unfolding readable_def db.select_convs by (rule fetch_hidden) simp_all
  then show ?thesis by (simp add: verify_server_ownership_def split: sum.split option.split)
qed

lemma owned: "verify_server_ownership d j i = Inr s \<Longrightarrow> j \<in> own_server_ids i d"
  by (auto simp: verify_server_ownership_def own_server_ids_def dest!: fetch_by_id_Some split: sum.splits option.splits)

lemma of_own_server_readable:
  assumes "j \<in> own_server_ids (usr_id u) d \<Longrightarrow> found' = found"
  shows "of_own_server j u (readable (usr_id u) d) found' = of_own_server j u d found"
  using assms owned [of d j "usr_id u"]
  by (cases "verify_server_ownership d j (usr_id u)") (simp_all add: of_own_server_def ownership_readable)

lemma my_servers_readable: "list_my_servers u (readable (usr_id u) d) = map hide_server (list_my_servers u d)"
  by (auto simp: list_my_servers_def readable_def hide_all_def keep_def table_simps filter_map comp_def filter_filter
      intro!: map_cong filter_cong)

lemma listings_readable:
  "get_system_aggregates j p limit u (readable (usr_id u) d) = get_system_aggregates j p limit u d"
  "get_docker_aggregates j p c limit u (readable (usr_id u) d) = get_docker_aggregates j p c limit u d"
  "list_server_metrics j limit u (readable (usr_id u) d) = list_server_metrics j limit u d"
  "list_server_docker_metrics j limit c u (readable (usr_id u) d) = list_server_docker_metrics j limit c u d"
  by (auto simp: get_system_aggregates_def get_docker_aggregates_def list_server_metrics_def
      list_server_docker_metrics_def select_own intro!: arg_cong [where f = "limited limit n" for limit n]
      of_own_server_readable)

lemma streams_readable:
  assumes "j \<in> own_server_ids i d"
  shows "stream_system_raw (readable i d) j lo hi = stream_system_raw d j lo hi"
    and "stream_system_agg (readable i d) j lo hi p = stream_system_agg d j lo hi p"
    and "stream_docker_raw (readable i d) j lo hi c = stream_docker_raw d j lo hi c"
    and "stream_docker_agg (readable i d) j lo hi p c = stream_docker_agg d j lo hi p c"
  using assms
  by (simp_all add: stream_system_raw_def stream_system_agg_def stream_docker_raw_def stream_docker_agg_def select_own)

lemma exports_readable:
  "export_system_metrics e isoformat j s f g u (readable (usr_id u) d) = export_system_metrics e isoformat j s f g u d"
  "export_docker_metrics e isoformat j s f g c u (readable (usr_id u) d) =
     export_docker_metrics e isoformat j s f g c u d"
  "export_logs e isoformat j s' f' u (readable (usr_id u) d) = export_logs e isoformat j s' f' u d"
proof -
  note own = owned [of d j "usr_id u"]
  show "export_system_metrics e isoformat j s f g u (readable (usr_id u) d) = export_system_metrics e isoformat j s f g u d"
    using own by (cases "verify_server_ownership d j (usr_id u)")
      (simp_all add: export_system_metrics_def ownership_readable streams_readable split: sum.split granularity.split)
  show "export_docker_metrics e isoformat j s f g c u (readable (usr_id u) d) =
      export_docker_metrics e isoformat j s f g c u d"
    using own by (cases "verify_server_ownership d j (usr_id u)")
      (simp_all add: export_docker_metrics_def ownership_readable streams_readable split: sum.split granularity.split)
  show "export_logs e isoformat j s' f' u (readable (usr_id u) d) = export_logs e isoformat j s' f' u d"
    using own by (cases "verify_server_ownership d j (usr_id u)")
      (simp_all add: export_logs_def ownership_readable select_own split: sum.split)
qed

lemma rules_readable:
  "list_alert_rules i u (readable (usr_id u) d) = list_alert_rules i u d"
  "get_alert_rule j u (readable (usr_id u) d) = get_alert_rule j u d"
  by (simp_all add: list_alert_rules_def get_alert_rule_def own_rule_def fetch_by_id_def select_kept)

lemma own_events_readable: "own_events u (readable (usr_id u) d) = own_events u d"
proof -
  define f where "f = (\<lambda>rs (ev :: alert_event). concat (map (\<lambda>r. if ev_rule_id ev = rule_id r \<and> rule_owner_id r = usr_id u then [(ev, r)] else [])
    (rs :: alert_rule list)))"
  have f: "f (filter (\<lambda>r. rule_owner_id r = usr_id u) rs) = f rs" for rs
    unfolding f_def by (intro ext concat_map_filter) simp
  have none: "f (rows (alert_rules d)) ev = []"
    if "\<not> (ev_rule_id ev \<in> own_rule_ids (usr_id u) d \<or> ev_server_id ev \<in> own_server_ids (usr_id u) d)" for ev
    using that by (auto simp: f_def own_rule_ids_def)
  have eq: "own_events u d' = concat (map (f (rows (alert_rules d'))) (rows (alert_events d')))" for d'
    by (simp add: own_events_def f_def)
  have "own_events u (readable (usr_id u) d) = concat (map (f (rows (alert_rules d)))
      (filter (\<lambda>ev. ev_rule_id ev \<in> own_rule_ids (usr_id u) d \<or> ev_server_id ev \<in> own_server_ids (usr_id u) d)
        (rows (alert_events d))))"
    unfolding eq by (simp add: readable_def keep_def f)
  also have "\<dots> = concat (map (f (rows (alert_rules d))) (rows (alert_events d)))"
    by (rule concat_map_filter) (rule none)
  finally show ?thesis by (simp add: eq)
qed

lemma events_readable:
  "list_alert_events i r limit u (readable (usr_id u) d) = list_alert_events i r limit u d"
  "get_alert_event j u (readable (usr_id u) d) = get_alert_event j u d"
  by (simp_all add: list_alert_events_def get_alert_event_def own_events_readable)

lemma audit_readable: "list_my_audit limit u (readable (usr_id u) d) = list_my_audit limit u d"
  by (simp add: list_my_audit_def select_kept)

lemma own_events_member:
  "(ev, r) \<in> set (own_events u d) \<Longrightarrow>
    ev \<in> set (rows (alert_events d)) \<and> ev_rule_id ev \<in> own_rule_ids (usr_id u) d"
  by (auto simp: own_events_def own_rule_ids_def)

lemma dashboard_readable: "dashboard_data (readable (usr_id u) d) u = dashboard_data d u"
proof -
  have "open_alerts (readable (usr_id u) d) (srv_id s) = open_alerts d (srv_id s)"
    "dashboard_latest (readable (usr_id u) d) (srv_id s) = dashboard_latest d (srv_id s)"
    if "s \<in> set (list_my_servers u d)" for s
  proof -
    have own: "srv_id s \<in> own_server_ids (usr_id u) d"
      using that by (auto simp: list_my_servers_def table_simps own_server_ids_def)
    then show "dashboard_latest (readable (usr_id u) d) (srv_id s) = dashboard_latest d (srv_id s)"
      by (simp add: dashboard_latest_def select_own)
    from own show "open_alerts (readable (usr_id u) d) (srv_id s) = open_alerts d (srv_id s)"
      by (auto simp: open_alerts_def readable_def select_keep intro!: arg_cong [where f = length] select_keep)
  qed
  then show ?thesis by (simp add: dashboard_data_def my_servers_readable)
qed

text \<open>The export of events joins the server an event names, whoever owns it.\<close>

lemma sort_key_map: "sort_key f (map g xs) = map g (sort_key (\<lambda>x. f (g x)) xs)"
proof -
  have "insort_key f (g x) (map g ys) = map g (insort_key (\<lambda>x. f (g x)) x ys)" for x ys
    by (induction ys) auto
  then show ?thesis by (induction xs) (simp_all add: sort_key_def)
qed

definition hide_joined :: "alert_event \<times> alert_rule \<times> server \<Rightarrow> alert_event \<times> alert_rule \<times> server" where
  "hide_joined x = (fst x, fst (snd x), hide_server (snd (snd x)))"

definition joined_servers :: "(alert_event \<Rightarrow> bool) \<Rightarrow> (alert_event \<times> alert_rule) list \<Rightarrow> server list
    \<Rightarrow> (alert_event \<times> alert_rule \<times> server) list" where
  "joined_servers P es qs = [(ev, r, s). (ev, r) \<leftarrow> es, s \<leftarrow> qs, ev_server_id ev = srv_id s \<and> P ev]"

lemma hide_joined_simps [simp]:
  "event_cells (hide_joined x) = event_cells x" "ev_created_at (fst (hide_joined x)) = ev_created_at (fst x)"
  by (cases x; simp add: hide_joined_def event_cells_def)+

lemma joined_servers_hidden:
  assumes "\<And>ev r. (ev, r) \<in> set es \<Longrightarrow> ev_server_id ev \<in> A"
  shows "joined_servers P es (map hide_server (filter (\<lambda>s. Q s \<or> srv_id s \<in> A) qs)) = map hide_joined (joined_servers P es qs)"
proof -
  have "concat (map (\<lambda>q. if ev_server_id ev = srv_id q \<and> P ev then [(ev, r, q)] else [])
      (map hide_server (filter (\<lambda>s. Q s \<or> srv_id s \<in> A) qs))) =
    map hide_joined (concat (map (\<lambda>q. if ev_server_id ev = srv_id q \<and> P ev then [(ev, r, q)] else []) qs))"
    if "(ev, r) \<in> set es" for ev r
    using assms [OF that] by (induction qs) (auto simp: hide_joined_def)
  then show ?thesis
    unfolding joined_servers_def by (induction es) (simp_all add: split_beta del: map_map)
qed

lemma event_export_joined:
  "export_alert_events e isoformat start fin i r only_open u d =
    (case export_window e (days 7) (days 90) start fin of
       Inl x \<Rightarrow> Inl x
     | Inr w \<Rightarrow>
         if \<not> int32_params [i, r] then Inl (Unhandled DataError)
         else Inr (stream_csv event_header (map (\<lambda>x. map (csv_text (float_repr e) isoformat) (event_cells x))
           (sort_key (\<lambda>x. ev_created_at (fst x)) (joined_servers
             (\<lambda>ev. fst w \<le> ev_created_at ev \<and> ev_created_at ev \<le> snd w \<and> optional_filter ev_server_id i ev
               \<and> optional_filter ev_rule_id r ev \<and> (only_open \<longrightarrow> ev_resolved_at ev = None))
             (own_events u d) (rows (servers d)))))))"
  unfolding export_alert_events_def joined_servers_def
  by (simp add: Let_def case_prod_unfold split: sum.split)

lemma servers_readable: "rows (servers (readable i d)) =
    map hide_server (filter (\<lambda>s. srv_owner_id s = i \<or> srv_id s \<in> alerting_server_ids i d) (rows (servers d)))"
  by (simp add: readable_def hide_all_def keep_def)

lemma event_export_readable:
  "export_alert_events e isoformat s f i r only_open u (readable (usr_id u) d) =
    export_alert_events e isoformat s f i r only_open u d"
proof -
  have "joined_servers P (own_events u d) (rows (servers (readable (usr_id u) d))) =
      map hide_joined (joined_servers P (own_events u d) (rows (servers d)))" for P
    unfolding servers_readable
    by (rule joined_servers_hidden) (auto simp: alerting_server_ids_def dest!: own_events_member)
  then show ?thesis
    by (simp add: event_export_joined own_events_readable sort_key_map comp_def split: sum.split)
qed

lemma answer_readable: "answer e isoformat q u (readable (usr_id u) d) = answer e isoformat q u d"
  by (cases q)
    (simp_all add: my_servers_readable dashboard_readable listings_readable exports_readable rules_readable
      events_readable event_export_readable audit_readable)

section \<open>Properties\<close>

text \<open>C36: what a user reads is a function of the user's own part of the database without its
  secrets: no answer of a reading endpoint depends on a password hash, a second factor's
  secret or the hash of an API key, nor on a row that belongs to somebody else, except the
  server an event of an own rule names.\<close>

theorem answers_are_own_and_without_secrets:
  assumes "get_current_user C (clock e) token d = Inr u"
  shows "serve C e isoformat token q d = serve C e isoformat token q (readable (usr_id u) d)"
  using current_user_readable [OF assms] assms
  by (simp add: serve_def answer_readable hide_user_irrelevant)

definition reader_token :: string where
  "reader_token = create_access_token plain_crypto default_settings 0 1 None"

definition two_owners_db :: db where
  "two_owners_db = demo_db\<lparr>users := \<lparr>rows = [demo_user, other_user], seq = 3\<rparr>,
     servers := \<lparr>rows = [demo_server, demo_server\<lparr>srv_id := 2, srv_owner_id := 2\<rparr>], seq = 3\<rparr>\<rparr>"

lemma reader: "get_current_user plain_crypto (clock (env_at 0)) reader_token two_owners_db = Inr demo_user"
  using plain.decode_encode
  by (simp add: get_current_user_def reader_token_def create_access_token_def to_seconds_def default_settings_def
      fetch_by_id_def table_simps int32_def two_owners_db_def demo_user_def other_user_def)

theorem answers_witness:
  "serve plain_crypto (env_at 0) (\<lambda>_. []) reader_token MyServers two_owners_db =
      serve plain_crypto (env_at 0) (\<lambda>_. []) reader_token MyServers (readable 1 two_owners_db)
    \<and> rows (servers (readable 1 two_owners_db)) = [hide_server demo_server]
    \<and> map usr_password_hash (rows (users (readable 1 two_owners_db))) = [[]]"
  using answers_are_own_and_without_secrets [OF reader, of "\<lambda>_. []" MyServers]
  by (simp add: servers_readable alerting_server_ids_def two_owners_db_def demo_server_def demo_user_def other_user_def
      empty_table_def) (simp add: readable_def hide_all_def keep_def hide_user_def two_owners_db_def demo_user_def other_user_def)

end
