(* ===== verification/PW_Lifecycle.thy ===== *)
theory PW_Lifecycle
  imports PW_Heartbeat PW_Notifications PW_Machine
begin

text \<open>
  The processes around the handlers: the lifespan of the web application with its reference to the
  Redis client, the loop that refreshes the gauges and the health check (\<open>app/main.py\<close>,
  \<open>app/redis_client.py\<close>, \<open>app/core/observability_refresh.py\<close>), the retries of a notification task
  (\<open>app/tasks/notification_tasks.py\<close>). Celery is a parameter: the locale \<open>celery_retries\<close> says how
  long it waits before a retry, and that an attempt takes a bounded time.
\<close>

section \<open>The reference to the Redis client\<close>

definition get_app_redis :: "'c option \<Rightarrow> exc + 'c" where
  "get_app_redis ref = (case ref of None \<Rightarrow> Inl RuntimeError | Some c \<Rightarrow> Inr c)"

definition get_redis :: "'c option \<Rightarrow> exc + 'c" where
  "get_redis = get_app_redis"

text \<open>\<open>status\<close> and \<open>redis\<close> of the answer; \<open>ping\<close> is False where it raises.\<close>

definition health :: "('c \<Rightarrow> bool) \<Rightarrow> 'c option \<Rightarrow> string \<times> bool" where
  "health ping ref = (''ok'', case get_redis ref of Inl _ \<Rightarrow> False | Inr c \<Rightarrow> ping c)"

section \<open>The lifespan\<close>

datatype web_phase = Down | Serving | Stopped | StartFailed

text \<open>\<open>web_open\<close> are the clients that were made and not closed.\<close>

record 'c web =
  web_phase :: web_phase
  web_ref :: "'c option"
  web_open :: "'c list"
  web_refreshes :: bool
  web_gauges :: gauges

definition web_start :: "gauges \<Rightarrow> 'c web" where
  "web_start g = \<lparr>web_phase = Down, web_ref = None, web_open = [], web_refreshes = False, web_gauges = g\<rparr>"

text \<open>
  A refresh sets each gauge right after its query; when a query raises, the gauges before it have
  their new values and the rest keep the old ones. \<open>k\<close> is how many of the five queries worked.
\<close>

definition refreshed :: "nat \<Rightarrow> gauges \<Rightarrow> gauges \<Rightarrow> gauges" where
  "refreshed k new old = \<lparr>
     users_total = (if 0 < k then users_total new else users_total old),
     servers_paused = (if 1 < k then servers_paused new else servers_paused old),
     servers_active = (if 2 < k then servers_active new else servers_active old),
     servers_inactive = (if 3 < k then servers_inactive new else servers_inactive old),
     open_alerts_total = (if 4 < k then open_alerts_total new else open_alerts_total old)\<rparr>"

datatype 'c web_event = Starts 'c bool | Refreshes nat env db | Stops

inductive web_step :: "'c web \<Rightarrow> 'c web_event \<Rightarrow> 'c web \<Rightarrow> bool" where
  starts: "web_phase w = Down \<Longrightarrow>
    web_step w (Starts c True)
      (w\<lparr>web_phase := Serving, web_ref := Some c, web_open := c # web_open w, web_refreshes := True\<rparr>)"
| start_fails: "web_phase w = Down \<Longrightarrow>
    web_step w (Starts c False) (w\<lparr>web_phase := StartFailed, web_open := c # web_open w\<rparr>)"
| refreshes: "web_refreshes w \<Longrightarrow>
    web_step w (Refreshes k e d) (w\<lparr>web_gauges := refreshed k (refresh_once e d) (web_gauges w)\<rparr>)"
| stops: "web_phase w = Serving \<Longrightarrow> web_ref w = Some c \<Longrightarrow>
    web_step w Stops
      (w\<lparr>web_phase := Stopped, web_ref := None, web_open := remove1 c (web_open w), web_refreshes := False\<rparr>)"

inductive_cases web_stepE: "web_step w l w'"

definition web_inv :: "'c web \<Rightarrow> bool" where
  "web_inv w \<longleftrightarrow> (case web_ref w of
     Some c \<Rightarrow> web_phase w = Serving \<and> web_open w = [c] \<and> web_refreshes w
   | None \<Rightarrow> web_phase w \<noteq> Serving \<and> (web_phase w \<noteq> StartFailed \<longrightarrow> web_open w = []) \<and> \<not> web_refreshes w)"

lemma web_inv_start: "web_inv (web_start g)"
  by (simp add: web_inv_def web_start_def)

lemma web_inv_step: "web_step w l w' \<Longrightarrow> web_inv w \<Longrightarrow> web_inv w'"
  by (elim web_stepE) (auto simp: web_inv_def split: option.splits)

interpretation web_process: machine web_step web_inv
  by unfold_locales (rule web_inv_step)

text \<open>The gauges in the order of their queries.\<close>

fun gauge :: "nat \<Rightarrow> gauges \<Rightarrow> nat" where
  "gauge 0 g = users_total g"
| "gauge (Suc 0) g = servers_paused g"
| "gauge (Suc (Suc 0)) g = servers_active g"
| "gauge (Suc (Suc (Suc 0))) g = servers_inactive g"
| "gauge (Suc (Suc (Suc (Suc _)))) g = open_alerts_total g"

fun refreshes_of :: "'c web_event list \<Rightarrow> (nat \<times> gauges) list" where
  "refreshes_of [] = []"
| "refreshes_of (Refreshes k e d # ls) = (k, refresh_once e d) # refreshes_of ls"
| "refreshes_of (_ # ls) = refreshes_of ls"

text \<open>The refreshes whose query for gauge \<open>n\<close> worked.\<close>

definition reached :: "nat \<Rightarrow> 'c web_event list \<Rightarrow> gauges list" where
  "reached n ls = map snd (filter (\<lambda>x. n < fst x) (refreshes_of ls))"

lemma gauge_refreshed: "n < 5 \<Longrightarrow> gauge n (refreshed k new old) = (if n < k then gauge n new else gauge n old)"
  by (auto simp: refreshed_def less_Suc_eq numeral_eq_Suc)

lemma refreshes_of_append [simp]: "refreshes_of (ls @ ms) = refreshes_of ls @ refreshes_of ms"
  by (induction ls rule: refreshes_of.induct) simp_all

lemma gauges_run:
  assumes "machine_run web_step w ls w'" and "n < 5"
  shows "gauge n (web_gauges w') =
    (if reached n ls = [] then gauge n (web_gauges w) else gauge n (last (reached n ls)))"
  using assms
proof (induction rule: machine_run.induct)
  case (move w l w' ls w'')
  from move.hyps(1) have "gauge n (web_gauges w') =
      (if reached n [l] = [] then gauge n (web_gauges w) else gauge n (last (reached n [l])))"
    using \<open>n < 5\<close> by (cases rule: web_step.cases) (simp_all add: reached_def gauge_refreshed)
  moreover have "reached n (l # ls) = reached n [l] @ reached n ls"
    using refreshes_of_append [of "[l]" ls] by (simp add: reached_def del: refreshes_of_append)
  ultimately show ?case using move.IH [OF \<open>n < 5\<close>] by simp
qed (simp add: reached_def)

text \<open>
  The client is reachable exactly while the application serves, is closed when it stops, and the
  health check answers in every state; every gauge shows what the last refresh found that got as
  far as its query, whatever failed since.\<close>

theorem web_process_life:
  assumes "machine_run web_step (web_start g) ls w"
  shows "((\<exists>c. get_redis (web_ref w) = Inr c) \<longleftrightarrow> web_phase w = Serving)
    \<and> (web_phase w = Stopped \<longrightarrow> web_open w = [])
    \<and> fst (health ping (web_ref w)) = ''ok''
    \<and> (n < 5 \<longrightarrow> gauge n (web_gauges w) =
        (if reached n ls = [] then gauge n g else gauge n (last (reached n ls))))"
  using web_process.run_inv [OF assms web_inv_start] gauges_run [OF assms, of n]
  by (auto simp: web_inv_def get_redis_def get_app_redis_def health_def web_start_def split: option.splits)

section \<open>Retries\<close>

text \<open>
  \<open>autoretry_for\<close> with \<open>retry_backoff=True\<close>, \<open>retry_backoff_max=600\<close>, \<open>retry_jitter=True\<close> and
  \<open>max_retries=5\<close>: Celery waits a random time up to the backoff before a retry, and after five
  retries the error ends the task.
\<close>

definition MAX_RETRIES :: nat where
  "MAX_RETRIES = 5"

definition RETRY_BACKOFF_MAX :: int where
  "RETRY_BACKOFF_MAX = 600"

definition retry_backoff :: "nat \<Rightarrow> int" where
  "retry_backoff n = min (2 ^ n) RETRY_BACKOFF_MAX"

text \<open>
  \<open>took t\<close> is what passes between the start of an attempt at \<open>t\<close> and that of its retry besides
  the backoff: the attempt itself (its queries, the request with its timeouts) and what the due
  retry waits for a worker.
\<close>

function task_attempts :: "(nat \<Rightarrow> int) \<Rightarrow> (time \<Rightarrow> time) \<Rightarrow> (time \<Rightarrow> 'a delivery) \<Rightarrow> nat \<Rightarrow> time
    \<Rightarrow> (time \<times> 'a delivery) list" where
  "task_attempts wait took send n t =
     (t, send t) # (if send t = Retry \<and> n < MAX_RETRIES
       then task_attempts wait took send (Suc n) (t + took t + secs (wait n)) else [])"
  by pat_completeness auto
termination by (relation "measure (\<lambda>(_, _, _, n, _). MAX_RETRIES - n)") auto

declare task_attempts.simps [simp del]

locale celery_retries =
  fixes wait :: "nat \<Rightarrow> int" and took :: "time \<Rightarrow> time" and longest :: time
  assumes wait_bounds: "0 \<le> wait n \<and> wait n \<le> retry_backoff n"
    and took_bounds: "0 \<le> took t \<and> took t \<le> longest"
begin

text \<open>From attempt \<open>n\<close> on, the retries have begun after the sum of the backoffs that are left and as
  many of the longest attempts.\<close>

lemma attempts_within:
  assumes "n + k = MAX_RETRIES" and "x \<in> set (task_attempts wait took send n t)"
  shows "snd x = send (fst x) \<and> t \<le> fst x
    \<and> fst x \<le> t + int k * longest + secs (\<Sum>i=n..<n + k. retry_backoff i)"
  using assms
proof (induction k arbitrary: n t)
  case 0
  then show ?case by (subst (asm) task_attempts.simps) simp
next
  case (Suc k)
  have "0 \<le> longest" using took_bounds [of t] by linarith
  moreover have "0 \<le> (\<Sum>i=n..<n + Suc k. retry_backoff i)"
    by (rule sum_nonneg) (simp add: retry_backoff_def RETRY_BACKOFF_MAX_def)
  ultimately have nonneg: "0 \<le> int (Suc k) * longest + secs (\<Sum>i=n..<n + Suc k. retry_backoff i)"
    by simp
  show ?case
  proof (cases "x = (t, send t)")
    case False
    let ?t = "t + took t + secs (wait n)"
    have "x \<in> set (task_attempts wait took send (Suc n) ?t)"
      using False Suc.prems(2) by (subst (asm) task_attempts.simps) (auto split: if_splits)
    then have "snd x = send (fst x) \<and> ?t \<le> fst x
        \<and> fst x \<le> ?t + int k * longest + secs (\<Sum>i=Suc n..<Suc n + k. retry_backoff i)"
      by (intro Suc.IH) (use Suc.prems(1) in simp_all)
    moreover have "(\<Sum>i=n..<n + Suc k. retry_backoff i) = retry_backoff n + (\<Sum>i=Suc n..<Suc n + k. retry_backoff i)"
      by (simp add: sum.atLeast_Suc_lessThan)
    moreover have "int (Suc k) * longest = longest + int k * longest" by (simp add: algebra_simps)
    ultimately show ?thesis using wait_bounds [of n] took_bounds [of t] by simp
  qed (use nonneg in simp)
qed

lemma attempts_all_fail:
  assumes "n + k = MAX_RETRIES" and "\<And>x. x \<in> set (task_attempts wait took send n t) \<Longrightarrow> snd x = Retry"
  shows "length (task_attempts wait took send n t) = Suc k"
  using assms
proof (induction k arbitrary: n t)
  case 0
  then show ?case by (subst task_attempts.simps) simp
next
  case (Suc k)
  let ?t = "t + took t + secs (wait n)"
  have eq: "task_attempts wait took send n t = (t, send t) # task_attempts wait took send (Suc n) ?t"
    using Suc.prems by (subst task_attempts.simps) (auto simp: task_attempts.simps [of wait took send n t])
  then show ?case using Suc.IH [of "Suc n" ?t] Suc.prems by auto
qed

end

lemma attempts_shape:
  "n \<le> MAX_RETRIES \<Longrightarrow> length (task_attempts wait took send n t) \<le> Suc (MAX_RETRIES - n)"
  "x \<in> set (butlast (task_attempts wait took send n t)) \<Longrightarrow> snd x = Retry"
proof (induction wait took send n t rule: task_attempts.induct)
  case (1 wait took send n t)
  {
    case 1
    with "1.IH"(1) show ?case by (subst task_attempts.simps) (auto simp: Suc_diff_le)
  next
    case 2
    with "1.IH"(2) show ?case by (subst (asm) task_attempts.simps) (auto split: if_splits)
  }
qed

text \<open>The longest waits: without jitter; every attempt runs into the ten seconds of the request's timeout.\<close>

interpretation full_backoff: celery_retries retry_backoff "\<lambda>_. secs 10" "secs 10"
  by unfold_locales (simp_all add: retry_backoff_def RETRY_BACKOFF_MAX_def)

lemma backoff_sum: "(\<Sum>i=0..<MAX_RETRIES. retry_backoff i) = 31"
  by (simp add: MAX_RETRIES_def retry_backoff_def RETRY_BACKOFF_MAX_def eval_nat_numeral)

lemma backoff_below_cap: "n < MAX_RETRIES \<Longrightarrow> retry_backoff n < RETRY_BACKOFF_MAX"
  by (auto simp: MAX_RETRIES_def retry_backoff_def RETRY_BACKOFF_MAX_def numeral_eq_Suc less_Suc_eq)

lemma attempts_window:
  assumes "celery_retries wait took longest" and "x \<in> set (task_attempts wait took send 0 t)"
  shows "snd x = send (fst x)" and "t \<le> fst x" and "fst x \<le> t + 5 * longest + secs 31"
  using celery_retries.attempts_within [OF assms(1), of 0 MAX_RETRIES x send t] assms(2) backoff_sum
  by (simp_all add: MAX_RETRIES_def)

text \<open>C37: the retries of a Telegram alert are bounded. There are at most six attempts, only the last of
  which may end otherwise than in a retry; when an attempt together with the wait of a due retry
  for a worker takes at most \<open>longest\<close>, the last attempt starts within 31 seconds, all the backoffs
  together, and five times \<open>longest\<close> after the first: the cap of 600 seconds is never reached. When
  every request fails that is started in that time, the alert is lost (its event, the owner and
  the owner's chat stay as they are meanwhile).\<close>

theorem telegram_retries_bounded:
  assumes "celery_retries wait took longest" and "event_row i (app_db a) = Some (ev, r, s, u)"
    and "usr_telegram_chat_id u = Some chat" and "chat \<noteq> []" and "set_to (telegram_bot_token S)"
    and "tries = task_attempts wait took (\<lambda>now. send_telegram_alert S R (post now) (e\<lparr>clock := now\<rparr>) i a) 0 t"
    and "until = t + 5 * longest + secs 31"
  shows "length tries \<le> 6 \<and> (\<forall>x \<in> set tries. t \<le> fst x \<and> fst x \<le> until)
    \<and> (\<forall>x \<in> set (butlast tries). snd x = Retry)
    \<and> (\<forall>n<MAX_RETRIES. retry_backoff n < RETRY_BACKOFF_MAX)
    \<and> ((\<forall>now. t \<le> now \<and> now \<le> until \<longrightarrow>
          \<not> is_channel_muted R (app_rd a) now (srv_id s) ''telegram'' \<and> post now chat \<noteq> Status 200)
        \<longrightarrow> map snd tries = replicate 6 Retry)"
proof -
  let ?send = "\<lambda>now. send_telegram_alert S R (post now) (e\<lparr>clock := now\<rparr>) i a"
  note window = attempts_window [OF assms(1), of _ ?send t]
  have "map snd tries = replicate 6 Retry"
    if outage: "\<forall>now. t \<le> now \<and> now \<le> until \<longrightarrow>
      \<not> is_channel_muted R (app_rd a) now (srv_id s) ''telegram'' \<and> post now chat \<noteq> Status 200"
  proof -
    have fails: "snd x = Retry" if "x \<in> set tries" for x
    proof -
      have "send_message S (post now) chat = SendError" if "post now chat \<noteq> Status 200" for now
        using that assms(5) by (cases "post now chat") (auto simp: send_message_def)
      with window [of x] that outage assms(2-7) show ?thesis
        by (simp add: send_telegram_alert_def after_send_def)
    qed
    then have "length tries = 6"
      using celery_retries.attempts_all_fail [OF assms(1), of 0 MAX_RETRIES ?send t] assms(6)
      by (auto simp: MAX_RETRIES_def)
    with fails show ?thesis by (auto intro!: replicate_eqI)
  qed
  then show ?thesis
    using window attempts_shape(1) [of 0 wait took ?send t] attempts_shape(2) [of _ wait took ?send 0 t]
      backoff_below_cap assms(6,7) by (auto simp: MAX_RETRIES_def)
qed

theorem retries_witness:
  "map snd (task_attempts retry_backoff (\<lambda>_. secs 10)
      (\<lambda>now. send_telegram_alert (default_settings\<lparr>telegram_bot_token := Some ''t''\<rparr>)
        kv_redis (\<lambda>_. NetworkError) ((env_at 0)\<lparr>clock := now\<rparr>) 1 notify_state) 0 0) = replicate 6 Retry"
proof -
  have "\<not> is_channel_muted kv_redis (app_rd notify_state) now (srv_id demo_server) ''telegram''" for now
    by (simp add: notify_state_def is_channel_muted_def kv_redis_def kv_get_def)
  then show ?thesis
    using telegram_retries_bounded [OF full_backoff.celery_retries_axioms notify_row, of "''7''"
      "default_settings\<lparr>telegram_bot_token := Some ''t''\<rparr>" _ kv_redis "\<lambda>_ _. NetworkError" "env_at 0" 0]
    by (auto simp: set_to_def chat_user_def)
qed

end
