(* ===== verification/PW_Demo.thy ===== *)
theory PW_Demo
  imports PW_Auth PW_Ingest PW_AlertRules PW_Servers
begin

text \<open>
  The demo script (\<open>scripts/demo.py\<close>) as a client of the handlers: it makes an account, a server
  and two rules through the API and then plays an agent that posts random metrics. It is the way
  of a new user through the whole service, and what is shown of it is what the service owes that
  user: after the set-up every rule has an event exactly when a posted value went over its
  threshold. Requests are served one at a time; each has its own environment.
\<close>

section \<open>The script\<close>

definition EMAIL :: string where "EMAIL = ''demo@example.com''"
definition PASSWORD :: string where "PASSWORD = ''demopass123''"

text \<open>The random values of one run: the suffix the script draws, and those the handlers draw.\<close>

record demo_draws =
  dd_suffix :: string
  dd_user_salt :: string
  dd_jti :: string
  dd_server_salt :: string
  dd_secret :: string

definition demo_server_name :: "demo_draws \<Rightarrow> string" where
  "demo_server_name x = ''demo-srv-'' @ dd_suffix x"

definition demo_rule_of :: "string \<Rightarrow> int \<Rightarrow> string \<Rightarrow> string \<Rightarrow> rule_create" where
  "demo_rule_of server_name server_id label field = \<lparr>rc_server_id = server_id,
     rc_name = server_name @ label, rc_metric_type = System, rc_metric_field = field,
     rc_operator = Gt, rc_threshold_value = Fin 60, rc_container_name = None,
     rc_cooldown_seconds = 60, rc_is_active = True,
     rc_notification_channels = [''telegram'', ''email'']\<rparr>"

definition demo_rules :: "string \<Rightarrow> int \<Rightarrow> rule_create list" where
  "demo_rules server_name server_id =
     [demo_rule_of server_name server_id '' cpu high'' ''cpu_percent'',
      demo_rule_of server_name server_id '' memory high'' ''memory_percent'']"

text \<open>The status an answer carries; \<open>raise_for_status\<close> raises on every refusal.\<close>

fun answer_status :: "int \<Rightarrow> 'a result \<Rightarrow> int" where
  "answer_status ok (Inr _) = ok"
| "answer_status ok (Inl (HTTPException s _)) = s"
| "answer_status ok (Inl (Unhandled _)) = 500"

definition raise_for_status :: "'a result \<Rightarrow> http_error option" where
  "raise_for_status r = (case r of Inl y \<Rightarrow> Some y | Inr _ \<Rightarrow> None)"

fun post_rules :: "crypto \<Rightarrow> string \<Rightarrow> (env \<times> rule_create) list \<Rightarrow> 'r app \<Rightarrow> unit result \<times> 'r app" where
  "post_rules C token [] a = (Inr (), a)"
| "post_rules C token ((e, rule) # rules) a =
     (case authed C e token (create_alert_rule e rule) a of
        (Inl x, a1) \<Rightarrow> (Inl x, a1)
      | (Inr _, a1) \<Rightarrow> post_rules C token rules a1)"

text \<open>
  \<open>setup\<close> in two parts: an account, new or not, with an access token; a server under a fresh name
  with its rules. \<open>es n\<close> is the environment of the request \<open>n\<close>.
\<close>

definition demo_sign_in :: "settings \<Rightarrow> crypto \<Rightarrow> 'r redis \<Rightarrow> (nat \<Rightarrow> env) \<Rightarrow> demo_draws \<Rightarrow> 'r app
    \<Rightarrow> string result \<times> 'r app" where
  "demo_sign_in S C R es x a =
     (case register_user C (es 0) (dd_user_salt x) EMAIL PASSWORD a of (r, a1) \<Rightarrow>
        (case (if answer_status 201 r \<in> {201, 409} then None else raise_for_status r) of
           Some y \<Rightarrow> (Inl y, a1)
         | None \<Rightarrow>
             (case login S C R (es 1) (dd_jti x) EMAIL PASSWORD None a1 of
                (Inl y, a2) \<Rightarrow> (Inl y, a2)
              | (Inr tokens, a2) \<Rightarrow> (Inr (access_token tokens), a2))))"

definition demo_setup :: "settings \<Rightarrow> crypto \<Rightarrow> 'r redis \<Rightarrow> (nat \<Rightarrow> env) \<Rightarrow> demo_draws \<Rightarrow> 'r app
    \<Rightarrow> (int \<times> string) result \<times> 'r app" where
  "demo_setup S C R es x a = (case demo_sign_in S C R es x a of
     (Inl y, a2) \<Rightarrow> (Inl y, a2)
   | (Inr token, a2) \<Rightarrow>
       (let server_name = demo_server_name x in
        case authed C (es 2) token
            (register_server C (es 2) (dd_server_salt x) (dd_secret x) server_name) a2 of
          (Inl y, a3) \<Rightarrow> (Inl y, a3)
        | (Inr payload, a3) \<Rightarrow>
            (case post_rules C token (zip [es 3, es 4] (demo_rules server_name (swk_id payload))) a3 of
               (Inl y, a4) \<Rightarrow> (Inl y, a4)
             | (Inr _, a4) \<Rightarrow> (Inr (swk_id payload, swk_api_key payload), a4))))"

text \<open>
  A round of the fake agent. A request may fail before it is served or after (a time-out); in both
  cases the script has no status to show and goes on.
\<close>

record demo_round =
  rd_env :: env
  rd_cpu :: pyfloat
  rd_memory :: pyfloat
  rd_disk :: pyfloat
  rd_served :: bool
  rd_answered :: bool

definition demo_payload :: "demo_round \<Rightarrow> metric_create" where
  "demo_payload rd = \<lparr>mc_cpu_percent = rd_cpu rd, mc_memory_percent = rd_memory rd,
     mc_disk_percent = rd_disk rd, mc_agent_version = Some ''demo-fake-0.0.1''\<rparr>"

fun fake_agent :: "crypto \<Rightarrow> string \<Rightarrow> demo_round list \<Rightarrow> 'r app \<Rightarrow> int option list \<times> 'r app" where
  "fake_agent C api_key [] a = ([], a)"
| "fake_agent C api_key (rd # rds) a =
     (let (status, a1) = (if rd_served rd
            then (case with_api_key C (Some api_key) (submit_metric (rd_env rd) (demo_payload rd)) a of
              (r, a1) \<Rightarrow> (Some (answer_status 201 r), a1))
            else (None, a));
          status_label = (if rd_answered rd then status else None);
          (labels, a2) = fake_agent C api_key rds a1
      in (status_label # labels, a2))"

text \<open>What a run prints: that the backend is down, that the set-up was refused, or the rounds.\<close>

datatype demo_output = BackendDown | SetupRefused http_error | Rounds int string "int option list"

definition demo_main :: "settings \<Rightarrow> crypto \<Rightarrow> 'r redis \<Rightarrow> bool \<Rightarrow> (nat \<Rightarrow> env) \<Rightarrow> demo_draws
    \<Rightarrow> demo_round list \<Rightarrow> 'r app \<Rightarrow> demo_output \<times> 'r app" where
  "demo_main S C R healthy es x rds a =
     (if \<not> healthy then (BackendDown, a)
      else (case demo_setup S C R es x a of
        (Inl y, a1) \<Rightarrow> (SetupRefused y, a1)
      | (Inr (server_id, api_key), a1) \<Rightarrow>
          (case fake_agent C api_key rds a1 of (labels, a2) \<Rightarrow> (Rounds server_id api_key labels, a2))))"

section \<open>The set-up\<close>

text \<open>What the set-up needs: the account is new or has the script's password and no second factor,
  nothing is in the way of the best-effort audit rows, bcrypt takes both secrets, the ids are in
  range, no server has the drawn name, and the access token lives until the last request.\<close>

definition demo_ready :: "settings \<Rightarrow> crypto \<Rightarrow> (nat \<Rightarrow> env) \<Rightarrow> demo_draws \<Rightarrow> db \<Rightarrow> bool" where
  "demo_ready S C es x d \<longleftrightarrow>
     (\<forall>u \<in> set (rows (users d)). usr_email u = EMAIL \<longrightarrow> int32 (usr_id u)
        \<and> verify_password C PASSWORD (usr_password_hash u) = Inr True \<and> second_factor C (es 1) u None = None)
     \<and> \<not> isl (hash_password C (dd_user_salt x) PASSWORD) \<and> \<not> isl (hash_password C (dd_server_salt x) (dd_secret x))
     \<and> (\<forall>s \<in> set (rows (servers d)). srv_name s \<noteq> demo_server_name x)
     \<and> int32 (seq (users d)) \<and> int32 (seq (servers d)) \<and> length (dd_suffix x) = 4
     \<and> list_all (\<lambda>k. audit_ok (es k)) [0, 3, 4]
     \<and> list_all (\<lambda>k. to_seconds (clock (es k))
          \<le> to_seconds (clock (es 1) + minutes (access_token_expire_minutes S))) [2, 3, 4]"

text \<open>The tables the set-up and the agent are about.\<close>

definition monitored :: "db \<Rightarrow> server table \<times> metric table \<times> alert_rule table \<times> alert_event table" where
  "monitored d = (servers d, metrics d, alert_rules d, alert_events d)"

lemma monitored_simps [simp]:
  "monitored (record_audit e ac u rt ri rq m d) = monitored d"
  "monitored (d\<lparr>users := t\<rparr>) = monitored d"
  by (simp_all add: monitored_def)

lemma login_ok:
  assumes "select (\<lambda>u. usr_email u = name) (users (app_db a)) = [u]"
    and "verify_password C pw (usr_password_hash u) = Inr True" and "second_factor C e u code = None"
  obtains tok a' where "login S C R e jti name pw code a = (Inr tok, a')"
    and "access_token tok = create_access_token C S (clock e) (usr_id u) None"
    and "users (app_db a') = users (app_db a)" and "monitored (app_db a') = monitored (app_db a)"
  using assms by (simp add: login_def Let_def split_beta)

lemma email_select:
  assumes "db_ok d" and "u \<in> set (rows (users d))"
  shows "select (\<lambda>v. usr_email v = usr_email u) (users d) = [u]"
  using filter_key_unique [of usr_email "rows (users d)" u "\<lambda>_. True"] db_ok_unique(1) [OF assms(1)] assms(2)
  by (simp add: table_simps)

lemma register_demo:
  assumes "crypto_service C" and "db_ok (app_db a)" and ready: "demo_ready S C es x (app_db a)"
    and reg: "register_user C (es 0) (dd_user_salt x) EMAIL PASSWORD a = (r, a1)"
  obtains u where "u \<in> set (rows (users (app_db a1)))" and "usr_email u = EMAIL" and "int32 (usr_id u)"
    and "verify_password C PASSWORD (usr_password_hash u) = Inr True" and "second_factor C (es 1) u None = None"
    and "answer_status 201 r \<in> {201, 409}" and "monitored (app_db a1) = monitored (app_db a)"
proof (cases "\<exists>u \<in> set (rows (users (app_db a))). usr_email u = EMAIL")
  case True
  then obtain u where u: "u \<in> set (rows (users (app_db a)))" "usr_email u = EMAIL" by blast
  with email_select [OF assms(2) u(1)] reg have "r = Inl (HTTPException 409 EmailTaken)" and "a1 = a"
    by (simp_all add: register_user_def register_check_def)
  with u ready that [of u] show ?thesis by (simp add: demo_ready_def)
next
  case False
  then have none: "select (\<lambda>u. usr_email u = EMAIL) (users (app_db a)) = []"
    by (auto simp: table_simps filter_empty_conv)
  obtain h where h: "hash_password C (dd_user_salt x) PASSWORD = Inr h"
    using ready by (cases "hash_password C (dd_user_salt x) PASSWORD") (auto simp: demo_ready_def)
  let ?u = "new_user_row (es 0) EMAIL h (seq (users (app_db a)))"
  from reg False none h ready have "r = Inr ?u"
    and "app_db a1 = record_audit (es 0) ''register'' (Some (usr_id ?u)) None None True None
      ((app_db a)\<lparr>users := insert_row (new_user_row (es 0) EMAIL h) (users (app_db a))\<rparr>)"
    by (auto simp: register_user_def register_check_def register_commit_def Let_def after_audit_def demo_ready_def)
  with that [of ?u] h ready crypto_service.verify_hash [OF assms(1) h] show ?thesis
    by (simp add: new_user_row_def second_factor_def table_simps demo_ready_def)
qed

text \<open>The handlers behind the access token of the demo account, for a user of the database.\<close>

lemma access_ok:
  assumes "crypto_service C" and "db_ok d" and "u \<in> set (rows (users d))" and "int32 (usr_id u)"
    and "to_seconds now \<le> to_seconds (t + minutes (access_token_expire_minutes S))"
  shows "get_current_user C now (create_access_token C S t (usr_id u) None) d = Inr u"
  using crypto_service.access_token_user [OF assms(1)] fetch_by_id_row [OF db_ok_keyed(1) [OF assms(2)] assms(3)]
    assms(4,5) by simp

lemma register_server_new:
  assumes "crypto_service C" and "\<not> isl (hash_password C salt secret)"
    and "\<forall>s \<in> set (rows (servers (app_db a))). srv_name s \<noteq> name"
  obtains s payload a' where "register_server C e salt secret name u a = (Inr payload, a')"
    and "swk_id payload = srv_id s" and "swk_api_key payload = api_key_of (srv_id s) secret"
    and "rows (servers (app_db a')) = rows (servers (app_db a)) @ [s]"
    and "srv_id s = seq (servers (app_db a))" and "srv_name s = name" and "srv_owner_id s = usr_id u"
    and "srv_is_active s" and "\<not> srv_paused s" and "verify_password C secret (srv_api_key_hash s) = Inr True"
    and "users (app_db a') = users (app_db a)"
    and "snd (monitored (app_db a')) = snd (monitored (app_db a))"
proof -
  obtain h where h: "hash_password C salt secret = Inr h"
    using assms(2) by (cases "hash_password C salt secret") auto
  let ?s = "new_server e name h u (seq (servers (app_db a)))"
  let ?a = "a\<lparr>app_db := (app_db a)\<lparr>servers := insert_row (new_server e name h u) (servers (app_db a))\<rparr>\<rparr>"
  have no: "\<not> (\<exists>q \<in> set (rows (servers (app_db a))). srv_owner_id q = usr_id u \<and> srv_name q = name)"
    using assms(3) by blast
  obtain payload where "register_server C e salt secret name u a = (Inr payload, ?a)"
    and "swk_id payload = srv_id ?s" and "swk_api_key payload = api_key_of (srv_id ?s) secret"
    unfolding register_server_def h using no by (simp add: Let_def)
  then show ?thesis
    using crypto_service.verify_hash [OF assms(1) h]
    by (intro that [of payload ?a ?s]) (simp_all add: new_server_def table_simps monitored_def)
qed

lemma demo_channels:
  "validate_channels (Some [''telegram'', ''email'']) = Inr (Some [''telegram'', ''email''])"
  by code_simp

lemma demo_create:
  assumes ok: "db_ok (app_db a)" and u: "u \<in> set (rows (users (app_db a)))"
    and token: "get_current_user C (clock e) token (app_db a) = Inr u"
    and s: "s \<in> set (rows (servers (app_db a)))" "int32 (srv_id s)" "srv_owner_id s = usr_id u"
    and "audit_ok e" and len: "length name + length label \<le> 255" "label \<noteq> []"
    and field: "field \<in> {''cpu_percent'', ''memory_percent''}"
  defines "rule \<equiv> new_rule e (demo_rule_of name (srv_id s) label field) u"
  obtains a' where "authed C e token (create_alert_rule e (demo_rule_of name (srv_id s) label field)) a
      = (Inr (rule (seq (alert_rules (app_db a)))), a')"
    and "db_ok (app_db a')" and "users (app_db a') = users (app_db a)"
    and "monitored (app_db a') = (servers (app_db a), metrics (app_db a),
      insert_row rule (alert_rules (app_db a)), alert_events (app_db a))"
proof -
  let ?data = "demo_rule_of name (srv_id s) label field"
  let ?a = "a\<lparr>app_db := rule_audit e ''rule_create'' u (seq (alert_rules (app_db a))) None
    ((app_db a)\<lparr>alert_rules := insert_row rule (alert_rules (app_db a))\<rparr>)\<rparr>"
  have v: "validate_create ?data = Inr ?data"
    using len field by (auto simp: validate_create_def demo_rule_of_def text_between_def demo_channels Suc_le_eq)
  have o: "verify_server_owner (srv_id s) u (app_db a) = Inr s"
    using fetch_by_id_row [OF db_ok_keyed(2) [OF ok] s(1) refl, of "\<lambda>s. srv_owner_id s = usr_id u"] s(2,3)
    by (simp add: verify_server_owner_def)
  have f: "rule_fits (rule i)" for i
    using len field by (auto simp: rule_fits_def rule_def new_rule_def demo_rule_of_def fits_def int32_def)
  have "create_alert_rule e ?data u a = (Inr (rule (seq (alert_rules (app_db a)))), ?a)"
    using \<open>audit_ok e\<close> f o unfolding create_alert_rule_def v rule_def
    by (simp add: demo_rule_of_def Let_def after_audit_def)
  moreover from this have "db_ok (app_db ?a)" using create_rule_ok [OF ok u, of e ?data] by simp
  ultimately show ?thesis
    by (intro that [of ?a]) (simp_all add: authed_def token rule_audit_def monitored_def)
qed

lemma post_rules_ok:
  assumes "db_ok (app_db a)" and "u \<in> set (rows (users (app_db a)))"
    and "s \<in> set (rows (servers (app_db a)))" and "int32 (srv_id s)" and "srv_owner_id s = usr_id u"
    and "\<And>e l f. (e, l, f) \<in> set xs \<Longrightarrow> audit_ok e \<and> length name + length l \<le> 255 \<and> l \<noteq> []
      \<and> f \<in> {''cpu_percent'', ''memory_percent''}"
    and "\<And>e l f d. (e, l, f) \<in> set xs \<Longrightarrow> db_ok d \<Longrightarrow> u \<in> set (rows (users d)) \<Longrightarrow>
      get_current_user C (clock e) token d = Inr u"
  shows "\<exists>a'. post_rules C token (map (\<lambda>(e, l, f). (e, demo_rule_of name (srv_id s) l f)) xs) a = (Inr (), a')
    \<and> db_ok (app_db a') \<and> users (app_db a') = users (app_db a)
    \<and> monitored (app_db a') = (servers (app_db a), metrics (app_db a),
      insert_all (map (\<lambda>(e, l, f). new_rule e (demo_rule_of name (srv_id s) l f) u) xs) (alert_rules (app_db a)),
      alert_events (app_db a))"
  using assms
proof (induction xs arbitrary: a)
  case (Cons x xs)
  obtain e l f where x: "x = (e, l, f)" by (cases x)
  let ?data = "demo_rule_of name (srv_id s) l f"
  have c: "audit_ok e" "length name + length l \<le> 255" "l \<noteq> []" "f \<in> {''cpu_percent'', ''memory_percent''}"
    and t: "get_current_user C (clock e) token (app_db a) = Inr u"
    using Cons.prems(6) [of e l f] Cons.prems(7) [OF _ Cons.prems(1,2), of e l f] x by auto
  obtain a1 where one: "authed C e token (create_alert_rule e ?data) a
      = (Inr (new_rule e ?data u (seq (alert_rules (app_db a)))), a1)" "db_ok (app_db a1)"
      "users (app_db a1) = users (app_db a)" "monitored (app_db a1) = (servers (app_db a), metrics (app_db a),
        insert_row (new_rule e ?data u) (alert_rules (app_db a)), alert_events (app_db a))"
    by (rule demo_create [OF Cons.prems(1,2) t Cons.prems(3-5) c])
  then have a1: "servers (app_db a1) = servers (app_db a)" "metrics (app_db a1) = metrics (app_db a)"
      "alert_rules (app_db a1) = insert_row (new_rule e ?data u) (alert_rules (app_db a))"
      "alert_events (app_db a1) = alert_events (app_db a)"
    by (simp_all add: monitored_def)
  have u1: "u \<in> set (rows (users (app_db a1)))" and s1: "s \<in> set (rows (servers (app_db a1)))"
    using Cons.prems(2,3) one(3) a1(1) by simp_all
  have rest: "audit_ok e' \<and> length name + length l' \<le> 255 \<and> l' \<noteq> [] \<and> f' \<in> {''cpu_percent'', ''memory_percent''}"
    and rest': "db_ok d \<Longrightarrow> u \<in> set (rows (users d)) \<Longrightarrow> get_current_user C (clock e') token d = Inr u"
    if "(e', l', f') \<in> set xs" for e' l' f' d
    using that Cons.prems(6,7) [of e' l' f'] by auto
  from Cons.IH [OF one(2) u1 s1 Cons.prems(4,5) rest rest'] one(1,3) x show ?case
    by (auto simp: a1 insert_all_def insert_row_def ac_simps)
qed (simp add: monitored_def)

lemma sign_in_ok:
  assumes "crypto_service C" and "db_ok (app_db a)" and ready: "demo_ready S C es x (app_db a)"
  obtains u a' where "demo_sign_in S C R es x a
      = (Inr (create_access_token C S (clock (es 1)) (usr_id u) None), a')"
    and "u \<in> set (rows (users (app_db a')))" and "usr_email u = EMAIL" and "int32 (usr_id u)"
    and "monitored (app_db a') = monitored (app_db a)" and "db_ok (app_db a')"
proof -
  obtain r a1 where reg: "register_user C (es 0) (dd_user_salt x) EMAIL PASSWORD a = (r, a1)" by force
  from register_demo [OF assms reg] obtain u where u: "u \<in> set (rows (users (app_db a1)))" "usr_email u = EMAIL"
      "int32 (usr_id u)" "verify_password C PASSWORD (usr_password_hash u) = Inr True"
      "second_factor C (es 1) u None = None"
    and r: "answer_status 201 r \<in> {201, 409}" "monitored (app_db a1) = monitored (app_db a)" .
  have ok1: "db_ok (app_db a1)"
    using register_user_ok [OF assms(2), of C "es 0" "dd_user_salt x" EMAIL PASSWORD] reg by simp
  from email_select [OF ok1 u(1)] u(2) have "select (\<lambda>v. usr_email v = EMAIL) (users (app_db a1)) = [u]" by simp
  from login_ok [OF this u(4,5), of S R "dd_jti x"] obtain tok a2
    where l: "login S C R (es 1) (dd_jti x) EMAIL PASSWORD None a1 = (Inr tok, a2)"
      "access_token tok = create_access_token C S (clock (es 1)) (usr_id u) None"
      "users (app_db a2) = users (app_db a1)" "monitored (app_db a2) = monitored (app_db a1)" .
  have "db_ok (app_db a2)" using login_db_ok [OF ok1, of S C R "es 1" "dd_jti x" EMAIL PASSWORD None] l(1) by simp
  then show ?thesis using that [of u a2] u l r reg by (simp add: demo_sign_in_def)
qed

lemma setup_ok:
  assumes C: "crypto_service C" and "db_ok (app_db a)" and ready: "demo_ready S C es x (app_db a)"
  obtains u s r1 r2 a' where "demo_setup S C R es x a = (Inr (srv_id s, api_key_of (srv_id s) (dd_secret x)), a')"
    and "db_ok (app_db a')" and "u \<in> set (rows (users (app_db a')))" and "usr_email u = EMAIL"
    and "rows (servers (app_db a')) = rows (servers (app_db a)) @ [s]"
    and "srv_id s = seq (servers (app_db a))" and "srv_name s = demo_server_name x" and "srv_owner_id s = usr_id u"
    and "srv_is_active s" and "\<not> srv_paused s" and "verify_password C (dd_secret x) (srv_api_key_hash s) = Inr True"
    and "metrics (app_db a') = metrics (app_db a)" and "alert_events (app_db a') = alert_events (app_db a)"
    and "rows (alert_rules (app_db a')) = rows (alert_rules (app_db a)) @
      [new_rule (es 3) (demo_rule_of (srv_name s) (srv_id s) '' cpu high'' ''cpu_percent'') u
         (seq (alert_rules (app_db a))),
       new_rule (es 4) (demo_rule_of (srv_name s) (srv_id s) '' memory high'' ''memory_percent'') u
         (seq (alert_rules (app_db a)) + 1)]"
proof -
  let ?rule = "\<lambda>s. demo_rule_of (srv_name s) (srv_id s)"
  let ?tok = "\<lambda>u. create_access_token C S (clock (es 1)) (usr_id u) None"
  from sign_in_ok [OF assms] obtain u a1 where sign: "demo_sign_in S C R es x a = (Inr (?tok u), a1)"
    and u: "u \<in> set (rows (users (app_db a1)))" "usr_email u = EMAIL" "int32 (usr_id u)"
    and m1: "monitored (app_db a1) = monitored (app_db a)" and ok1: "db_ok (app_db a1)" .
  have in_time: "to_seconds (clock (es k)) \<le> to_seconds (clock (es 1) + minutes (access_token_expire_minutes S))"
    if "k \<in> {2, 3, 4}" for k using ready that by (auto simp: demo_ready_def)
  have no: "\<forall>s \<in> set (rows (servers (app_db a1))). srv_name s \<noteq> demo_server_name x"
    and h: "\<not> isl (hash_password C (dd_server_salt x) (dd_secret x))" and i32: "int32 (seq (servers (app_db a1)))"
    using ready m1 by (auto simp: demo_ready_def monitored_def)
  from register_server_new [OF C h no, of "es 2" u] obtain s payload a2
    where reg: "register_server C (es 2) (dd_server_salt x) (dd_secret x) (demo_server_name x) u a1 = (Inr payload, a2)"
      and p: "swk_id payload = srv_id s" "swk_api_key payload = api_key_of (srv_id s) (dd_secret x)"
      and rs: "rows (servers (app_db a2)) = rows (servers (app_db a1)) @ [s]"
      and s: "srv_id s = seq (servers (app_db a1))" "srv_name s = demo_server_name x" "srv_owner_id s = usr_id u"
        "srv_is_active s" "\<not> srv_paused s" "verify_password C (dd_secret x) (srv_api_key_hash s) = Inr True"
      and us2: "users (app_db a2) = users (app_db a1)" and m2: "snd (monitored (app_db a2)) = snd (monitored (app_db a1))" .
  have ok2: "db_ok (app_db a2)"
    using register_server_ok [OF ok1 u(1), of C "es 2" "dd_server_salt x" "dd_secret x" "demo_server_name x"] reg by simp
  have si: "int32 (srv_id s)" using s(1) i32 by simp
  have len: "length (srv_name s) = 13" using ready s(2) by (simp add: demo_ready_def demo_server_name_def)
  have au: "audit_ok (es 3)" "audit_ok (es 4)" using ready by (simp_all add: demo_ready_def)
  note as_u = access_ok [OF C _ _ u(3) in_time]
  have u2: "u \<in> set (rows (users (app_db a2)))" and s2: "s \<in> set (rows (servers (app_db a2)))"
    using u(1) us2 rs by simp_all
  let ?xs = "[(es 3, '' cpu high'', ''cpu_percent''), (es 4, '' memory high'', ''memory_percent'')]"
  have tok: "get_current_user C (clock e) (?tok u) d = Inr u"
    if "(e, l, f) \<in> set ?xs" and "db_ok d" and "u \<in> set (rows (users d))" for e l f d
    using as_u [OF that(2,3)] that(1) by auto
  have side: "audit_ok e \<and> length (srv_name s) + length l \<le> 255 \<and> l \<noteq> [] \<and> f \<in> {''cpu_percent'', ''memory_percent''}"
    if "(e, l, f) \<in> set ?xs" for e l f using that len au by auto
  have xs: "zip [es 3, es 4] (demo_rules (srv_name s) (srv_id s)) = map (\<lambda>(e, l, f). (e, ?rule s l f)) ?xs"
    by (simp add: demo_rules_def)
  have "\<exists>a'. post_rules C (?tok u) (map (\<lambda>(e, l, f). (e, ?rule s l f)) ?xs) a2 = (Inr (), a') \<and> db_ok (app_db a')
      \<and> users (app_db a') = users (app_db a2) \<and> monitored (app_db a') = (servers (app_db a2), metrics (app_db a2),
        insert_all (map (\<lambda>(e, l, f). new_rule e (?rule s l f) u) ?xs) (alert_rules (app_db a2)), alert_events (app_db a2))"
    by (rule post_rules_ok [OF ok2 u2 s2 si s(3)]) (rule side tok; assumption)+
  then obtain a4
    where rules: "post_rules C (?tok u) (zip [es 3, es 4] (demo_rules (srv_name s) (srv_id s))) a2 = (Inr (), a4)"
      and ok4: "db_ok (app_db a4)" and us4: "users (app_db a4) = users (app_db a2)"
      and m4: "monitored (app_db a4) = (servers (app_db a2), metrics (app_db a2),
        insert_all (map (\<lambda>(e, l, f). new_rule e (?rule s l f) u) ?xs) (alert_rules (app_db a2)), alert_events (app_db a2))"
    unfolding xs by blast
  have "demo_setup S C R es x a = (Inr (srv_id s, api_key_of (srv_id s) (dd_secret x)), a4)"
    using sign reg rules p s(2) as_u [OF ok1 u(1), of 2] by (simp add: demo_setup_def authed_def)
  then show ?thesis
    by (rule that) (use ok4 u2 us4 u s rs m1 m2 m4 in \<open>simp_all add: monitored_def table_simps\<close>)
qed

section \<open>The rounds of the agent\<close>

text \<open>A rule of the demo, the event it may have, and the value of a round it compares.\<close>

definition demo_row :: "alert_rule \<Rightarrow> bool" where
  "demo_row r \<longleftrightarrow> rule_metric_type r = System \<and> rule_is_active r \<and> rule_operator r = Gt
     \<and> rule_threshold_value r = Fin 60 \<and> rule_metric_field r \<in> {''cpu_percent'', ''memory_percent''}
     \<and> length (rule_name r) \<le> 255"

definition has_event :: "db \<Rightarrow> int \<Rightarrow> bool" where
  "has_event d k \<longleftrightarrow> k \<in> ev_rule_id ` set (rows (alert_events d))"

definition round_value :: "string \<Rightarrow> demo_round \<Rightarrow> pyfloat" where
  "round_value field rd = (if field = ''cpu_percent'' then rd_cpu rd else rd_memory rd)"

definition demo_watched :: "crypto \<Rightarrow> string \<Rightarrow> int \<Rightarrow> db \<Rightarrow> bool" where
  "demo_watched C secret i d \<longleftrightarrow> db_ok d \<and> int32 i
     \<and> (\<exists>s \<in> set (rows (servers d)). srv_id s = i \<and> srv_is_active s \<and> \<not> srv_paused s
          \<and> verify_password C secret (srv_api_key_hash s) = Inr True)
     \<and> (\<forall>r \<in> set (rows (alert_rules d)). rule_server_id r = i \<longrightarrow>
          demo_row r \<and> (rule_last_triggered_at r = None \<longleftrightarrow> \<not> has_event d (rule_id r)))"

definition same_rule :: "alert_rule \<Rightarrow> alert_rule \<Rightarrow> bool" where
  "same_rule r r' \<longleftrightarrow> rule_id r' = rule_id r \<and> rule_server_id r' = rule_server_id r
     \<and> rule_owner_id r' = rule_owner_id r \<and> rule_metric_field r' = rule_metric_field r
     \<and> (demo_row r \<longrightarrow> demo_row r')"

text \<open>Python prints a float in at most 24 characters.\<close>

definition short_reprs :: "env \<Rightarrow> bool" where
  "short_reprs e \<longleftrightarrow> (\<forall>v. length (float_repr e v) \<le> 24)"

lemma demo_events_fit:
  assumes "\<forall>r \<in> set (rows (alert_rules d)). rule_server_id r = i \<longrightarrow> demo_row r" and "short_reprs e"
  shows "list_all event_fits (new_rows (map (\<lambda>(r, v). system_event e i data r v)
    (pending_of f (select (system_candidate i) (alert_rules d)))) k)"
proof -
  have "event_fits (system_event e i data r v k)" if "demo_row r" for r v k
    using that assms(2) add_mono [of "length (float_repr e v)" 24 "length (float_repr e (Fin 60))" 24]
    by (auto simp: demo_row_def event_fits_def system_event_def fits_def short_reprs_def)
  then show ?thesis
    using assms(1) by (auto simp: list_all_iff pending_iff table_simps system_candidate_def dest!: new_rows_from)
qed

lemma demo_evaluation:
  assumes "db_ok (app_db a)" and "\<forall>r \<in> set (rows (alert_rules (app_db a))). rule_server_id r = i \<longrightarrow> demo_row r"
    and "short_reprs e"
  obtains evs a' where "evaluate_system_metrics e i data a = (Inr evs, a')"
proof (cases "evaluate_system_metrics e i data a")
  case (Pair res a')
  with demo_events_fit [OF assms(2,3)] that show ?thesis
    by (cases res) (auto simp: evaluate_system_metrics_def evaluate_rules_def Let_def split: if_splits)
qed

lemma demo_fires:
  assumes "demo_row r" and "rule_server_id r = i" and "rule_last_triggered_at r = None \<longleftrightarrow> \<not> fired"
  shows "fired \<or> system_candidate i r \<and> system_firing now (metric_data_of (demo_payload rd)) r \<noteq> None
    \<longleftrightarrow> fired \<or> py_lt (Fin 60) (round_value (rule_metric_field r) rd)"
  using assms
  by (auto simp: demo_row_def system_candidate_def system_firing_def metric_data_of_def demo_payload_def data_get_def
      in_cooldown_def round_value_def split: option.splits)

lemma events_after:
  assumes "evaluate_system_metrics e i data a = (Inr evs, a')" and "keyed rule_id (alert_rules (app_db a))"
    and "r \<in> set (rows (alert_rules (app_db a)))"
  shows "has_event (app_db a') (rule_id r) \<longleftrightarrow> has_event (app_db a) (rule_id r)
    \<or> system_candidate i r \<and> system_firing (clock e) data r \<noteq> None"
proof -
  have "rows (alert_events (app_db a')) = rows (alert_events (app_db a)) @ evs"
    using evaluate_rules_Inr(1,2) [OF assms(1) [unfolded evaluate_system_metrics_def]] by simp
  moreover have "rule_id r \<in> ev_rule_id ` set evs \<longleftrightarrow> (\<exists>ev \<in> set evs. ev_rule_id ev = rule_id r)" by force
  ultimately show ?thesis
    using system.event_iff [OF assms(1) [unfolded evaluate_system_eq] assms(2,3)]
    by (simp add: has_event_def image_Un)
qed

text \<open>A metric of the agent on a watched server: it is stored, and the rules of the server are the same
  but for their marks, each with an event from the first value over 60 on.\<close>

lemma demo_submit:
  assumes w: "demo_watched C secret i (app_db a)" and short: "short_reprs (rd_env rd)"
  obtains g a' where "with_api_key C (Some (api_key_of i secret)) (submit_metric (rd_env rd) (demo_payload rd)) a
      = (Inr (Stored 1), a')"
    and "demo_watched C secret i (app_db a')" and "users (app_db a') = users (app_db a)"
    and "rows (metrics (app_db a')) = rows (metrics (app_db a))
      @ [new_metric (rd_env rd) i (demo_payload rd) (seq (metrics (app_db a)))]"
    and "rows (alert_rules (app_db a')) = map g (rows (alert_rules (app_db a)))"
    and "\<forall>r. same_rule r (g r)"
    and "\<forall>r \<in> set (rows (alert_rules (app_db a))). rule_server_id r = i \<longrightarrow>
      (has_event (app_db a') (rule_id r) \<longleftrightarrow> has_event (app_db a) (rule_id r)
        \<or> py_lt (Fin 60) (round_value (rule_metric_field r) rd))"
proof -
  let ?e = "rd_env rd" and ?d = "app_db a" and ?data = "metric_data_of (demo_payload rd)"
  from w obtain s where ok: "db_ok ?d" and s: "s \<in> set (rows (servers ?d))" "srv_id s = i" "int32 i" "srv_is_active s"
      "\<not> srv_paused s" "verify_password C secret (srv_api_key_hash s) = Inr True"
    and rules: "\<forall>r \<in> set (rows (alert_rules ?d)). rule_server_id r = i \<longrightarrow>
      demo_row r \<and> (rule_last_triggered_at r = None \<longleftrightarrow> \<not> has_event ?d (rule_id r))"
    by (auto simp: demo_watched_def)
  define touch :: "server \<Rightarrow> server" where "touch = (\<lambda>s'. s'\<lparr>srv_last_seen_at := Some (db_clock ?e),
    srv_agent_version := new_agent_version (Some ''demo-fake-0.0.1'') s\<rparr>)"
  let ?a1 = "a\<lparr>app_db := set_server i touch (?d\<lparr>metrics := insert_row (new_metric ?e i (demo_payload rd)) (metrics ?d)\<rparr>)\<rparr>"
  have "db_ok (?d\<lparr>metrics := insert_row (new_metric ?e i (demo_payload rd)) (metrics ?d)\<rparr>)"
    using ok db_ok_fk(2) [OF ok] db_ok_keyed(3) [OF ok] s(1,2)
    by (intro db_ok_metrics) (auto simp: new_metric_def server_ids_def)
  then have ok1: "db_ok (app_db ?a1)" by (simp add: touch_def set_server_ok)
  have rows1: "\<forall>r \<in> set (rows (alert_rules (app_db ?a1))). rule_server_id r = i \<longrightarrow> demo_row r"
    using rules by auto
  obtain evs a2 where ev: "evaluate_system_metrics ?e i ?data ?a1 = (Inr evs, a2)"
    using demo_evaluation [OF ok1 rows1 short] by blast
  define g where "g = (\<lambda>r. if system_candidate i r \<and> system_firing (clock ?e) ?data r \<noteq> None
    then r\<lparr>rule_last_triggered_at := Some (clock ?e), rule_updated_at := db_clock ?e\<rparr> else r)"
  have g: "same_rule r (g r)" for r by (simp add: g_def same_rule_def demo_row_def)
  have k: "keyed rule_id (alert_rules (app_db ?a1))" using db_ok_keyed(7) [OF ok] by simp
  have rows: "rows (alert_rules (app_db a2)) = map g (rows (alert_rules ?d))"
    using evaluate_rules_rows [OF ev [unfolded evaluate_system_metrics_def] k] by (simp add: g_def)
  have fired: "has_event (app_db a2) (rule_id r) \<longleftrightarrow> has_event ?d (rule_id r)
      \<or> system_candidate i r \<and> system_firing (clock ?e) ?data r \<noteq> None"
    if "r \<in> set (rows (alert_rules ?d))" for r
    using events_after [OF ev k, of r] that by (simp add: has_event_def)
  let ?m = "publish_metric i (new_metric ?e i (demo_payload rd) (seq (metrics ?d)))"
  let ?a3 = "publish_after ?e (Inr evs) ?m a2"
  have key: "verify_api_key C (Some (api_key_of i secret)) ?d = Inr s"
    using verify_api_key_of [OF db_ok_keyed(2) [OF ok] s(1), of C secret] s(2-6) by simp
  have "new_agent_version (Some ''demo-fake-0.0.1'') s = Some ''demo-fake-0.0.1''"
    by (auto simp: new_agent_version_def)
  then have fits: "server_fits (touch s)" by (simp add: touch_def server_fits_def fits_def)
  have "with_api_key C (Some (api_key_of i secret)) (submit_metric ?e (demo_payload rd)) a = (Inr (Stored 1), ?a3)"
    using ev fits s(2,5) unfolding with_api_key_def key
    by (simp add: submit_metric_def Let_def touch_def demo_payload_def [of rd])
  moreover have "demo_watched C secret i (app_db a2)"
    unfolding demo_watched_def
  proof (intro conjI ballI impI)
    show "db_ok (app_db a2)" using evaluate_system_ok [OF ok1, of ?e i ?data] ev by simp
    have "touch s \<in> set (rows (servers (app_db a2)))"
      using evaluate_frame(2) [of ?e i ?data ?a1] ev s(1,2) by (force simp: set_server_def table_simps)
    then show "\<exists>s \<in> set (rows (servers (app_db a2))). srv_id s = i \<and> srv_is_active s \<and> \<not> srv_paused s
        \<and> verify_password C secret (srv_api_key_hash s) = Inr True"
      using s by (intro bexI [of _ "touch s"]) (simp_all add: touch_def)
    fix r' assume "r' \<in> set (rows (alert_rules (app_db a2)))" and i: "rule_server_id r' = i"
    then obtain r where r: "r \<in> set (rows (alert_rules ?d))" "r' = g r" using rows by auto
    with rules i g [of r] have "demo_row r" and "rule_last_triggered_at r = None \<longleftrightarrow> \<not> has_event ?d (rule_id r)"
      by (auto simp: same_rule_def)
    with g [of r] fired [OF r(1)] r(2) show "demo_row r'"
      and "rule_last_triggered_at r' = None \<longleftrightarrow> \<not> has_event (app_db a2) (rule_id r')"
      by (auto simp: same_rule_def g_def)
  qed (rule s(3))
  moreover have "rows (metrics (app_db a2)) = rows (metrics ?d)
      @ [new_metric ?e i (demo_payload rd) (seq (metrics ?d))]" "users (app_db a2) = users ?d"
    using evaluate_frame(1) [of ?e i ?data ?a1] ev evaluate_rules_Inr(2) [OF ev [unfolded evaluate_system_metrics_def]]
    by (simp_all add: table_simps)
  moreover have "has_event (app_db a2) (rule_id r) \<longleftrightarrow> has_event ?d (rule_id r)
      \<or> py_lt (Fin 60) (round_value (rule_metric_field r) rd)"
    if "r \<in> set (rows (alert_rules ?d))" and "rule_server_id r = i" for r
    using fired [OF that(1)] demo_fires [of r i "has_event ?d (rule_id r)" "clock ?e" rd] rules that by simp
  ultimately show ?thesis using rows g by (intro that [of ?a3 g]) simp_all
qed

text \<open>The values of a server's metrics, and of the rounds that were served.\<close>

definition samples_of :: "int \<Rightarrow> db \<Rightarrow> (pyfloat \<times> pyfloat \<times> pyfloat) list" where
  "samples_of i d = map (\<lambda>m. (met_cpu_percent m, met_memory_percent m, met_disk_percent m))
     (select (\<lambda>m. met_server_id m = i) (metrics d))"

definition served_samples :: "demo_round list \<Rightarrow> (pyfloat \<times> pyfloat \<times> pyfloat) list" where
  "served_samples rds = map (\<lambda>rd. (rd_cpu rd, rd_memory rd, rd_disk rd)) (filter rd_served rds)"

definition exceeded :: "string \<Rightarrow> demo_round list \<Rightarrow> bool" where
  "exceeded field rds \<longleftrightarrow> (\<exists>rd \<in> set rds. rd_served rd \<and> py_lt (Fin 60) (round_value field rd))"

definition status_labels :: "demo_round list \<Rightarrow> int option list" where
  "status_labels = map (\<lambda>rd. if rd_served rd \<and> rd_answered rd then Some 201 else None)"

lemmas round_defs = samples_of_def served_samples_def exceeded_def status_labels_def

lemma new_metric_demo [simp]:
  "met_server_id (new_metric e i (demo_payload rd) k) = i" "met_cpu_percent (new_metric e i (demo_payload rd) k) = rd_cpu rd"
  "met_memory_percent (new_metric e i (demo_payload rd) k) = rd_memory rd"
  "met_disk_percent (new_metric e i (demo_payload rd) k) = rd_disk rd"
  by (simp_all add: new_metric_def demo_payload_def)

lemma fake_agent_ok:
  assumes "demo_watched C secret i (app_db a)" and "\<forall>rd \<in> set rds. short_reprs (rd_env rd)"
  shows "\<exists>g a'. fake_agent C (api_key_of i secret) rds a = (status_labels rds, a')
    \<and> users (app_db a') = users (app_db a)
    \<and> samples_of i (app_db a') = samples_of i (app_db a) @ served_samples rds
    \<and> rows (alert_rules (app_db a')) = map g (rows (alert_rules (app_db a))) \<and> (\<forall>r. same_rule r (g r))
    \<and> (\<forall>r \<in> set (rows (alert_rules (app_db a))). rule_server_id r = i \<longrightarrow>
        (has_event (app_db a') (rule_id r) \<longleftrightarrow>
          has_event (app_db a) (rule_id r) \<or> exceeded (rule_metric_field r) rds))"
  using assms
proof (induction rds arbitrary: a)
  case Nil
  show ?case by (intro exI [of _ id] exI [of _ a]) (simp add: round_defs same_rule_def)
next
  case (Cons rd rds)
  obtain g1 r1 a1 where step: "(if rd_served rd
        then (case with_api_key C (Some (api_key_of i secret)) (submit_metric (rd_env rd) (demo_payload rd)) a of
          (r, a1) \<Rightarrow> (Some (answer_status 201 r), a1))
        else (None, a)) = (if rd_served rd then Some 201 else None, a1)"
    and w: "demo_watched C secret i (app_db a1)" and us: "users (app_db a1) = users (app_db a)"
    and sa: "samples_of i (app_db a1) = samples_of i (app_db a) @ served_samples [rd]"
    and g1: "rows (alert_rules (app_db a1)) = map g1 (rows (alert_rules (app_db a)))" "\<And>r. same_rule r (g1 r)"
    and ev: "\<And>r. r \<in> set (rows (alert_rules (app_db a))) \<Longrightarrow> rule_server_id r = i \<Longrightarrow>
      has_event (app_db a1) (rule_id r) \<longleftrightarrow> has_event (app_db a) (rule_id r) \<or> exceeded (rule_metric_field r) [rd]"
  proof (cases "rd_served rd")
    case True
    have short: "short_reprs (rd_env rd)" using Cons.prems(2) by simp
    obtain g a1 where post: "with_api_key C (Some (api_key_of i secret)) (submit_metric (rd_env rd) (demo_payload rd)) a
        = (Inr (Stored 1), a1)" "demo_watched C secret i (app_db a1)" "users (app_db a1) = users (app_db a)"
        "rows (metrics (app_db a1)) = rows (metrics (app_db a))
          @ [new_metric (rd_env rd) i (demo_payload rd) (seq (metrics (app_db a)))]"
        "rows (alert_rules (app_db a1)) = map g (rows (alert_rules (app_db a)))" "\<forall>r. same_rule r (g r)"
        "\<forall>r \<in> set (rows (alert_rules (app_db a))). rule_server_id r = i \<longrightarrow>
          (has_event (app_db a1) (rule_id r) \<longleftrightarrow> has_event (app_db a) (rule_id r)
            \<or> py_lt (Fin 60) (round_value (rule_metric_field r) rd))"
      by (rule demo_submit [OF Cons.prems(1) short])
    show ?thesis by (rule that [of a1 g]) (use True post in \<open>simp_all add: round_defs table_simps\<close>)
  next
    case False
    then show ?thesis using that [of a id] Cons.prems(1) by (simp add: round_defs same_rule_def)
  qed
  from Cons.IH [OF w] Cons.prems(2) obtain g2 a2
    where rest: "fake_agent C (api_key_of i secret) rds a1 = (status_labels rds, a2)"
      "users (app_db a2) = users (app_db a1)" "samples_of i (app_db a2) = samples_of i (app_db a1) @ served_samples rds"
      "rows (alert_rules (app_db a2)) = map g2 (rows (alert_rules (app_db a1)))" "\<And>r. same_rule r (g2 r)"
      "\<And>r. r \<in> set (rows (alert_rules (app_db a1))) \<Longrightarrow> rule_server_id r = i \<Longrightarrow>
        has_event (app_db a2) (rule_id r) \<longleftrightarrow> has_event (app_db a1) (rule_id r) \<or> exceeded (rule_metric_field r) rds"
    by auto
  have "has_event (app_db a2) (rule_id r) \<longleftrightarrow> has_event (app_db a) (rule_id r) \<or> exceeded (rule_metric_field r) (rd # rds)"
    if "r \<in> set (rows (alert_rules (app_db a)))" and "rule_server_id r = i" for r
    using ev [OF that] rest(6) [of "g1 r"] g1(1) g1(2) [of r] that by (auto simp: same_rule_def exceeded_def)
  moreover have "same_rule r (g2 (g1 r))" for r
    using g1(2) [of r] rest(5) [of "g1 r"] by (simp add: same_rule_def)
  moreover have "fake_agent C (api_key_of i secret) (rd # rds) a = (status_labels (rd # rds), a2)"
    using step rest(1) by (simp add: status_labels_def)
  ultimately show ?case
    using us rest(2-4) sa g1(1) by (intro exI [of _ "g2 \<circ> g1"] exI [of _ a2]) (simp add: served_samples_def)
qed

section \<open>The whole run\<close>

text \<open>After the set-up the new server is watched: it has the two rules of the demo, no metric and no event.\<close>

lemma setup_watched:
  assumes C: "crypto_service C" and ok: "db_ok (app_db a)" and ready: "demo_ready S C es x (app_db a)"
  obtains i u k a' where "demo_setup S C R es x a = (Inr (i, api_key_of i (dd_secret x)), a')"
    and "demo_watched C (dd_secret x) i (app_db a')" and "u \<in> set (rows (users (app_db a')))" and "usr_email u = EMAIL"
    and "samples_of i (app_db a') = []"
    and "\<forall>f \<in> {''cpu_percent'', ''memory_percent''}. \<exists>r \<in> set (rows (alert_rules (app_db a'))).
      rule_server_id r = i \<and> rule_owner_id r = usr_id u \<and> rule_metric_field r = f \<and> \<not> has_event (app_db a') (rule_id r)"
proof -
  obtain u s a' where run: "demo_setup S C R es x a = (Inr (srv_id s, api_key_of (srv_id s) (dd_secret x)), a')"
    and ok': "db_ok (app_db a')" and u: "u \<in> set (rows (users (app_db a')))" "usr_email u = EMAIL"
    and ss: "rows (servers (app_db a')) = rows (servers (app_db a)) @ [s]"
    and s: "srv_id s = seq (servers (app_db a))" "srv_name s = demo_server_name x" "srv_owner_id s = usr_id u"
      "srv_is_active s" "\<not> srv_paused s" "verify_password C (dd_secret x) (srv_api_key_hash s) = Inr True"
    and same: "metrics (app_db a') = metrics (app_db a)" "alert_events (app_db a') = alert_events (app_db a)"
    and rules: "rows (alert_rules (app_db a')) = rows (alert_rules (app_db a)) @
      [new_rule (es 3) (demo_rule_of (srv_name s) (srv_id s) '' cpu high'' ''cpu_percent'') u (seq (alert_rules (app_db a))),
       new_rule (es 4) (demo_rule_of (srv_name s) (srv_id s) '' memory high'' ''memory_percent'') u
         (seq (alert_rules (app_db a)) + 1)]"
    by (rule setup_ok [OF assms, of R])
  have new: "srv_id s \<notin> server_ids (app_db a)"
    using db_ok_keyed(2) [OF ok] s(1) by (auto simp: server_ids_def keyed_def)
  have "\<not> has_event (app_db a) k" if "seq (alert_rules (app_db a)) \<le> k" for k
    using db_ok_fk(8) [OF ok] db_ok_keyed(7) [OF ok] that by (fastforce simp: has_event_def rule_ids_def keyed_def)
  then have events: "\<not> has_event (app_db a') k" if "seq (alert_rules (app_db a)) \<le> k" for k
    using that same(2) by (simp add: has_event_def)
  have row: "demo_row (new_rule e (demo_rule_of (srv_name s) i l f) u k)"
    if "f \<in> {''cpu_percent'', ''memory_percent''}" and "length l \<le> 12" for e i l f k
    using that ready s(2) by (auto simp: demo_row_def new_rule_def demo_rule_of_def demo_ready_def demo_server_name_def)
  have "demo_row r \<and> (rule_last_triggered_at r = None \<longleftrightarrow> \<not> has_event (app_db a') (rule_id r))"
    if r: "r \<in> set (rows (alert_rules (app_db a')))" "rule_server_id r = srv_id s" for r
  proof -
    have "r \<notin> set (rows (alert_rules (app_db a)))" using db_ok_fk(6) [OF ok] new r(2) by auto
    then show ?thesis using r(1) rules row events by (auto simp: new_rule_def)
  qed
  then have "demo_watched C (dd_secret x) (srv_id s) (app_db a')"
    using ok' ss s ready by (auto simp: demo_watched_def demo_ready_def)
  moreover have "samples_of (srv_id s) (app_db a') = []"
    using db_ok_fk(2) [OF ok] new same(1) by (force simp: samples_of_def table_simps filter_empty_conv)
  moreover have "\<forall>f \<in> {''cpu_percent'', ''memory_percent''}. \<exists>r \<in> set (rows (alert_rules (app_db a'))).
      rule_server_id r = srv_id s \<and> rule_owner_id r = usr_id u \<and> rule_metric_field r = f \<and> \<not> has_event (app_db a') (rule_id r)"
    using rules events by (auto simp: new_rule_def demo_rule_of_def)
  ultimately show ?thesis using run u that by blast
qed

text \<open>C39: the demo brings what it promises on a service that is up, consistent and \<open>demo_ready\<close>: the demo
  account is new or still has the script's password and no second factor, no server has the name
  the script draws, the audit rows go through, bcrypt takes the secrets, ids are in range and the
  access token lives until the set-up is done; no limit on requests answers 429 and nobody else
  acts in between. Then the script ends its set-up with a server of the demo account and its key;
  every round that is served is stored and answered 201, the server's metrics are exactly the
  posted values in order, and each of the two rules has an event exactly when a served value
  exceeded its threshold.\<close>

theorem demo_brings_alerts:
  assumes "crypto_service C" and "db_ok (app_db a)" and "demo_ready S C es x (app_db a)"
    and "\<forall>rd \<in> set rds. short_reprs (rd_env rd)" and "demo_main S C R True es x rds a = (out, a')"
  shows "\<exists>i u. out = Rounds i (api_key_of i (dd_secret x)) (status_labels rds)
    \<and> u \<in> set (rows (users (app_db a'))) \<and> usr_email u = EMAIL
    \<and> samples_of i (app_db a') = served_samples rds
    \<and> (\<forall>f \<in> {''cpu_percent'', ''memory_percent''}. \<exists>r \<in> set (rows (alert_rules (app_db a'))).
        rule_server_id r = i \<and> rule_owner_id r = usr_id u \<and> rule_metric_field r = f
        \<and> ((\<exists>ev \<in> set (rows (alert_events (app_db a'))). ev_rule_id ev = rule_id r) \<longleftrightarrow> exceeded f rds))"
proof -
  obtain i u a1 where run: "demo_setup S C R es x a = (Inr (i, api_key_of i (dd_secret x)), a1)"
    and w: "demo_watched C (dd_secret x) i (app_db a1)" and u: "u \<in> set (rows (users (app_db a1)))" "usr_email u = EMAIL"
    and none: "samples_of i (app_db a1) = []"
    and rules: "\<forall>f \<in> {''cpu_percent'', ''memory_percent''}. \<exists>r \<in> set (rows (alert_rules (app_db a1))).
      rule_server_id r = i \<and> rule_owner_id r = usr_id u \<and> rule_metric_field r = f \<and> \<not> has_event (app_db a1) (rule_id r)"
    by (rule setup_watched [OF assms(1-3), of R])
  from fake_agent_ok [OF w assms(4)] obtain g a2 where agent: "fake_agent C (api_key_of i (dd_secret x)) rds a1 = (status_labels rds, a2)"
      "users (app_db a2) = users (app_db a1)" "samples_of i (app_db a2) = samples_of i (app_db a1) @ served_samples rds"
      "rows (alert_rules (app_db a2)) = map g (rows (alert_rules (app_db a1)))" "\<forall>r. same_rule r (g r)"
    and ev: "\<forall>r \<in> set (rows (alert_rules (app_db a1))). rule_server_id r = i \<longrightarrow>
      (has_event (app_db a2) (rule_id r) \<longleftrightarrow> has_event (app_db a1) (rule_id r) \<or> exceeded (rule_metric_field r) rds)"
    by blast
  have out: "out = Rounds i (api_key_of i (dd_secret x)) (status_labels rds)" "a' = a2"
    using assms(5) run agent(1) by (simp_all add: demo_main_def)
  have "\<exists>r \<in> set (rows (alert_rules (app_db a2))). rule_server_id r = i \<and> rule_owner_id r = usr_id u
      \<and> rule_metric_field r = f \<and> (has_event (app_db a2) (rule_id r) \<longleftrightarrow> exceeded f rds)"
    if f: "f \<in> {''cpu_percent'', ''memory_percent''}" for f
  proof -
    from rules f obtain r where r: "r \<in> set (rows (alert_rules (app_db a1)))" "rule_server_id r = i"
      "rule_owner_id r = usr_id u" "rule_metric_field r = f" "\<not> has_event (app_db a1) (rule_id r)" by blast
    with ev agent(4) agent(5) [rule_format, of r] show ?thesis
      by (intro bexI [of _ "g r"]) (simp_all add: same_rule_def)
  qed
  moreover have "has_event (app_db a2) k \<longleftrightarrow> (\<exists>ev \<in> set (rows (alert_events (app_db a2))). ev_rule_id ev = k)" for k
    by (force simp: has_event_def)
  ultimately show ?thesis
    using out u agent(2,3) none by (intro exI [of _ i] exI [of _ u]) simp
qed

definition fresh_app :: "kv app" where
  "fresh_app = \<lparr>app_db = empty_db, app_rd = [], app_tasks = [], app_pub = []\<rparr>"

definition demo_drawn :: demo_draws where
  "demo_drawn = \<lparr>dd_suffix = ''1a2b'', dd_user_salt = ''s'', dd_jti = ''j'', dd_server_salt = ''t'', dd_secret = ''k''\<rparr>"

definition hot_round :: demo_round where
  "hot_round = \<lparr>rd_env = env_at 0, rd_cpu = Fin 90, rd_memory = Fin 20, rd_disk = Fin 50,
     rd_served = True, rd_answered = False\<rparr>"

theorem demo_witness:
  "\<exists>i. fst (demo_main default_settings plain_crypto kv_redis True (\<lambda>_. env_at 0) demo_drawn [hot_round] fresh_app)
      = Rounds i (api_key_of i ''k'') [None]
    \<and> rows (alert_events (app_db (snd (demo_main default_settings plain_crypto kv_redis True (\<lambda>_. env_at 0)
        demo_drawn [hot_round] fresh_app)))) \<noteq> []"
proof -
  obtain out a' where run: "demo_main default_settings plain_crypto kv_redis True (\<lambda>_. env_at 0) demo_drawn [hot_round] fresh_app
      = (out, a')" by force
  have "demo_ready default_settings plain_crypto (\<lambda>_. env_at 0) demo_drawn (app_db fresh_app)"
    by (simp add: demo_ready_def fresh_app_def empty_db_def empty_table_def plain_crypto_def hash_password_def
        PASSWORD_def demo_drawn_def int32_def to_seconds_def default_settings_def)
  moreover have "db_ok (app_db fresh_app)" by (simp add: fresh_app_def)
  moreover have "short_reprs (env_at 0)" by (simp add: short_reprs_def)
  ultimately show ?thesis
    using demo_brings_alerts [OF plain_service _ _ _ run] run
    by (force simp: hot_round_def exceeded_def round_value_def status_labels_def demo_drawn_def)
qed

end
