(* ===== verification/PW_Ddl.thy ===== *)
theory PW_Ddl
  imports PW_Prelude
begin

text \<open>
  The database the migrations of alembic/versions work on: a catalogue of tables, columns,
  constraints, indexes and enumeration types together with the rows of every table, and the
  data-definition statements of PostgreSQL the migrations issue, each with what it refuses and
  what it does. PostgreSQL is not part of the repository: this is the documented behaviour of
  the statements used, and the locale \<open>ddl_engine\<close> names the laws the migrations rest on. The
  directives of \<open>alembic.op\<close> are functions from their arguments to the statements they emit.
  Id sequences, the order of columns and the namespace that tables share with types are left
  out.
\<close>

section \<open>Values and types\<close>

datatype sql_value =
    SqlNull
  | SqlInt int
  | SqlFloat pyfloat
  | SqlText string
  | SqlBool bool
  | SqlTimestamp int
  | SqlTimestamptz time
  | SqlEnum string
  | SqlTexts "string list"
  | SqlJson string

datatype sql_type =
    IntegerT
  | FloatT
  | VarcharT "nat option"
  | TextT
  | BooleanT
  | TimestampT
  | TimestamptzT
  | EnumT string
  | TextArrayT
  | JsonbT

text \<open>
  A \<open>timestamp\<close> is a wall-clock reading, a \<open>timestamptz\<close> an instant, both in microseconds. An
  enumeration type is a name with its labels in order.
\<close>

type_synonym enum_env = "(string \<times> string list) list"

fun text_fits :: "sql_type \<Rightarrow> string \<Rightarrow> bool" where
  "text_fits (VarcharT None) s \<longleftrightarrow> True"
| "text_fits (VarcharT (Some n)) s \<longleftrightarrow> length s \<le> n"
| "text_fits TextT s \<longleftrightarrow> True"
| "text_fits _ s \<longleftrightarrow> False"

fun is_label :: "enum_env \<Rightarrow> sql_type \<Rightarrow> string \<Rightarrow> bool" where
  "is_label E (EnumT e) l \<longleftrightarrow> (case map_of E e of None \<Rightarrow> False | Some ls \<Rightarrow> l \<in> set ls)"
| "is_label E _ l \<longleftrightarrow> False"

fun of_type :: "enum_env \<Rightarrow> sql_type \<Rightarrow> sql_value \<Rightarrow> bool" where
  "of_type E ty SqlNull \<longleftrightarrow> False"
| "of_type E ty (SqlInt i) \<longleftrightarrow> ty = IntegerT \<and> - 2147483648 \<le> i \<and> i \<le> 2147483647"
| "of_type E ty (SqlFloat x) \<longleftrightarrow> ty = FloatT"
| "of_type E ty (SqlText s) \<longleftrightarrow> text_fits ty s"
| "of_type E ty (SqlBool b) \<longleftrightarrow> ty = BooleanT"
| "of_type E ty (SqlTimestamp t) \<longleftrightarrow> ty = TimestampT"
| "of_type E ty (SqlTimestamptz t) \<longleftrightarrow> ty = TimestamptzT"
| "of_type E ty (SqlEnum l) \<longleftrightarrow> is_label E ty l"
| "of_type E ty (SqlTexts ss) \<longleftrightarrow> ty = TextArrayT"
| "of_type E ty (SqlJson j) \<longleftrightarrow> ty = JsonbT"

text \<open>
  The default expressions of the columns. \<open>now()\<close> is the start of the transaction; stored in a
  \<open>timestamp\<close> it is read in the time zone of the session.
\<close>

datatype default_expr = DefNow | DefBool bool | DefInt int | DefTexts "string list"

record session =
  started_at :: time
  local_time :: "time \<Rightarrow> int"

fun default_fits :: "sql_type \<Rightarrow> default_expr \<Rightarrow> bool" where
  "default_fits ty DefNow \<longleftrightarrow> ty = TimestampT \<or> ty = TimestamptzT"
| "default_fits ty (DefBool b) \<longleftrightarrow> ty = BooleanT"
| "default_fits ty (DefInt i) \<longleftrightarrow> ty = IntegerT \<and> - 2147483648 \<le> i \<and> i \<le> 2147483647"
| "default_fits ty (DefTexts ss) \<longleftrightarrow> ty = TextArrayT"

fun default_value :: "session \<Rightarrow> sql_type \<Rightarrow> default_expr \<Rightarrow> sql_value" where
  "default_value se ty DefNow =
     (if ty = TimestampT then SqlTimestamp (local_time se (started_at se))
      else SqlTimestamptz (started_at se))"
| "default_value se ty (DefBool b) = SqlBool b"
| "default_value se ty (DefInt i) = SqlInt i"
| "default_value se ty (DefTexts ss) = SqlTexts ss"

lemma default_value_typed: "default_fits ty d \<Longrightarrow> of_type E ty (default_value se ty d)"
  by (cases d) auto

lemma default_value_not_null [simp]: "default_value se ty d \<noteq> SqlNull"
  by (cases d) auto

section \<open>The catalogue\<close>

record column =
  col_name :: string
  col_type :: sql_type
  col_nullable :: bool
  col_default :: "default_expr option"

datatype on_delete = Cascade | SetNull

datatype constr =
    PrimaryKey "string list"
  | UniqueKey "string list"
  | ForeignKey "string list" string "string list" "on_delete option"

fun key_columns :: "constr \<Rightarrow> string list" where
  "key_columns (PrimaryKey cs) = cs"
| "key_columns (UniqueKey cs) = cs"
| "key_columns (ForeignKey cs _ _ _) = cs"

fun references :: "constr \<Rightarrow> (string \<times> string list) option" where
  "references (ForeignKey _ u us _) = Some (u, us)"
| "references _ = None"

record relation =
  rel_name :: string
  rel_columns :: "column list"
  rel_constraints :: "(string \<times> constr) set"
  rel_indexes :: "(string \<times> string list) set"

record catalog =
  enum_types :: enum_env
  relations :: "relation list"

definition column_names :: "relation \<Rightarrow> string set" where
  "column_names r = col_name ` set (rel_columns r)"

definition table_names :: "catalog \<Rightarrow> string set" where
  "table_names c = rel_name ` set (relations c)"

definition is_key :: "relation \<Rightarrow> string list \<Rightarrow> bool" where
  "is_key r us \<longleftrightarrow> (\<exists>k \<in> rel_constraints r. snd k = PrimaryKey us \<or> snd k = UniqueKey us)"

definition some_relation :: "catalog \<Rightarrow> string \<Rightarrow> (relation \<Rightarrow> bool) \<Rightarrow> bool" where
  "some_relation c t P \<longleftrightarrow> (\<exists>r \<in> set (relations c). rel_name r = t \<and> P r)"

definition alter_relation :: "string \<Rightarrow> (relation \<Rightarrow> relation) \<Rightarrow> catalog \<Rightarrow> catalog" where
  "alter_relation t f c =
     c\<lparr>relations := map (\<lambda>r. if rel_name r = t then f r else r) (relations c)\<rparr>"

definition alter_one_column :: "string \<Rightarrow> (column \<Rightarrow> column) \<Rightarrow> relation \<Rightarrow> relation" where
  "alter_one_column n f r =
     r\<lparr>rel_columns := map (\<lambda>x. if col_name x = n then f x else x) (rel_columns r)\<rparr>"

text \<open>The foreign keys of any table that point at columns \<open>us\<close> of table \<open>t\<close> with \<open>P us\<close>.\<close>

definition referenced :: "catalog \<Rightarrow> string \<Rightarrow> (string list \<Rightarrow> bool) \<Rightarrow> bool" where
  "referenced c t P \<longleftrightarrow> (\<exists>r \<in> set (relations c). \<exists>k \<in> rel_constraints r.
     case references (snd k) of None \<Rightarrow> False | Some (u, us) \<Rightarrow> u = t \<and> P us)"

text \<open>What PostgreSQL keeps true of its catalogue.\<close>

fun type_known :: "catalog \<Rightarrow> sql_type \<Rightarrow> bool" where
  "type_known c (EnumT e) \<longleftrightarrow> e \<in> fst ` set (enum_types c)"
| "type_known c _ \<longleftrightarrow> True"

definition column_ok :: "catalog \<Rightarrow> column \<Rightarrow> bool" where
  "column_ok c x \<longleftrightarrow> type_known c (col_type x)
     \<and> (case col_default x of None \<Rightarrow> True | Some d \<Rightarrow> default_fits (col_type x) d)"

definition target_ok :: "catalog \<Rightarrow> constr \<Rightarrow> bool" where
  "target_ok c k \<longleftrightarrow> (case references k of None \<Rightarrow> True
     | Some (u, us) \<Rightarrow> some_relation c u (\<lambda>r. is_key r us))"

definition constr_ok :: "catalog \<Rightarrow> relation \<Rightarrow> constr \<Rightarrow> bool" where
  "constr_ok c r k \<longleftrightarrow> set (key_columns k) \<subseteq> column_names r \<and> target_ok c k"

definition relation_ok :: "catalog \<Rightarrow> relation \<Rightarrow> bool" where
  "relation_ok c r \<longleftrightarrow> distinct (map col_name (rel_columns r))
     \<and> (\<forall>x \<in> set (rel_columns r). column_ok c x)
     \<and> (\<forall>k \<in> rel_constraints r. constr_ok c r (snd k))
     \<and> (\<forall>i \<in> rel_indexes r. set (snd i) \<subseteq> column_names r)"

definition catalog_ok :: "catalog \<Rightarrow> bool" where
  "catalog_ok c \<longleftrightarrow> distinct (map fst (enum_types c)) \<and> distinct (map rel_name (relations c))
     \<and> (\<forall>r \<in> set (relations c). relation_ok c r)"

section \<open>Rows and constraints\<close>

text \<open>A row maps column names to values; outside the columns of its table it is NULL.\<close>

type_synonym row = "string \<Rightarrow> sql_value"
type_synonym data = "string \<Rightarrow> row list"

record database =
  db_catalog :: catalog
  db_data :: data
  db_version :: "string option"

text \<open>
  A unique key and a foreign key ignore the rows that are NULL in one of their columns, a
  primary key allows no NULL.
\<close>

fun holds :: "data \<Rightarrow> string \<Rightarrow> constr \<Rightarrow> bool" where
  "holds D t (PrimaryKey cs) \<longleftrightarrow>
     distinct (map (\<lambda>w. map w cs) (D t)) \<and> (\<forall>w \<in> set (D t). SqlNull \<notin> set (map w cs))"
| "holds D t (UniqueKey cs) \<longleftrightarrow>
     distinct (filter (\<lambda>vs. SqlNull \<notin> set vs) (map (\<lambda>w. map w cs) (D t)))"
| "holds D t (ForeignKey cs u us od) \<longleftrightarrow>
     (\<forall>w \<in> set (D t). SqlNull \<in> set (map w cs) \<or> map w cs \<in> (\<lambda>q. map q us) ` set (D u))"

definition value_ok :: "enum_env \<Rightarrow> column \<Rightarrow> sql_value \<Rightarrow> bool" where
  "value_ok E x v \<longleftrightarrow> (if v = SqlNull then col_nullable x else of_type E (col_type x) v)"

definition row_ok :: "enum_env \<Rightarrow> relation \<Rightarrow> row \<Rightarrow> bool" where
  "row_ok E r w \<longleftrightarrow> (\<forall>x \<in> set (rel_columns r). value_ok E x (w (col_name x)))
     \<and> (\<forall>n. n \<notin> column_names r \<longrightarrow> w n = SqlNull)"

definition rows_ok :: "catalog \<Rightarrow> data \<Rightarrow> bool" where
  "rows_ok c D \<longleftrightarrow>
     (\<forall>r \<in> set (relations c). \<forall>w \<in> set (D (rel_name r)). row_ok (enum_types c) r w)
     \<and> (\<forall>t. t \<notin> table_names c \<longrightarrow> D t = [])"

definition constraints_hold :: "catalog \<Rightarrow> data \<Rightarrow> bool" where
  "constraints_hold c D \<longleftrightarrow>
     (\<forall>r \<in> set (relations c). \<forall>k \<in> rel_constraints r. holds D (rel_name r) (snd k))"

definition consistent :: "database \<Rightarrow> bool" where
  "consistent d \<longleftrightarrow> catalog_ok (db_catalog d) \<and> rows_ok (db_catalog d) (db_data d)
     \<and> constraints_hold (db_catalog d) (db_data d)"

section \<open>The statements\<close>

text \<open>How \<open>ALTER COLUMN ... TYPE\<close> converts: by \<open>USING c AT TIME ZONE 'UTC'\<close> or by the cast.\<close>

datatype conversion = AtUtc | ImplicitCast

datatype statement =
    CreateType string "string list"
  | CreateTypeIfMissing string "string list"
  | DropTypeIfExists string
  | AddEnumValueIfMissing string string string
  | CreateTable relation
  | DropTable string
  | AddColumn string column
  | DropColumn string string
  | AlterType string string sql_type conversion
  | SetNullable string string bool
  | SetDefault string string "default_expr option"
  | AddConstraint string string constr
  | DropConstraint string string
  | CreateIndex string string "string list"
  | DropIndex string string

text \<open>
  \<open>CompileError\<close> is raised by SQLAlchemy before anything reaches the database; the others are
  the errors of PostgreSQL.
\<close>

datatype ddl_error =
    CompileError
  | DuplicateObject
  | UndefinedObject
  | DependentObjects
  | CannotCoerce
  | NotNullViolation
  | UniqueViolation
  | ForeignKeyViolation

fun insert_before :: "'a \<Rightarrow> 'a \<Rightarrow> 'a list \<Rightarrow> 'a list" where
  "insert_before v b [] = []"
| "insert_before v b (x # xs) = (if x = b then v # x # xs else x # insert_before v b xs)"

definition labels_of :: "catalog \<Rightarrow> string \<Rightarrow> string list option" where
  "labels_of c e = map_of (enum_types c) e"

definition add_label :: "string \<Rightarrow> string \<Rightarrow> string list \<Rightarrow> string list" where
  "add_label v b ls = (if v \<in> set ls then ls else insert_before v b ls)"

definition index_names :: "catalog \<Rightarrow> string set" where
  "index_names c = (\<Union>r \<in> set (relations c). fst ` rel_indexes r \<union> fst ` rel_constraints r)"

definition convertible :: "sql_type \<Rightarrow> conversion \<Rightarrow> sql_type \<Rightarrow> bool" where
  "convertible ty u ty' \<longleftrightarrow> (ty, u, ty') = (TimestampT, AtUtc, TimestamptzT)
     \<or> (ty, u, ty') = (TimestamptzT, ImplicitCast, TimestampT)"

text \<open>What the catalogue alone refuses.\<close>

definition column_present :: "catalog \<Rightarrow> string \<Rightarrow> string \<Rightarrow> bool" where
  "column_present c t n \<longleftrightarrow> some_relation c t (\<lambda>r. n \<in> column_names r)"

definition column_type_is :: "catalog \<Rightarrow> string \<Rightarrow> string \<Rightarrow> (column \<Rightarrow> bool) \<Rightarrow> bool" where
  "column_type_is c t n P \<longleftrightarrow>
     some_relation c t (\<lambda>r. \<forall>x \<in> set (rel_columns r). col_name x = n \<longrightarrow> P x)"

definition key_dropped :: "catalog \<Rightarrow> string \<Rightarrow> string \<Rightarrow> bool" where
  "key_dropped c t n \<longleftrightarrow> some_relation c t (\<lambda>r. \<exists>k \<in> rel_constraints r.
     fst k = n \<and> references (snd k) = None \<and> referenced c t (\<lambda>us. us = key_columns (snd k)))"

fun refusal :: "statement \<Rightarrow> catalog \<Rightarrow> ddl_error option" where
  "refusal (CreateType e ls) c = (if labels_of c e \<noteq> None then Some DuplicateObject else None)"
| "refusal (CreateTypeIfMissing e ls) c = None"
| "refusal (DropTypeIfExists e) c =
     (if \<exists>r \<in> set (relations c). \<exists>x \<in> set (rel_columns r). col_type x = EnumT e
      then Some DependentObjects else None)"
| "refusal (AddEnumValueIfMissing e v b) c = (case labels_of c e of None \<Rightarrow> Some UndefinedObject
     | Some ls \<Rightarrow> if v \<in> set ls \<or> b \<in> set ls then None else Some UndefinedObject)"
| "refusal (CreateTable r) c =
     (if rel_name r \<in> table_names c then Some DuplicateObject
      else if relation_ok (c\<lparr>relations := relations c @ [r]\<rparr>) r then None
      else Some UndefinedObject)"
| "refusal (DropTable t) c =
     (if t \<notin> table_names c then Some UndefinedObject
      else if \<exists>r \<in> set (relations c). rel_name r \<noteq> t \<and> (\<exists>k \<in> rel_constraints r.
        map_option fst (references (snd k)) = Some t)
      then Some DependentObjects else None)"
| "refusal (AddColumn t x) c =
     (if t \<notin> table_names c \<or> \<not> type_known c (col_type x) then Some UndefinedObject
      else if column_present c t (col_name x) then Some DuplicateObject
      else if column_ok c x then None else Some CannotCoerce)"
| "refusal (DropColumn t n) c =
     (if \<not> column_present c t n then Some UndefinedObject
      else if referenced c t (\<lambda>us. n \<in> set us) then Some DependentObjects else None)"
| "refusal (AlterType t n ty u) c =
     (if \<not> column_present c t n then Some UndefinedObject
      else if column_type_is c t n (\<lambda>x. convertible (col_type x) u ty
        \<and> (case col_default x of None \<Rightarrow> True | Some d \<Rightarrow> default_fits ty d))
      then None else Some CannotCoerce)"
| "refusal (SetNullable t n b) c = (if column_present c t n then None else Some UndefinedObject)"
| "refusal (SetDefault t n d) c =
     (if \<not> column_present c t n then Some UndefinedObject
      else if column_type_is c t n (\<lambda>x. case d of None \<Rightarrow> True | Some d \<Rightarrow> default_fits (col_type x) d)
      then None else Some CannotCoerce)"
| "refusal (AddConstraint t n k) c =
     (if \<not> some_relation c t (\<lambda>r. constr_ok c r k) then Some UndefinedObject
      else if some_relation c t (\<lambda>r. n \<in> fst ` rel_constraints r) then Some DuplicateObject
      else None)"
| "refusal (DropConstraint t n) c =
     (if \<not> some_relation c t (\<lambda>r. n \<in> fst ` rel_constraints r) then Some UndefinedObject
      else if key_dropped c t n then Some DependentObjects else None)"
| "refusal (CreateIndex t n cs) c =
     (if \<not> some_relation c t (\<lambda>r. set cs \<subseteq> column_names r) then Some UndefinedObject
      else if n \<in> index_names c then Some DuplicateObject else None)"
| "refusal (DropIndex t n) c =
     (if some_relation c t (\<lambda>r. n \<in> fst ` rel_indexes r) then None else Some UndefinedObject)"

text \<open>What a statement makes of the catalogue. Dropping a column drops the constraints and
  indexes it is part of.\<close>

fun effect :: "statement \<Rightarrow> catalog \<Rightarrow> catalog" where
  "effect (CreateType e ls) c = c\<lparr>enum_types := enum_types c @ [(e, ls)]\<rparr>"
| "effect (CreateTypeIfMissing e ls) c =
     (if labels_of c e = None then c\<lparr>enum_types := enum_types c @ [(e, ls)]\<rparr> else c)"
| "effect (DropTypeIfExists e) c =
     c\<lparr>enum_types := filter (\<lambda>p. fst p \<noteq> e) (enum_types c)\<rparr>"
| "effect (AddEnumValueIfMissing e v b) c =
     c\<lparr>enum_types := map (\<lambda>p. if fst p = e then (e, add_label v b (snd p)) else p) (enum_types c)\<rparr>"
| "effect (CreateTable r) c = c\<lparr>relations := relations c @ [r]\<rparr>"
| "effect (DropTable t) c = c\<lparr>relations := filter (\<lambda>r. rel_name r \<noteq> t) (relations c)\<rparr>"
| "effect (AddColumn t x) c = alter_relation t (\<lambda>r. r\<lparr>rel_columns := rel_columns r @ [x]\<rparr>) c"
| "effect (DropColumn t n) c = alter_relation t (\<lambda>r. r\<lparr>
     rel_columns := filter (\<lambda>x. col_name x \<noteq> n) (rel_columns r),
     rel_constraints := {k \<in> rel_constraints r. n \<notin> set (key_columns (snd k))},
     rel_indexes := {i \<in> rel_indexes r. n \<notin> set (snd i)}\<rparr>) c"
| "effect (AlterType t n ty u) c =
     alter_relation t (alter_one_column n (\<lambda>x. x\<lparr>col_type := ty\<rparr>)) c"
| "effect (SetNullable t n b) c =
     alter_relation t (alter_one_column n (\<lambda>x. x\<lparr>col_nullable := b\<rparr>)) c"
| "effect (SetDefault t n d) c =
     alter_relation t (alter_one_column n (\<lambda>x. x\<lparr>col_default := d\<rparr>)) c"
| "effect (AddConstraint t n k) c =
     alter_relation t (\<lambda>r. r\<lparr>rel_constraints := insert (n, k) (rel_constraints r)\<rparr>) c"
| "effect (DropConstraint t n) c =
     alter_relation t (\<lambda>r. r\<lparr>rel_constraints := {k \<in> rel_constraints r. fst k \<noteq> n}\<rparr>) c"
| "effect (CreateIndex t n cs) c =
     alter_relation t (\<lambda>r. r\<lparr>rel_indexes := insert (n, cs) (rel_indexes r)\<rparr>) c"
| "effect (DropIndex t n) c =
     alter_relation t (\<lambda>r. r\<lparr>rel_indexes := {i \<in> rel_indexes r. fst i \<noteq> n}\<rparr>) c"

text \<open>What it makes of the rows, and what the rows refuse.\<close>

fun convert :: "session \<Rightarrow> conversion \<Rightarrow> sql_value \<Rightarrow> sql_value" where
  "convert se AtUtc (SqlTimestamp t) = SqlTimestamptz t"
| "convert se ImplicitCast (SqlTimestamptz t) = SqlTimestamp (local_time se t)"
| "convert se _ v = v"

definition new_value :: "session \<Rightarrow> column \<Rightarrow> sql_value" where
  "new_value se x = (case col_default x of None \<Rightarrow> SqlNull | Some d \<Rightarrow> default_value se (col_type x) d)"

fun data_effect :: "session \<Rightarrow> statement \<Rightarrow> data \<Rightarrow> data" where
  "data_effect se (DropTable t) D = D(t := [])"
| "data_effect se (AddColumn t x) D =
     D(t := map (\<lambda>w. w(col_name x := new_value se x)) (D t))"
| "data_effect se (DropColumn t n) D = D(t := map (\<lambda>w. w(n := SqlNull)) (D t))"
| "data_effect se (AlterType t n ty u) D =
     D(t := map (\<lambda>w. w(n := convert se u (w n))) (D t))"
| "data_effect se _ D = D"

fun violation :: "constr \<Rightarrow> ddl_error" where
  "violation (ForeignKey _ _ _ _) = ForeignKeyViolation"
| "violation _ = UniqueViolation"

text \<open>
  \<open>ADD COLUMN\<close> and \<open>SET NOT NULL\<close> check for NULLs, \<open>ADD CONSTRAINT\<close> validates the constraint, and
  a change of type rebuilds the indexes and checks the foreign keys it touches.
\<close>

fun data_refusal :: "session \<Rightarrow> statement \<Rightarrow> catalog \<Rightarrow> data \<Rightarrow> ddl_error option" where
  "data_refusal se (AddColumn t x) c D =
     (if D t \<noteq> [] \<and> \<not> col_nullable x \<and> col_default x = None then Some NotNullViolation else None)"
| "data_refusal se (SetNullable t n b) c D =
     (if \<not> b \<and> (\<exists>w \<in> set (D t). w n = SqlNull) then Some NotNullViolation else None)"
| "data_refusal se (AddConstraint t n k) c D =
     (if holds D t k then None else Some (violation k))"
| "data_refusal se (AlterType t n ty u) c D =
     (if constraints_hold c (data_effect se (AlterType t n ty u) D) then None
      else Some UniqueViolation)"
| "data_refusal se _ c D = None"

definition execute :: "session \<Rightarrow> statement \<Rightarrow> database \<Rightarrow> ddl_error + database" where
  "execute se s d = (case refusal s (db_catalog d) of Some e \<Rightarrow> Inl e | None \<Rightarrow>
     (case data_refusal se s (db_catalog d) (db_data d) of Some e \<Rightarrow> Inl e | None \<Rightarrow>
        Inr (d\<lparr>db_catalog := effect s (db_catalog d), db_data := data_effect se s (db_data d)\<rparr>)))"

end
