(* ===== verification/PW_DdlLaws.thy ===== *)
theory PW_DdlLaws
  imports PW_Ddl
begin

text \<open>
  What every statement of \<open>PW_Ddl\<close> keeps: the well-formed catalogue, the types of the rows and
  the declared constraints. The locale \<open>ddl_engine\<close> collects the laws the migrations rest on and
  is interpreted by \<open>execute\<close>.
\<close>

named_theorems catalog_simps \<open>the catalogue after altering one relation\<close>

section \<open>Altering one relation\<close>

lemma enum_types_alter [simp]: "enum_types (alter_relation t f c) = enum_types c"
  by (simp add: alter_relation_def)

lemma relations_alter [catalog_simps]:
  "relations (alter_relation t f c) = map (\<lambda>r. if rel_name r = t then f r else r) (relations c)"
  by (simp add: alter_relation_def)

lemma rel_name_alter [simp]:
  assumes "\<And>r. rel_name (f r) = rel_name r"
  shows "rel_name (if P r then f r else r) = rel_name r"
  using assms by simp

lemma map_rel_name_alter:
  assumes "\<And>r. rel_name (f r) = rel_name r"
  shows "map rel_name (relations (alter_relation t f c)) = map rel_name (relations c)"
  using assms by (simp add: catalog_simps)

lemma table_names_alter:
  assumes "\<And>r. rel_name (f r) = rel_name r"
  shows "table_names (alter_relation t f c) = table_names c"
  using map_rel_name_alter [of f t c, OF assms] unfolding table_names_def by (metis list.set_map)

lemma type_known_alter [simp]: "type_known (alter_relation t f c) ty = type_known c ty"
  by (cases ty) auto

lemma column_ok_alter [simp]: "column_ok (alter_relation t f c) x = column_ok c x"
  by (simp add: column_ok_def)

lemma some_relation_alter:
  assumes "\<And>r. rel_name (f r) = rel_name r"
  shows "some_relation (alter_relation t f c) u P
    \<longleftrightarrow> some_relation c u (\<lambda>r. P (if u = t then f r else r))"
  using assms by (auto simp: some_relation_def catalog_simps)

lemma some_relation_mono:
  "some_relation c t P \<Longrightarrow> (\<And>r. r \<in> set (relations c) \<Longrightarrow> rel_name r = t \<Longrightarrow> P r \<Longrightarrow> Q r)
     \<Longrightarrow> some_relation c t Q"
  by (auto simp: some_relation_def)

lemma not_some_relation:
  "\<not> some_relation c t P \<Longrightarrow> r \<in> set (relations c) \<Longrightarrow> rel_name r = t \<Longrightarrow> \<not> P r"
  by (auto simp: some_relation_def)

lemma the_relation:
  assumes "catalog_ok c" "some_relation c t P" "r \<in> set (relations c)" "rel_name r = t"
  shows "P r"
proof -
  obtain q where "q \<in> set (relations c)" "rel_name q = t" "P q"
    using assms(2) by (auto simp: some_relation_def)
  moreover have "inj_on rel_name (set (relations c))"
    using assms(1) by (simp add: catalog_ok_def distinct_map)
  ultimately show ?thesis
    using assms(3,4) by (metis inj_onD)
qed

lemma referenced_by:
  "r \<in> set (relations c) \<Longrightarrow> k \<in> rel_constraints r \<Longrightarrow> references (snd k) = Some (t, us) \<Longrightarrow> P us
     \<Longrightarrow> referenced c t P"
  unfolding referenced_def by (intro bexI [of _ r] bexI [of _ k]) auto

lemma referenced_mono:
  assumes "referenced c t P" and "\<And>us. P us \<Longrightarrow> Q us"
  shows "referenced c t Q"
proof -
  obtain r k where r: "r \<in> set (relations c)" "k \<in> rel_constraints r"
    and k: "case references (snd k) of None \<Rightarrow> False | Some (u, us) \<Rightarrow> u = t \<and> P us"
    using assms(1) unfolding referenced_def by blast
  from k obtain us where "references (snd k) = Some (t, us)" "P us"
    by (cases "references (snd k)") auto
  then show ?thesis
    using referenced_by [OF r, of t us Q] assms(2) by simp
qed

text \<open>
  One lemma for all statements that alter one relation: the keys that foreign keys point at
  stay, and the altered relation is well formed by itself.
\<close>

definition keeps_keys :: "catalog \<Rightarrow> string \<Rightarrow> (relation \<Rightarrow> relation) \<Rightarrow> bool" where
  "keeps_keys c t f \<longleftrightarrow> (\<forall>r \<in> set (relations c). \<forall>us. rel_name r = t \<longrightarrow>
     is_key r us \<longrightarrow> referenced c t (\<lambda>v. v = us) \<longrightarrow> is_key (f r) us)"

lemma keeps_keysI:
  assumes "\<And>r k us. r \<in> set (relations c) \<Longrightarrow> rel_name r = t \<Longrightarrow> k \<in> rel_constraints r \<Longrightarrow>
      snd k = PrimaryKey us \<or> snd k = UniqueKey us \<Longrightarrow> referenced c t (\<lambda>v. v = us) \<Longrightarrow>
      k \<in> rel_constraints (f r)"
  shows "keeps_keys c t f"
  using assms unfolding keeps_keys_def is_key_def by blast

lemma target_ok_alter:
  assumes c: "catalog_ok c" and n: "\<And>r. rel_name (f r) = rel_name r" and keys: "keeps_keys c t f"
    and r: "r \<in> set (relations c)" "k \<in> rel_constraints r"
  shows "target_ok (alter_relation t f c) (snd k)"
proof (cases "references (snd k)")
  case None
  then show ?thesis by (simp add: target_ok_def)
next
  case (Some p)
  obtain u us where p: "p = (u, us)" by (cases p)
  have "constr_ok c r (snd k)"
    using c r by (auto simp: catalog_ok_def relation_ok_def)
  then have "some_relation c u (\<lambda>q. is_key q us)"
    using Some p by (simp add: constr_ok_def target_ok_def)
  then have "some_relation c u (\<lambda>q. is_key (if u = t then f q else q) us)"
  proof (rule some_relation_mono)
    fix q
    assume q: "q \<in> set (relations c)" "rel_name q = u" "is_key q us"
    show "is_key (if u = t then f q else q) us"
      using q keys referenced_by [OF r, of u us "\<lambda>v. v = us"] Some p
      by (auto simp: keeps_keys_def)
  qed
  then show ?thesis
    using Some p n by (simp add: target_ok_def some_relation_alter)
qed

lemma target_ok_new:
  assumes n: "\<And>r. rel_name (f r) = rel_name r"
    and keys: "\<And>r us. is_key r us \<Longrightarrow> is_key (f r) us" and k: "target_ok c k"
  shows "target_ok (alter_relation t f c) k"
  using k n unfolding target_ok_def
  by (auto simp: some_relation_alter split: option.splits intro: keys elim!: some_relation_mono)

definition altered_ok :: "catalog \<Rightarrow> catalog \<Rightarrow> relation \<Rightarrow> relation \<Rightarrow> bool" where
  "altered_ok c c' r r' \<longleftrightarrow> distinct (map col_name (rel_columns r'))
     \<and> (\<forall>x \<in> set (rel_columns r'). column_ok c x)
     \<and> (\<forall>k \<in> rel_constraints r'. set (key_columns (snd k)) \<subseteq> column_names r'
          \<and> (k \<in> rel_constraints r \<or> target_ok c' (snd k)))
     \<and> (\<forall>i \<in> rel_indexes r'. set (snd i) \<subseteq> column_names r')"

lemma catalog_ok_alter:
  assumes c: "catalog_ok c" and n: "\<And>r. rel_name (f r) = rel_name r" and keys: "keeps_keys c t f"
    and new: "\<And>r. r \<in> set (relations c) \<Longrightarrow> rel_name r = t \<Longrightarrow>
      altered_ok c (alter_relation t f c) r (f r)"
  shows "catalog_ok (alter_relation t f c)"
proof -
  have "relation_ok (alter_relation t f c) (if rel_name r = t then f r else r)"
    if r: "r \<in> set (relations c)" for r
  proof (cases "rel_name r = t")
    case True
    from new [OF r True] target_ok_alter [OF c n keys r] show ?thesis
      using True by (auto simp: relation_ok_def constr_ok_def altered_ok_def)
  next
    case False
    have "relation_ok c r"
      using c r by (simp add: catalog_ok_def)
    then show ?thesis
      using False target_ok_alter [OF c n keys r] by (auto simp: relation_ok_def constr_ok_def)
  qed
  then have "\<forall>r \<in> set (relations (alter_relation t f c)). relation_ok (alter_relation t f c) r"
    unfolding relations_alter set_map by blast
  moreover have "distinct (map rel_name (relations (alter_relation t f c)))"
    unfolding map_rel_name_alter [of f t c, OF n] using c by (simp add: catalog_ok_def)
  ultimately show ?thesis
    using c by (simp add: catalog_ok_def)
qed

lemma relation_okD:
  assumes "catalog_ok c" "r \<in> set (relations c)"
  shows "distinct (map col_name (rel_columns r))" "\<And>x. x \<in> set (rel_columns r) \<Longrightarrow> column_ok c x"
    "\<And>k. k \<in> rel_constraints r \<Longrightarrow> set (key_columns (snd k)) \<subseteq> column_names r"
    "\<And>k. k \<in> rel_constraints r \<Longrightarrow> target_ok c (snd k)"
    "\<And>i. i \<in> rel_indexes r \<Longrightarrow> set (snd i) \<subseteq> column_names r"
  using assms by (auto simp: catalog_ok_def relation_ok_def constr_ok_def)

lemma alter_one_column_simps [simp]:
  "rel_name (alter_one_column n f r) = rel_name r"
  "rel_constraints (alter_one_column n f r) = rel_constraints r"
  "rel_indexes (alter_one_column n f r) = rel_indexes r"
  by (simp_all add: alter_one_column_def)

lemma alter_one_column_names:
  assumes "\<And>x. col_name (f x) = col_name x"
  shows "map col_name (rel_columns (alter_one_column n f r)) = map col_name (rel_columns r)"
    "column_names (alter_one_column n f r) = column_names r"
proof -
  show "map col_name (rel_columns (alter_one_column n f r)) = map col_name (rel_columns r)"
    using assms by (simp add: alter_one_column_def)
  then show "column_names (alter_one_column n f r) = column_names r"
    unfolding column_names_def by (metis list.set_map)
qed

lemma row_ok_alter_one_column:
  assumes "\<And>x. col_name (f x) = col_name x"
  shows "row_ok E (alter_one_column n f r) w \<longleftrightarrow>
    (\<forall>x \<in> set (rel_columns r).
       value_ok E (if col_name x = n then f x else x) (w (col_name x)))
    \<and> (\<forall>m. m \<notin> column_names r \<longrightarrow> w m = SqlNull)"
  unfolding row_ok_def alter_one_column_names(2) [of f, OF assms]
  by (auto simp: alter_one_column_def assms simp del: if_image_distrib)

lemma is_key_alter_one_column [simp]: "is_key (alter_one_column n f r) us = is_key r us"
  by (simp add: is_key_def)

section \<open>The catalogue stays well formed\<close>

lemma catalog_ok_one_column:
  assumes c: "catalog_ok c" and f: "\<And>x. col_name (f x) = col_name x"
    and ok: "column_type_is c t n (\<lambda>x. column_ok c x \<longrightarrow> column_ok c (f x))"
  shows "catalog_ok (alter_relation t (alter_one_column n f) c)"
proof (rule catalog_ok_alter [OF c])
  show "keeps_keys c t (alter_one_column n f)" by (simp add: keeps_keys_def)
  fix r
  assume r: "r \<in> set (relations c)" "rel_name r = t"
  have "\<forall>x \<in> set (rel_columns r). col_name x = n \<longrightarrow> column_ok c x \<longrightarrow> column_ok c (f x)"
    using the_relation [OF c ok [unfolded column_type_is_def] r] .
  then have "\<forall>x \<in> set (rel_columns (alter_one_column n f r)). column_ok c x"
    using relation_okD(2) [OF c r(1)] by (auto simp: alter_one_column_def)
  then show "altered_ok c (alter_relation t (alter_one_column n f) c) r (alter_one_column n f r)"
    using relation_okD [OF c r(1)] by (simp add: altered_ok_def alter_one_column_names f)
qed simp

lemma column_type_isI:
  assumes "column_present c t n" and "\<And>x. col_name x = n \<Longrightarrow> P x"
  shows "column_type_is c t n P"
  using assms unfolding column_type_is_def column_present_def by (auto elim!: some_relation_mono)

lemma column_type_is_mono:
  "column_type_is c t n P \<Longrightarrow> (\<And>x. P x \<Longrightarrow> Q x) \<Longrightarrow> column_type_is c t n Q"
  unfolding column_type_is_def by (auto elim!: some_relation_mono)

lemma catalog_ok_add_column:
  assumes c: "catalog_ok c" and r: "refusal (AddColumn t x) c = None"
  shows "catalog_ok (effect (AddColumn t x) c)"
  unfolding effect.simps
proof (rule catalog_ok_alter [OF c])
  show "keeps_keys c t (\<lambda>r. r\<lparr>rel_columns := rel_columns r @ [x]\<rparr>)"
    by (simp add: keeps_keys_def is_key_def)
  fix q
  assume q: "q \<in> set (relations c)" "rel_name q = t"
  have "col_name x \<notin> column_names q"
    using r not_some_relation [OF _ q] by (auto simp: column_present_def split: if_splits)
  moreover have "column_ok c x" using r by (auto split: if_splits)
  moreover have "column_names (q\<lparr>rel_columns := rel_columns q @ [x]\<rparr>)
      = insert (col_name x) (column_names q)"
    by (auto simp: column_names_def)
  ultimately show "altered_ok c (alter_relation t (\<lambda>r. r\<lparr>rel_columns := rel_columns r @ [x]\<rparr>) c) q
      (q\<lparr>rel_columns := rel_columns q @ [x]\<rparr>)"
    using relation_okD [OF c q(1)] by (simp add: altered_ok_def subset_insertI2)
      (simp add: column_names_def)
qed simp

lemma catalog_ok_drop_column:
  assumes c: "catalog_ok c" and r: "refusal (DropColumn t n) c = None"
  shows "catalog_ok (effect (DropColumn t n) c)"
  unfolding effect.simps
proof (rule catalog_ok_alter [OF c], simp)
  let ?f = "\<lambda>r. r\<lparr>rel_columns := filter (\<lambda>x. col_name x \<noteq> n) (rel_columns r),
     rel_constraints := {k \<in> rel_constraints r. n \<notin> set (key_columns (snd k))},
     rel_indexes := {i \<in> rel_indexes r. n \<notin> set (snd i)}\<rparr>"
  have free: "\<not> referenced c t (\<lambda>us. n \<in> set us)"
    using r by (auto split: if_splits)
  have "n \<notin> set us" if "referenced c t (\<lambda>v. v = us)" for us
    using referenced_mono [OF that, of "\<lambda>us. n \<in> set us"] free by auto
  then show "keeps_keys c t ?f"
    by (intro keeps_keysI) (elim disjE; simp)
  fix q
  assume q: "q \<in> set (relations c)" "rel_name q = t"
  have cols: "set ns \<subseteq> column_names q - {n}" if "n \<notin> set ns" "set ns \<subseteq> column_names q" for ns
    using that by blast
  have "\<forall>k \<in> rel_constraints q. set (key_columns (snd k)) \<subseteq> column_names q"
    "\<forall>i \<in> rel_indexes q. set (snd i) \<subseteq> column_names q"
    using relation_okD(3,5) [OF c q(1)] by blast+
  moreover have "column_names (?f q) = column_names q - {n}"
    by (auto simp: column_names_def)
  ultimately show "altered_ok c (alter_relation t ?f c) q (?f q)"
    using relation_okD(1,2) [OF c q(1)] cols by (simp add: altered_ok_def distinct_map_filter)
qed

lemma catalog_ok_add_constraint:
  assumes c: "catalog_ok c" and r: "refusal (AddConstraint t n k) c = None"
  shows "catalog_ok (effect (AddConstraint t n k) c)"
  unfolding effect.simps
proof (rule catalog_ok_alter [OF c], simp)
  let ?f = "\<lambda>r. r\<lparr>rel_constraints := insert (n, k) (rel_constraints r)\<rparr>"
  have ok: "some_relation c t (\<lambda>r. constr_ok c r k)"
    using r by (auto split: if_splits)
  show "keeps_keys c t ?f" by (auto simp: keeps_keys_def is_key_def)
  fix q
  assume q: "q \<in> set (relations c)" "rel_name q = t"
  have k: "constr_ok c q k" using the_relation [OF c ok q] .
  have "target_ok (alter_relation t ?f c) k"
    using k by (intro target_ok_new) (auto simp: constr_ok_def is_key_def)
  moreover have "column_names (?f q) = column_names q" by (simp add: column_names_def)
  ultimately show "altered_ok c (alter_relation t ?f c) q (?f q)"
    using k relation_okD [OF c q(1)] by (auto simp: altered_ok_def constr_ok_def)
qed

lemma catalog_ok_drop_constraint:
  assumes c: "catalog_ok c" and r: "refusal (DropConstraint t n) c = None"
  shows "catalog_ok (effect (DropConstraint t n) c)"
  unfolding effect.simps
proof (rule catalog_ok_alter [OF c], simp)
  let ?f = "\<lambda>r. r\<lparr>rel_constraints := {k \<in> rel_constraints r. fst k \<noteq> n}\<rparr>"
  have kept: "\<not> key_dropped c t n" using r by (auto split: if_splits)
  show "keeps_keys c t ?f"
  proof (rule keeps_keysI)
    fix q k us
    assume q: "q \<in> set (relations c)" "rel_name q = t" and k: "k \<in> rel_constraints q"
      "snd k = PrimaryKey us \<or> snd k = UniqueKey us" and us: "referenced c t (\<lambda>v. v = us)"
    have "fst k \<noteq> n"
      using not_some_relation [OF kept [unfolded key_dropped_def] q] k us by auto
    then show "k \<in> rel_constraints (?f q)" using k by simp
  qed
  fix q
  assume q: "q \<in> set (relations c)" "rel_name q = t"
  have "column_names (?f q) = column_names q" by (simp add: column_names_def)
  then show "altered_ok c (alter_relation t ?f c) q (?f q)"
    using relation_okD [OF c q(1)] by (auto simp: altered_ok_def)
qed

lemma catalog_ok_indexes:
  assumes c: "catalog_ok c"
    and i: "\<And>r i. r \<in> set (relations c) \<Longrightarrow> rel_name r = t \<Longrightarrow> i \<in> g (rel_indexes r) \<Longrightarrow>
      i \<in> rel_indexes r \<or> set (snd i) \<subseteq> column_names r"
  shows "catalog_ok (alter_relation t (\<lambda>r. r\<lparr>rel_indexes := g (rel_indexes r)\<rparr>) c)"
proof (rule catalog_ok_alter [OF c], simp)
  let ?f = "\<lambda>r. r\<lparr>rel_indexes := g (rel_indexes r)\<rparr>"
  show "keeps_keys c t ?f" by (simp add: keeps_keys_def is_key_def)
  fix q
  assume q: "q \<in> set (relations c)" "rel_name q = t"
  have "column_names (?f q) = column_names q" by (simp add: column_names_def)
  then show "altered_ok c (alter_relation t ?f c) q (?f q)"
    using relation_okD [OF c q(1)] i [OF q] by (fastforce simp: altered_ok_def)
qed

lemma catalog_ok_enums:
  assumes c: "catalog_ok c" and d: "distinct (map fst E)"
    and known: "\<And>r x. r \<in> set (relations c) \<Longrightarrow> x \<in> set (rel_columns r) \<Longrightarrow>
      type_known c (col_type x) \<Longrightarrow> type_known (c\<lparr>enum_types := E\<rparr>) (col_type x)"
  shows "catalog_ok (c\<lparr>enum_types := E\<rparr>)"
proof -
  have "target_ok (c\<lparr>enum_types := E\<rparr>) k = target_ok c k" for k
    by (simp add: target_ok_def some_relation_def cong: option.case_cong)
  moreover have "column_ok (c\<lparr>enum_types := E\<rparr>) x"
    if "r \<in> set (relations c)" "x \<in> set (rel_columns r)" for r x
    using known [OF that] relation_okD(2) [OF c that] by (simp add: column_ok_def)
  ultimately show ?thesis
    using c d by (simp add: catalog_ok_def relation_ok_def constr_ok_def)
qed

lemma labels_of_None: "labels_of c e = None \<longleftrightarrow> e \<notin> fst ` set (enum_types c)"
  by (simp add: labels_of_def map_of_eq_None_iff)

lemma type_known_enums:
  "type_known c ty \<Longrightarrow> (\<And>e. ty = EnumT e \<Longrightarrow> e \<in> fst ` set (enum_types c) \<Longrightarrow>
     e \<in> fst ` set E) \<Longrightarrow> type_known (c\<lparr>enum_types := E\<rparr>) ty"
  by (cases ty) auto

lemma catalog_ok_new_enum:
  assumes "catalog_ok c" and "labels_of c e = None"
  shows "catalog_ok (c\<lparr>enum_types := enum_types c @ [(e, ls)]\<rparr>)"
proof (rule catalog_ok_enums [OF assms(1)])
  show "distinct (map fst (enum_types c @ [(e, ls)]))"
    using assms by (simp add: catalog_ok_def labels_of_None)
qed (auto intro: type_known_enums)

lemma catalog_ok_drop_enum:
  assumes c: "catalog_ok c" and r: "refusal (DropTypeIfExists e) c = None"
  shows "catalog_ok (effect (DropTypeIfExists e) c)"
  unfolding effect.simps
proof (rule catalog_ok_enums [OF c])
  show "distinct (map fst (filter (\<lambda>p. fst p \<noteq> e) (enum_types c)))"
    using c by (simp add: catalog_ok_def distinct_map_filter)
  fix q x
  assume "q \<in> set (relations c)" "x \<in> set (rel_columns q)" and k: "type_known c (col_type x)"
  then have "col_type x \<noteq> EnumT e" using r by (auto split: if_splits)
  then show "type_known (c\<lparr>enum_types := filter (\<lambda>p. fst p \<noteq> e) (enum_types c)\<rparr>) (col_type x)"
    using k by (intro type_known_enums) force+
qed

lemma catalog_ok_add_label:
  assumes c: "catalog_ok c"
  shows "catalog_ok (effect (AddEnumValueIfMissing e v b) c)"
  unfolding effect.simps
proof (rule catalog_ok_enums [OF c])
  have m: "map fst (map (\<lambda>p. if fst p = e then (e, add_label v b (snd p)) else p) (enum_types c))
      = map fst (enum_types c)"
    by auto
  then show "distinct (map fst
      (map (\<lambda>p. if fst p = e then (e, add_label v b (snd p)) else p) (enum_types c)))"
    using c by (simp only: catalog_ok_def)
  from m have "fst ` set (map (\<lambda>p. if fst p = e then (e, add_label v b (snd p)) else p) (enum_types c))
      = fst ` set (enum_types c)"
    by (metis list.set_map)
  then show "type_known (c\<lparr>enum_types :=
      map (\<lambda>p. if fst p = e then (e, add_label v b (snd p)) else p) (enum_types c)\<rparr>) (col_type x)"
    if "type_known c (col_type x)" for r x
    using that by (intro type_known_enums) simp_all
qed

lemma target_ok_mono:
  "target_ok c k \<Longrightarrow> set (relations c) \<subseteq> set (relations c') \<Longrightarrow> target_ok c' k"
  unfolding target_ok_def some_relation_def by (auto split: option.splits)

lemma type_known_relations [simp]: "type_known (c\<lparr>relations := R\<rparr>) ty = type_known c ty"
  by (cases ty) auto

lemma column_ok_relations [simp]: "column_ok (c\<lparr>relations := R\<rparr>) x = column_ok c x"
  by (simp add: column_ok_def)

lemma catalog_ok_create_table:
  assumes c: "catalog_ok c" and r: "refusal (CreateTable r) c = None"
  shows "catalog_ok (effect (CreateTable r) c)"
proof -
  let ?c = "c\<lparr>relations := relations c @ [r]\<rparr>"
  have mono: "target_ok ?c k" if "target_ok c k" for k
    using that by (rule target_ok_mono) auto
  have "relation_ok ?c r" "rel_name r \<notin> rel_name ` set (relations c)"
    using r by (auto simp: table_names_def split: if_splits)
  moreover have "relation_ok ?c q" if "q \<in> set (relations c)" for q
    using relation_okD(1,2,3,5) [OF c that] mono [OF relation_okD(4) [OF c that]]
    unfolding relation_ok_def constr_ok_def by simp
  ultimately show ?thesis
    using c by (auto simp: catalog_ok_def)
qed

lemma catalog_ok_drop_table:
  assumes c: "catalog_ok c" and r: "refusal (DropTable t) c = None"
  shows "catalog_ok (effect (DropTable t) c)"
proof -
  let ?c = "c\<lparr>relations := filter (\<lambda>r. rel_name r \<noteq> t) (relations c)\<rparr>"
  have "relation_ok ?c q" if q: "q \<in> set (relations c)" "rel_name q \<noteq> t" for q
  proof -
    have "target_ok ?c (snd k)" if k: "k \<in> rel_constraints q" for k
    proof (cases "references (snd k)")
      case (Some p)
      then have "fst p \<noteq> t" using r q k by (auto split: if_splits) (metis prod.collapse)
      then show ?thesis
        using relation_okD(4) [OF c q(1) k] Some
        by (auto simp: target_ok_def some_relation_def split: prod.splits)
    qed (simp add: target_ok_def)
    then show ?thesis
      using relation_okD(1,2,3,5) [OF c q(1)] unfolding relation_ok_def constr_ok_def by simp
  qed
  then show ?thesis
    using c by (simp add: catalog_ok_def distinct_map_filter)
qed

lemma column_ok_simps [simp]:
  "column_ok c (x\<lparr>col_nullable := b\<rparr>) = column_ok c x"
  by (simp add: column_ok_def cong: option.case_cong)

text \<open>Every accepted statement keeps the catalogue well formed.\<close>

lemma catalog_ok_effect:
  assumes c: "catalog_ok c" and r: "refusal s c = None"
  shows "catalog_ok (effect s c)"
proof (cases s)
  case (CreateType e ls)
  then show ?thesis using c r by (simp add: catalog_ok_new_enum split: if_splits)
next
  case (CreateTypeIfMissing e ls)
  then show ?thesis using c by (simp add: catalog_ok_new_enum)
next
  case (AlterType t n ty u)
  have "column_type_is c t n (\<lambda>x. column_ok c x \<longrightarrow> column_ok c (x\<lparr>col_type := ty\<rparr>))"
    using r AlterType by (auto simp: column_ok_def convertible_def split: if_splits option.splits
      elim!: column_type_is_mono)
  then show ?thesis using c AlterType by (simp add: catalog_ok_one_column)
next
  case (SetNullable t n b)
  then have "column_present c t n" using r by (simp split: if_splits)
  then show ?thesis using c SetNullable by (simp add: catalog_ok_one_column column_type_isI)
next
  case (SetDefault t n d)
  have "column_type_is c t n (\<lambda>x. column_ok c x \<longrightarrow> column_ok c (x\<lparr>col_default := d\<rparr>))"
    using r SetDefault by (auto simp: column_ok_def split: if_splits option.splits elim!: column_type_is_mono)
  then show ?thesis using c SetDefault by (simp add: catalog_ok_one_column)
next
  case (CreateIndex t n cs)
  then have "some_relation c t (\<lambda>r. set cs \<subseteq> column_names r)" using r by (simp split: if_splits)
  then have cs: "set cs \<subseteq> column_names q" if "q \<in> set (relations c)" "rel_name q = t" for q
    using the_relation [OF c _ that] by blast
  have "catalog_ok (alter_relation t (\<lambda>r. r\<lparr>rel_indexes := insert (n, cs) (rel_indexes r)\<rparr>) c)"
    using cs by (intro catalog_ok_indexes [OF c]) (metis insertE snd_conv)
  then show ?thesis using CreateIndex by simp
next
  case (DropIndex t n)
  have "catalog_ok (alter_relation t (\<lambda>r. r\<lparr>rel_indexes := {i \<in> rel_indexes r. fst i \<noteq> n}\<rparr>) c)"
    by (intro catalog_ok_indexes [OF c]) auto
  then show ?thesis using DropIndex by simp
qed (use assms in \<open>auto simp del: effect.simps refusal.simps
  intro: catalog_ok_drop_enum catalog_ok_add_label catalog_ok_create_table catalog_ok_drop_table
    catalog_ok_add_column catalog_ok_drop_column catalog_ok_add_constraint
    catalog_ok_drop_constraint\<close>)

section \<open>The rows stay well typed\<close>

lemma rows_ok_alter:
  assumes D: "rows_ok c D" and n: "\<And>r. rel_name (f r) = rel_name r"
    and others: "\<And>u. u \<noteq> t \<Longrightarrow> D' u = D u" and absent: "D t = [] \<Longrightarrow> D' t = []"
    and new: "\<And>r w. r \<in> set (relations c) \<Longrightarrow> rel_name r = t \<Longrightarrow> w \<in> set (D' t) \<Longrightarrow>
      row_ok (enum_types c) (f r) w"
  shows "rows_ok (alter_relation t f c) D'"
  unfolding rows_ok_def
proof (intro conjI ballI allI impI)
  fix r w
  assume "r \<in> set (relations (alter_relation t f c))" and w: "w \<in> set (D' (rel_name r))"
  then obtain q where q: "q \<in> set (relations c)" and r: "r = (if rel_name q = t then f q else q)"
    by (auto simp: catalog_simps)
  show "row_ok (enum_types (alter_relation t f c)) r w"
  proof (cases "rel_name q = t")
    case True
    then show ?thesis using new [OF q True, of w] w r n by simp
  next
    case False
    then show ?thesis using D q w r others by (simp add: rows_ok_def)
  qed
next
  fix u
  assume "u \<notin> table_names (alter_relation t f c)"
  then have "D u = []" using D n by (simp add: rows_ok_def table_names_alter)
  then show "D' u = []" using others absent by metis
qed

lemma rows_okD: "rows_ok c D \<Longrightarrow> r \<in> set (relations c) \<Longrightarrow> w \<in> set (D (rel_name r)) \<Longrightarrow>
    row_ok (enum_types c) r w"
  by (simp add: rows_ok_def)

lemma rows_ok_same_columns:
  assumes D: "rows_ok c D" and n: "\<And>r. rel_name (f r) = rel_name r"
    and cols: "\<And>r. rel_columns (f r) = rel_columns r"
  shows "rows_ok (alter_relation t f c) D"
proof (rule rows_ok_alter [OF D n])
  show "row_ok (enum_types c) (f r) w" if "r \<in> set (relations c)" "rel_name r = t" "w \<in> set (D t)"
    for r w
    using rows_okD [OF D that(1), of w] that by (simp add: row_ok_def column_names_def cols)
qed auto

lemma new_value_ok:
  assumes "column_ok c x" and "col_default x = None \<Longrightarrow> col_nullable x"
  shows "value_ok E x (new_value se x)"
  using assms default_value_typed
  by (auto simp: value_ok_def new_value_def column_ok_def split: option.splits)

lemma rows_ok_add_column:
  assumes D: "rows_ok c D" and r: "refusal (AddColumn t x) c = None"
    and d: "data_refusal se (AddColumn t x) c D = None"
  shows "rows_ok (effect (AddColumn t x) c) (data_effect se (AddColumn t x) D)"
  unfolding effect.simps data_effect.simps
proof (rule rows_ok_alter [OF D])
  fix q w'
  assume q: "q \<in> set (relations c)" "rel_name q = t"
    and w': "w' \<in> set ((D(t := map (\<lambda>w. w(col_name x := new_value se x)) (D t))) t)"
  then obtain w where w: "w \<in> set (D t)" "w' = w(col_name x := new_value se x)" by auto
  have new: "col_name x \<notin> column_names q"
    using r not_some_relation [OF _ q] by (auto simp: column_present_def split: if_splits)
  have ok: "column_ok c x" using r by (auto split: if_splits)
  have "D t \<noteq> []" using w by auto
  then have "value_ok (enum_types c) x (new_value se x)"
    using d by (intro new_value_ok [OF ok]) (auto split: if_splits)
  moreover have "row_ok (enum_types c) q w" using rows_okD [OF D q(1)] w q by simp
  moreover have "\<forall>y \<in> set (rel_columns q). col_name y \<noteq> col_name x"
    using new unfolding column_names_def by (metis image_eqI)
  ultimately show "row_ok (enum_types c) (q\<lparr>rel_columns := rel_columns q @ [x]\<rparr>) w'"
    using new w(2) by (auto simp: row_ok_def column_names_def)
qed auto

lemma rows_ok_drop_column:
  assumes D: "rows_ok c D"
  shows "rows_ok (effect (DropColumn t n) c) (data_effect se (DropColumn t n) D)"
  unfolding effect.simps data_effect.simps
proof (rule rows_ok_alter [OF D])
  fix q w'
  assume q: "q \<in> set (relations c)" "rel_name q = t"
    and "w' \<in> set ((D(t := map (\<lambda>w. w(n := SqlNull)) (D t))) t)"
  then obtain w where w: "w \<in> set (D t)" "w' = w(n := SqlNull)" by auto
  have "row_ok (enum_types c) q w" using rows_okD [OF D q(1)] w q by simp
  then show "row_ok (enum_types c) (q\<lparr>rel_columns := filter (\<lambda>x. col_name x \<noteq> n) (rel_columns q),
      rel_constraints := {k \<in> rel_constraints q. n \<notin> set (key_columns (snd k))},
      rel_indexes := {i \<in> rel_indexes q. n \<notin> set (snd i)}\<rparr>) w'"
    using w(2) by (auto simp: row_ok_def column_names_def)
qed auto

lemma convert_ok:
  assumes "convertible (col_type x) u ty" and "value_ok E x v"
  shows "value_ok E (x\<lparr>col_type := ty\<rparr>) (convert se u v)"
  using assms by (cases v) (auto simp: value_ok_def convertible_def split: if_splits)

lemma rows_ok_alter_type:
  assumes c: "catalog_ok c" and D: "rows_ok c D" and r: "refusal (AlterType t n ty u) c = None"
  shows "rows_ok (effect (AlterType t n ty u) c) (data_effect se (AlterType t n ty u) D)"
  unfolding effect.simps data_effect.simps
proof (rule rows_ok_alter [OF D])
  fix q w'
  assume q: "q \<in> set (relations c)" "rel_name q = t"
    and "w' \<in> set ((D(t := map (\<lambda>w. w(n := convert se u (w n))) (D t))) t)"
  then obtain w where w: "w \<in> set (D t)" "w' = w(n := convert se u (w n))" by auto
  have "column_type_is c t n (\<lambda>x. convertible (col_type x) u ty
      \<and> (case col_default x of None \<Rightarrow> True | Some d \<Rightarrow> default_fits ty d))"
    using r by (simp split: if_splits)
  then have conv: "\<forall>x \<in> set (rel_columns q). col_name x = n \<longrightarrow> convertible (col_type x) u ty"
    using the_relation [OF c _ q] unfolding column_type_is_def by blast
  have row: "row_ok (enum_types c) q w" using rows_okD [OF D q(1)] w q by simp
  have present: "n \<in> column_names q"
    using r the_relation [OF c _ q] by (auto simp: column_present_def split: if_splits)
  show "row_ok (enum_types c) (alter_one_column n (\<lambda>x. x\<lparr>col_type := ty\<rparr>) q) w'"
    using row [unfolded row_ok_def] conv present w(2)
    by (subst row_ok_alter_one_column) (auto intro: convert_ok)
qed auto

lemma rows_ok_set_nullable:
  assumes D: "rows_ok c D" and d: "data_refusal se (SetNullable t n b) c D = None"
  shows "rows_ok (effect (SetNullable t n b) c) D"
  unfolding effect.simps
proof (rule rows_ok_alter [OF D])
  fix q w
  assume q: "q \<in> set (relations c)" "rel_name q = t" and w: "w \<in> set (D t)"
  have "row_ok (enum_types c) q w" using rows_okD [OF D q(1)] w q by simp
  moreover have "b \<or> w n \<noteq> SqlNull" using d w by (auto split: if_splits)
  ultimately show "row_ok (enum_types c) (alter_one_column n (\<lambda>x. x\<lparr>col_nullable := b\<rparr>) q) w"
    unfolding row_ok_def [of _ q]
    by (subst row_ok_alter_one_column) (auto simp: value_ok_def split: if_splits)
qed auto

lemma rows_ok_set_default:
  assumes D: "rows_ok c D"
  shows "rows_ok (effect (SetDefault t n d) c) D"
  unfolding effect.simps
proof (rule rows_ok_alter [OF D])
  fix q w
  assume q: "q \<in> set (relations c)" "rel_name q = t" and w: "w \<in> set (D t)"
  have "row_ok (enum_types c) q w" using rows_okD [OF D q(1)] w q by simp
  from this [unfolded row_ok_def]
  show "row_ok (enum_types c) (alter_one_column n (\<lambda>x. x\<lparr>col_default := d\<rparr>) q) w"
    by (subst row_ok_alter_one_column) (auto simp: value_ok_def)
qed auto

text \<open>Enumeration types.\<close>

lemma rows_ok_enums:
  assumes D: "rows_ok c D"
    and lab: "\<And>r x l. r \<in> set (relations c) \<Longrightarrow> x \<in> set (rel_columns r) \<Longrightarrow>
      is_label (enum_types c) (col_type x) l \<Longrightarrow> is_label E (col_type x) l"
  shows "rows_ok (c\<lparr>enum_types := E\<rparr>) D"
proof -
  have "of_type E (col_type x) v"
    if "r \<in> set (relations c)" "x \<in> set (rel_columns r)" "of_type (enum_types c) (col_type x) v"
    for r x v
    using that lab by (cases v) auto
  then show ?thesis
    using D by (simp add: rows_ok_def row_ok_def value_ok_def table_names_def)
qed

lemma is_label_new:
  "is_label E ty l \<Longrightarrow> is_label (E @ [(e, ls)]) ty l"
  by (cases ty) (auto simp: map_add_def split: option.splits)

lemma map_of_filter_other: "a \<noteq> e \<Longrightarrow> map_of (filter (\<lambda>p. fst p \<noteq> e) E) a = map_of E a"
  by (induction E) auto

lemma set_insert_before: "set ls \<subseteq> set (insert_before v b ls)"
  by (induction ls) auto

lemma is_label_add:
  "is_label E ty l \<Longrightarrow>
   is_label (map (\<lambda>p. if fst p = e then (e, add_label v b (snd p)) else p) E) ty l"
proof (cases ty)
  case (EnumT a)
  assume "is_label E ty l"
  with EnumT obtain ls where ls: "map_of E a = Some ls" "l \<in> set ls"
    by (auto split: option.splits)
  have "map_of (map (\<lambda>p. if fst p = e then (e, add_label v b (snd p)) else p) E) a
      = Some (if a = e then add_label v b ls else ls)"
    using ls(1) by (induction E) auto
  then show ?thesis
    using EnumT ls(2) subsetD [OF set_insert_before] by (auto simp: add_label_def)
qed auto

lemma rows_ok_drop_enum:
  assumes D: "rows_ok c D" and r: "refusal (DropTypeIfExists e) c = None"
  shows "rows_ok (effect (DropTypeIfExists e) c) D"
  unfolding effect.simps
proof (rule rows_ok_enums [OF D])
  fix q x l
  assume "q \<in> set (relations c)" "x \<in> set (rel_columns q)"
    and l: "is_label (enum_types c) (col_type x) l"
  then have "col_type x \<noteq> EnumT e" using r by (auto split: if_splits)
  then show "is_label (filter (\<lambda>p. fst p \<noteq> e) (enum_types c)) (col_type x) l"
    using l by (cases "col_type x") (auto simp: map_of_filter_other)
qed

lemma rows_ok_effect:
  assumes c: "catalog_ok c" and D: "rows_ok c D" and r: "refusal s c = None"
    and d: "data_refusal se s c D = None"
  shows "rows_ok (effect s c) (data_effect se s D)"
proof (cases s)
  case (CreateTable q)
  then have "D (rel_name q) = []"
    using r D by (auto simp: rows_ok_def split: if_splits)
  then show ?thesis using CreateTable D by (auto simp: rows_ok_def table_names_def)
next
  case (DropTable t)
  then show ?thesis using D by (auto simp: rows_ok_def table_names_def)
next
  case (AddColumn t x)
  then show ?thesis using rows_ok_add_column [OF D] r d by simp
next
  case (DropColumn t n)
  then show ?thesis using rows_ok_drop_column [OF D] by simp
next
  case (AlterType t n ty u)
  then show ?thesis using rows_ok_alter_type [OF c D] r by simp
next
  case (SetNullable t n b)
  then show ?thesis using rows_ok_set_nullable [OF D] d by simp
next
  case (DropTypeIfExists e)
  then show ?thesis using rows_ok_drop_enum [OF D] r by simp
qed (use D in \<open>auto intro!: rows_ok_same_columns rows_ok_set_default [unfolded effect.simps]
  intro: rows_ok_enums is_label_new is_label_add\<close>)

section \<open>The constraints keep holding\<close>

text \<open>A constraint sees only the columns it names.\<close>

lemma holds_other_column:
  assumes "u = t \<Longrightarrow> n \<notin> set (key_columns k)" and "\<And>us. references k = Some (t, us) \<Longrightarrow> n \<notin> set us"
  shows "holds (D(t := map (\<lambda>w. w(n := g w)) (D t))) u k = holds D u k"
proof (cases k)
  case (ForeignKey cs v us od)
  have "(\<lambda>q. map q us) ` set ((D(t := map (\<lambda>w. w(n := g w)) (D t))) v)
      = (\<lambda>q. map q us) ` set (D v)"
    using assms(2) ForeignKey by (auto simp: image_image)
  then have "holds (D(t := map (\<lambda>w. w(n := g w)) (D t))) u k \<longleftrightarrow>
      (\<forall>w \<in> set ((D(t := map (\<lambda>w. w(n := g w)) (D t))) u).
         SqlNull \<in> set (map w cs) \<or> map w cs \<in> (\<lambda>q. map q us) ` set (D v))"
    using ForeignKey by (simp only: holds.simps)
  also have "\<dots> \<longleftrightarrow> holds D u k"
  proof (cases "u = t")
    case True
    then have m: "map (w(n := x)) cs = map w cs" for w x
      using assms(1) ForeignKey by simp
    have "(\<forall>w \<in> set (map (\<lambda>w. w(n := g w)) (D t)). P (map w cs)) \<longleftrightarrow> (\<forall>w \<in> set (D t). P (map w cs))"
      for P by (simp only: list.set_map ball_simps m)
    then show ?thesis using True ForeignKey by (simp only: holds.simps fun_upd_same)
  qed (use ForeignKey in simp)
  finally show ?thesis .
qed (use assms in \<open>auto simp: comp_def\<close>)

lemma holds_other_table:
  "u \<noteq> t \<Longrightarrow> (\<And>us. references k \<noteq> Some (t, us)) \<Longrightarrow> holds (D(t := ws)) u k = holds D u k"
  by (cases k) auto

lemma constraints_hold_alter:
  assumes n: "\<And>r. rel_name (f r) = rel_name r"
    and new: "\<And>r k. r \<in> set (relations c) \<Longrightarrow> rel_name r = t \<Longrightarrow> k \<in> rel_constraints (f r) \<Longrightarrow>
      holds D' t (snd k)"
    and old: "\<And>r k. r \<in> set (relations c) \<Longrightarrow> rel_name r \<noteq> t \<Longrightarrow> k \<in> rel_constraints r \<Longrightarrow>
      holds D' (rel_name r) (snd k)"
  shows "constraints_hold (alter_relation t f c) D'"
  unfolding constraints_hold_def
proof (intro ballI)
  fix r k
  assume "r \<in> set (relations (alter_relation t f c))" and k: "k \<in> rel_constraints r"
  then obtain q where q: "q \<in> set (relations c)" and r: "r = (if rel_name q = t then f q else q)"
    unfolding relations_alter set_map by blast
  show "holds D' (rel_name r) (snd k)"
    using new [OF q, of k] old [OF q, of k] k r n by (cases "rel_name q = t") auto
qed

lemma constraints_holdD:
  "constraints_hold c D \<Longrightarrow> r \<in> set (relations c) \<Longrightarrow> k \<in> rel_constraints r \<Longrightarrow>
     holds D (rel_name r) (snd k)"
  by (simp add: constraints_hold_def)

lemma constraints_hold_same:
  assumes "constraints_hold c D" and "\<And>r. rel_name (f r) = rel_name r"
    and "\<And>r. rel_constraints (f r) \<subseteq> rel_constraints r"
  shows "constraints_hold (alter_relation t f c) D"
  using assms by (intro constraints_hold_alter) (auto dest: constraints_holdD subsetD)

lemma constraints_hold_add_column:
  assumes c: "catalog_ok c" and H: "constraints_hold c D"
    and r: "refusal (AddColumn t x) c = None"
  shows "constraints_hold (effect (AddColumn t x) c) (data_effect se (AddColumn t x) D)"
proof -
  have fresh: "col_name x \<notin> column_names q"
    if "q \<in> set (relations c)" "rel_name q = t" for q
    using r not_some_relation [OF _ that] by (auto simp: column_present_def split: if_splits)
  have same: "holds (data_effect se (AddColumn t x) D) (rel_name q) (snd k)"
    if q: "q \<in> set (relations c)" and k: "k \<in> rel_constraints q" for q k
  proof -
    have "col_name x \<notin> set us" if us: "references (snd k) = Some (t, us)" for us
    proof -
      obtain p where p: "p \<in> set (relations c)" "rel_name p = t" "is_key p us"
        using relation_okD(4) [OF c q k] us by (auto simp: target_ok_def some_relation_def)
      then obtain k' where "k' \<in> rel_constraints p" "key_columns (snd k') = us"
        by (auto simp: is_key_def)
      then show ?thesis using relation_okD(3) [OF c p(1), of k'] fresh [OF p(1,2)] by auto
    qed
    moreover have "rel_name q = t \<Longrightarrow> col_name x \<notin> set (key_columns (snd k))"
      using relation_okD(3) [OF c q k] fresh [OF q] by auto
    ultimately show ?thesis
      using holds_other_column [of "rel_name q" t "col_name x" "snd k", where g = "\<lambda>_. new_value se x"]
        constraints_holdD [OF H q k]
      by simp
  qed
  show ?thesis
    unfolding effect.simps using same by (intro constraints_hold_alter) auto
qed

lemma constraints_hold_drop_column:
  assumes H: "constraints_hold c D" and r: "refusal (DropColumn t n) c = None"
  shows "constraints_hold (effect (DropColumn t n) c) (data_effect se (DropColumn t n) D)"
proof -
  have free: "\<not> referenced c t (\<lambda>us. n \<in> set us)"
    using r by (auto split: if_splits)
  have same: "holds (data_effect se (DropColumn t n) D) (rel_name q) (snd k)"
    if q: "q \<in> set (relations c)" and k: "k \<in> rel_constraints q"
      and cols: "rel_name q = t \<Longrightarrow> n \<notin> set (key_columns (snd k))" for q k
  proof -
    have "n \<notin> set us" if "references (snd k) = Some (t, us)" for us
      using referenced_by [OF q k that, of "\<lambda>us. n \<in> set us"] free by blast
    then show ?thesis
      using holds_other_column [of "rel_name q" t n "snd k", where g = "\<lambda>_. SqlNull"] constraints_holdD [OF H q k] cols
      by simp
  qed
  show ?thesis
    unfolding effect.simps using same by (intro constraints_hold_alter) auto
qed

lemma constraints_hold_enums [simp]:
  "constraints_hold (c\<lparr>enum_types := E\<rparr>) D = constraints_hold c D"
  by (simp add: constraints_hold_def)

lemma constraints_hold_effect:
  assumes c: "catalog_ok c" and D: "rows_ok c D" and H: "constraints_hold c D"
    and r: "refusal s c = None" and d: "data_refusal se s c D = None"
  shows "constraints_hold (effect s c) (data_effect se s D)"
proof (cases s)
  case (CreateTable q)
  then have "D (rel_name q) = []"
    using r D by (auto simp: rows_ok_def split: if_splits)
  then have "holds D (rel_name q) k" for k by (cases k) auto
  then show ?thesis using CreateTable H by (auto simp: constraints_hold_def)
next
  case (DropTable t)
  have "holds (D(t := [])) (rel_name q) (snd k)"
    if q: "q \<in> set (relations c)" "rel_name q \<noteq> t" and k: "k \<in> rel_constraints q" for q k
  proof -
    have "references (snd k) \<noteq> Some (t, us)" for us
      using r DropTable q k by (auto split: if_splits)
    then show ?thesis using holds_other_table [OF q(2)] constraints_holdD [OF H q(1) k] by blast
  qed
  then show ?thesis using DropTable by (auto simp: constraints_hold_def)
next
  case (AddColumn t x)
  then show ?thesis using constraints_hold_add_column [OF c H] r by simp
next
  case (DropColumn t n)
  then show ?thesis using constraints_hold_drop_column [OF H] r by simp
next
  case (AlterType t n ty u)
  then have "constraints_hold c (data_effect se s D)" using d by (simp split: if_splits)
  then show ?thesis using AlterType by (simp add: constraints_hold_same)
next
  case (AddConstraint t n k)
  then have "holds D t k" using d by (simp split: if_splits)
  then show ?thesis
    using AddConstraint H by (auto intro!: constraints_hold_alter dest: constraints_holdD)
qed (use H in \<open>auto intro!: constraints_hold_same\<close>)

section \<open>The contract of the engine\<close>

lemma execute_Inr:
  "execute se s d = Inr d' \<longleftrightarrow> refusal s (db_catalog d) = None
     \<and> data_refusal se s (db_catalog d) (db_data d) = None
     \<and> d' = d\<lparr>db_catalog := effect s (db_catalog d), db_data := data_effect se s (db_data d)\<rparr>"
  by (auto simp: execute_def split: option.splits)

lemma execute_consistent:
  assumes "consistent d" and "execute se s d = Inr d'"
  shows "consistent d'"
  using assms catalog_ok_effect rows_ok_effect constraints_hold_effect
  by (simp add: consistent_def execute_Inr)

fun run_statements :: "(statement \<Rightarrow> 'd \<Rightarrow> ddl_error + 'd) \<Rightarrow> statement list \<Rightarrow> 'd \<Rightarrow> ddl_error + 'd" where
  "run_statements exec [] d = Inr d"
| "run_statements exec (s # ss) d = (case exec s d of Inl e \<Rightarrow> Inl e
     | Inr d' \<Rightarrow> run_statements exec ss d')"

text \<open>The same statements over the catalogue alone: what they make of the tables when no row
  stands in the way.\<close>

definition alter_catalog :: "statement \<Rightarrow> catalog \<Rightarrow> ddl_error + catalog" where
  "alter_catalog s c = (case refusal s c of Some e \<Rightarrow> Inl e | None \<Rightarrow> Inr (effect s c))"

locale ddl_engine =
  fixes exec :: "statement \<Rightarrow> 'd \<Rightarrow> ddl_error + 'd"
    and schema :: "'d \<Rightarrow> catalog"
    and sound :: "'d \<Rightarrow> bool"
  assumes exec_follows: "exec s d = Inr d' \<Longrightarrow> alter_catalog s (schema d) = Inr (schema d')"
    and exec_refuses: "alter_catalog s (schema d) = Inl e \<Longrightarrow> exec s d = Inl e"
    and exec_keeps: "sound d \<Longrightarrow> exec s d = Inr d' \<Longrightarrow> sound d'"
begin

lemma run_follows:
  "run_statements exec ss d = Inr d' \<Longrightarrow>
     run_statements alter_catalog ss (schema d) = Inr (schema d')"
proof (induction ss arbitrary: d)
  case (Cons s ss)
  then obtain d1 where "exec s d = Inr d1" "run_statements exec ss d1 = Inr d'"
    by (auto split: sum.splits)
  then show ?case using Cons.IH exec_follows by simp
qed simp

lemma run_keeps: "sound d \<Longrightarrow> run_statements exec ss d = Inr d' \<Longrightarrow> sound d'"
  by (induction ss arbitrary: d) (auto dest: exec_keeps split: sum.splits)

lemma run_refuses:
  "run_statements alter_catalog ss (schema d) = Inl e \<Longrightarrow> \<exists>e'. run_statements exec ss d = Inl e'"
  using run_follows by (cases "run_statements exec ss d") fastforce+

end

interpretation pg: ddl_engine "execute se" db_catalog consistent
  by unfold_locales
    (auto simp: execute_Inr alter_catalog_def intro: execute_consistent,
     auto simp: execute_def split: option.splits)

end
