(* ===== verification/PW_Migrations.thy ===== *)
theory PW_Migrations
  imports PW_DdlLaws
begin

text \<open>
  alembic/versions and alembic/env.py: the directives of \<open>alembic.op\<close> as functions to the
  statements they emit, the \<open>upgrade\<close> and \<open>downgrade\<close> of every revision, the chain their
  \<open>down_revision\<close>s form, and the run of a command inside one transaction. The tables the ORM
  models of app/models declare are written with the same directives.
\<close>

section \<open>The directives\<close>

text \<open>
  The column types of SQLAlchemy. \<open>Enum\<close> with labels creates its type with the table, the
  PostgreSQL \<open>ENUM(create_type=False)\<close> names a type that exists already.
\<close>

datatype sa_type =
    Integer
  | Float
  | String "nat option"
  | Text
  | Boolean
  | DateTime bool
  | Enum "string list" string
  | ExistingEnum string
  | StringArray
  | JSONB

fun pg_type :: "sa_type \<Rightarrow> sql_type" where
  "pg_type Integer = IntegerT"
| "pg_type Float = FloatT"
| "pg_type (String n) = VarcharT n"
| "pg_type Text = TextT"
| "pg_type Boolean = BooleanT"
| "pg_type (DateTime tz) = (if tz then TimestamptzT else TimestampT)"
| "pg_type (Enum ls e) = EnumT e"
| "pg_type (ExistingEnum e) = EnumT e"
| "pg_type StringArray = TextArrayT"
| "pg_type JSONB = JsonbT"

fun new_types :: "sa_type \<Rightarrow> statement list" where
  "new_types (Enum ls e) = [CreateType e ls]"
| "new_types _ = []"

datatype column_attr =
    Nullable bool
  | ServerDefault default_expr
  | PrimaryKeyColumn
  | UniqueColumn
  | References string string "on_delete option"

datatype sa_column = Column string sa_type "column_attr list"

datatype table_item =
    Col sa_column
  | PrimaryKeyConstraint "string list"
  | UniqueConstraint "string list" "string option"
  | ForeignKeyConstraint "string list" string "string list" "on_delete option"

text \<open>A column is nullable unless it says otherwise or is the primary key.\<close>

definition column_of :: "sa_column \<Rightarrow> column" where
  "column_of c = (case c of Column n ty as \<Rightarrow>
     \<lparr>col_name = n, col_type = pg_type ty,
      col_nullable = (Nullable False \<notin> set as \<and> PrimaryKeyColumn \<notin> set as),
      col_default = (case [d. ServerDefault d \<leftarrow> as] of [] \<Rightarrow> None | d # _ \<Rightarrow> Some d)\<rparr>)"

text \<open>The names PostgreSQL gives to unnamed constraints.\<close>

fun joined :: "string list \<Rightarrow> string" where
  "joined [] = ''''"
| "joined [n] = n"
| "joined (n # ns) = n @ ''_'' @ joined ns"

fun default_name :: "string \<Rightarrow> constr \<Rightarrow> string" where
  "default_name t (PrimaryKey cs) = t @ ''_pkey''"
| "default_name t (UniqueKey cs) = t @ ''_'' @ joined cs @ ''_key''"
| "default_name t (ForeignKey cs _ _ _) = t @ ''_'' @ joined cs @ ''_fkey''"

definition named :: "string \<Rightarrow> string option \<Rightarrow> constr \<Rightarrow> string \<times> constr" where
  "named t n k = (case n of None \<Rightarrow> default_name t k | Some m \<Rightarrow> m, k)"

fun column_attr_constraints :: "string \<Rightarrow> string \<Rightarrow> column_attr \<Rightarrow> (string \<times> constr) list" where
  "column_attr_constraints t n PrimaryKeyColumn = [named t None (PrimaryKey [n])]"
| "column_attr_constraints t n UniqueColumn = [named t None (UniqueKey [n])]"
| "column_attr_constraints t n (References u m od) = [named t None (ForeignKey [n] u [m] od)]"
| "column_attr_constraints t n _ = []"

fun item_constraints :: "string \<Rightarrow> table_item \<Rightarrow> (string \<times> constr) list" where
  "item_constraints t (Col (Column n ty as)) = concat (map (column_attr_constraints t n) as)"
| "item_constraints t (PrimaryKeyConstraint cs) = [named t None (PrimaryKey cs)]"
| "item_constraints t (UniqueConstraint cs n) = [named t n (UniqueKey cs)]"
| "item_constraints t (ForeignKeyConstraint cs u us od) = [named t None (ForeignKey cs u us od)]"

definition item_columns :: "table_item list \<Rightarrow> sa_column list" where
  "item_columns items = [c. Col c \<leftarrow> items]"

definition relation_for :: "string \<Rightarrow> table_item list \<Rightarrow> relation" where
  "relation_for t items =
     \<lparr>rel_name = t, rel_columns = map column_of (item_columns items),
      rel_constraints = set (concat (map (item_constraints t) items)), rel_indexes = {}\<rparr>"

text \<open>
  A directive emits its statements or, for a constraint without a name, is refused by
  SQLAlchemy's compiler.
\<close>

type_synonym directive = "ddl_error + statement list"

definition op_create_table :: "string \<Rightarrow> table_item list \<Rightarrow> directive" where
  "op_create_table t items =
     Inr (concat [new_types ty. Column n ty as \<leftarrow> item_columns items]
       @ [CreateTable (relation_for t items)])"

definition op_drop_table :: "string \<Rightarrow> directive" where
  "op_drop_table t = Inr [DropTable t]"

definition op_add_column :: "string \<Rightarrow> sa_column \<Rightarrow> directive" where
  "op_add_column t c = Inr [AddColumn t (column_of c)]"

definition op_drop_column :: "string \<Rightarrow> string \<Rightarrow> directive" where
  "op_drop_column t n = Inr [DropColumn t n]"

definition op_create_foreign_key ::
  "string option \<Rightarrow> string \<Rightarrow> string \<Rightarrow> string list \<Rightarrow> string list \<Rightarrow> on_delete option \<Rightarrow> directive"
where
  "op_create_foreign_key n t u cs us od =
     (let (m, k) = named t n (ForeignKey cs u us od) in Inr [AddConstraint t m k])"

definition op_create_unique_constraint :: "string \<Rightarrow> string \<Rightarrow> string list \<Rightarrow> directive" where
  "op_create_unique_constraint n t cs = Inr [AddConstraint t n (UniqueKey cs)]"

definition op_drop_constraint :: "string option \<Rightarrow> string \<Rightarrow> directive" where
  "op_drop_constraint n t =
     (case n of None \<Rightarrow> Inl CompileError | Some m \<Rightarrow> Inr [DropConstraint t m])"

definition op_create_index :: "string \<Rightarrow> string \<Rightarrow> string list \<Rightarrow> directive" where
  "op_create_index n t cs = Inr [CreateIndex t n cs]"

definition op_drop_index :: "string \<Rightarrow> string \<Rightarrow> directive" where
  "op_drop_index n t = Inr [DropIndex t n]"

datatype alteration =
    NewType sa_type conversion
  | NewNullable bool
  | NewDefault "default_expr option"

fun alter_statement :: "string \<Rightarrow> string \<Rightarrow> alteration \<Rightarrow> statement" where
  "alter_statement t n (NewType ty u) = AlterType t n (pg_type ty) u"
| "alter_statement t n (NewNullable b) = SetNullable t n b"
| "alter_statement t n (NewDefault d) = SetDefault t n d"

definition op_alter_column :: "string \<Rightarrow> string \<Rightarrow> alteration list \<Rightarrow> directive" where
  "op_alter_column t n as = Inr (map (alter_statement t n) as)"

definition op_execute :: "statement \<Rightarrow> directive" where
  "op_execute s = Inr [s]"

definition drop_enum :: "string \<Rightarrow> directive" where
  "drop_enum e = Inr [DropTypeIfExists e]"

section \<open>The revisions\<close>

text \<open>06fcec7eb504: create servers table.\<close>

definition upgrade_06fcec7eb504 :: "directive list" where
  "upgrade_06fcec7eb504 =
     [op_create_table ''servers''
       [Col (Column ''id'' Integer [Nullable False]),
        Col (Column ''name'' (String None) [Nullable False]),
        Col (Column ''api_key_hash'' (String None) [Nullable False]),
        Col (Column ''created_at'' (DateTime False) [ServerDefault DefNow, Nullable False]),
        Col (Column ''last_seen_at'' (DateTime False) [Nullable True]),
        Col (Column ''is_active'' Boolean [Nullable False]),
        PrimaryKeyConstraint [''id''],
        UniqueConstraint [''name''] None]]"

definition downgrade_06fcec7eb504 :: "directive list" where
  "downgrade_06fcec7eb504 = [op_drop_table ''servers'']"

text \<open>d432b550632e: create users table.\<close>

definition upgrade_d432b550632e :: "directive list" where
  "upgrade_d432b550632e =
     [op_create_table ''users''
       [Col (Column ''id'' Integer [Nullable False]),
        Col (Column ''email'' (String None) [Nullable False]),
        Col (Column ''password_hash'' (String None) [Nullable False]),
        Col (Column ''created_at'' (DateTime False) [ServerDefault DefNow, Nullable False]),
        Col (Column ''is_active'' Boolean [Nullable False]),
        PrimaryKeyConstraint [''id''],
        UniqueConstraint [''email''] None]]"

definition downgrade_d432b550632e :: "directive list" where
  "downgrade_d432b550632e = [op_drop_table ''users'']"

text \<open>62b88e6c93af: add owner_id to servers.\<close>

definition upgrade_62b88e6c93af :: "directive list" where
  "upgrade_62b88e6c93af =
     [op_add_column ''servers'' (Column ''owner_id'' Integer [Nullable False]),
      op_create_foreign_key None ''servers'' ''users'' [''owner_id''] [''id''] None]"

definition downgrade_62b88e6c93af :: "directive list" where
  "downgrade_62b88e6c93af =
     [op_drop_constraint None ''servers'',
      op_drop_column ''servers'' ''owner_id'']"

text \<open>0dcd1bd7f795: create metrics table.\<close>

definition upgrade_0dcd1bd7f795 :: "directive list" where
  "upgrade_0dcd1bd7f795 =
     [op_create_table ''metrics''
       [Col (Column ''id'' Integer [Nullable False]),
        Col (Column ''server_id'' Integer [Nullable False]),
        Col (Column ''cpu_percent'' Float [Nullable False]),
        Col (Column ''memory_percent'' Float [Nullable False]),
        Col (Column ''disk_percent'' Float [Nullable False]),
        Col (Column ''collected_at'' (DateTime False) [ServerDefault DefNow, Nullable False]),
        ForeignKeyConstraint [''server_id''] ''servers'' [''id''] None,
        PrimaryKeyConstraint [''id'']],
      op_create_index ''ix_metrics_server_id_collected_at'' ''metrics''
        [''server_id'', ''collected_at'']]"

definition downgrade_0dcd1bd7f795 :: "directive list" where
  "downgrade_0dcd1bd7f795 =
     [op_drop_index ''ix_metrics_server_id_collected_at'' ''metrics'',
      op_drop_table ''metrics'']"

text \<open>ffd0de8ef6dc: time zones, server defaults, server names unique per owner.\<close>

definition upgrade_ffd0de8ef6dc :: "directive list" where
  "upgrade_ffd0de8ef6dc =
     [op_alter_column ''metrics'' ''collected_at'' [NewType (DateTime True) AtUtc],
      op_alter_column ''servers'' ''created_at'' [NewType (DateTime True) AtUtc],
      op_alter_column ''servers'' ''last_seen_at'' [NewType (DateTime True) AtUtc],
      op_alter_column ''users'' ''created_at'' [NewType (DateTime True) AtUtc],
      op_alter_column ''users'' ''is_active'' [NewDefault (Some (DefBool True))],
      op_alter_column ''servers'' ''is_active'' [NewDefault (Some (DefBool True))],
      op_drop_constraint (Some ''servers_name_key'') ''servers'',
      op_create_unique_constraint ''uq_servers_owner_id_name'' ''servers'' [''owner_id'', ''name'']]"

definition downgrade_ffd0de8ef6dc :: "directive list" where
  "downgrade_ffd0de8ef6dc =
     [op_drop_constraint (Some ''uq_servers_owner_id_name'') ''servers'',
      op_create_unique_constraint ''servers_name_key'' ''servers'' [''name''],
      op_alter_column ''servers'' ''is_active'' [NewDefault None],
      op_alter_column ''users'' ''is_active'' [NewDefault None],
      op_alter_column ''users'' ''created_at'' [NewType (DateTime False) ImplicitCast],
      op_alter_column ''servers'' ''last_seen_at'' [NewType (DateTime False) ImplicitCast],
      op_alter_column ''servers'' ''created_at'' [NewType (DateTime False) ImplicitCast],
      op_alter_column ''metrics'' ''collected_at'' [NewType (DateTime False) ImplicitCast]]"

text \<open>278c8ed5c4f5: create docker_metrics table.\<close>

definition upgrade_278c8ed5c4f5 :: "directive list" where
  "upgrade_278c8ed5c4f5 =
     [op_create_table ''docker_metrics''
       [Col (Column ''id'' Integer [Nullable False]),
        Col (Column ''server_id'' Integer [Nullable False]),
        Col (Column ''container_id'' (String None) [Nullable False]),
        Col (Column ''container_name'' (String None) [Nullable False]),
        Col (Column ''image'' (String None) [Nullable False]),
        Col (Column ''status'' (String None) [Nullable False]),
        Col (Column ''cpu_percent'' Float [Nullable False]),
        Col (Column ''memory_usage_mb'' Float [Nullable False]),
        Col (Column ''memory_limit_mb'' Float [Nullable True]),
        Col (Column ''collected_at'' (DateTime True) [ServerDefault DefNow, Nullable False]),
        ForeignKeyConstraint [''server_id''] ''servers'' [''id''] None,
        PrimaryKeyConstraint [''id'']],
      op_create_index ''ix_docker_metrics_server_id_collected_at'' ''docker_metrics''
        [''server_id'', ''collected_at'']]"

definition downgrade_278c8ed5c4f5 :: "directive list" where
  "downgrade_278c8ed5c4f5 =
     [op_drop_index ''ix_docker_metrics_server_id_collected_at'' ''docker_metrics'',
      op_drop_table ''docker_metrics'']"

text \<open>7c818dce7bd1: create the alert tables.\<close>

definition upgrade_7c818dce7bd1 :: "directive list" where
  "upgrade_7c818dce7bd1 =
     [op_create_table ''alert_rules''
       [Col (Column ''id'' Integer [Nullable False]),
        Col (Column ''server_id'' Integer [Nullable False]),
        Col (Column ''owner_id'' Integer [Nullable False]),
        Col (Column ''name'' (String (Some 255)) [Nullable False]),
        Col (Column ''metric_type'' (Enum [''system'', ''docker''] ''metrictype'') [Nullable False]),
        Col (Column ''metric_field'' (String (Some 100)) [Nullable False]),
        Col (Column ''operator''
          (Enum [''gt'', ''gte'', ''lt'', ''lte'', ''eq'', ''neq''] ''thresholdoperator'')
          [Nullable False]),
        Col (Column ''threshold_value'' Float [Nullable False]),
        Col (Column ''container_name'' (String (Some 255)) [Nullable True]),
        Col (Column ''cooldown_seconds'' Integer [Nullable False]),
        Col (Column ''is_active'' Boolean [Nullable False]),
        Col (Column ''last_triggered_at'' (DateTime True) [Nullable True]),
        Col (Column ''created_at'' (DateTime True) [ServerDefault DefNow, Nullable False]),
        Col (Column ''updated_at'' (DateTime True) [ServerDefault DefNow, Nullable False]),
        ForeignKeyConstraint [''owner_id''] ''users'' [''id''] (Some Cascade),
        ForeignKeyConstraint [''server_id''] ''servers'' [''id''] (Some Cascade),
        PrimaryKeyConstraint [''id'']],
      op_create_table ''alert_events''
       [Col (Column ''id'' Integer [Nullable False]),
        Col (Column ''rule_id'' Integer [Nullable False]),
        Col (Column ''server_id'' Integer [Nullable False]),
        Col (Column ''metric_value'' Float [Nullable False]),
        Col (Column ''threshold_value'' Float [Nullable False]),
        Col (Column ''message'' (String (Some 500)) [Nullable False]),
        Col (Column ''created_at'' (DateTime True) [ServerDefault DefNow, Nullable False]),
        ForeignKeyConstraint [''rule_id''] ''alert_rules'' [''id''] (Some Cascade),
        ForeignKeyConstraint [''server_id''] ''servers'' [''id''] (Some Cascade),
        PrimaryKeyConstraint [''id'']]]"

definition downgrade_7c818dce7bd1 :: "directive list" where
  "downgrade_7c818dce7bd1 =
     [op_drop_table ''alert_events'',
      op_drop_table ''alert_rules'',
      drop_enum ''metrictype'',
      drop_enum ''thresholdoperator'']"

text \<open>a1b2c3d4e5f6: create the aggregate tables.\<close>

definition upgrade_a1b2c3d4e5f6 :: "directive list" where
  "upgrade_a1b2c3d4e5f6 =
     [op_execute (CreateTypeIfMissing ''periodtype'' [''hourly'', ''daily'']),
      op_create_table ''metric_aggregates''
       [Col (Column ''id'' Integer [Nullable False]),
        Col (Column ''server_id'' Integer [Nullable False]),
        Col (Column ''period_type'' (ExistingEnum ''periodtype'') [Nullable False]),
        Col (Column ''period_start'' (DateTime True) [Nullable False]),
        Col (Column ''period_end'' (DateTime True) [Nullable False]),
        Col (Column ''avg_cpu'' Float [Nullable False]),
        Col (Column ''min_cpu'' Float [Nullable False]),
        Col (Column ''max_cpu'' Float [Nullable False]),
        Col (Column ''avg_memory'' Float [Nullable False]),
        Col (Column ''min_memory'' Float [Nullable False]),
        Col (Column ''max_memory'' Float [Nullable False]),
        Col (Column ''avg_disk'' Float [Nullable False]),
        Col (Column ''min_disk'' Float [Nullable False]),
        Col (Column ''max_disk'' Float [Nullable False]),
        Col (Column ''sample_count'' Integer [Nullable False]),
        Col (Column ''created_at'' (DateTime True) [ServerDefault DefNow]),
        Col (Column ''updated_at'' (DateTime True) [ServerDefault DefNow]),
        PrimaryKeyConstraint [''id''],
        ForeignKeyConstraint [''server_id''] ''servers'' [''id''] (Some Cascade),
        UniqueConstraint [''server_id'', ''period_type'', ''period_start'']
          (Some ''uq_metric_agg_server_period'')],
      op_create_table ''docker_aggregates''
       [Col (Column ''id'' Integer [Nullable False]),
        Col (Column ''server_id'' Integer [Nullable False]),
        Col (Column ''container_name'' (String (Some 255)) [Nullable False]),
        Col (Column ''period_type'' (ExistingEnum ''periodtype'') [Nullable False]),
        Col (Column ''period_start'' (DateTime True) [Nullable False]),
        Col (Column ''period_end'' (DateTime True) [Nullable False]),
        Col (Column ''avg_cpu'' Float [Nullable False]),
        Col (Column ''min_cpu'' Float [Nullable False]),
        Col (Column ''max_cpu'' Float [Nullable False]),
        Col (Column ''avg_memory_usage'' Float [Nullable False]),
        Col (Column ''max_memory_usage'' Float [Nullable False]),
        Col (Column ''total_rx_bytes'' Integer [Nullable False, ServerDefault (DefInt 0)]),
        Col (Column ''total_tx_bytes'' Integer [Nullable False, ServerDefault (DefInt 0)]),
        Col (Column ''sample_count'' Integer [Nullable False]),
        Col (Column ''created_at'' (DateTime True) [ServerDefault DefNow]),
        Col (Column ''updated_at'' (DateTime True) [ServerDefault DefNow]),
        PrimaryKeyConstraint [''id''],
        ForeignKeyConstraint [''server_id''] ''servers'' [''id''] (Some Cascade),
        UniqueConstraint [''server_id'', ''container_name'', ''period_type'', ''period_start'']
          (Some ''uq_docker_agg_container_period'')]]"

definition downgrade_a1b2c3d4e5f6 :: "directive list" where
  "downgrade_a1b2c3d4e5f6 =
     [op_drop_table ''docker_aggregates'',
      op_drop_table ''metric_aggregates'',
      drop_enum ''periodtype'']"

text \<open>d0d1001ee097: add telegram_chat_id to users.\<close>

definition upgrade_d0d1001ee097 :: "directive list" where
  "upgrade_d0d1001ee097 =
     [op_alter_column ''docker_aggregates'' ''created_at'' [NewNullable False],
      op_alter_column ''docker_aggregates'' ''updated_at'' [NewNullable False],
      op_alter_column ''metric_aggregates'' ''created_at'' [NewNullable False],
      op_alter_column ''metric_aggregates'' ''updated_at'' [NewNullable False],
      op_add_column ''users'' (Column ''telegram_chat_id'' (String (Some 64)) [Nullable True])]"

definition downgrade_d0d1001ee097 :: "directive list" where
  "downgrade_d0d1001ee097 =
     [op_drop_column ''users'' ''telegram_chat_id'',
      op_alter_column ''metric_aggregates'' ''updated_at'' [NewNullable True],
      op_alter_column ''metric_aggregates'' ''created_at'' [NewNullable True],
      op_alter_column ''docker_aggregates'' ''updated_at'' [NewNullable True],
      op_alter_column ''docker_aggregates'' ''created_at'' [NewNullable True]]"

text \<open>b3ee6f8a901f: add resolved_at to alert_events.\<close>

definition upgrade_b3ee6f8a901f :: "directive list" where
  "upgrade_b3ee6f8a901f =
     [op_add_column ''alert_events'' (Column ''resolved_at'' (DateTime True) [Nullable True])]"

definition downgrade_b3ee6f8a901f :: "directive list" where
  "downgrade_b3ee6f8a901f = [op_drop_column ''alert_events'' ''resolved_at'']"

text \<open>54db233075d4: add fivemin to the periodtype enum.\<close>

definition upgrade_54db233075d4 :: "directive list" where
  "upgrade_54db233075d4 = [op_execute (AddEnumValueIfMissing ''periodtype'' ''fivemin'' ''hourly'')]"

definition downgrade_54db233075d4 :: "directive list" where
  "downgrade_54db233075d4 = []"

text \<open>ab2eb4bc624c: add container_name to alert_events.\<close>

definition upgrade_ab2eb4bc624c :: "directive list" where
  "upgrade_ab2eb4bc624c =
     [op_add_column ''alert_events'' (Column ''container_name'' (String (Some 255)) [Nullable True])]"

definition downgrade_ab2eb4bc624c :: "directive list" where
  "downgrade_ab2eb4bc624c = [op_drop_column ''alert_events'' ''container_name'']"

text \<open>971107cbe3a8: add email_alerts_enabled to users.\<close>

definition upgrade_971107cbe3a8 :: "directive list" where
  "upgrade_971107cbe3a8 =
     [op_add_column ''users''
       (Column ''email_alerts_enabled'' Boolean [ServerDefault (DefBool True), Nullable False])]"

definition downgrade_971107cbe3a8 :: "directive list" where
  "downgrade_971107cbe3a8 = [op_drop_column ''users'' ''email_alerts_enabled'']"

text \<open>bcd650cf69c9: delete metrics with their server.\<close>

definition upgrade_bcd650cf69c9 :: "directive list" where
  "upgrade_bcd650cf69c9 =
     [op_drop_constraint (Some ''metrics_server_id_fkey'') ''metrics'',
      op_create_foreign_key (Some ''metrics_server_id_fkey'') ''metrics'' ''servers''
        [''server_id''] [''id''] (Some Cascade),
      op_drop_constraint (Some ''docker_metrics_server_id_fkey'') ''docker_metrics'',
      op_create_foreign_key (Some ''docker_metrics_server_id_fkey'') ''docker_metrics'' ''servers''
        [''server_id''] [''id''] (Some Cascade)]"

definition downgrade_bcd650cf69c9 :: "directive list" where
  "downgrade_bcd650cf69c9 =
     [op_drop_constraint (Some ''docker_metrics_server_id_fkey'') ''docker_metrics'',
      op_create_foreign_key (Some ''docker_metrics_server_id_fkey'') ''docker_metrics'' ''servers''
        [''server_id''] [''id''] None,
      op_drop_constraint (Some ''metrics_server_id_fkey'') ''metrics'',
      op_create_foreign_key (Some ''metrics_server_id_fkey'') ''metrics'' ''servers''
        [''server_id''] [''id''] None]"

text \<open>550c021d358e: add agent_version to servers.\<close>

definition upgrade_550c021d358e :: "directive list" where
  "upgrade_550c021d358e =
     [op_add_column ''servers'' (Column ''agent_version'' (String (Some 64)) [Nullable True])]"

definition downgrade_550c021d358e :: "directive list" where
  "downgrade_550c021d358e = [op_drop_column ''servers'' ''agent_version'']"

text \<open>646f32b63886: add paused to servers.\<close>

definition upgrade_646f32b63886 :: "directive list" where
  "upgrade_646f32b63886 =
     [op_add_column ''servers''
       (Column ''paused'' Boolean [Nullable False, ServerDefault (DefBool False)])]"

definition downgrade_646f32b63886 :: "directive list" where
  "downgrade_646f32b63886 = [op_drop_column ''servers'' ''paused'']"

text \<open>a79e822e0093: add notification_channels to alert_rules.\<close>

definition upgrade_a79e822e0093 :: "directive list" where
  "upgrade_a79e822e0093 =
     [op_add_column ''alert_rules''
       (Column ''notification_channels'' StringArray
         [Nullable False, ServerDefault (DefTexts [''telegram'', ''email''])])]"

definition downgrade_a79e822e0093 :: "directive list" where
  "downgrade_a79e822e0093 = [op_drop_column ''alert_rules'' ''notification_channels'']"

text \<open>8fee5b79888e: add logs table.\<close>

definition upgrade_8fee5b79888e :: "directive list" where
  "upgrade_8fee5b79888e =
     [op_create_table ''logs''
       [Col (Column ''id'' Integer [PrimaryKeyColumn]),
        Col (Column ''server_id'' Integer
          [References ''servers'' ''id'' (Some Cascade), Nullable False]),
        Col (Column ''message'' Text [Nullable False]),
        Col (Column ''created_at'' (DateTime True) [ServerDefault DefNow, Nullable False])],
      op_create_index ''ix_logs_server_id_created_at'' ''logs'' [''server_id'', ''created_at'']]"

definition downgrade_8fee5b79888e :: "directive list" where
  "downgrade_8fee5b79888e =
     [op_drop_index ''ix_logs_server_id_created_at'' ''logs'',
      op_drop_table ''logs'']"

text \<open>743050206199: add totp fields to users.\<close>

definition upgrade_743050206199 :: "directive list" where
  "upgrade_743050206199 =
     [op_add_column ''users'' (Column ''totp_secret'' (String (Some 64)) [Nullable True]),
      op_add_column ''users''
       (Column ''totp_enabled'' Boolean [Nullable False, ServerDefault (DefBool False)])]"

definition downgrade_743050206199 :: "directive list" where
  "downgrade_743050206199 =
     [op_drop_column ''users'' ''totp_enabled'',
      op_drop_column ''users'' ''totp_secret'']"

text \<open>95fa57d46079: add audit_log table.\<close>

definition upgrade_95fa57d46079 :: "directive list" where
  "upgrade_95fa57d46079 =
     [op_create_table ''audit_log''
       [Col (Column ''id'' Integer [PrimaryKeyColumn]),
        Col (Column ''user_id'' Integer
          [References ''users'' ''id'' (Some SetNull), Nullable True]),
        Col (Column ''action'' (String (Some 64)) [Nullable False]),
        Col (Column ''resource_type'' (String (Some 32)) [Nullable True]),
        Col (Column ''resource_id'' Integer [Nullable True]),
        Col (Column ''ip_address'' (String (Some 64)) [Nullable True]),
        Col (Column ''meta'' JSONB [Nullable True]),
        Col (Column ''created_at'' (DateTime True) [ServerDefault DefNow, Nullable False])],
      op_create_index ''ix_audit_log_user_id_created_at'' ''audit_log'' [''user_id'', ''created_at'']]"

definition downgrade_95fa57d46079 :: "directive list" where
  "downgrade_95fa57d46079 =
     [op_drop_index ''ix_audit_log_user_id_created_at'' ''audit_log'',
      op_drop_table ''audit_log'']"

section \<open>The chain of revisions\<close>

text \<open>
  A script is its identifier, the one it follows, and its two functions. The scripts come in
  the order of their file names; Alembic orders them by \<open>down_revision\<close>.
\<close>

record revision =
  rev_id :: string
  down_revision :: "string option"
  rev_upgrade :: "directive list"
  rev_downgrade :: "directive list"

definition revision_06fcec7eb504 :: revision where
  "revision_06fcec7eb504 =
     \<lparr>rev_id = ''06fcec7eb504'', down_revision = None,
      rev_upgrade = upgrade_06fcec7eb504, rev_downgrade = downgrade_06fcec7eb504\<rparr>"

definition revision_0dcd1bd7f795 :: revision where
  "revision_0dcd1bd7f795 =
     \<lparr>rev_id = ''0dcd1bd7f795'', down_revision = Some ''62b88e6c93af'',
      rev_upgrade = upgrade_0dcd1bd7f795, rev_downgrade = downgrade_0dcd1bd7f795\<rparr>"

definition revision_278c8ed5c4f5 :: revision where
  "revision_278c8ed5c4f5 =
     \<lparr>rev_id = ''278c8ed5c4f5'', down_revision = Some ''ffd0de8ef6dc'',
      rev_upgrade = upgrade_278c8ed5c4f5, rev_downgrade = downgrade_278c8ed5c4f5\<rparr>"

definition revision_54db233075d4 :: revision where
  "revision_54db233075d4 =
     \<lparr>rev_id = ''54db233075d4'', down_revision = Some ''b3ee6f8a901f'',
      rev_upgrade = upgrade_54db233075d4, rev_downgrade = downgrade_54db233075d4\<rparr>"

definition revision_550c021d358e :: revision where
  "revision_550c021d358e =
     \<lparr>rev_id = ''550c021d358e'', down_revision = Some ''bcd650cf69c9'',
      rev_upgrade = upgrade_550c021d358e, rev_downgrade = downgrade_550c021d358e\<rparr>"

definition revision_62b88e6c93af :: revision where
  "revision_62b88e6c93af =
     \<lparr>rev_id = ''62b88e6c93af'', down_revision = Some ''d432b550632e'',
      rev_upgrade = upgrade_62b88e6c93af, rev_downgrade = downgrade_62b88e6c93af\<rparr>"

definition revision_646f32b63886 :: revision where
  "revision_646f32b63886 =
     \<lparr>rev_id = ''646f32b63886'', down_revision = Some ''550c021d358e'',
      rev_upgrade = upgrade_646f32b63886, rev_downgrade = downgrade_646f32b63886\<rparr>"

definition revision_743050206199 :: revision where
  "revision_743050206199 =
     \<lparr>rev_id = ''743050206199'', down_revision = Some ''8fee5b79888e'',
      rev_upgrade = upgrade_743050206199, rev_downgrade = downgrade_743050206199\<rparr>"

definition revision_7c818dce7bd1 :: revision where
  "revision_7c818dce7bd1 =
     \<lparr>rev_id = ''7c818dce7bd1'', down_revision = Some ''278c8ed5c4f5'',
      rev_upgrade = upgrade_7c818dce7bd1, rev_downgrade = downgrade_7c818dce7bd1\<rparr>"

definition revision_8fee5b79888e :: revision where
  "revision_8fee5b79888e =
     \<lparr>rev_id = ''8fee5b79888e'', down_revision = Some ''a79e822e0093'',
      rev_upgrade = upgrade_8fee5b79888e, rev_downgrade = downgrade_8fee5b79888e\<rparr>"

definition revision_95fa57d46079 :: revision where
  "revision_95fa57d46079 =
     \<lparr>rev_id = ''95fa57d46079'', down_revision = Some ''743050206199'',
      rev_upgrade = upgrade_95fa57d46079, rev_downgrade = downgrade_95fa57d46079\<rparr>"

definition revision_971107cbe3a8 :: revision where
  "revision_971107cbe3a8 =
     \<lparr>rev_id = ''971107cbe3a8'', down_revision = Some ''ab2eb4bc624c'',
      rev_upgrade = upgrade_971107cbe3a8, rev_downgrade = downgrade_971107cbe3a8\<rparr>"

definition revision_a1b2c3d4e5f6 :: revision where
  "revision_a1b2c3d4e5f6 =
     \<lparr>rev_id = ''a1b2c3d4e5f6'', down_revision = Some ''7c818dce7bd1'',
      rev_upgrade = upgrade_a1b2c3d4e5f6, rev_downgrade = downgrade_a1b2c3d4e5f6\<rparr>"

definition revision_a79e822e0093 :: revision where
  "revision_a79e822e0093 =
     \<lparr>rev_id = ''a79e822e0093'', down_revision = Some ''646f32b63886'',
      rev_upgrade = upgrade_a79e822e0093, rev_downgrade = downgrade_a79e822e0093\<rparr>"

definition revision_ab2eb4bc624c :: revision where
  "revision_ab2eb4bc624c =
     \<lparr>rev_id = ''ab2eb4bc624c'', down_revision = Some ''54db233075d4'',
      rev_upgrade = upgrade_ab2eb4bc624c, rev_downgrade = downgrade_ab2eb4bc624c\<rparr>"

definition revision_b3ee6f8a901f :: revision where
  "revision_b3ee6f8a901f =
     \<lparr>rev_id = ''b3ee6f8a901f'', down_revision = Some ''d0d1001ee097'',
      rev_upgrade = upgrade_b3ee6f8a901f, rev_downgrade = downgrade_b3ee6f8a901f\<rparr>"

definition revision_bcd650cf69c9 :: revision where
  "revision_bcd650cf69c9 =
     \<lparr>rev_id = ''bcd650cf69c9'', down_revision = Some ''971107cbe3a8'',
      rev_upgrade = upgrade_bcd650cf69c9, rev_downgrade = downgrade_bcd650cf69c9\<rparr>"

definition revision_d0d1001ee097 :: revision where
  "revision_d0d1001ee097 =
     \<lparr>rev_id = ''d0d1001ee097'', down_revision = Some ''a1b2c3d4e5f6'',
      rev_upgrade = upgrade_d0d1001ee097, rev_downgrade = downgrade_d0d1001ee097\<rparr>"

definition revision_d432b550632e :: revision where
  "revision_d432b550632e =
     \<lparr>rev_id = ''d432b550632e'', down_revision = Some ''06fcec7eb504'',
      rev_upgrade = upgrade_d432b550632e, rev_downgrade = downgrade_d432b550632e\<rparr>"

definition revision_ffd0de8ef6dc :: revision where
  "revision_ffd0de8ef6dc =
     \<lparr>rev_id = ''ffd0de8ef6dc'', down_revision = Some ''0dcd1bd7f795'',
      rev_upgrade = upgrade_ffd0de8ef6dc, rev_downgrade = downgrade_ffd0de8ef6dc\<rparr>"

definition SCRIPTS :: "revision list" where
  "SCRIPTS =
     [revision_06fcec7eb504, revision_0dcd1bd7f795, revision_278c8ed5c4f5, revision_54db233075d4,
      revision_550c021d358e, revision_62b88e6c93af, revision_646f32b63886, revision_743050206199,
      revision_7c818dce7bd1, revision_8fee5b79888e, revision_95fa57d46079, revision_971107cbe3a8,
      revision_a1b2c3d4e5f6, revision_a79e822e0093, revision_ab2eb4bc624c, revision_b3ee6f8a901f,
      revision_bcd650cf69c9, revision_d0d1001ee097, revision_d432b550632e, revision_ffd0de8ef6dc]"

fun lineage :: "nat \<Rightarrow> string option \<Rightarrow> revision list" where
  "lineage 0 r = []"
| "lineage (Suc n) None = []"
| "lineage (Suc n) (Some r) = (case find (\<lambda>s. rev_id s = r) SCRIPTS of None \<Rightarrow> []
     | Some s \<Rightarrow> s # lineage n (down_revision s))"

text \<open>The newest revision first; no chain is longer than the number of scripts.\<close>

definition history :: "string option \<Rightarrow> revision list" where
  "history r = lineage (length SCRIPTS) r"

definition heads :: "revision list" where
  "heads = filter (\<lambda>s. Some (rev_id s) \<notin> down_revision ` set SCRIPTS) SCRIPTS"

definition head :: "string option" where
  "head = (case heads of [s] \<Rightarrow> Some (rev_id s) | _ \<Rightarrow> None)"

section \<open>Running a command\<close>

fun run_ops :: "(statement \<Rightarrow> 'd \<Rightarrow> ddl_error + 'd) \<Rightarrow> directive list \<Rightarrow> 'd \<Rightarrow> ddl_error + 'd" where
  "run_ops exec [] d = Inr d"
| "run_ops exec (Inl e # os) d = Inl e"
| "run_ops exec (Inr ss # os) d = (case run_statements exec ss d of Inl e \<Rightarrow> Inl e
     | Inr d' \<Rightarrow> run_ops exec os d')"

text \<open>A plan is the functions to run with the version recorded after each.\<close>

type_synonym plan = "(directive list \<times> string option) list"

definition upgrade_plan :: "string option \<Rightarrow> plan" where
  "upgrade_plan cur = map (\<lambda>s. (rev_upgrade s, Some (rev_id s)))
     (rev (takeWhile (\<lambda>s. Some (rev_id s) \<noteq> cur) (history head)))"

definition downgrade_plan :: "string option \<Rightarrow> string option \<Rightarrow> plan" where
  "downgrade_plan cur target = map (\<lambda>s. (rev_downgrade s, down_revision s))
     (takeWhile (\<lambda>s. Some (rev_id s) \<noteq> target) (history cur))"

fun run_plan :: "session \<Rightarrow> plan \<Rightarrow> database \<Rightarrow> ddl_error + database" where
  "run_plan se [] d = Inr d"
| "run_plan se ((os, v) # ps) d = (case run_ops (execute se) os d of Inl e \<Rightarrow> Inl e
     | Inr d' \<Rightarrow> run_plan se ps (d'\<lparr>db_version := v\<rparr>))"

text \<open>\<open>do_run_migrations\<close>: one transaction around the whole plan.\<close>

definition do_run_migrations :: "session \<Rightarrow> plan \<Rightarrow> database \<Rightarrow> database \<times> ddl_error option" where
  "do_run_migrations se ps d = (case run_plan se ps d of Inl e \<Rightarrow> (d, Some e) | Inr d' \<Rightarrow> (d', None))"

definition alembic_upgrade_head :: "session \<Rightarrow> database \<Rightarrow> database \<times> ddl_error option" where
  "alembic_upgrade_head se d = do_run_migrations se (upgrade_plan (db_version d)) d"

definition alembic_downgrade :: "session \<Rightarrow> string option \<Rightarrow> database \<Rightarrow> database \<times> ddl_error option" where
  "alembic_downgrade se target d = do_run_migrations se (downgrade_plan (db_version d) target) d"

definition empty_catalog :: catalog where
  "empty_catalog = \<lparr>enum_types = [], relations = []\<rparr>"

definition empty_database :: database where
  "empty_database = \<lparr>db_catalog = empty_catalog, db_data = (\<lambda>_. []), db_version = None\<rparr>"

text \<open>The tables the upgrades up to a revision build.\<close>

definition schema_at :: "string option \<Rightarrow> ddl_error + catalog" where
  "schema_at r = run_ops alter_catalog (concat (map rev_upgrade (rev (history r)))) empty_catalog"

section \<open>The tables of the models\<close>

text \<open>
  The declarations of app/models, in the order of their foreign keys. \<open>create_all\<close> creates a
  type only once.
\<close>

fun create_once :: "statement \<Rightarrow> statement" where
  "create_once (CreateType e ls) = CreateTypeIfMissing e ls"
| "create_once s = s"

definition User_table :: "directive list" where
  "User_table =
     [op_create_table ''users''
       [Col (Column ''id'' Integer [PrimaryKeyColumn]),
        Col (Column ''email'' (String None) [Nullable False, UniqueColumn]),
        Col (Column ''password_hash'' (String None) [Nullable False]),
        Col (Column ''created_at'' (DateTime True) [Nullable False, ServerDefault DefNow]),
        Col (Column ''is_active'' Boolean [Nullable False, ServerDefault (DefBool True)]),
        Col (Column ''telegram_chat_id'' (String (Some 64)) [Nullable True]),
        Col (Column ''email_alerts_enabled'' Boolean [Nullable False, ServerDefault (DefBool True)]),
        Col (Column ''totp_secret'' (String (Some 64)) [Nullable True]),
        Col (Column ''totp_enabled'' Boolean [Nullable False, ServerDefault (DefBool False)])]]"

definition Server_table :: "directive list" where
  "Server_table =
     [op_create_table ''servers''
       [Col (Column ''id'' Integer [PrimaryKeyColumn]),
        Col (Column ''name'' (String None) [Nullable False]),
        Col (Column ''api_key_hash'' (String None) [Nullable False]),
        Col (Column ''owner_id'' Integer [Nullable False, References ''users'' ''id'' None]),
        Col (Column ''created_at'' (DateTime True) [Nullable False, ServerDefault DefNow]),
        Col (Column ''last_seen_at'' (DateTime True) [Nullable True]),
        Col (Column ''is_active'' Boolean [Nullable False, ServerDefault (DefBool True)]),
        Col (Column ''agent_version'' (String (Some 64)) [Nullable True]),
        Col (Column ''paused'' Boolean [Nullable False, ServerDefault (DefBool False)]),
        UniqueConstraint [''owner_id'', ''name''] (Some ''uq_servers_owner_id_name'')]]"

definition Metric_table :: "directive list" where
  "Metric_table =
     [op_create_table ''metrics''
       [Col (Column ''id'' Integer [PrimaryKeyColumn]),
        Col (Column ''server_id'' Integer
          [Nullable False, References ''servers'' ''id'' (Some Cascade)]),
        Col (Column ''cpu_percent'' Float [Nullable False]),
        Col (Column ''memory_percent'' Float [Nullable False]),
        Col (Column ''disk_percent'' Float [Nullable False]),
        Col (Column ''collected_at'' (DateTime True) [Nullable False, ServerDefault DefNow])],
      op_create_index ''ix_metrics_server_id_collected_at'' ''metrics''
        [''server_id'', ''collected_at'']]"

definition DockerMetric_table :: "directive list" where
  "DockerMetric_table =
     [op_create_table ''docker_metrics''
       [Col (Column ''id'' Integer [PrimaryKeyColumn]),
        Col (Column ''server_id'' Integer
          [Nullable False, References ''servers'' ''id'' (Some Cascade)]),
        Col (Column ''container_id'' (String None) [Nullable False]),
        Col (Column ''container_name'' (String None) [Nullable False]),
        Col (Column ''image'' (String None) [Nullable False]),
        Col (Column ''status'' (String None) [Nullable False]),
        Col (Column ''cpu_percent'' Float [Nullable False]),
        Col (Column ''memory_usage_mb'' Float [Nullable False]),
        Col (Column ''memory_limit_mb'' Float [Nullable True]),
        Col (Column ''collected_at'' (DateTime True) [Nullable False, ServerDefault DefNow])],
      op_create_index ''ix_docker_metrics_server_id_collected_at'' ''docker_metrics''
        [''server_id'', ''collected_at'']]"

definition MetricAggregate_table :: "directive list" where
  "MetricAggregate_table =
     [op_create_table ''metric_aggregates''
       [Col (Column ''id'' Integer [PrimaryKeyColumn]),
        Col (Column ''server_id'' Integer
          [References ''servers'' ''id'' (Some Cascade), Nullable False]),
        Col (Column ''period_type'' (Enum [''fivemin'', ''hourly'', ''daily''] ''periodtype'')
          [Nullable False]),
        Col (Column ''period_start'' (DateTime True) [Nullable False]),
        Col (Column ''period_end'' (DateTime True) [Nullable False]),
        Col (Column ''avg_cpu'' Float [Nullable False]),
        Col (Column ''min_cpu'' Float [Nullable False]),
        Col (Column ''max_cpu'' Float [Nullable False]),
        Col (Column ''avg_memory'' Float [Nullable False]),
        Col (Column ''min_memory'' Float [Nullable False]),
        Col (Column ''max_memory'' Float [Nullable False]),
        Col (Column ''avg_disk'' Float [Nullable False]),
        Col (Column ''min_disk'' Float [Nullable False]),
        Col (Column ''max_disk'' Float [Nullable False]),
        Col (Column ''sample_count'' Integer [Nullable False]),
        Col (Column ''created_at'' (DateTime True) [Nullable False, ServerDefault DefNow]),
        Col (Column ''updated_at'' (DateTime True) [Nullable False, ServerDefault DefNow]),
        UniqueConstraint [''server_id'', ''period_type'', ''period_start'']
          (Some ''uq_metric_agg_server_period'')]]"

definition DockerAggregate_table :: "directive list" where
  "DockerAggregate_table =
     [op_create_table ''docker_aggregates''
       [Col (Column ''id'' Integer [PrimaryKeyColumn]),
        Col (Column ''server_id'' Integer
          [References ''servers'' ''id'' (Some Cascade), Nullable False]),
        Col (Column ''container_name'' (String (Some 255)) [Nullable False]),
        Col (Column ''period_type'' (Enum [''fivemin'', ''hourly'', ''daily''] ''periodtype'')
          [Nullable False]),
        Col (Column ''period_start'' (DateTime True) [Nullable False]),
        Col (Column ''period_end'' (DateTime True) [Nullable False]),
        Col (Column ''avg_cpu'' Float [Nullable False]),
        Col (Column ''min_cpu'' Float [Nullable False]),
        Col (Column ''max_cpu'' Float [Nullable False]),
        Col (Column ''avg_memory_usage'' Float [Nullable False]),
        Col (Column ''max_memory_usage'' Float [Nullable False]),
        Col (Column ''total_rx_bytes'' Integer [Nullable False]),
        Col (Column ''total_tx_bytes'' Integer [Nullable False]),
        Col (Column ''sample_count'' Integer [Nullable False]),
        Col (Column ''created_at'' (DateTime True) [Nullable False, ServerDefault DefNow]),
        Col (Column ''updated_at'' (DateTime True) [Nullable False, ServerDefault DefNow]),
        UniqueConstraint [''server_id'', ''container_name'', ''period_type'', ''period_start'']
          (Some ''uq_docker_agg_container_period'')]]"

definition AlertRule_table :: "directive list" where
  "AlertRule_table =
     [op_create_table ''alert_rules''
       [Col (Column ''id'' Integer [PrimaryKeyColumn]),
        Col (Column ''server_id'' Integer
          [References ''servers'' ''id'' (Some Cascade), Nullable False]),
        Col (Column ''owner_id'' Integer
          [References ''users'' ''id'' (Some Cascade), Nullable False]),
        Col (Column ''name'' (String (Some 255)) [Nullable False]),
        Col (Column ''metric_type'' (Enum [''system'', ''docker''] ''metrictype'') [Nullable False]),
        Col (Column ''metric_field'' (String (Some 100)) [Nullable False]),
        Col (Column ''operator''
          (Enum [''gt'', ''gte'', ''lt'', ''lte'', ''eq'', ''neq''] ''thresholdoperator'')
          [Nullable False]),
        Col (Column ''threshold_value'' Float [Nullable False]),
        Col (Column ''container_name'' (String (Some 255)) [Nullable True]),
        Col (Column ''cooldown_seconds'' Integer [Nullable False]),
        Col (Column ''is_active'' Boolean [Nullable False]),
        Col (Column ''notification_channels'' StringArray
          [Nullable False, ServerDefault (DefTexts [''telegram'', ''email''])]),
        Col (Column ''last_triggered_at'' (DateTime True) [Nullable True]),
        Col (Column ''created_at'' (DateTime True) [Nullable False, ServerDefault DefNow]),
        Col (Column ''updated_at'' (DateTime True) [Nullable False, ServerDefault DefNow])]]"

definition AlertEvent_table :: "directive list" where
  "AlertEvent_table =
     [op_create_table ''alert_events''
       [Col (Column ''id'' Integer [PrimaryKeyColumn]),
        Col (Column ''rule_id'' Integer
          [References ''alert_rules'' ''id'' (Some Cascade), Nullable False]),
        Col (Column ''server_id'' Integer
          [References ''servers'' ''id'' (Some Cascade), Nullable False]),
        Col (Column ''metric_value'' Float [Nullable False]),
        Col (Column ''threshold_value'' Float [Nullable False]),
        Col (Column ''message'' (String (Some 500)) [Nullable False]),
        Col (Column ''container_name'' (String (Some 255)) [Nullable True]),
        Col (Column ''created_at'' (DateTime True) [Nullable False, ServerDefault DefNow]),
        Col (Column ''resolved_at'' (DateTime True) [Nullable True])]]"

definition AuditLog_table :: "directive list" where
  "AuditLog_table =
     [op_create_table ''audit_log''
       [Col (Column ''id'' Integer [PrimaryKeyColumn]),
        Col (Column ''user_id'' Integer
          [References ''users'' ''id'' (Some SetNull), Nullable True]),
        Col (Column ''action'' (String (Some 64)) [Nullable False]),
        Col (Column ''resource_type'' (String (Some 32)) [Nullable True]),
        Col (Column ''resource_id'' Integer [Nullable True]),
        Col (Column ''ip_address'' (String (Some 64)) [Nullable True]),
        Col (Column ''meta'' JSONB [Nullable True]),
        Col (Column ''created_at'' (DateTime True) [Nullable False, ServerDefault DefNow])],
      op_create_index ''ix_audit_log_user_id_created_at'' ''audit_log'' [''user_id'', ''created_at'']]"

definition LogEntry_table :: "directive list" where
  "LogEntry_table =
     [op_create_table ''logs''
       [Col (Column ''id'' Integer [PrimaryKeyColumn]),
        Col (Column ''server_id'' Integer
          [References ''servers'' ''id'' (Some Cascade), Nullable False]),
        Col (Column ''message'' Text [Nullable False]),
        Col (Column ''created_at'' (DateTime True) [Nullable False, ServerDefault DefNow])],
      op_create_index ''ix_logs_server_id_created_at'' ''logs'' [''server_id'', ''created_at'']]"

definition metadata :: "directive list" where
  "metadata = map (map_sum id (map create_once))
     (User_table @ Server_table @ Metric_table @ DockerMetric_table @ MetricAggregate_table
      @ DockerAggregate_table @ AlertRule_table @ AlertEvent_table @ AuditLog_table
      @ LogEntry_table)"

text \<open>
  \<open>alembic/env.py\<close> hands Alembic the tables of the models it imports, for \<open>--autogenerate\<close> to
  compare the database with.
\<close>

definition target_metadata :: "directive list" where
  "target_metadata = map (map_sum id (map create_once))
     (User_table @ Server_table @ Metric_table @ DockerMetric_table @ MetricAggregate_table
      @ DockerAggregate_table @ AlertRule_table @ AlertEvent_table)"

text \<open>Two catalogues declare the same tables when they agree but for the order of columns.\<close>

definition same_relation :: "relation \<Rightarrow> relation \<Rightarrow> bool" where
  "same_relation r q \<longleftrightarrow> rel_name r = rel_name q \<and> set (rel_columns r) = set (rel_columns q)
     \<and> rel_constraints r = rel_constraints q \<and> rel_indexes r = rel_indexes q"

definition same_schema :: "catalog \<Rightarrow> catalog \<Rightarrow> bool" where
  "same_schema c c' \<longleftrightarrow> set (enum_types c) = set (enum_types c')
     \<and> (\<forall>r \<in> set (relations c). \<exists>q \<in> set (relations c'). same_relation r q)
     \<and> (\<forall>q \<in> set (relations c'). \<exists>r \<in> set (relations c). same_relation r q)"

end
