(* ===== verification/PW_Chain.thy ===== *)
theory PW_Chain
  imports PW_Migrations
begin

text \<open>
  The scripts of alembic/versions form one chain: there is one head, and following
  \<open>down_revision\<close> from it visits every script once. From there the plan of an upgrade is the
  part of the chain after the recorded version, and the plan of a downgrade a part of it
  backwards.
\<close>

lemmas revision_defs =
  revision_06fcec7eb504_def revision_0dcd1bd7f795_def revision_278c8ed5c4f5_def
  revision_54db233075d4_def revision_550c021d358e_def revision_62b88e6c93af_def
  revision_646f32b63886_def revision_743050206199_def revision_7c818dce7bd1_def
  revision_8fee5b79888e_def revision_95fa57d46079_def revision_971107cbe3a8_def
  revision_a1b2c3d4e5f6_def revision_a79e822e0093_def revision_ab2eb4bc624c_def
  revision_b3ee6f8a901f_def revision_bcd650cf69c9_def revision_d0d1001ee097_def
  revision_d432b550632e_def revision_ffd0de8ef6dc_def

text \<open>The chain, oldest first.\<close>

definition CHAIN :: "revision list" where
  "CHAIN = [revision_06fcec7eb504, revision_d432b550632e, revision_62b88e6c93af,
     revision_0dcd1bd7f795, revision_ffd0de8ef6dc, revision_278c8ed5c4f5, revision_7c818dce7bd1,
     revision_a1b2c3d4e5f6, revision_d0d1001ee097, revision_b3ee6f8a901f, revision_54db233075d4,
     revision_ab2eb4bc624c, revision_971107cbe3a8, revision_bcd650cf69c9, revision_550c021d358e,
     revision_646f32b63886, revision_a79e822e0093, revision_8fee5b79888e, revision_743050206199,
     revision_95fa57d46079]"

lemma rev_ids: "map rev_id SCRIPTS =
    [''06fcec7eb504'', ''0dcd1bd7f795'', ''278c8ed5c4f5'', ''54db233075d4'', ''550c021d358e'',
     ''62b88e6c93af'', ''646f32b63886'', ''743050206199'', ''7c818dce7bd1'', ''8fee5b79888e'',
     ''95fa57d46079'', ''971107cbe3a8'', ''a1b2c3d4e5f6'', ''a79e822e0093'', ''ab2eb4bc624c'',
     ''b3ee6f8a901f'', ''bcd650cf69c9'', ''d0d1001ee097'', ''d432b550632e'', ''ffd0de8ef6dc'']"
  by (simp only: SCRIPTS_def list.map revision_defs revision.select_convs)

lemma distinct_rev_ids: "distinct (map rev_id SCRIPTS)"
  unfolding rev_ids by code_simp

lemma head_revision: "head = Some ''95fa57d46079''"
  by code_simp

lemma find_script:
  assumes "distinct (map rev_id S)" and "s \<in> set S"
  shows "find (\<lambda>q. rev_id q = rev_id s) S = Some s"
  using assms by (induction S) (auto simp: image_iff)

lemma CHAIN_scripts: "set CHAIN = set SCRIPTS" "length SCRIPTS = length CHAIN"
   apply (simp add: CHAIN_def SCRIPTS_def; blast)
  apply (simp add: CHAIN_def SCRIPTS_def)
  done

lemma chain_ids: "map rev_id CHAIN =
    [''06fcec7eb504'', ''d432b550632e'', ''62b88e6c93af'', ''0dcd1bd7f795'', ''ffd0de8ef6dc'',
     ''278c8ed5c4f5'', ''7c818dce7bd1'', ''a1b2c3d4e5f6'', ''d0d1001ee097'', ''b3ee6f8a901f'',
     ''54db233075d4'', ''ab2eb4bc624c'', ''971107cbe3a8'', ''bcd650cf69c9'', ''550c021d358e'',
     ''646f32b63886'', ''a79e822e0093'', ''8fee5b79888e'', ''743050206199'', ''95fa57d46079'']"
  by (simp only: CHAIN_def list.map revision_defs revision.select_convs)

lemma distinct_CHAIN: "distinct (map rev_id CHAIN)"
  unfolding chain_ids by code_simp

section \<open>Linked scripts\<close>

fun linked :: "string option \<Rightarrow> revision list \<Rightarrow> bool" where
  "linked d [] \<longleftrightarrow> True"
| "linked d (s # ss) \<longleftrightarrow> down_revision s = d \<and> linked (Some (rev_id s)) ss"

definition version_of :: "revision list \<Rightarrow> string option" where
  "version_of ss = (if ss = [] then None else Some (rev_id (last ss)))"

lemma version_of_simps [simp]:
  "version_of [] = None" "version_of (ss @ [s]) = Some (rev_id s)"
  by (simp_all add: version_of_def)

lemma linked_append:
  "linked d (ss @ ts) \<longleftrightarrow> linked d ss \<and> linked (if ss = [] then d else Some (rev_id (last ss))) ts"
  by (induction ss arbitrary: d) auto

lemma linked_CHAIN: "linked None CHAIN"
  by (simp add: CHAIN_def revision_defs)

lemma lineage_linked:
  "linked None ss \<Longrightarrow> set ss \<subseteq> set SCRIPTS \<Longrightarrow> length ss \<le> n \<Longrightarrow>
     lineage n (version_of ss) = rev ss"
proof (induction ss arbitrary: n rule: rev_induct)
  case Nil
  then show ?case by (cases n) auto
next
  case (snoc s ss)
  obtain m where n: "n = Suc m" "length ss \<le> m" using snoc.prems(3) by (cases n) auto
  have "down_revision s = version_of ss"
    using snoc.prems(1) by (simp add: linked_append version_of_def)
  then show ?case
    using snoc n by (simp add: linked_append find_script [OF distinct_rev_ids])
qed

lemma history_prefix:
  assumes "CHAIN = xs @ ys"
  shows "history (version_of xs) = rev xs"
  unfolding history_def
proof (rule lineage_linked)
  show "linked None xs" using linked_CHAIN unfolding assms linked_append by blast
  show "set xs \<subseteq> set SCRIPTS" unfolding CHAIN_scripts(1) [symmetric] by (simp add: assms)
  show "length xs \<le> length SCRIPTS" unfolding CHAIN_scripts(2) by (simp add: assms)
qed

lemma version_of_CHAIN: "version_of CHAIN = head"
  by (simp add: head_revision version_of_def CHAIN_def revision_defs)

lemma history_head: "history head = rev CHAIN"
  using history_prefix [of CHAIN "[]"] by (simp add: version_of_CHAIN)

text \<open>The versions a database may record.\<close>

lemma known_version:
  assumes "v \<in> insert None (Some ` rev_id ` set SCRIPTS)"
  obtains xs ys where "CHAIN = xs @ ys" "v = version_of xs"
proof (cases v)
  case None
  then show ?thesis using that [of "[]" CHAIN] by simp
next
  case (Some r)
  then obtain s where s: "s \<in> set CHAIN" "v = Some (rev_id s)"
    using assms CHAIN_scripts by auto
  then obtain xs ys where "CHAIN = xs @ s # ys" using split_list by metis
  then show ?thesis using that [of "xs @ [s]" ys] s(2) by simp
qed

section \<open>Plans\<close>

definition plan_of :: "revision list \<Rightarrow> plan" where
  "plan_of ss = map (\<lambda>s. (rev_upgrade s, Some (rev_id s))) ss"

definition back_of :: "revision list \<Rightarrow> plan" where
  "back_of ss = map (\<lambda>s. (rev_downgrade s, down_revision s)) (rev ss)"

lemma takeWhile_ids:
  assumes "distinct (map rev_id (xs @ ys))"
  shows "takeWhile (\<lambda>s. Some (rev_id s) \<noteq> version_of xs) (rev (xs @ ys)) = rev ys"
proof (cases xs rule: rev_cases)
  case Nil
  then show ?thesis by (simp add: takeWhile_eq_all_conv)
next
  case (snoc zs s)
  then have "\<forall>q \<in> set ys. rev_id q \<noteq> rev_id s" using assms by (auto simp: image_iff)
  then show ?thesis using snoc by (simp, subst takeWhile_append2) auto
qed

lemma upgrade_plan_suffix: "CHAIN = xs @ ys \<Longrightarrow> upgrade_plan (version_of xs) = plan_of ys"
  using takeWhile_ids [of xs ys] distinct_CHAIN by (simp add: upgrade_plan_def history_head plan_of_def)

lemma downgrade_plan_part:
  assumes "CHAIN = xs @ ys @ zs"
  shows "downgrade_plan (version_of (xs @ ys)) (version_of xs) = back_of ys"
proof -
  have "distinct (map rev_id (xs @ ys))"
    using distinct_CHAIN unfolding assms by auto
  then show ?thesis
    using takeWhile_ids [of xs ys] history_prefix [of "xs @ ys" zs] assms
    by (simp add: downgrade_plan_def back_of_def)
qed

section \<open>Runs\<close>

lemma run_statements_append:
  "run_statements exec (ss @ ts) d = (case run_statements exec ss d of Inl e \<Rightarrow> Inl e
     | Inr d' \<Rightarrow> run_statements exec ts d')"
  by (induction ss arbitrary: d) (auto split: sum.splits)

lemma run_ops_append:
  "run_ops exec (os @ ps) d = (case run_ops exec os d of Inl e \<Rightarrow> Inl e
     | Inr d' \<Rightarrow> run_ops exec ps d')"
  by (induction exec os d rule: run_ops.induct) (auto split: sum.splits)

lemma run_plan_append:
  "run_plan se (ps @ qs) d = (case run_plan se ps d of Inl e \<Rightarrow> Inl e | Inr d' \<Rightarrow> run_plan se qs d')"
  by (induction se ps d rule: run_plan.induct) (auto split: sum.splits)

text \<open>The statements of directives none of which is refused by the compiler.\<close>

definition emitted :: "directive list \<Rightarrow> statement list" where
  "emitted os = concat (map (case_sum (\<lambda>_. []) id) os)"

definition compiles :: "directive list \<Rightarrow> bool" where
  "compiles os \<longleftrightarrow> list_all (case_sum (\<lambda>_. False) (\<lambda>_. True)) os"

lemma run_ops_emitted: "compiles os \<Longrightarrow> run_ops exec os d = run_statements exec (emitted os) d"
  by (induction exec os d rule: run_ops.induct)
    (auto simp: compiles_def emitted_def run_statements_append split: sum.splits)

text \<open>What a list of scripts makes of a catalogue.\<close>

definition chain_catalog :: "revision list \<Rightarrow> catalog \<Rightarrow> ddl_error + catalog" where
  "chain_catalog ss c = run_ops alter_catalog (concat (map rev_upgrade ss)) c"

lemma chain_catalog_append:
  "chain_catalog (ss @ ts) c = (case chain_catalog ss c of Inl e \<Rightarrow> Inl e
     | Inr c' \<Rightarrow> chain_catalog ts c')"
  by (simp add: chain_catalog_def run_ops_append split: sum.split)

lemma schema_at_prefix:
  "CHAIN = xs @ ys \<Longrightarrow> schema_at (version_of xs) = chain_catalog xs empty_catalog"
  by (simp add: schema_at_def chain_catalog_def history_prefix)

lemma run_plan_Inl:
  "run_plan se ps d = Inl e \<Longrightarrow> do_run_migrations se ps d = (d, Some e)"
  by (simp add: do_run_migrations_def)

lemma run_plan_Inr:
  "run_plan se ps d = Inr d' \<Longrightarrow> do_run_migrations se ps d = (d', None)"
  by (simp add: do_run_migrations_def)


text \<open>A run over the database follows the run over the catalogue and keeps what the engine keeps.\<close>

context ddl_engine
begin

lemma ops_follow:
  "run_ops exec os d = Inr d' \<Longrightarrow> run_ops alter_catalog os (schema d) = Inr (schema d')"
proof (induction os arbitrary: d)
  case (Cons q os)
  obtain ss d1 where d1: "q = Inr ss" "run_statements exec ss d = Inr d1" "run_ops exec os d1 = Inr d'"
    using Cons.prems by (cases q) (auto split: sum.splits)
  then show ?case using Cons.IH [OF d1(3)] run_follows [OF d1(2)] by simp
qed simp

lemma ops_keep: "sound d \<Longrightarrow> run_ops exec os d = Inr d' \<Longrightarrow> sound d'"
proof (induction os arbitrary: d)
  case (Cons q os)
  obtain ss d1 where d1: "q = Inr ss" "run_statements exec ss d = Inr d1" "run_ops exec os d1 = Inr d'"
    using Cons.prems(2) by (cases q) (auto split: sum.splits)
  then show ?case using Cons.IH [OF _ d1(3)] run_keeps [OF Cons.prems(1) d1(2)] by simp
qed simp

end

lemma consistent_version [simp]: "consistent (d\<lparr>db_version := v\<rparr>) = consistent d"
  by (simp add: consistent_def)

text \<open>The recorded version plays no part in the statements.\<close>

lemma execute_version_update:
  "execute se s d = Inr d' \<Longrightarrow>
     execute se s (d\<lparr>db_version := v\<rparr>) = Inr (d'\<lparr>db_version := v\<rparr>)"
  by (simp add: execute_Inr)

lemma run_statements_version_update:
  "run_statements (execute se) ss d = Inr d' \<Longrightarrow>
     run_statements (execute se) ss (d\<lparr>db_version := v\<rparr>) = Inr (d'\<lparr>db_version := v\<rparr>)"
proof (induction ss arbitrary: d)
  case (Cons s ss)
  then obtain d1 where "execute se s d = Inr d1" "run_statements (execute se) ss d1 = Inr d'"
    by (auto split: sum.splits)
  then show ?case using Cons.IH execute_version_update by simp
qed simp

lemma run_ops_version_update:
  "run_ops (execute se) os d = Inr d' \<Longrightarrow>
     run_ops (execute se) os (d\<lparr>db_version := v\<rparr>) = Inr (d'\<lparr>db_version := v\<rparr>)"
proof (induction os arbitrary: d)
  case (Cons q os)
  obtain ss d1 where d1: "q = Inr ss" "run_statements (execute se) ss d = Inr d1"
    "run_ops (execute se) os d1 = Inr d'"
    using Cons.prems by (cases q) (auto split: sum.splits)
  then show ?case using Cons.IH [OF d1(3)] run_statements_version_update by simp
qed simp

lemma plan_keeps: "consistent d \<Longrightarrow> run_plan se ps d = Inr d' \<Longrightarrow> consistent d'"
  by (induction se ps d rule: run_plan.induct) (auto split: sum.splits dest: pg.ops_keep)

lemma plan_follows:
  assumes "run_plan se (plan_of ss) d = Inr d'"
  shows "chain_catalog ss (db_catalog d) = Inr (db_catalog d')"
    and "db_version d' = (if ss = [] then db_version d else Some (rev_id (last ss)))"
proof -
  have "chain_catalog ss (db_catalog d) = Inr (db_catalog d') \<and>
      db_version d' = (if ss = [] then db_version d else Some (rev_id (last ss)))"
    using assms
  proof (induction ss arbitrary: d)
    case (Cons s ss)
    then obtain d1 where d1: "run_ops (execute se) (rev_upgrade s) d = Inr d1"
      "run_plan se (plan_of ss) (d1\<lparr>db_version := Some (rev_id s)\<rparr>) = Inr d'"
      by (auto simp: plan_of_def split: sum.splits)
    from Cons.IH [OF d1(2)] pg.ops_follow [OF d1(1)] show ?case
      by (auto simp: chain_catalog_def run_ops_append)
  qed (simp add: plan_of_def chain_catalog_def)
  then show "chain_catalog ss (db_catalog d) = Inr (db_catalog d')"
    and "db_version d' = (if ss = [] then db_version d else Some (rev_id (last ss)))" by auto
qed

text \<open>A database whose tables are those of its recorded version.\<close>

definition at_known_version :: "database \<Rightarrow> bool" where
  "at_known_version d \<longleftrightarrow> db_version d \<in> insert None (Some ` rev_id ` set SCRIPTS)
     \<and> schema_at (db_version d) = Inr (db_catalog d)"

lemma at_known_versionE:
  assumes "at_known_version d"
  obtains xs ys where "CHAIN = xs @ ys" "db_version d = version_of xs"
    "chain_catalog xs empty_catalog = Inr (db_catalog d)"
  using assms known_version schema_at_prefix unfolding at_known_version_def by metis

end
