(* ===== verification/PW_Upgrade.thy ===== *)
theory PW_Upgrade
  imports PW_Chain
begin

text \<open>
  When \<open>alembic upgrade head\<close> succeeds. A static check of a list of statements over the
  catalogue and a set of facts about the rows promises that none of them is refused, whatever
  the rows are (progress); every accepted statement keeps the database consistent
  (preservation, \<open>PW_DdlLaws\<close>). The check is then evaluated on the chain of revisions.
\<close>

section \<open>Facts about the rows\<close>

datatype fact =
    Obeys string constr
  | NeverNull string string
  | Vacant string

fun fact_holds :: "data \<Rightarrow> fact \<Rightarrow> bool" where
  "fact_holds D (Obeys t k) \<longleftrightarrow> holds D t k"
| "fact_holds D (NeverNull t n) \<longleftrightarrow> (\<forall>w \<in> set (D t). w n \<noteq> SqlNull)"
| "fact_holds D (Vacant t) \<longleftrightarrow> D t = []"

text \<open>The columns a fact is about, and the statements that leave it alone.\<close>

fun mentions :: "fact \<Rightarrow> string \<Rightarrow> string \<Rightarrow> bool" where
  "mentions (Obeys u k) t n \<longleftrightarrow> (u = t \<and> n \<in> set (key_columns k))
     \<or> (case references k of None \<Rightarrow> False | Some (v, us) \<Rightarrow> v = t \<and> n \<in> set us)"
| "mentions (NeverNull u m) t n \<longleftrightarrow> u = t \<and> m = n"
| "mentions (Vacant u) t n \<longleftrightarrow> False"

fun undisturbed :: "statement \<Rightarrow> fact \<Rightarrow> bool" where
  "undisturbed (DropTable t) f \<longleftrightarrow> False"
| "undisturbed (AddColumn t x) f \<longleftrightarrow> \<not> mentions f t (col_name x)"
| "undisturbed (DropColumn t n) f \<longleftrightarrow> \<not> mentions f t n"
| "undisturbed (AlterType t n ty u) f \<longleftrightarrow> \<not> mentions f t n"
| "undisturbed _ f \<longleftrightarrow> True"

text \<open>Facts that make a new constraint hold: a foreign key over the same columns, a unique key
  over fewer.\<close>

fun entails :: "constr \<Rightarrow> constr \<Rightarrow> bool" where
  "entails (UniqueKey cs) (UniqueKey cs') \<longleftrightarrow> set cs \<subseteq> set cs'"
| "entails (ForeignKey cs u us od) (ForeignKey cs' u' us' od') \<longleftrightarrow> cs = cs' \<and> u = u' \<and> us = us'"
| "entails _ _ \<longleftrightarrow> False"

fun supports :: "string \<Rightarrow> constr \<Rightarrow> fact \<Rightarrow> bool" where
  "supports t k (Obeys u k') \<longleftrightarrow> u = t \<and> entails k' k"
| "supports t k (Vacant u) \<longleftrightarrow> u = t"
| "supports t k (NeverNull _ _) \<longleftrightarrow> False"

definition catalog_facts :: "catalog \<Rightarrow> fact set" where
  "catalog_facts c =
     (\<Union>r \<in> set (relations c). (\<lambda>k. Obeys (rel_name r) (snd k)) ` rel_constraints r)"

fun safe :: "statement \<Rightarrow> catalog \<Rightarrow> fact set \<Rightarrow> bool" where
  "safe (AddColumn t x) c F \<longleftrightarrow> col_nullable x \<or> col_default x \<noteq> None \<or> Vacant t \<in> F"
| "safe (SetNullable t n b) c F \<longleftrightarrow> b \<or> NeverNull t n \<in> F"
| "safe (AddConstraint t n k) c F \<longleftrightarrow> (\<exists>f \<in> F. supports t k f)"
| "safe (AlterType t n ty u) c F \<longleftrightarrow> (\<forall>f \<in> catalog_facts c. \<not> mentions f t n)"
| "safe _ c F \<longleftrightarrow> True"

text \<open>A dropped constraint still holds of the rows.\<close>

fun released :: "statement \<Rightarrow> catalog \<Rightarrow> fact set" where
  "released (DropConstraint t n) c = (\<Union>r \<in> {r \<in> set (relations c). rel_name r = t}.
     (\<lambda>k. Obeys t (snd k)) ` {k \<in> rel_constraints r. fst k = n})"
| "released _ c = {}"

fun safe_run :: "fact set \<Rightarrow> statement list \<Rightarrow> catalog \<Rightarrow> bool" where
  "safe_run F [] c \<longleftrightarrow> True"
| "safe_run F (s # ss) c \<longleftrightarrow> refusal s c = None \<and> safe s c F
     \<and> safe_run ({f \<in> F. undisturbed s f} \<union> released s c) ss (effect s c)"

section \<open>Soundness of the check\<close>

lemma unique_wider:
  assumes "distinct (filter (\<lambda>vs. SqlNull \<notin> set vs) (map (\<lambda>w. map w cs) ws))"
    and "set cs \<subseteq> set cs'"
  shows "distinct (filter (\<lambda>vs. SqlNull \<notin> set vs) (map (\<lambda>w. map w cs') ws))"
  using assms(1)
proof (induction ws)
  case (Cons w ws)
  have "map w cs' \<notin> set (map (\<lambda>w. map w cs') ws)" if n: "SqlNull \<notin> set (map w cs')"
  proof
    assume "map w cs' \<in> set (map (\<lambda>w. map w cs') ws)"
    then obtain q where q: "q \<in> set ws" "map w cs' = map q cs'" by auto
    then have eq: "map w cs = map q cs" using assms(2) by auto
    moreover have "SqlNull \<notin> set (map w cs)" using n assms(2) by auto
    ultimately show False using Cons.prems q(1) by (auto simp: image_iff)
  qed
  moreover have "distinct (filter (\<lambda>vs. SqlNull \<notin> set vs) (map (\<lambda>w. map w cs') ws))"
    using Cons by (auto split: if_splits)
  ultimately show ?case by (auto simp del: list.set_map)
qed simp

lemma entails_sound: "entails k k' \<Longrightarrow> holds D t k \<Longrightarrow> holds D t k'"
proof (induction k k' rule: entails.induct)
  case (1 cs cs')
  then show ?case by (simp only: entails.simps holds.simps unique_wider)
qed auto

lemma supports_sound:
  assumes "supports t k f" and "fact_holds D f"
  shows "holds D t k"
proof (cases f)
  case (Vacant u)
  then show ?thesis using assms by (cases k) auto
qed (use assms entails_sound in auto)

lemma fact_other_column:
  assumes "\<not> mentions f t n"
  shows "fact_holds (D(t := map (\<lambda>w. w(n := g w)) (D t))) f = fact_holds D f"
proof (cases f)
  case (Obeys u k)
  have "holds (D(t := map (\<lambda>w. w(n := g w)) (D t))) u k = holds D u k"
    using assms Obeys by (intro holds_other_column) auto
  then show ?thesis using Obeys by simp
qed (use assms in auto)

lemma undisturbed_sound:
  assumes "undisturbed s f"
  shows "fact_holds (data_effect se s D) f = fact_holds D f"
  using assms fact_other_column [of f _ _ D] by (cases s) simp_all

lemma catalog_facts_hold: "constraints_hold c D \<Longrightarrow> f \<in> catalog_facts c \<Longrightarrow> fact_holds D f"
  by (fastforce simp: catalog_facts_def dest: constraints_holdD)

lemma safe_accepted:
  assumes d: "consistent d" and F: "\<And>f. f \<in> F \<Longrightarrow> fact_holds (db_data d) f"
    and s: "safe s (db_catalog d) F"
  shows "data_refusal se s (db_catalog d) (db_data d) = None"
proof (cases s)
  case (AddColumn t x)
  then show ?thesis using s F [of "Vacant t"] by auto
next
  case (SetNullable t n b)
  then show ?thesis using s F [of "NeverNull t n"] by auto
next
  case (AddConstraint t n k)
  then obtain f where "f \<in> F" "supports t k f" using s by auto
  then have "holds (db_data d) t k" using F supports_sound by blast
  then show ?thesis using AddConstraint by simp
next
  case (AlterType t n ty u)
  have "constraints_hold (db_catalog d) (data_effect se s (db_data d))"
    unfolding constraints_hold_def
  proof (intro ballI)
    fix r k
    assume r: "r \<in> set (relations (db_catalog d))" "k \<in> rel_constraints r"
    then have f: "Obeys (rel_name r) (snd k) \<in> catalog_facts (db_catalog d)"
      by (auto simp: catalog_facts_def)
    then have "\<not> mentions (Obeys (rel_name r) (snd k)) t n" using s AlterType
      by (simp del: mentions.simps)
    from fact_other_column [OF this, of "db_data d" "\<lambda>w. convert se u (w n)"]
    show "holds (data_effect se s (db_data d)) (rel_name r) (snd k)"
      using d AlterType constraints_holdD [OF _ r] by (simp add: consistent_def)
  qed
  then show ?thesis using AlterType by simp
qed auto

lemma released_facts: "released s c \<subseteq> catalog_facts c"
  by (cases s) (auto simp: catalog_facts_def)

lemma released_undisturbed: "f \<in> released s c \<Longrightarrow> undisturbed s f"
  by (cases s) auto

theorem safe_run_sound:
  assumes "consistent d" and "\<And>f. f \<in> F \<Longrightarrow> fact_holds (db_data d) f"
    and "safe_run F ss (db_catalog d)"
  shows "\<exists>d'. run_statements (execute se) ss d = Inr d'"
  using assms
proof (induction ss arbitrary: F d)
  case (Cons s ss)
  let ?F = "{f \<in> F. undisturbed s f} \<union> released s (db_catalog d)"
  have "data_refusal se s (db_catalog d) (db_data d) = None"
    using Cons.prems(3) by (intro safe_accepted [OF Cons.prems(1), of F] Cons.prems(2)) auto
  then obtain d1 where d1: "execute se s d = Inr d1" "db_catalog d1 = effect s (db_catalog d)"
      "db_data d1 = data_effect se s (db_data d)"
    using Cons.prems(3) by (auto simp: execute_def)
  have "\<exists>d'. run_statements (execute se) ss d1 = Inr d'"
  proof (rule Cons.IH)
    show "consistent d1" using execute_consistent [OF Cons.prems(1) d1(1)] .
    fix f
    assume f: "f \<in> ?F"
    have "constraints_hold (db_catalog d) (db_data d)"
      using Cons.prems(1) by (simp add: consistent_def)
    then have "fact_holds (db_data d) f"
      using f Cons.prems(2) released_facts catalog_facts_hold by blast
    then show "fact_holds (db_data d1) f"
      using f undisturbed_sound released_undisturbed d1(3) by auto
  next
    show "safe_run ?F ss (db_catalog d1)"
      using Cons.prems(3) d1(2) by simp
  qed
  then show ?case using d1(1) by simp
qed simp

text \<open>Facts no statement of a list disturbs hold before and after.\<close>

lemma undisturbed_run:
  assumes "run_statements (execute se) ss d = Inr d'" and "\<forall>s \<in> set ss. undisturbed s f"
  shows "fact_holds (db_data d') f = fact_holds (db_data d) f"
  using assms
proof (induction ss arbitrary: d)
  case (Cons s ss)
  then obtain d1 where d1: "execute se s d = Inr d1" "run_statements (execute se) ss d1 = Inr d'"
    by (auto split: sum.splits)
  then have "fact_holds (db_data d1) f = fact_holds (db_data d) f"
    using Cons.prems(2) undisturbed_sound by (auto simp: execute_Inr)
  then show ?case using Cons.IH [OF d1(2)] Cons.prems(2) by simp
qed simp

lemma run_statements_version:
  "run_statements (execute se) ss d = Inr d' \<Longrightarrow> db_version d' = db_version d"
  by (induction ss arbitrary: d) (auto simp: execute_Inr split: sum.splits)


section \<open>Checking scripts\<close>

definition script_ok :: "fact set \<Rightarrow> revision \<Rightarrow> catalog \<Rightarrow> bool" where
  "script_ok F s c \<longleftrightarrow> compiles (rev_upgrade s) \<and> safe_run F (emitted (rev_upgrade s)) c
     \<and> (\<forall>f \<in> F. list_all (\<lambda>t. undisturbed t f) (emitted (rev_upgrade s)))"

fun chain_ok :: "fact set \<Rightarrow> revision list \<Rightarrow> catalog \<Rightarrow> bool" where
  "chain_ok F [] c \<longleftrightarrow> True"
| "chain_ok F (s # ss) c \<longleftrightarrow> script_ok F s c
     \<and> (case run_ops alter_catalog (rev_upgrade s) c of Inl e \<Rightarrow> False | Inr c' \<Rightarrow> chain_ok F ss c')"

lemma script_ok_runs:
  assumes d: "consistent d" and F: "\<forall>f \<in> F. fact_holds (db_data d) f"
    and s: "script_ok F s (db_catalog d)"
  obtains d' where "run_ops (execute se) (rev_upgrade s) d = Inr d'" "consistent d'"
    "run_ops alter_catalog (rev_upgrade s) (db_catalog d) = Inr (db_catalog d')"
    "\<forall>f \<in> F. fact_holds (db_data d') f"
proof -
  have c: "compiles (rev_upgrade s)" and safe: "safe_run F (emitted (rev_upgrade s)) (db_catalog d)"
    using s by (auto simp: script_ok_def)
  obtain d' where d': "run_statements (execute se) (emitted (rev_upgrade s)) d = Inr d'"
    using safe_run_sound [OF d _ safe] F by blast
  show ?thesis
  proof (rule that)
    show "run_ops (execute se) (rev_upgrade s) d = Inr d'"
      using d' by (simp add: run_ops_emitted [OF c])
    show "consistent d'" using pg.run_keeps [OF d d'] .
    show "run_ops alter_catalog (rev_upgrade s) (db_catalog d) = Inr (db_catalog d')"
      using pg.run_follows [OF d'] by (simp add: run_ops_emitted [OF c])
    show "\<forall>f \<in> F. fact_holds (db_data d') f"
      using F s undisturbed_run [OF d'] by (auto simp: script_ok_def list_all_iff)
  qed
qed

lemma chain_ok_runs:
  assumes "consistent d" and "\<forall>f \<in> F. fact_holds (db_data d) f" and "chain_ok F ss (db_catalog d)"
  shows "\<exists>d'. run_plan se (plan_of ss) d = Inr d' \<and> consistent d'
    \<and> chain_catalog ss (db_catalog d) = Inr (db_catalog d')
    \<and> (\<forall>f \<in> F. fact_holds (db_data d') f)
    \<and> db_version d' = (if ss = [] then db_version d else Some (rev_id (last ss)))"
  using assms
proof (induction ss arbitrary: d)
  case (Cons s ss)
  obtain d1 where d1: "run_ops (execute se) (rev_upgrade s) d = Inr d1" "consistent d1"
    "run_ops alter_catalog (rev_upgrade s) (db_catalog d) = Inr (db_catalog d1)"
    "\<forall>f \<in> F. fact_holds (db_data d1) f"
    using script_ok_runs [OF Cons.prems(1,2)] Cons.prems(3) by auto
  obtain d2 where "run_plan se (plan_of ss) (d1\<lparr>db_version := Some (rev_id s)\<rparr>) = Inr d2"
    "consistent d2" "chain_catalog ss (db_catalog d1) = Inr (db_catalog d2)"
    "\<forall>f \<in> F. fact_holds (db_data d2) f"
    "db_version d2 = (if ss = [] then Some (rev_id s) else Some (rev_id (last ss)))"
    using Cons.IH [of "d1\<lparr>db_version := Some (rev_id s)\<rparr>"] d1 Cons.prems(3) by auto
  then show ?case
    using d1 by (auto simp: plan_of_def chain_catalog_def run_ops_append)
qed (simp add: plan_of_def chain_catalog_def)

lemma chain_ok_append:
  "chain_ok F (ss @ ts) c \<longleftrightarrow> chain_ok F ss c
     \<and> (case chain_catalog ss c of Inl e \<Rightarrow> False | Inr c' \<Rightarrow> chain_ok F ts c')"
  by (induction ss arbitrary: c)
    (auto simp: chain_catalog_def run_ops_append split: sum.splits)

section \<open>The check of the whole chain\<close>

text \<open>The timestamps of the aggregates are set by their defaults, although the columns allow NULL
  until revision d0d1001ee097.\<close>

definition stamped :: "data \<Rightarrow> bool" where
  "stamped D \<longleftrightarrow> (\<forall>t \<in> {''metric_aggregates'', ''docker_aggregates''}. \<forall>w \<in> set (D t).
     w ''created_at'' \<noteq> SqlNull \<and> w ''updated_at'' \<noteq> SqlNull)"

definition STAMPS :: "fact set" where
  "STAMPS = {NeverNull ''metric_aggregates'' ''created_at'',
     NeverNull ''metric_aggregates'' ''updated_at'', NeverNull ''docker_aggregates'' ''created_at'',
     NeverNull ''docker_aggregates'' ''updated_at''}"

lemma stamped_iff: "stamped D \<longleftrightarrow> (\<forall>f \<in> STAMPS. fact_holds D f)"
  by (auto simp: stamped_def STAMPS_def)

lemmas stamped_facts = iffD1 [OF stamped_iff]

lemma chain_checked_without_servers:
  "chain_ok (insert (Vacant ''servers'') STAMPS) (take 3 CHAIN) empty_catalog"
  by code_simp

lemma chain_checked_from_owner_id:
  "case chain_catalog (take 3 CHAIN) empty_catalog of Inl e \<Rightarrow> False
    | Inr c \<Rightarrow> chain_ok STAMPS (drop 3 CHAIN) c"
  by code_simp

text \<open>The tables of the first revisions, as far as the rows are concerned.\<close>

lemma CHAIN_first:
  "CHAIN = [revision_06fcec7eb504, revision_d432b550632e] @ revision_62b88e6c93af # drop 3 CHAIN"
  by (simp add: CHAIN_def)

lemma short_prefix:
  assumes "CHAIN = xs @ ys" and "length xs < 3"
  shows "xs = [] \<or> xs = [revision_06fcec7eb504]
    \<or> xs = [revision_06fcec7eb504, revision_d432b550632e]"
proof -
  have "xs = take (length xs) CHAIN" unfolding assms(1) by simp
  moreover have "length xs = 0 \<or> length xs = 1 \<or> length xs = 2" using assms(2) by linarith
  ultimately show ?thesis by (auto simp: CHAIN_def)
qed

lemma early_versions:
  "version_of [revision_06fcec7eb504] = Some ''06fcec7eb504''"
  "version_of [revision_06fcec7eb504, revision_d432b550632e] = Some ''d432b550632e''"
  by (simp_all add: version_of_def revision_defs)

lemma empty_catalog_vacant: "consistent d \<Longrightarrow> db_catalog d = empty_catalog \<Longrightarrow> db_data d t = []"
  by (simp add: consistent_def rows_ok_def empty_catalog_def table_names_def)

lemma tail_checked:
  assumes "CHAIN = xs @ ys" and "chain_catalog xs empty_catalog = Inr c" and "\<not> length xs < 3"
  shows "chain_ok STAMPS ys c"
proof -
  have "take 3 CHAIN = take 3 xs" using assms(3) unfolding assms(1) by simp
  then have xs': "xs = take 3 CHAIN @ drop 3 xs" by simp
  have "drop 3 CHAIN = drop 3 xs @ ys" using assms(3) unfolding assms(1) by simp
  then show ?thesis
    using chain_checked_from_owner_id assms(2) unfolding chain_ok_append
    by (subst (asm) xs') (auto simp: chain_catalog_append chain_ok_append split: sum.splits)
qed

lemma plan_of_append: "plan_of (ss @ ts) = plan_of ss @ plan_of ts"
  by (simp add: plan_of_def)

lemma early_upgrade_runs:
  assumes d: "consistent d" and xs: "CHAIN = xs @ ys" "length xs < 3"
    and c: "chain_catalog xs empty_catalog = Inr (db_catalog d)"
    and facts: "\<forall>f \<in> insert (Vacant ''servers'') STAMPS. fact_holds (db_data d) f"
  shows "\<exists>d'. run_plan se (plan_of ys) d = Inr d'"
proof -
  have t: "take 3 CHAIN = xs @ take (3 - length xs) ys" "ys = take (3 - length xs) ys @ drop 3 CHAIN"
    using xs(2) unfolding xs(1) by simp_all
  have "chain_ok (insert (Vacant ''servers'') STAMPS) (take (3 - length xs) ys) (db_catalog d)"
    using chain_checked_without_servers c unfolding t(1) chain_ok_append by simp
  then obtain d1 where d1: "run_plan se (plan_of (take (3 - length xs) ys)) d = Inr d1"
    "consistent d1" "chain_catalog (take (3 - length xs) ys) (db_catalog d) = Inr (db_catalog d1)"
    "\<forall>f \<in> insert (Vacant ''servers'') STAMPS. fact_holds (db_data d1) f"
    using chain_ok_runs [OF d facts] by blast
  have "chain_catalog (take 3 CHAIN) empty_catalog = Inr (db_catalog d1)"
    using c d1(3) unfolding t(1) by (simp add: chain_catalog_append)
  moreover have "length (take 3 CHAIN) = 3" by (simp add: CHAIN_def)
  ultimately have "chain_ok STAMPS (drop 3 CHAIN) (db_catalog d1)"
    using tail_checked [of "take 3 CHAIN" "drop 3 CHAIN"] by simp
  then obtain d2 where "run_plan se (plan_of (drop 3 CHAIN)) d1 = Inr d2"
    using chain_ok_runs [OF d1(2), of STAMPS] d1(4) by blast
  then show ?thesis
    using d1(1) by (subst t(2)) (simp add: plan_of_append run_plan_append)
qed

lemma upgrade_runs:
  assumes d: "consistent d" and v: "at_known_version d" and stamps: "stamped (db_data d)"
    and vacant: "db_version d \<in> {Some ''06fcec7eb504'', Some ''d432b550632e''} \<Longrightarrow>
      db_data d ''servers'' = []"
  shows "\<exists>d'. alembic_upgrade_head se d = (d', None)"
proof -
  obtain xs ys where xs: "CHAIN = xs @ ys" "db_version d = version_of xs"
    "chain_catalog xs empty_catalog = Inr (db_catalog d)"
    using at_known_versionE [OF v] .
  have "\<exists>d'. run_plan se (plan_of ys) d = Inr d'"
  proof (cases "length xs < 3")
    case True
    have "db_data d ''servers'' = []"
    proof (cases "xs = []")
      case True
      then show ?thesis
        using xs(3) empty_catalog_vacant [OF d] by (simp add: chain_catalog_def)
    next
      case False
      then show ?thesis
        using short_prefix [OF xs(1) True] vacant xs(2) early_versions by auto
    qed
    then have "\<forall>f \<in> insert (Vacant ''servers'') STAMPS. fact_holds (db_data d) f"
      using stamped_facts [OF stamps] by simp
    then show ?thesis using early_upgrade_runs [OF d xs(1) True xs(3)] by blast
  next
    case False
    then show ?thesis
      using chain_ok_runs [OF d stamped_facts [OF stamps] tail_checked [OF xs(1,3) False]] by blast
  qed
  then obtain d' where "run_plan se (plan_of ys) d = Inr d'" by blast
  then show ?thesis
    using xs by (simp add: alembic_upgrade_head_def upgrade_plan_suffix run_plan_Inr)
qed

text \<open>The first statement of revision 62b88e6c93af meets the rows of servers.\<close>

lemma owner_id_refused:
  assumes "db_data d ''servers'' \<noteq> []"
  shows "\<exists>e. run_ops (execute se) (rev_upgrade revision_62b88e6c93af) d = Inl e"
  using assms
  by (auto simp: revision_defs upgrade_62b88e6c93af_def op_add_column_def column_of_def
      execute_def split: option.splits)

lemma create_users_keeps_rows:
  "run_ops (execute se) (rev_upgrade revision_d432b550632e) d = Inr d' \<Longrightarrow> db_data d' = db_data d"
  by (auto simp: revision_defs upgrade_d432b550632e_def op_create_table_def item_columns_def
      execute_Inr split: sum.splits)

lemma upgrade_blocked:
  assumes v: "db_version d \<in> {Some ''06fcec7eb504'', Some ''d432b550632e''}"
    and rows: "db_data d ''servers'' \<noteq> []"
  shows "\<exists>e. alembic_upgrade_head se d = (d, Some e)"
proof -
  have "\<exists>e. run_plan se (upgrade_plan (db_version d)) d = Inl e"
  proof (cases "db_version d = Some ''d432b550632e''")
    case True
    have "CHAIN = [revision_06fcec7eb504, revision_d432b550632e]
        @ revision_62b88e6c93af # drop 3 CHAIN" by (rule CHAIN_first)
    from upgrade_plan_suffix [OF this] show ?thesis
      using owner_id_refused [OF rows, of se] True by (auto simp: early_versions plan_of_def)
  next
    case False
    have "CHAIN = [revision_06fcec7eb504]
        @ revision_d432b550632e # revision_62b88e6c93af # drop 3 CHAIN"
      using CHAIN_first by simp
    from upgrade_plan_suffix [OF this]
    have p: "upgrade_plan (db_version d)
        = plan_of (revision_d432b550632e # revision_62b88e6c93af # drop 3 CHAIN)"
      using v False by (simp add: early_versions)
    show ?thesis
    proof (cases "run_ops (execute se) (rev_upgrade revision_d432b550632e) d")
      case (Inr d1)
      then have "db_data (d1\<lparr>db_version := Some (rev_id revision_d432b550632e)\<rparr>) ''servers'' \<noteq> []"
        using create_users_keeps_rows rows by simp
      then show ?thesis
        using owner_id_refused [of "d1\<lparr>db_version := Some (rev_id revision_d432b550632e)\<rparr>" se] Inr
        by (auto simp: p plan_of_def)
    qed (simp add: p plan_of_def)
  qed
  then show ?thesis by (auto simp: alembic_upgrade_head_def run_plan_Inl)
qed

text \<open>
  No upgrade writes the timestamps of the aggregates, and the newest revision forbids NULL in them:
  an upgrade that goes through met none.
\<close>

lemma stamps_untouched:
  "list_all (\<lambda>s. compiles (rev_upgrade s)
     \<and> (\<forall>f \<in> STAMPS. list_all (\<lambda>t. undisturbed t f) (emitted (rev_upgrade s)))) CHAIN"
  by code_simp

lemma plan_keeps_facts:
  assumes "run_plan se (plan_of ss) d = Inr d'"
    and "\<forall>s \<in> set ss. compiles (rev_upgrade s) \<and> list_all (\<lambda>t. undisturbed t f) (emitted (rev_upgrade s))"
  shows "fact_holds (db_data d') f \<longleftrightarrow> fact_holds (db_data d) f"
  using assms
proof (induction ss arbitrary: d)
  case (Cons s ss)
  then obtain d1 where d1: "run_ops (execute se) (rev_upgrade s) d = Inr d1"
      "run_plan se (plan_of ss) (d1\<lparr>db_version := Some (rev_id s)\<rparr>) = Inr d'"
    by (auto simp: plan_of_def split: sum.splits)
  have "run_statements (execute se) (emitted (rev_upgrade s)) d = Inr d1"
    using d1(1) Cons.prems(2) by (simp add: run_ops_emitted)
  from undisturbed_run [OF this, of f] Cons.IH [OF d1(2)] Cons.prems(2) show ?case
    by (simp add: list_all_iff)
qed (simp add: plan_of_def)

lemma head_forbids_null:
  "case chain_catalog CHAIN empty_catalog of Inl e \<Rightarrow> False
    | Inr c \<Rightarrow> \<forall>t \<in> {''metric_aggregates'', ''docker_aggregates''}. \<forall>n \<in> {''created_at'', ''updated_at''}.
        \<exists>r \<in> set (relations c). rel_name r = t
          \<and> (\<exists>x \<in> set (rel_columns r). col_name x = n \<and> \<not> col_nullable x)"
  by code_simp

lemma head_stamped:
  assumes "consistent d" and "chain_catalog CHAIN empty_catalog = Inr (db_catalog d)"
  shows "stamped (db_data d)"
proof -
  have rows: "rows_ok (db_catalog d) (db_data d)" using assms(1) by (simp add: consistent_def)
  have "w n \<noteq> SqlNull" if t: "t \<in> {''metric_aggregates'', ''docker_aggregates''}" and w: "w \<in> set (db_data d t)"
    and n: "n \<in> {''created_at'', ''updated_at''}" for t w n
  proof -
    obtain r x where r: "r \<in> set (relations (db_catalog d))" "rel_name r = t"
      and x: "x \<in> set (rel_columns r)" "col_name x = n" "\<not> col_nullable x"
      using head_forbids_null t n unfolding assms(2) by fastforce
    have "row_ok (enum_types (db_catalog d)) r w" using rows r w by (auto simp: rows_ok_def)
    with x show ?thesis by (auto simp: row_ok_def value_ok_def)
  qed
  then show ?thesis by (simp add: stamped_def)
qed

lemma unstamped_blocked:
  assumes d: "consistent d" and v: "at_known_version d" and "\<not> stamped (db_data d)"
  shows "\<exists>e. alembic_upgrade_head se d = (d, Some e)"
proof -
  obtain xs ys where xs: "CHAIN = xs @ ys" "db_version d = version_of xs"
    "chain_catalog xs empty_catalog = Inr (db_catalog d)"
    using at_known_versionE [OF v] .
  have "\<exists>e. run_plan se (plan_of ys) d = Inl e"
  proof (cases "run_plan se (plan_of ys) d")
    case (Inr d')
    have "chain_catalog (xs @ ys) empty_catalog = Inr (db_catalog d')"
      using plan_follows(1) [OF Inr] xs(3) by (simp add: chain_catalog_append)
    then have "stamped (db_data d')"
      using head_stamped [OF plan_keeps [OF d Inr]] by (simp only: xs(1))
    moreover have ys: "set ys \<subseteq> set CHAIN" unfolding xs(1) by simp
    have "fact_holds (db_data d') f \<longleftrightarrow> fact_holds (db_data d) f" if "f \<in> STAMPS" for f
      by (rule plan_keeps_facts [OF Inr])
        (use stamps_untouched that ys in \<open>unfold list_all_iff [where xs = CHAIN] Ball_def, blast\<close>)
    ultimately have "stamped (db_data d)" by (simp add: stamped_iff)
    with assms(3) show ?thesis ..
  qed simp
  then show ?thesis using xs by (auto simp: alembic_upgrade_head_def upgrade_plan_suffix run_plan_Inl)
qed

end
