(* ===== verification/PW_Downgrade.thy ===== *)
theory PW_Downgrade
  imports PW_Chain
begin

text \<open>
  When a statement takes back another: executed after it, it restores the catalogue and every
  row. The check is evaluated on the \<open>upgrade\<close> and \<open>downgrade\<close> of every script.
\<close>

fun converts :: "statement \<Rightarrow> bool" where
  "converts (AlterType t n ty u) \<longleftrightarrow> True"
| "converts _ \<longleftrightarrow> False"

text \<open>\<open>undoes c s s'\<close>: over the catalogue \<open>c\<close>, \<open>s'\<close> takes back \<open>s\<close>.\<close>

fun undoes :: "catalog \<Rightarrow> statement \<Rightarrow> statement \<Rightarrow> bool" where
  "undoes c (CreateTable r) s' \<longleftrightarrow> s' = DropTable (rel_name r)"
| "undoes c (AddColumn t x) s' \<longleftrightarrow> s' = DropColumn t (col_name x)"
| "undoes c (CreateIndex t n cs) s' \<longleftrightarrow> s' = DropIndex t n"
| "undoes c (CreateType e ls) s' \<longleftrightarrow> s' = DropTypeIfExists e"
| "undoes c (CreateTypeIfMissing e ls) s' \<longleftrightarrow> labels_of c e = None \<and> s' = DropTypeIfExists e"
| "undoes c (SetNullable t n b) s' \<longleftrightarrow> (case s' of
     SetNullable t' n' b' \<Rightarrow> t' = t \<and> n' = n \<and> column_type_is c t n (\<lambda>x. col_nullable x = b')
   | _ \<Rightarrow> False)"
| "undoes c (SetDefault t n d) s' \<longleftrightarrow> (case s' of
     SetDefault t' n' d' \<Rightarrow> t' = t \<and> n' = n \<and> column_type_is c t n (\<lambda>x. col_default x = d')
   | _ \<Rightarrow> False)"
| "undoes c (AlterType t n ty u) s' \<longleftrightarrow> (case s' of
     AlterType t' n' ty' u' \<Rightarrow> t' = t \<and> n' = n \<and> convertible ty u' ty'
       \<and> column_type_is c t n (\<lambda>x. col_type x = ty')
   | _ \<Rightarrow> False)"
| "undoes c (DropConstraint t n) s' \<longleftrightarrow> (case s' of
     AddConstraint t' n' k \<Rightarrow> t' = t \<and> n' = n
       \<and> some_relation c t (\<lambda>r. {p \<in> rel_constraints r. fst p = n} = {(n, k)})
   | _ \<Rightarrow> False)"
| "undoes c (AddConstraint t n k) s' \<longleftrightarrow> s' = DropConstraint t n
     \<and> (references k \<noteq> None \<or> \<not> referenced c t (\<lambda>us. us = key_columns k))"
| "undoes c _ s' \<longleftrightarrow> False"

section \<open>The catalogue comes back\<close>

lemma alter_undo:
  assumes n: "\<And>r. rel_name (f r) = rel_name r"
    and g: "\<And>r. r \<in> set (relations c) \<Longrightarrow> rel_name r = t \<Longrightarrow> g (f r) = r"
  shows "alter_relation t g (alter_relation t f c) = c"
proof -
  have "map (\<lambda>r. if rel_name r = t then g r else r)
      (map (\<lambda>r. if rel_name r = t then f r else r) (relations c)) = relations c"
    using n g by (auto intro: map_idI)
  then show ?thesis by (simp add: alter_relation_def del: map_map)
qed

lemma alter_one_column_undo:
  assumes n: "\<And>x. col_name (f x) = col_name x"
    and g: "\<And>x. x \<in> set (rel_columns r) \<Longrightarrow> col_name x = n \<Longrightarrow> g (f x) = x"
  shows "alter_one_column n g (alter_one_column n f r) = r"
proof -
  have "map (\<lambda>x. if col_name x = n then g x else x)
      (map (\<lambda>x. if col_name x = n then f x else x) (rel_columns r)) = rel_columns r"
    using n g by (auto intro: map_idI)
  then show ?thesis by (simp add: alter_one_column_def del: map_map)
qed

lemma one_column_undo:
  assumes c: "catalog_ok c" and n: "\<And>x. col_name (f x) = col_name x"
    and g: "column_type_is c t n (\<lambda>x. g (f x) = x)"
  shows "alter_relation t (alter_one_column n g) (alter_relation t (alter_one_column n f) c) = c"
proof (rule alter_undo)
  fix r
  assume r: "r \<in> set (relations c)" "rel_name r = t"
  have "\<forall>x \<in> set (rel_columns r). col_name x = n \<longrightarrow> g (f x) = x"
    using the_relation [OF c g [unfolded column_type_is_def] r] .
  then show "alter_one_column n g (alter_one_column n f r) = r"
    using n by (intro alter_one_column_undo) auto
qed simp

lemma referenced_present:
  assumes c: "catalog_ok c" and r: "referenced c t (\<lambda>us. n \<in> set us)"
  shows "column_present c t n"
proof -
  obtain q k where q: "q \<in> set (relations c)" "k \<in> rel_constraints q"
    and k: "case references (snd k) of None \<Rightarrow> False | Some (u, us) \<Rightarrow> u = t \<and> n \<in> set us"
    using r unfolding referenced_def by blast
  obtain us where us: "references (snd k) = Some (t, us)" "n \<in> set us"
    using k by (cases "references (snd k)") auto
  obtain p k' where p: "p \<in> set (relations c)" "rel_name p = t" "k' \<in> rel_constraints p"
    "key_columns (snd k') = us"
    using relation_okD(4) [OF c q] us by (auto simp: target_ok_def some_relation_def is_key_def)
  then have "n \<in> column_names p" using relation_okD(3) [OF c p(1,3)] us(2) by auto
  then show ?thesis using p by (auto simp: column_present_def some_relation_def)
qed

lemma referenced_same:
  assumes "\<And>r. rel_constraints (f r) = rel_constraints r"
  shows "referenced (alter_relation u f c) t P = referenced c t P"
  using assms by (auto simp: referenced_def catalog_simps simp del: if_image_distrib)

lemma column_present_one_column [simp]:
  assumes "\<And>x. col_name (f x) = col_name x"
  shows "column_present (alter_relation t (alter_one_column m f) c) u n = column_present c u n"
  using assms by (simp add: column_present_def some_relation_alter alter_one_column_names)

lemma column_type_is_one_column:
  assumes "\<And>x. col_name (f x) = col_name x"
  shows "column_type_is (alter_relation t (alter_one_column n f) c) t n P
    = column_type_is c t n (\<lambda>x. P (f x))"
  using assms by (auto simp: column_type_is_def some_relation_alter alter_one_column_def
    elim!: some_relation_mono)

section \<open>Undoing one statement\<close>

lemma undo_create_table:
  assumes d: "consistent d" and e: "execute se (CreateTable r) d = Inr d1"
  shows "execute se (DropTable (rel_name r)) d1 = Inr d"
proof -
  let ?c = "db_catalog d"
  have c: "catalog_ok ?c" using d by (simp add: consistent_def)
  have fresh: "rel_name r \<notin> table_names ?c" using e by (auto simp: execute_Inr split: if_splits)
  have "map_option fst (references (snd k)) \<noteq> Some (rel_name r)"
    if q: "q \<in> set (relations ?c)" "k \<in> rel_constraints q" for q k
  proof
    assume "map_option fst (references (snd k)) = Some (rel_name r)"
    then obtain us where "references (snd k) = Some (rel_name r, us)" by auto
    then have "some_relation ?c (rel_name r) (\<lambda>p. is_key p us)"
      using relation_okD(4) [OF c q] by (simp add: target_ok_def)
    then show False using fresh unfolding some_relation_def table_names_def by (metis image_eqI)
  qed
  moreover have "filter (\<lambda>q. rel_name q \<noteq> rel_name r) (relations ?c) = relations ?c"
    using fresh unfolding table_names_def filter_id_conv by (metis image_eqI)
  moreover have "db_data d (rel_name r) = []"
    using d fresh by (simp add: consistent_def rows_ok_def)
  then have "(db_data d)(rel_name r := []) = db_data d" by auto
  ultimately show ?thesis
    using e by (auto simp: execute_Inr table_names_def)
qed

lemma undo_add_column:
  assumes d: "consistent d" and e: "execute se (AddColumn t x) d = Inr d1"
  shows "execute se (DropColumn t (col_name x)) d1 = Inr d"
proof -
  let ?c = "db_catalog d" and ?n = "col_name x"
  let ?f = "\<lambda>r. r\<lparr>rel_columns := rel_columns r @ [x]\<rparr>"
  let ?g = "\<lambda>r. r\<lparr>rel_columns := filter (\<lambda>x. col_name x \<noteq> ?n) (rel_columns r),
     rel_constraints := {k \<in> rel_constraints r. ?n \<notin> set (key_columns (snd k))},
     rel_indexes := {i \<in> rel_indexes r. ?n \<notin> set (snd i)}\<rparr>"
  have c: "catalog_ok ?c" and D: "rows_ok ?c (db_data d)" using d by (simp_all add: consistent_def)
  have t: "t \<in> table_names ?c" and absent: "\<not> column_present ?c t ?n"
    and d1: "db_catalog d1 = alter_relation t ?f ?c"
      "db_data d1 = (db_data d)(t := map (\<lambda>w. w(?n := new_value se x)) (db_data d t))"
      "db_version d1 = db_version d"
    using e by (auto simp: execute_Inr split: if_splits)
  have fresh: "?n \<notin> column_names r" if "r \<in> set (relations ?c)" "rel_name r = t" for r
    using absent that by (auto simp: column_present_def some_relation_def)
  have "?g (?f r) = r" if r: "r \<in> set (relations ?c)" "rel_name r = t" for r
  proof -
    have "filter (\<lambda>y. col_name y \<noteq> ?n) (rel_columns r) = rel_columns r"
      using fresh [OF r] unfolding column_names_def filter_id_conv by (metis image_eqI)
    moreover have "{k \<in> rel_constraints r. ?n \<notin> set (key_columns (snd k))} = rel_constraints r"
      using relation_okD(3) [OF c r(1)] fresh [OF r] by blast
    moreover have "{i \<in> rel_indexes r. ?n \<notin> set (snd i)} = rel_indexes r"
      using relation_okD(5) [OF c r(1)] fresh [OF r] by blast
    ultimately show ?thesis by simp
  qed
  then have cat: "alter_relation t ?g (alter_relation t ?f ?c) = ?c"
    by (intro alter_undo) simp_all
  obtain r where r: "r \<in> set (relations ?c)" "rel_name r = t"
    using t by (auto simp: table_names_def)
  have "w(?n := SqlNull) = w" if "w \<in> set (db_data d t)" for w
    using rows_okD [OF D r(1), of w] that fresh [OF r] r(2) by (simp add: row_ok_def fun_upd_idem)
  then have rows: "map (\<lambda>w. w(?n := SqlNull)) (map (\<lambda>w. w(?n := new_value se x)) (db_data d t))
      = db_data d t"
    by (simp add: map_idI)
  have "column_present (db_catalog d1) t ?n"
    using r unfolding d1 column_present_def
    by (subst some_relation_alter) (auto simp: some_relation_def column_names_def)
  moreover have "\<not> referenced (db_catalog d1) t (\<lambda>us. ?n \<in> set us)"
    using absent referenced_present [OF c] unfolding d1 by (subst referenced_same) auto
  ultimately show ?thesis
    using cat rows d1 by (simp add: execute_Inr del: map_map)
qed


lemma undo_create_index:
  assumes d: "consistent d" and e: "execute se (CreateIndex t n cs) d = Inr d1"
  shows "execute se (DropIndex t n) d1 = Inr d"
proof -
  let ?c = "db_catalog d"
  let ?f = "\<lambda>r. r\<lparr>rel_indexes := insert (n, cs) (rel_indexes r)\<rparr>"
  let ?g = "\<lambda>r. r\<lparr>rel_indexes := {i \<in> rel_indexes r. fst i \<noteq> n}\<rparr>"
  have fresh: "n \<notin> index_names ?c" and t: "some_relation ?c t (\<lambda>r. set cs \<subseteq> column_names r)"
    and d1: "d1 = d\<lparr>db_catalog := alter_relation t ?f ?c\<rparr>"
    using e by (auto simp: execute_Inr split: if_splits)
  have "?g (?f r) = r" if r: "r \<in> set (relations ?c)" for r
  proof -
    have "n \<notin> fst ` rel_indexes r" using fresh r by (auto simp: index_names_def)
    then have "{i \<in> insert (n, cs) (rel_indexes r). fst i \<noteq> n} = rel_indexes r" by auto
    then show ?thesis by simp
  qed
  then have "alter_relation t ?g (alter_relation t ?f ?c) = ?c"
    by (intro alter_undo) simp_all
  moreover have "some_relation (alter_relation t ?f ?c) t (\<lambda>r. n \<in> fst ` rel_indexes r)"
    using t by (subst some_relation_alter) (auto elim!: some_relation_mono)
  ultimately show ?thesis by (simp add: execute_Inr d1)
qed

lemma undo_create_type:
  assumes d: "consistent d" and fresh: "labels_of (db_catalog d) e = None"
    and d1: "d1 = d\<lparr>db_catalog := (db_catalog d)\<lparr>enum_types := enum_types (db_catalog d) @ [(e, ls)]\<rparr>\<rparr>"
  shows "execute se (DropTypeIfExists e) d1 = Inr d"
proof -
  have e: "e \<notin> fst ` set (enum_types (db_catalog d))" using fresh by (simp add: labels_of_None)
  have "col_type x \<noteq> EnumT e"
    if "r \<in> set (relations (db_catalog d))" "x \<in> set (rel_columns r)" for r x
    using relation_okD(2) [OF _ that] d e by (auto simp: consistent_def column_ok_def)
  moreover have "filter (\<lambda>p. fst p \<noteq> e) (enum_types (db_catalog d)) = enum_types (db_catalog d)"
    using e unfolding filter_id_conv by (metis image_eqI)
  ultimately show ?thesis by (auto simp: execute_Inr d1)
qed

lemma undo_one_column:
  assumes d: "consistent d" and f: "\<And>x. col_name (f x) = col_name x"
    and n: "column_present (db_catalog d) t n"
    and g: "column_type_is (db_catalog d) t n (\<lambda>x. g (f x) = x)"
  shows "alter_relation t (alter_one_column n g) (alter_relation t (alter_one_column n f) (db_catalog d))
      = db_catalog d"
    and "column_present (alter_relation t (alter_one_column n f) (db_catalog d)) t n"
  using one_column_undo [OF _ f g] d n f by (simp_all add: consistent_def)

lemma undo_set_nullable:
  assumes d: "consistent d" and e: "execute se (SetNullable t n b) d = Inr d1"
    and old: "column_type_is (db_catalog d) t n (\<lambda>x. col_nullable x = b')"
  shows "execute se (SetNullable t n b') d1 = Inr d"
proof -
  let ?c = "db_catalog d"
  have c: "catalog_ok ?c" and D: "rows_ok ?c (db_data d)" using d by (simp_all add: consistent_def)
  have n: "column_present ?c t n"
    and d1: "d1 = d\<lparr>db_catalog := alter_relation t (alter_one_column n (\<lambda>x. x\<lparr>col_nullable := b\<rparr>)) ?c\<rparr>"
    using e by (auto simp: execute_Inr split: if_splits)
  have "column_type_is ?c t n (\<lambda>x. x\<lparr>col_nullable := b, col_nullable := b'\<rparr> = x)"
    using old by (auto elim!: column_type_is_mono)
  note undo = undo_one_column [where f = "\<lambda>x. x\<lparr>col_nullable := b\<rparr>" and g = "\<lambda>x. x\<lparr>col_nullable := b'\<rparr>",
      OF d _ n this, simplified]
  have "w n \<noteq> SqlNull" if w: "w \<in> set (db_data d t)" and b': "\<not> b'" for w
  proof -
    obtain r where r: "r \<in> set (relations ?c)" "rel_name r = t" "n \<in> column_names r"
      using n by (auto simp: column_present_def some_relation_def)
    then obtain x where x: "x \<in> set (rel_columns r)" "col_name x = n"
      by (auto simp: column_names_def)
    have "\<not> col_nullable x"
      using the_relation [OF c old [unfolded column_type_is_def] r(1,2)] x b' by blast
    then show ?thesis
      using rows_okD [OF D r(1), of w] w r(2) x by (auto simp: row_ok_def value_ok_def split: if_splits)
  qed
  then show ?thesis using undo by (auto simp: execute_Inr d1)
qed

lemma undo_set_default:
  assumes d: "consistent d" and e: "execute se (SetDefault t n df) d = Inr d1"
    and old: "column_type_is (db_catalog d) t n (\<lambda>x. col_default x = df')"
  shows "execute se (SetDefault t n df') d1 = Inr d"
proof -
  let ?c = "db_catalog d"
  have c: "catalog_ok ?c" using d by (simp add: consistent_def)
  have n: "column_present ?c t n"
    and d1: "d1 = d\<lparr>db_catalog := alter_relation t (alter_one_column n (\<lambda>x. x\<lparr>col_default := df\<rparr>)) ?c\<rparr>"
    using e by (auto simp: execute_Inr split: if_splits)
  have "column_type_is ?c t n (\<lambda>x. x\<lparr>col_default := df, col_default := df'\<rparr> = x)"
    using old by (auto elim!: column_type_is_mono)
  note undo = undo_one_column [where f = "\<lambda>x. x\<lparr>col_default := df\<rparr>" and g = "\<lambda>x. x\<lparr>col_default := df'\<rparr>",
      OF d _ n this, simplified]
  have "column_type_is ?c t n (\<lambda>x. case df' of None \<Rightarrow> True | Some d \<Rightarrow> default_fits (col_type x) d)"
    unfolding column_type_is_def
    using old [unfolded column_type_is_def]
  proof (rule some_relation_mono, intro ballI impI)
    fix r x
    assume r: "r \<in> set (relations ?c)" and x: "x \<in> set (rel_columns r)" "col_name x = n"
      and o: "\<forall>x \<in> set (rel_columns r). col_name x = n \<longrightarrow> col_default x = df'"
    have "column_ok ?c x" using relation_okD(2) [OF c r x(1)] .
    then show "case df' of None \<Rightarrow> True | Some d \<Rightarrow> default_fits (col_type x) d"
      using o x by (auto simp: column_ok_def)
  qed
  then show ?thesis
    using undo by (simp add: execute_Inr d1 column_type_is_one_column cong: option.case_cong)
qed

lemma convert_back:
  assumes "convertible ty' u ty" and "convertible ty u' ty'" and "value_ok E x v" and "col_type x = ty'"
    and "\<And>t. local_time se t = t"
  shows "convert se u' (convert se u v) = v"
  using assms by (cases v) (auto simp: value_ok_def convertible_def split: if_splits)

lemma undo_alter_type:
  assumes d: "consistent d" and e: "execute se (AlterType t n ty u) d = Inr d1"
    and u': "convertible ty u' ty'" and old: "column_type_is (db_catalog d) t n (\<lambda>x. col_type x = ty')"
    and utc: "\<And>t. local_time se t = t"
  shows "execute se (AlterType t n ty' u') d1 = Inr d"
proof -
  let ?c = "db_catalog d" and ?f = "\<lambda>x. x\<lparr>col_type := ty\<rparr>"
  have c: "catalog_ok ?c" and D: "rows_ok ?c (db_data d)" and H: "constraints_hold ?c (db_data d)"
    using d by (simp_all add: consistent_def)
  have n: "column_present ?c t n"
    and conv: "column_type_is ?c t n (\<lambda>x. convertible (col_type x) u ty
        \<and> (case col_default x of None \<Rightarrow> True | Some d \<Rightarrow> default_fits ty d))"
    and d1: "d1 = d\<lparr>db_catalog := alter_relation t (alter_one_column n ?f) ?c,
      db_data := (db_data d)(t := map (\<lambda>w. w(n := convert se u (w n))) (db_data d t))\<rparr>"
    using e by (auto simp: execute_Inr split: if_splits)
  have "column_type_is ?c t n (\<lambda>x. x\<lparr>col_type := ty, col_type := ty'\<rparr> = x)"
    using old by (auto elim!: column_type_is_mono)
  note undo = undo_one_column [where f = "\<lambda>x. x\<lparr>col_type := ty\<rparr>" and g = "\<lambda>x. x\<lparr>col_type := ty'\<rparr>",
      OF d _ n this, simplified]
  obtain r where r: "r \<in> set (relations ?c)" "rel_name r = t" "n \<in> column_names r"
    using n by (auto simp: column_present_def some_relation_def)
  then obtain x where x: "x \<in> set (rel_columns r)" "col_name x = n"
    by (auto simp: column_names_def)
  have tx: "col_type x = ty'" "convertible ty' u ty"
    using the_relation [OF c old [unfolded column_type_is_def] r(1,2)]
      the_relation [OF c conv [unfolded column_type_is_def] r(1,2)] x by blast+
  have "convert se u' (convert se u (w n)) = w n" if "w \<in> set (db_data d t)" for w
    using convert_back [OF tx(2) u' _ tx(1) utc] rows_okD [OF D r(1)] that r(2) x
    by (auto simp: row_ok_def)
  then have same_rows: "map (\<lambda>w. w(n := convert se u' (w n)))
      (map (\<lambda>w. w(n := convert se u (w n))) (db_data d t)) = db_data d t"
    by (auto intro!: map_idI simp: fun_upd_idem)
  have fits: "column_type_is ?c t n (\<lambda>x. case col_default x of None \<Rightarrow> True
      | Some d \<Rightarrow> default_fits ty' d)"
    unfolding column_type_is_def
    using old [unfolded column_type_is_def]
  proof (rule some_relation_mono, intro ballI impI)
    fix r x
    assume r: "r \<in> set (relations ?c)" and x: "x \<in> set (rel_columns r)" "col_name x = n"
      and o: "\<forall>x \<in> set (rel_columns r). col_name x = n \<longrightarrow> col_type x = ty'"
    have "column_ok ?c x" using relation_okD(2) [OF c r x(1)] .
    then show "case col_default x of None \<Rightarrow> True | Some d \<Rightarrow> default_fits ty' d"
      using o x by (auto simp: column_ok_def split: option.splits)
  qed
  have "constraints_hold (alter_relation t (alter_one_column n ?f) ?c) (db_data d)"
    using H by (intro constraints_hold_same) simp_all
  then show ?thesis
    using undo same_rows fits u' by (simp add: execute_Inr d1 column_type_is_one_column del: map_map)
qed

lemma undo_drop_constraint:
  assumes d: "consistent d" and e: "execute se (DropConstraint t n) d = Inr d1"
    and only: "some_relation (db_catalog d) t (\<lambda>r. {p \<in> rel_constraints r. fst p = n} = {(n, k)})"
  shows "execute se (AddConstraint t n k) d1 = Inr d"
proof -
  let ?c = "db_catalog d"
  let ?f = "\<lambda>r. r\<lparr>rel_constraints := {k \<in> rel_constraints r. fst k \<noteq> n}\<rparr>"
  let ?g = "\<lambda>r. r\<lparr>rel_constraints := insert (n, k) (rel_constraints r)\<rparr>"
  have c: "catalog_ok ?c" and H: "constraints_hold ?c (db_data d)"
    using d by (simp_all add: consistent_def)
  have d1: "d1 = d\<lparr>db_catalog := alter_relation t ?f ?c\<rparr>"
    using e by (auto simp: execute_Inr)
  obtain r where r: "r \<in> set (relations ?c)" "rel_name r = t"
    using only by (auto simp: some_relation_def)
  have k: "{p \<in> rel_constraints q. fst p = n} = {(n, k)}"
    if "q \<in> set (relations ?c)" "rel_name q = t" for q
    using the_relation [OF c only that] .
  have kr: "(n, k) \<in> rel_constraints r" using k [OF r] by blast
  have "?g (?f q) = q" if q: "q \<in> set (relations ?c)" "rel_name q = t" for q
  proof -
    have "insert (n, k) {p \<in> rel_constraints q. fst p \<noteq> n} = rel_constraints q"
      using k [OF q] by blast
    then show ?thesis by simp
  qed
  then have "alter_relation t ?g (alter_relation t ?f ?c) = ?c" by (intro alter_undo) simp_all
  moreover have "catalog_ok (alter_relation t ?f ?c)"
    using execute_consistent [OF d e] by (simp add: d1 consistent_def)
  have "target_ok (alter_relation t ?f ?c) k"
  proof -
    have "keeps_keys ?c t ?f"
    proof (rule keeps_keysI)
      fix q p us
      assume q: "q \<in> set (relations ?c)" "rel_name q = t" and p: "p \<in> rel_constraints q"
        "snd p = PrimaryKey us \<or> snd p = UniqueKey us" and us: "referenced ?c t (\<lambda>v. v = us)"
      have "\<not> key_dropped ?c t n" using e by (auto simp: execute_Inr split: if_splits)
      then have "fst p \<noteq> n"
        using not_some_relation [OF _ q] p us unfolding key_dropped_def by fastforce
      then show "p \<in> rel_constraints (?f q)" using p by simp
    qed
    from target_ok_alter [OF c _ this r(1) kr] show ?thesis by simp
  qed
  then have "some_relation (alter_relation t ?f ?c) t (\<lambda>q. constr_ok (alter_relation t ?f ?c) q k)"
    using r relation_okD(3) [OF c r(1) kr]
    by (subst some_relation_alter) (auto simp: some_relation_def constr_ok_def column_names_def)
  moreover have "\<not> some_relation (alter_relation t ?f ?c) t (\<lambda>q. n \<in> fst ` rel_constraints q)"
    by (subst some_relation_alter) (auto simp: some_relation_def)
  moreover have "holds (db_data d) t k"
    using constraints_holdD [OF H r(1) kr] r(2) by simp
  ultimately show ?thesis by (simp add: execute_Inr d1)
qed

lemma undo_add_constraint:
  assumes d: "consistent d" and e: "execute se (AddConstraint t n k) d = Inr d1"
    and free: "references k \<noteq> None \<or> \<not> referenced (db_catalog d) t (\<lambda>us. us = key_columns k)"
  shows "execute se (DropConstraint t n) d1 = Inr d"
proof -
  let ?c = "db_catalog d"
  let ?f = "\<lambda>r. r\<lparr>rel_constraints := insert (n, k) (rel_constraints r)\<rparr>"
  let ?g = "\<lambda>r. r\<lparr>rel_constraints := {k \<in> rel_constraints r. fst k \<noteq> n}\<rparr>"
  have t: "some_relation ?c t (\<lambda>r. constr_ok ?c r k)"
    and new: "\<not> some_relation ?c t (\<lambda>r. n \<in> fst ` rel_constraints r)"
    and d1: "d1 = d\<lparr>db_catalog := alter_relation t ?f ?c\<rparr>"
    using e by (auto simp: execute_Inr split: if_splits)
  have fresh: "n \<notin> fst ` rel_constraints q" if "q \<in> set (relations ?c)" "rel_name q = t" for q
    using not_some_relation [OF new that] .
  have "?g (?f q) = q" if q: "q \<in> set (relations ?c)" "rel_name q = t" for q
  proof -
    have "{p \<in> insert (n, k) (rel_constraints q). fst p \<noteq> n} = rel_constraints q"
      using fresh [OF q] by auto
    then show ?thesis by simp
  qed
  then have "alter_relation t ?g (alter_relation t ?f ?c) = ?c" by (intro alter_undo) simp_all
  moreover have "some_relation (alter_relation t ?f ?c) t (\<lambda>r. n \<in> fst ` rel_constraints r)"
    using t by (subst some_relation_alter) (auto elim!: some_relation_mono)
  moreover have "\<not> key_dropped (alter_relation t ?f ?c) t n"
  proof
    assume "key_dropped (alter_relation t ?f ?c) t n"
    then have "some_relation ?c t (\<lambda>q. \<exists>p \<in> insert (n, k) (rel_constraints q). fst p = n
        \<and> references (snd p) = None
        \<and> referenced (alter_relation t ?f ?c) t (\<lambda>us. us = key_columns (snd p)))"
      unfolding key_dropped_def by (subst (asm) some_relation_alter) simp_all
    then obtain q p where q: "q \<in> set (relations ?c)" "rel_name q = t"
      and p: "p \<in> insert (n, k) (rel_constraints q)" "fst p = n" "references (snd p) = None"
      "referenced (alter_relation t ?f ?c) t (\<lambda>us. us = key_columns (snd p))"
      unfolding some_relation_def by blast
    have "p = (n, k)" using p(1,2) fresh [OF q] by force
    then have "references k = None" "referenced ?c t (\<lambda>us. us = key_columns k)"
      using p(3,4) by (auto simp: referenced_def catalog_simps simp del: if_image_distrib
          split: if_splits)
    then show False using free by simp
  qed
  ultimately show ?thesis by (simp add: execute_Inr d1)
qed

text \<open>All statements together.\<close>

lemma undo_execute:
  assumes d: "consistent d" and e: "execute se s d = Inr d1" and u: "undoes (db_catalog d) s s'"
    and utc: "converts s \<Longrightarrow> \<forall>t. local_time se t = t"
  shows "execute se s' d1 = Inr d"
proof (cases s)
  case (CreateType a ls)
  then have "labels_of (db_catalog d) a = None"
    "d1 = d\<lparr>db_catalog := (db_catalog d)\<lparr>enum_types := enum_types (db_catalog d) @ [(a, ls)]\<rparr>\<rparr>"
    using e by (auto simp: execute_Inr split: if_splits)
  from undo_create_type [OF d this] show ?thesis using u CreateType by simp
next
  case (CreateTypeIfMissing a ls)
  then have "labels_of (db_catalog d) a = None"
    "d1 = d\<lparr>db_catalog := (db_catalog d)\<lparr>enum_types := enum_types (db_catalog d) @ [(a, ls)]\<rparr>\<rparr>"
    using e u by (auto simp: execute_Inr)
  from undo_create_type [OF d this] show ?thesis using u CreateTypeIfMissing by simp
next
  case (CreateTable r)
  then show ?thesis using undo_create_table [OF d] e u by simp
next
  case (AddColumn t x)
  then show ?thesis using undo_add_column [OF d] e u by simp
next
  case (CreateIndex t n cs)
  then show ?thesis using undo_create_index [OF d] e u by simp
next
  case (SetNullable t n b)
  then show ?thesis using undo_set_nullable [OF d] e u by (cases s') auto
next
  case (SetDefault t n b)
  then show ?thesis using undo_set_default [OF d] e u by (cases s') auto
next
  case (AlterType t n ty c)
  then show ?thesis using undo_alter_type [OF d, of se t n ty c d1] e u utc by (cases s') auto
next
  case (DropConstraint t n)
  then show ?thesis using undo_drop_constraint [OF d] e u by (cases s') auto
next
  case (AddConstraint t n k)
  then show ?thesis using undo_add_constraint [OF d] e u by simp
qed (use u in auto)

section \<open>Undoing a script\<close>

fun undo_list :: "catalog \<Rightarrow> statement list \<Rightarrow> statement list \<Rightarrow> bool" where
  "undo_list c [] es \<longleftrightarrow> es = []"
| "undo_list c (s # ss) es \<longleftrightarrow> es \<noteq> [] \<and> undoes c s (last es) \<and> undo_list (effect s c) ss (butlast es)"

lemma undo_run:
  assumes "consistent d" and "run_statements (execute se) ss d = Inr d1"
    and "undo_list (db_catalog d) ss es"
    and "list_ex converts ss \<Longrightarrow> \<forall>t. local_time se t = t"
  shows "run_statements (execute se) es d1 = Inr d"
  using assms
proof (induction ss arbitrary: d es)
  case (Cons s ss)
  obtain d2 where d2: "execute se s d = Inr d2" "run_statements (execute se) ss d2 = Inr d1"
    using Cons.prems(2) by (auto split: sum.splits)
  have es: "es = butlast es @ [last es]" and u: "undoes (db_catalog d) s (last es)"
    and us: "undo_list (effect s (db_catalog d)) ss (butlast es)"
    using Cons.prems(3) by auto
  have "db_catalog d2 = effect s (db_catalog d)" using d2(1) by (auto simp: execute_Inr)
  then have "run_statements (execute se) (butlast es) d1 = Inr d2"
    using Cons.IH [OF execute_consistent [OF Cons.prems(1) d2(1)] d2(2)] us Cons.prems(4) by auto
  moreover have "execute se (last es) d2 = Inr d"
    using undo_execute [OF Cons.prems(1) d2(1) u] Cons.prems(4) by auto
  ultimately show ?case
    by (subst es) (simp add: run_statements_append)
qed simp

text \<open>Two dropped types may be dropped in either order.\<close>

fun reorder :: "statement list \<Rightarrow> statement list" where
  "reorder (DropTypeIfExists b # DropTypeIfExists a # es) = DropTypeIfExists a # DropTypeIfExists b # es"
| "reorder es = es"

lemma drop_types_commute:
  "run_statements (execute se) [DropTypeIfExists a, DropTypeIfExists b] d
     = run_statements (execute se) [DropTypeIfExists b, DropTypeIfExists a] d"
  by (auto simp: execute_def filter_filter conj_commute)

lemma reorder_run:
  "run_statements (execute se) (rev (reorder (rev es))) d = run_statements (execute se) es d"
proof (cases "rev es" rule: reorder.cases)
  case (1 b a r)
  then have "es = rev r @ [DropTypeIfExists a, DropTypeIfExists b]"
    by (metis append.assoc append_Cons append_Nil rev.simps(2) rev_rev_ident)
  then show ?thesis
    using drop_types_commute [of se] by (auto simp: run_statements_append simp del: run_statements.simps
      split: sum.splits)
qed (metis reorder.simps rev_rev_ident)+

definition script_undone :: "revision \<Rightarrow> catalog \<Rightarrow> bool" where
  "script_undone s c \<longleftrightarrow> compiles (rev_upgrade s) \<and> compiles (rev_downgrade s)
     \<and> undo_list c (emitted (rev_upgrade s)) (rev (reorder (rev (emitted (rev_downgrade s)))))
     \<and> (list_ex converts (emitted (rev_upgrade s)) \<longrightarrow> rev_id s = ''ffd0de8ef6dc'')"

fun chain_undone :: "revision list \<Rightarrow> catalog \<Rightarrow> bool" where
  "chain_undone [] c \<longleftrightarrow> True"
| "chain_undone (s # ss) c \<longleftrightarrow>
     (rev_id s \<in> {''62b88e6c93af'', ''54db233075d4''} \<or> script_undone s c)
     \<and> (case run_ops alter_catalog (rev_upgrade s) c of Inl e \<Rightarrow> False | Inr c' \<Rightarrow> chain_undone ss c')"

lemma chain_undone_at:
  "chain_undone (xs @ s # ys) c \<Longrightarrow> chain_catalog xs c = Inr c' \<Longrightarrow>
     rev_id s \<notin> {''62b88e6c93af'', ''54db233075d4''} \<Longrightarrow> script_undone s c'"
  by (induction xs arbitrary: c)
    (auto simp: chain_catalog_def run_ops_append split: sum.splits)

lemma scripts_undone: "chain_undone CHAIN empty_catalog"
  by code_simp

lemma script_undone_run:
  assumes d: "consistent d" and s: "script_undone s (db_catalog d)"
    and r: "run_ops (execute se) (rev_upgrade s) d = Inr d1"
    and utc: "rev_id s = ''ffd0de8ef6dc'' \<Longrightarrow> \<forall>t. local_time se t = t"
  shows "run_ops (execute se) (rev_downgrade s) d1 = Inr d"
proof -
  have c: "compiles (rev_upgrade s)" "compiles (rev_downgrade s)"
    and u: "undo_list (db_catalog d) (emitted (rev_upgrade s))
      (rev (reorder (rev (emitted (rev_downgrade s)))))"
    and conv: "list_ex converts (emitted (rev_upgrade s)) \<Longrightarrow> rev_id s = ''ffd0de8ef6dc''"
    using s by (auto simp: script_undone_def)
  have "run_statements (execute se) (emitted (rev_upgrade s)) d = Inr d1"
    using r by (simp add: run_ops_emitted [OF c(1)])
  from undo_run [OF d this u] show ?thesis
    using utc conv by (simp add: reorder_run run_ops_emitted [OF c(2)])
qed

end
