(* ===== verification/PW_MigrationProps.thy ===== *)
theory PW_MigrationProps
  imports PW_Upgrade PW_Downgrade
begin

text \<open>The properties of the migrations.\<close>

section \<open>A database of the first revision\<close>

text \<open>One registered server, from before servers had owners.\<close>

definition first_servers :: relation where
  "first_servers = \<lparr>rel_name = ''servers'', rel_columns =
     [\<lparr>col_name = ''id'', col_type = IntegerT, col_nullable = False, col_default = None\<rparr>,
      \<lparr>col_name = ''name'', col_type = VarcharT None, col_nullable = False, col_default = None\<rparr>,
      \<lparr>col_name = ''api_key_hash'', col_type = VarcharT None, col_nullable = False,
       col_default = None\<rparr>,
      \<lparr>col_name = ''created_at'', col_type = TimestampT, col_nullable = False,
       col_default = Some DefNow\<rparr>,
      \<lparr>col_name = ''last_seen_at'', col_type = TimestampT, col_nullable = True, col_default = None\<rparr>,
      \<lparr>col_name = ''is_active'', col_type = BooleanT, col_nullable = False, col_default = None\<rparr>],
     rel_constraints = {(''servers_pkey'', PrimaryKey [''id'']),
       (''servers_name_key'', UniqueKey [''name''])},
     rel_indexes = {}\<rparr>"

definition demo_row :: row where
  "demo_row = (\<lambda>_. SqlNull)(''id'' := SqlInt 1, ''name'' := SqlText ''web'',
     ''api_key_hash'' := SqlText ''h'', ''created_at'' := SqlTimestamp 0, ''is_active'' := SqlBool True)"

definition demo_servers :: database where
  "demo_servers = \<lparr>db_catalog = \<lparr>enum_types = [], relations = [first_servers]\<rparr>,
     db_data = (\<lambda>_. [])(''servers'' := [demo_row]), db_version = Some ''06fcec7eb504''\<rparr>"

definition utc_session :: session where
  "utc_session = \<lparr>started_at = 0, local_time = (\<lambda>t. t)\<rparr>"

lemma demo_schema: "schema_at (Some ''06fcec7eb504'') = Inr (db_catalog demo_servers)"
  by code_simp

lemma first_version: "Some ''06fcec7eb504'' \<in> insert None (Some ` rev_id ` set SCRIPTS)"
proof -
  have "''06fcec7eb504'' \<in> set (map rev_id SCRIPTS)" unfolding rev_ids by simp
  then show ?thesis by (metis imageI insertI2 list.set_map)
qed

lemma demo_known: "at_known_version demo_servers"
  using first_version demo_schema by (simp add: at_known_version_def demo_servers_def)

lemma empty_known: "at_known_version empty_database"
  by (simp add: at_known_version_def empty_database_def schema_at_def history_def SCRIPTS_def)

lemma empty_consistent: "consistent empty_database"
  by (simp add: consistent_def empty_database_def empty_catalog_def catalog_ok_def rows_ok_def
      constraints_hold_def)

lemma demo_consistent: "consistent demo_servers"
proof -
  have "catalog_ok (db_catalog demo_servers)" by code_simp
  moreover have "rows_ok (db_catalog demo_servers) (db_data demo_servers)"
    by (auto simp: rows_ok_def demo_servers_def first_servers_def demo_row_def row_ok_def
        value_ok_def column_names_def table_names_def)
  moreover have "constraints_hold (db_catalog demo_servers) (db_data demo_servers)"
    by (simp add: constraints_hold_def demo_servers_def first_servers_def demo_row_def)
  ultimately show ?thesis by (simp add: consistent_def)
qed

section \<open>Upgrading\<close>

text \<open>
  The tables at the end of the chain beside those of the models, and beside the metadata of
  \<open>alembic/env.py\<close>, with which \<open>--autogenerate\<close> compares the database: it lacks two of them, and
  the comparison proposes to drop them.
\<close>

lemma final_schemas:
  "case chain_catalog CHAIN empty_catalog of Inl e \<Rightarrow> False
   | Inr c \<Rightarrow> (case run_ops alter_catalog (metadata
        @ [op_alter_column ''docker_aggregates'' ''total_rx_bytes'' [NewDefault (Some (DefInt 0))],
           op_alter_column ''docker_aggregates'' ''total_tx_bytes'' [NewDefault (Some (DefInt 0))]])
        empty_catalog of
       Inl e \<Rightarrow> False
     | Inr c' \<Rightarrow> same_schema c c')
     \<and> (case run_ops alter_catalog target_metadata empty_catalog of
       Inl e \<Rightarrow> False
     | Inr m \<Rightarrow> table_names c - table_names m = {''logs'', ''audit_log''})"
  by code_simp

text \<open>C26: Whatever revision a consistent database is at, a successful \<open>alembic upgrade head\<close> leaves it
  consistent, at the newest revision, and with exactly the tables, columns, types, defaults,
  constraints, indexes and enumerations the ORM models declare, except that the two byte
  counters of docker_aggregates have a server default 0 the model does not declare.
\<close>

theorem upgrade_builds_the_models:
  assumes "consistent d" and "at_known_version d"
    and "alembic_upgrade_head se d = (d', None)"
  shows "consistent d' \<and> db_version d' = Some ''95fa57d46079''
    \<and> (\<exists>c. run_ops alter_catalog (metadata
        @ [op_alter_column ''docker_aggregates'' ''total_rx_bytes'' [NewDefault (Some (DefInt 0))],
           op_alter_column ''docker_aggregates'' ''total_tx_bytes'' [NewDefault (Some (DefInt 0))]])
        empty_catalog = Inr c \<and> same_schema (db_catalog d') c)"
proof -
  obtain xs ys where xs: "CHAIN = xs @ ys" "db_version d = version_of xs"
    "chain_catalog xs empty_catalog = Inr (db_catalog d)"
    using at_known_versionE [OF assms(2)] .
  have run: "run_plan se (plan_of ys) d = Inr d'"
    using assms(3) xs(1,2)
    by (auto simp: alembic_upgrade_head_def upgrade_plan_suffix do_run_migrations_def
        split: sum.splits)
  have "chain_catalog (xs @ ys) empty_catalog = Inr (db_catalog d')"
    using plan_follows(1) [OF run] xs(3) by (simp add: chain_catalog_append)
  then have cat: "chain_catalog CHAIN empty_catalog = Inr (db_catalog d')"
    unfolding xs(1) .
  have "db_version d' = version_of (xs @ ys)"
    using plan_follows(2) [OF run] xs(2) by (simp add: version_of_def)
  then have "db_version d' = head"
    unfolding xs(1) [symmetric] version_of_CHAIN .
  then show ?thesis
    using plan_keeps [OF assms(1) run] final_schemas
    unfolding cat by (auto simp: head_revision split: sum.splits)
qed

theorem upgrade_builds_witness:
  "\<exists>d'. alembic_upgrade_head utc_session empty_database = (d', None) \<and> consistent d'
     \<and> db_version d' = Some ''95fa57d46079''"
proof -
  obtain d' where "alembic_upgrade_head utc_session empty_database = (d', None)"
    using upgrade_runs [OF empty_consistent empty_known, of utc_session]
    by (auto simp: stamped_def empty_database_def)
  then show ?thesis
    using upgrade_builds_the_models [OF empty_consistent empty_known] by blast
qed

text \<open>C27: \<open>alembic upgrade head\<close>, which the container runs before it starts the application, goes
  through on every consistent database of any revision, whatever rows it holds, with exactly two
  exceptions, in which the command fails and changes nothing: a row in servers at the first two
  revisions, where \<open>owner_id\<close> is added NOT NULL without a default, and an aggregate without one of
  its timestamps, which a1b2c3d4e5f6 leaves nullable and d0d1001ee097 makes NOT NULL.
\<close>

theorem upgrade_succeeds_exactly:
  assumes "consistent d" and "at_known_version d"
  shows "if db_version d \<in> {Some ''06fcec7eb504'', Some ''d432b550632e''} \<and> db_data d ''servers'' \<noteq> []
           \<or> \<not> stamped (db_data d)
         then \<exists>e. alembic_upgrade_head se d = (d, Some e)
         else \<exists>d'. alembic_upgrade_head se d = (d', None)"
  using upgrade_runs [OF assms] upgrade_blocked unstamped_blocked [OF assms]
  by (cases "db_data d ''servers'' = []"; cases "stamped (db_data d)") auto

theorem upgrade_succeeds_witness:
  "(\<exists>e. alembic_upgrade_head utc_session demo_servers = (demo_servers, Some e))
   \<and> (\<exists>d'. alembic_upgrade_head utc_session empty_database = (d', None))"
proof
  from upgrade_succeeds_exactly [OF demo_consistent demo_known, of utc_session]
  show "\<exists>e. alembic_upgrade_head utc_session demo_servers = (demo_servers, Some e)"
    by (simp add: demo_servers_def)
  have "stamped (db_data empty_database)" by (simp add: stamped_def empty_database_def)
  with upgrade_succeeds_exactly [OF empty_consistent empty_known, of utc_session]
  show "\<exists>d'. alembic_upgrade_head utc_session empty_database = (d', None)"
    by (simp add: empty_database_def)
qed

lemma autogenerate_drops_two_tables:
  "case (chain_catalog CHAIN empty_catalog, run_ops alter_catalog target_metadata empty_catalog) of
     (Inr c, Inr m) \<Rightarrow> table_names c - table_names m = {''logs'', ''audit_log''}
   | _ \<Rightarrow> False"
  using final_schemas by (simp split: sum.splits)

section \<open>Downgrading\<close>

text \<open>C28: The downgrade of a script takes its upgrade back, the tables and every row, for all
  scripts but two (62b88e6c93af, whose downgrade fails, and 54db233075d4, whose downgrade does
  nothing); for ffd0de8ef6dc, whose downgrade casts \<open>timestamptz\<close> back without naming a zone, this
  needs a session in UTC.
\<close>

theorem downgrade_undoes_upgrade:
  assumes "consistent d" and "at_known_version d" and "s \<in> set SCRIPTS"
    and "down_revision s = db_version d"
    and "rev_id s \<notin> {''62b88e6c93af'', ''54db233075d4''}"
    and "rev_id s = ''ffd0de8ef6dc'' \<Longrightarrow> \<forall>t. local_time se t = t"
    and "do_run_migrations se (plan_of [s]) d = (d', None)"
  shows "alembic_downgrade se (db_version d) d' = (d, None)"
proof -
  obtain xs ys where xs: "CHAIN = xs @ s # ys"
    using assms(3) split_list CHAIN_scripts(1) by metis
  have "linked None (xs @ s # ys)" using linked_CHAIN unfolding xs .
  then have v: "db_version d = version_of xs"
    using assms(4) by (simp add: linked_append version_of_def)
  then have cat: "chain_catalog xs empty_catalog = Inr (db_catalog d)"
    using assms(2) schema_at_prefix [OF xs] by (simp add: at_known_version_def)
  have undone: "script_undone s (db_catalog d)"
    using chain_undone_at [OF scripts_undone [unfolded xs] cat assms(5)] .
  obtain d1 where d1: "run_ops (execute se) (rev_upgrade s) d = Inr d1"
    "d' = d1\<lparr>db_version := Some (rev_id s)\<rparr>"
    using assms(7) by (auto simp: do_run_migrations_def plan_of_def split: sum.splits)
  have "run_ops (execute se) (rev_downgrade s) d1 = Inr d"
    using script_undone_run [OF assms(1) undone d1(1) assms(6)] .
  then have r: "run_ops (execute se) (rev_downgrade s) d' = Inr (d\<lparr>db_version := Some (rev_id s)\<rparr>)"
    unfolding d1(2) by (rule run_ops_version_update)
  have "CHAIN = xs @ [s] @ ys" using xs by simp
  from downgrade_plan_part [OF this]
  have "downgrade_plan (db_version d') (db_version d) = back_of [s]"
    using v d1(2) by simp
  then show ?thesis
    using r assms(4) by (simp add: alembic_downgrade_def do_run_migrations_def back_of_def)
qed

lemma demo_users_created:
  "case run_ops alter_catalog upgrade_d432b550632e (db_catalog demo_servers) of
     Inl e \<Rightarrow> False | Inr c \<Rightarrow> True"
  by code_simp

lemma demo_step: "\<exists>d'. do_run_migrations utc_session (plan_of [revision_d432b550632e]) demo_servers
    = (d', None)"
  using demo_users_created
  by (auto simp: do_run_migrations_def plan_of_def revision_defs upgrade_d432b550632e_def
      op_create_table_def item_columns_def alter_catalog_def execute_def
      split: option.splits if_splits)

theorem downgrade_undoes_witness:
  "\<exists>d'. do_run_migrations utc_session (plan_of [revision_d432b550632e]) demo_servers = (d', None)
     \<and> alembic_downgrade utc_session (Some ''06fcec7eb504'') d' = (demo_servers, None)"
proof -
  obtain d' where d': "do_run_migrations utc_session (plan_of [revision_d432b550632e]) demo_servers
      = (d', None)"
    using demo_step by blast
  have "revision_d432b550632e \<in> set SCRIPTS" by (simp add: SCRIPTS_def)
  from downgrade_undoes_upgrade [OF demo_consistent demo_known this _ _ _ d'] d'
  show ?thesis by (auto simp: revision_defs demo_servers_def utc_session_def)
qed

lemma unnamed_constraint_fails:
  "run_ops exec (rev_downgrade revision_62b88e6c93af) d = Inl CompileError"
  by (simp add: revision_defs downgrade_62b88e6c93af_def op_drop_constraint_def)

lemma run_plan_fails:
  assumes "(os, v) \<in> set ps" and "\<And>d. \<exists>e. run_ops (execute se) os d = Inl e"
  shows "\<exists>e. run_plan se ps d = Inl e"
  using assms(1)
proof (induction ps arbitrary: d)
  case (Cons p ps)
  show ?case
  proof (cases "p = (os, v)")
    case True
    obtain e where "run_ops (execute se) os d = Inl e" using assms(2) by blast
    then show ?thesis using True by simp
  next
    case False
    obtain os' v' where p: "p = (os', v')" by (cases p)
    have "(os, v) \<in> set ps" using Cons.prems False by auto
    then show ?thesis using Cons.IH p by (auto split: sum.split)
  qed
qed simp

lemma back_of_fails:
  assumes "revision_62b88e6c93af \<in> set ss"
  shows "\<exists>e. run_plan se (back_of ss) d = Inl e"
proof (rule run_plan_fails)
  show "(rev_downgrade revision_62b88e6c93af, down_revision revision_62b88e6c93af) \<in> set (back_of ss)"
    using assms by (simp add: back_of_def)
qed (simp add: unnamed_constraint_fails)

text \<open>No database at revision 62b88e6c93af or later can be taken back to a revision before it:
  the downgrade of 62b88e6c93af drops a constraint without a name, which SQLAlchemy refuses to
  compile, and the transaction undoes the steps that led there.
\<close>

theorem base_is_out_of_reach:
  assumes "db_version d \<in> Some ` rev_id ` set SCRIPTS - {Some ''06fcec7eb504'', Some ''d432b550632e''}"
    and "target \<in> {None, Some ''06fcec7eb504'', Some ''d432b550632e''}"
  shows "\<exists>e. alembic_downgrade se target d = (d, Some e)"
proof -
  obtain xs ys where xs: "CHAIN = xs @ ys" "db_version d = version_of xs"
    using known_version assms(1) by (metis DiffD1 insertI2)
  have "\<not> length xs < 3"
    using short_prefix [OF xs(1)] early_versions assms(1) xs(2) by auto
  then have "xs = take 3 CHAIN @ drop 3 xs" unfolding xs(1) by simp
  then obtain zs where zs: "xs = [revision_06fcec7eb504, revision_d432b550632e]
      @ revision_62b88e6c93af # zs"
    by (simp add: CHAIN_def)
  obtain pre post where p: "xs = pre @ post" "version_of pre = target"
    "revision_62b88e6c93af \<in> set post"
    using assms(2) early_versions zs
      that [of "[]" xs] that [of "[revision_06fcec7eb504]" "tl xs"]
      that [of "[revision_06fcec7eb504, revision_d432b550632e]" "revision_62b88e6c93af # zs"]
    by auto
  have "CHAIN = pre @ post @ ys" using xs(1) p(1) by simp
  from downgrade_plan_part [OF this] have "downgrade_plan (db_version d) target = back_of post"
    using xs(2) p(1,2) by simp
  then obtain e where "run_plan se (downgrade_plan (db_version d) target) d = Inl e"
    using back_of_fails [OF p(3)] by metis
  then show ?thesis by (auto simp: alembic_downgrade_def run_plan_Inl)
qed

theorem base_is_out_witness:
  "\<exists>d'. alembic_upgrade_head utc_session empty_database = (d', None)
     \<and> (\<exists>e. alembic_downgrade utc_session None d' = (d', Some e))"
proof -
  obtain d' where d': "alembic_upgrade_head utc_session empty_database = (d', None)"
    using upgrade_runs [OF empty_consistent empty_known, of utc_session]
    by (auto simp: stamped_def empty_database_def)
  have "run_plan utc_session (plan_of CHAIN) empty_database = Inr d'"
    using d' upgrade_plan_suffix [of "[]" CHAIN]
    by (auto simp: alembic_upgrade_head_def do_run_migrations_def empty_database_def
        split: sum.splits)
  from plan_follows(2) [OF this] have "db_version d' = Some ''95fa57d46079''"
    by (simp add: CHAIN_def revision_defs)
  moreover have "''95fa57d46079'' \<in> set (map rev_id SCRIPTS)" unfolding rev_ids by simp
  ultimately have "db_version d'
      \<in> Some ` rev_id ` set SCRIPTS - {Some ''06fcec7eb504'', Some ''d432b550632e''}"
    by simp
  from base_is_out_of_reach [OF this, of None utc_session] d' show ?thesis by blast
qed

text \<open>
  What the downgrade of ffd0de8ef6dc makes of a timestamp outside UTC: the reading moves by the
  offset of the session.
\<close>

lemma downgrade_reads_session_zone:
  "convert se ImplicitCast (convert se AtUtc (SqlTimestamp t)) = SqlTimestamp (local_time se t)"
  by simp

section \<open>Any sequence of commands\<close>

datatype command = UpgradeHead | DowngradeTo "string option"

fun run_command :: "session \<times> command \<Rightarrow> database \<Rightarrow> database" where
  "run_command (se, UpgradeHead) d = fst (alembic_upgrade_head se d)"
| "run_command (se, DowngradeTo v) d = fst (alembic_downgrade se v d)"

text \<open>Any sequence of upgrades and downgrades, successful or not, keeps every row typed by its
  column, every NOT NULL, key and foreign key satisfied and the catalogue well formed.
\<close>

theorem migrations_keep_consistency:
  assumes "consistent d"
  shows "consistent (fold run_command cs d)"
  using assms
proof (induction cs arbitrary: d)
  case (Cons c cs)
  obtain se k where c: "c = (se, k)" by (cases c)
  have "consistent (run_command c d)"
    using Cons.prems plan_keeps unfolding c
    by (cases k) (auto simp: alembic_upgrade_head_def alembic_downgrade_def do_run_migrations_def
        split: sum.split)
  then show ?case using Cons.IH by simp
qed simp

theorem migrations_keep_witness:
  "consistent (fold run_command
     [(utc_session, UpgradeHead), (utc_session, DowngradeTo None)] demo_servers)"
  using migrations_keep_consistency [OF demo_consistent] .

end
