(* ===== verification/PW_StoreSchema.thy ===== *)
theory PW_StoreSchema
  imports PW_MigrationProps PW_System
begin

text \<open>
  The store of the service (\<open>PW_Schema.db\<close>) as rows of the migrated tables. The invariant the
  components keep is the keys and foreign keys the migrations declare, and the limits after
  which a handler meets a DataError are the types of the columns.
\<close>

section \<open>Rows\<close>

definition sql_text :: "string option \<Rightarrow> sql_value" where
  "sql_text s = (case s of None \<Rightarrow> SqlNull | Some t \<Rightarrow> SqlText t)"

definition sql_timestamptz :: "time option \<Rightarrow> sql_value" where
  "sql_timestamptz s = (case s of None \<Rightarrow> SqlNull | Some t \<Rightarrow> SqlTimestamptz t)"

definition sql_int :: "int option \<Rightarrow> sql_value" where
  "sql_int s = (case s of None \<Rightarrow> SqlNull | Some i \<Rightarrow> SqlInt i)"

definition sql_float :: "pyfloat option \<Rightarrow> sql_value" where
  "sql_float s = (case s of None \<Rightarrow> SqlNull | Some x \<Rightarrow> SqlFloat x)"

fun period_label :: "period_type \<Rightarrow> string" where
  "period_label Fivemin = ''fivemin''"
| "period_label Hourly = ''hourly''"
| "period_label Daily = ''daily''"

definition row_from :: "(string \<times> sql_value) list \<Rightarrow> row" where
  "row_from ps n = (case map_of ps n of None \<Rightarrow> SqlNull | Some v \<Rightarrow> v)"

definition user_row :: "user \<Rightarrow> row" where
  "user_row u = row_from
     [(''id'', SqlInt (usr_id u)), (''email'', SqlText (usr_email u)),
      (''password_hash'', SqlText (usr_password_hash u)),
      (''created_at'', SqlTimestamptz (usr_created_at u)),
      (''is_active'', SqlBool (usr_is_active u)),
      (''telegram_chat_id'', sql_text (usr_telegram_chat_id u)),
      (''email_alerts_enabled'', SqlBool (usr_email_alerts_enabled u)),
      (''totp_secret'', sql_text (usr_totp_secret u)),
      (''totp_enabled'', SqlBool (usr_totp_enabled u))]"

definition server_row :: "server \<Rightarrow> row" where
  "server_row s = row_from
     [(''id'', SqlInt (srv_id s)), (''name'', SqlText (srv_name s)),
      (''api_key_hash'', SqlText (srv_api_key_hash s)), (''owner_id'', SqlInt (srv_owner_id s)),
      (''created_at'', SqlTimestamptz (srv_created_at s)),
      (''last_seen_at'', sql_timestamptz (srv_last_seen_at s)),
      (''is_active'', SqlBool (srv_is_active s)),
      (''agent_version'', sql_text (srv_agent_version s)), (''paused'', SqlBool (srv_paused s))]"

definition metric_row :: "metric \<Rightarrow> row" where
  "metric_row m = row_from
     [(''id'', SqlInt (met_id m)), (''server_id'', SqlInt (met_server_id m)),
      (''cpu_percent'', SqlFloat (met_cpu_percent m)),
      (''memory_percent'', SqlFloat (met_memory_percent m)),
      (''disk_percent'', SqlFloat (met_disk_percent m)),
      (''collected_at'', SqlTimestamptz (met_collected_at m))]"

definition docker_metric_row :: "docker_metric \<Rightarrow> row" where
  "docker_metric_row m = row_from
     [(''id'', SqlInt (dm_id m)), (''server_id'', SqlInt (dm_server_id m)),
      (''container_id'', SqlText (dm_container_id m)),
      (''container_name'', SqlText (dm_container_name m)), (''image'', SqlText (dm_image m)),
      (''status'', SqlText (dm_status m)), (''cpu_percent'', SqlFloat (dm_cpu_percent m)),
      (''memory_usage_mb'', SqlFloat (dm_memory_usage_mb m)),
      (''memory_limit_mb'', sql_float (dm_memory_limit_mb m)),
      (''collected_at'', SqlTimestamptz (dm_collected_at m))]"

definition metric_aggregate_row :: "metric_aggregate \<Rightarrow> row" where
  "metric_aggregate_row a = row_from
     [(''id'', SqlInt (ma_id a)), (''server_id'', SqlInt (ma_server_id a)),
      (''period_type'', SqlEnum (period_label (ma_period_type a))),
      (''period_start'', SqlTimestamptz (ma_period_start a)),
      (''period_end'', SqlTimestamptz (ma_period_end a)),
      (''avg_cpu'', SqlFloat (ma_avg_cpu a)), (''min_cpu'', SqlFloat (ma_min_cpu a)),
      (''max_cpu'', SqlFloat (ma_max_cpu a)), (''avg_memory'', SqlFloat (ma_avg_memory a)),
      (''min_memory'', SqlFloat (ma_min_memory a)), (''max_memory'', SqlFloat (ma_max_memory a)),
      (''avg_disk'', SqlFloat (ma_avg_disk a)), (''min_disk'', SqlFloat (ma_min_disk a)),
      (''max_disk'', SqlFloat (ma_max_disk a)), (''sample_count'', SqlInt (ma_sample_count a)),
      (''created_at'', SqlTimestamptz (ma_created_at a)),
      (''updated_at'', SqlTimestamptz (ma_updated_at a))]"

definition docker_aggregate_row :: "docker_aggregate \<Rightarrow> row" where
  "docker_aggregate_row a = row_from
     [(''id'', SqlInt (da_id a)), (''server_id'', SqlInt (da_server_id a)),
      (''container_name'', SqlText (da_container_name a)),
      (''period_type'', SqlEnum (period_label (da_period_type a))),
      (''period_start'', SqlTimestamptz (da_period_start a)),
      (''period_end'', SqlTimestamptz (da_period_end a)),
      (''avg_cpu'', SqlFloat (da_avg_cpu a)), (''min_cpu'', SqlFloat (da_min_cpu a)),
      (''max_cpu'', SqlFloat (da_max_cpu a)),
      (''avg_memory_usage'', SqlFloat (da_avg_memory_usage a)),
      (''max_memory_usage'', SqlFloat (da_max_memory_usage a)),
      (''total_rx_bytes'', SqlInt (da_total_rx_bytes a)),
      (''total_tx_bytes'', SqlInt (da_total_tx_bytes a)),
      (''sample_count'', SqlInt (da_sample_count a)),
      (''created_at'', SqlTimestamptz (da_created_at a)),
      (''updated_at'', SqlTimestamptz (da_updated_at a))]"

definition alert_rule_row :: "alert_rule \<Rightarrow> row" where
  "alert_rule_row r = row_from
     [(''id'', SqlInt (rule_id r)), (''server_id'', SqlInt (rule_server_id r)),
      (''owner_id'', SqlInt (rule_owner_id r)), (''name'', SqlText (rule_name r)),
      (''metric_type'', SqlEnum (metric_type_value (rule_metric_type r))),
      (''metric_field'', SqlText (rule_metric_field r)),
      (''operator'', SqlEnum (operator_value (rule_operator r))),
      (''threshold_value'', SqlFloat (rule_threshold_value r)),
      (''container_name'', sql_text (rule_container_name r)),
      (''cooldown_seconds'', SqlInt (rule_cooldown_seconds r)),
      (''is_active'', SqlBool (rule_is_active r)),
      (''notification_channels'', SqlTexts (rule_notification_channels r)),
      (''last_triggered_at'', sql_timestamptz (rule_last_triggered_at r)),
      (''created_at'', SqlTimestamptz (rule_created_at r)),
      (''updated_at'', SqlTimestamptz (rule_updated_at r))]"

definition alert_event_row :: "alert_event \<Rightarrow> row" where
  "alert_event_row e = row_from
     [(''id'', SqlInt (ev_id e)), (''rule_id'', SqlInt (ev_rule_id e)),
      (''server_id'', SqlInt (ev_server_id e)), (''metric_value'', SqlFloat (ev_metric_value e)),
      (''threshold_value'', SqlFloat (ev_threshold_value e)), (''message'', SqlText (ev_message e)),
      (''container_name'', sql_text (ev_container_name e)),
      (''created_at'', SqlTimestamptz (ev_created_at e)),
      (''resolved_at'', sql_timestamptz (ev_resolved_at e))]"

definition audit_row :: "(audit_meta \<Rightarrow> string) \<Rightarrow> audit_log \<Rightarrow> row" where
  "audit_row json a = row_from
     [(''id'', SqlInt (aud_id a)), (''user_id'', sql_int (aud_user_id a)),
      (''action'', SqlText (aud_action a)), (''resource_type'', sql_text (aud_resource_type a)),
      (''resource_id'', sql_int (aud_resource_id a)),
      (''ip_address'', sql_text (aud_ip_address a)),
      (''meta'', (case aud_meta a of None \<Rightarrow> SqlNull | Some m \<Rightarrow> SqlJson (json m))),
      (''created_at'', SqlTimestamptz (aud_created_at a))]"

definition log_row :: "log_entry \<Rightarrow> row" where
  "log_row l = row_from
     [(''id'', SqlInt (log_id l)), (''server_id'', SqlInt (log_server_id l)),
      (''message'', SqlText (log_message l)), (''created_at'', SqlTimestamptz (log_created_at l))]"

text \<open>The text of a JSON value is a parameter: no constraint reads it.\<close>

definition rows_of :: "(audit_meta \<Rightarrow> string) \<Rightarrow> db \<Rightarrow> data" where
  "rows_of json d t = (case map_of
     [(''users'', map user_row (rows (users d))),
      (''servers'', map server_row (rows (servers d))),
      (''metrics'', map metric_row (rows (metrics d))),
      (''docker_metrics'', map docker_metric_row (rows (docker_metrics d))),
      (''metric_aggregates'', map metric_aggregate_row (rows (metric_aggregates d))),
      (''docker_aggregates'', map docker_aggregate_row (rows (docker_aggregates d))),
      (''alert_rules'', map alert_rule_row (rows (alert_rules d))),
      (''alert_events'', map alert_event_row (rows (alert_events d))),
      (''audit_log'', map (audit_row json) (rows (audit_logs d))),
      (''logs'', map log_row (rows (logs d)))] t of None \<Rightarrow> [] | Some ws \<Rightarrow> ws)"

section \<open>The constraints of the newest revision\<close>

definition head_catalog :: catalog where
  "head_catalog = (case schema_at head of Inl e \<Rightarrow> empty_catalog | Inr c \<Rightarrow> c)"

definition signature :: "relation \<Rightarrow> (string \<times> sql_type \<times> bool) list" where
  "signature r = map (\<lambda>x. (col_name x, col_type x, col_nullable x)) (rel_columns r)"

text \<open>One evaluation of the chain for all that is read from its end.\<close>

lemma head_evaluated:
  "case schema_at head of Inl e \<Rightarrow> False | Inr c \<Rightarrow>
   map (\<lambda>r. (rel_name r, rel_constraints r)) (relations c) =
   [(''servers'', {(''servers_pkey'', PrimaryKey [''id'']),
       (''uq_servers_owner_id_name'', UniqueKey [''owner_id'', ''name'']),
       (''servers_owner_id_fkey'', ForeignKey [''owner_id''] ''users'' [''id''] None)}),
    (''users'', {(''users_pkey'', PrimaryKey [''id'']), (''users_email_key'', UniqueKey [''email''])}),
    (''metrics'', {(''metrics_pkey'', PrimaryKey [''id'']),
       (''metrics_server_id_fkey'', ForeignKey [''server_id''] ''servers'' [''id''] (Some Cascade))}),
    (''docker_metrics'', {(''docker_metrics_pkey'', PrimaryKey [''id'']),
       (''docker_metrics_server_id_fkey'',
        ForeignKey [''server_id''] ''servers'' [''id''] (Some Cascade))}),
    (''alert_rules'', {(''alert_rules_pkey'', PrimaryKey [''id'']),
       (''alert_rules_owner_id_fkey'', ForeignKey [''owner_id''] ''users'' [''id''] (Some Cascade)),
       (''alert_rules_server_id_fkey'',
        ForeignKey [''server_id''] ''servers'' [''id''] (Some Cascade))}),
    (''alert_events'', {(''alert_events_pkey'', PrimaryKey [''id'']),
       (''alert_events_rule_id_fkey'',
        ForeignKey [''rule_id''] ''alert_rules'' [''id''] (Some Cascade)),
       (''alert_events_server_id_fkey'',
        ForeignKey [''server_id''] ''servers'' [''id''] (Some Cascade))}),
    (''metric_aggregates'', {(''metric_aggregates_pkey'', PrimaryKey [''id'']),
       (''metric_aggregates_server_id_fkey'',
        ForeignKey [''server_id''] ''servers'' [''id''] (Some Cascade)),
       (''uq_metric_agg_server_period'',
        UniqueKey [''server_id'', ''period_type'', ''period_start''])}),
    (''docker_aggregates'', {(''docker_aggregates_pkey'', PrimaryKey [''id'']),
       (''docker_aggregates_server_id_fkey'',
        ForeignKey [''server_id''] ''servers'' [''id''] (Some Cascade)),
       (''uq_docker_agg_container_period'',
        UniqueKey [''server_id'', ''container_name'', ''period_type'', ''period_start''])}),
    (''logs'', {(''logs_pkey'', PrimaryKey [''id'']),
       (''logs_server_id_fkey'', ForeignKey [''server_id''] ''servers'' [''id''] (Some Cascade))}),
    (''audit_log'', {(''audit_log_pkey'', PrimaryKey [''id'']),
       (''audit_log_user_id_fkey'',
        ForeignKey [''user_id''] ''users'' [''id''] (Some SetNull))})]
   \<and> filter (\<lambda>p. fst p \<in> {''servers'', ''users'', ''alert_rules'', ''alert_events''})
     (map (\<lambda>r. (rel_name r, signature r)) (relations c)) =
   [(''servers'', [(''id'', IntegerT, False), (''name'', VarcharT None, False),
       (''api_key_hash'', VarcharT None, False), (''created_at'', TimestamptzT, False),
       (''last_seen_at'', TimestamptzT, True), (''is_active'', BooleanT, False),
       (''owner_id'', IntegerT, False), (''agent_version'', VarcharT (Some 64), True),
       (''paused'', BooleanT, False)]),
    (''users'', [(''id'', IntegerT, False), (''email'', VarcharT None, False),
       (''password_hash'', VarcharT None, False), (''created_at'', TimestamptzT, False),
       (''is_active'', BooleanT, False), (''telegram_chat_id'', VarcharT (Some 64), True),
       (''email_alerts_enabled'', BooleanT, False), (''totp_secret'', VarcharT (Some 64), True),
       (''totp_enabled'', BooleanT, False)]),
    (''alert_rules'', [(''id'', IntegerT, False), (''server_id'', IntegerT, False),
       (''owner_id'', IntegerT, False), (''name'', VarcharT (Some 255), False),
       (''metric_type'', EnumT ''metrictype'', False),
       (''metric_field'', VarcharT (Some 100), False),
       (''operator'', EnumT ''thresholdoperator'', False), (''threshold_value'', FloatT, False),
       (''container_name'', VarcharT (Some 255), True), (''cooldown_seconds'', IntegerT, False),
       (''is_active'', BooleanT, False), (''last_triggered_at'', TimestamptzT, True),
       (''created_at'', TimestamptzT, False), (''updated_at'', TimestamptzT, False),
       (''notification_channels'', TextArrayT, False)]),
    (''alert_events'', [(''id'', IntegerT, False), (''rule_id'', IntegerT, False),
       (''server_id'', IntegerT, False), (''metric_value'', FloatT, False),
       (''threshold_value'', FloatT, False), (''message'', VarcharT (Some 500), False),
       (''created_at'', TimestamptzT, False), (''resolved_at'', TimestamptzT, True),
       (''container_name'', VarcharT (Some 255), True)])]
   \<and> enum_types c =
  [(''metrictype'', [''system'', ''docker'']),
   (''thresholdoperator'', [''gt'', ''gte'', ''lt'', ''lte'', ''eq'', ''neq'']),
   (''periodtype'', [''fivemin'', ''hourly'', ''daily''])]"
  by code_simp

lemma head_constraints:
  "map (\<lambda>r. (rel_name r, rel_constraints r)) (relations head_catalog) =
   [(''servers'', {(''servers_pkey'', PrimaryKey [''id'']),
       (''uq_servers_owner_id_name'', UniqueKey [''owner_id'', ''name'']),
       (''servers_owner_id_fkey'', ForeignKey [''owner_id''] ''users'' [''id''] None)}),
    (''users'', {(''users_pkey'', PrimaryKey [''id'']), (''users_email_key'', UniqueKey [''email''])}),
    (''metrics'', {(''metrics_pkey'', PrimaryKey [''id'']),
       (''metrics_server_id_fkey'', ForeignKey [''server_id''] ''servers'' [''id''] (Some Cascade))}),
    (''docker_metrics'', {(''docker_metrics_pkey'', PrimaryKey [''id'']),
       (''docker_metrics_server_id_fkey'',
        ForeignKey [''server_id''] ''servers'' [''id''] (Some Cascade))}),
    (''alert_rules'', {(''alert_rules_pkey'', PrimaryKey [''id'']),
       (''alert_rules_owner_id_fkey'', ForeignKey [''owner_id''] ''users'' [''id''] (Some Cascade)),
       (''alert_rules_server_id_fkey'',
        ForeignKey [''server_id''] ''servers'' [''id''] (Some Cascade))}),
    (''alert_events'', {(''alert_events_pkey'', PrimaryKey [''id'']),
       (''alert_events_rule_id_fkey'',
        ForeignKey [''rule_id''] ''alert_rules'' [''id''] (Some Cascade)),
       (''alert_events_server_id_fkey'',
        ForeignKey [''server_id''] ''servers'' [''id''] (Some Cascade))}),
    (''metric_aggregates'', {(''metric_aggregates_pkey'', PrimaryKey [''id'']),
       (''metric_aggregates_server_id_fkey'',
        ForeignKey [''server_id''] ''servers'' [''id''] (Some Cascade)),
       (''uq_metric_agg_server_period'',
        UniqueKey [''server_id'', ''period_type'', ''period_start''])}),
    (''docker_aggregates'', {(''docker_aggregates_pkey'', PrimaryKey [''id'']),
       (''docker_aggregates_server_id_fkey'',
        ForeignKey [''server_id''] ''servers'' [''id''] (Some Cascade)),
       (''uq_docker_agg_container_period'',
        UniqueKey [''server_id'', ''container_name'', ''period_type'', ''period_start''])}),
    (''logs'', {(''logs_pkey'', PrimaryKey [''id'']),
       (''logs_server_id_fkey'', ForeignKey [''server_id''] ''servers'' [''id''] (Some Cascade))}),
    (''audit_log'', {(''audit_log_pkey'', PrimaryKey [''id'']),
       (''audit_log_user_id_fkey'',
        ForeignKey [''user_id''] ''users'' [''id''] (Some SetNull))})]"
  using head_evaluated by (simp only: head_catalog_def split: sum.splits) blast

lemma constraints_hold_map:
  "constraints_hold c D \<longleftrightarrow> (\<forall>(t, K) \<in> set (map (\<lambda>r. (rel_name r, rel_constraints r)) (relations c)).
     \<forall>k \<in> K. holds D t (snd k))"
  by (simp add: constraints_hold_def)

text \<open>Each constraint over rows built from records.\<close>

lemma distinct_map_cong:
  "(\<And>x y. x \<in> set xs \<Longrightarrow> y \<in> set xs \<Longrightarrow> f x = f y \<longleftrightarrow> g x = g y) \<Longrightarrow>
     distinct (map f xs) \<longleftrightarrow> distinct (map g xs)"
  by (auto simp: distinct_map inj_on_def)

lemma holds_primary:
  assumes "D t = map enc xs" and "\<And>x. enc x c = SqlInt (k x)"
  shows "holds D t (PrimaryKey [c]) \<longleftrightarrow> distinct (map k xs)"
  using assms by (auto simp: comp_def intro!: distinct_map_cong)

lemma holds_unique:
  assumes D: "D t = map enc xs" and n: "\<And>x. SqlNull \<notin> set (map (enc x) cs)"
    and g: "\<And>x y. map (enc x) cs = map (enc y) cs \<longleftrightarrow> g x = g y"
  shows "holds D t (UniqueKey cs) \<longleftrightarrow> distinct (map g xs)"
proof -
  have m: "map (\<lambda>w. map w cs) (D t) = map (\<lambda>x. map (enc x) cs) xs"
    by (simp add: D comp_def)
  have "filter (\<lambda>vs. SqlNull \<notin> set vs) (map (\<lambda>w. map w cs) (D t)) = map (\<lambda>x. map (enc x) cs) xs"
    unfolding m
  proof (rule filter_True, rule ballI)
    fix vs
    assume "vs \<in> set (map (\<lambda>x. map (enc x) cs) xs)"
    then obtain x where "vs = map (enc x) cs" by auto
    then show "SqlNull \<notin> set vs" using n by simp
  qed
  then show ?thesis
    unfolding holds.simps using distinct_map_cong [of xs "\<lambda>x. map (enc x) cs" g] g by metis
qed

lemma key_image [simp]: "[SqlInt i] \<in> (\<lambda>x. [SqlInt (k x)]) ` S \<longleftrightarrow> i \<in> k ` S"
  by auto

lemma holds_foreign:
  assumes "D t = map enc xs" and "D u = map enc' ys"
    and "\<And>x. enc x c = SqlInt (f x)" and "\<And>y. enc' y m = SqlInt (k y)"
  shows "holds D t (ForeignKey [c] u [m] od) \<longleftrightarrow> f ` set xs \<subseteq> k ` set ys"
  using assms by (auto simp: image_image)

lemma holds_foreign_option:
  assumes "D t = map enc xs" and "D u = map enc' ys"
    and "\<And>x. enc x c = sql_int (f x)" and "\<And>y. enc' y m = SqlInt (k y)"
  shows "holds D t (ForeignKey [c] u [m] od) \<longleftrightarrow> (\<forall>x \<in> set xs. \<forall>i. f x = Some i \<longrightarrow> i \<in> k ` set ys)"
  using assms by (auto simp: image_image sql_int_def split: option.splits)

lemma row_from_Nil [simp]: "row_from [] n = SqlNull"
  by (simp add: row_from_def)

lemma row_from_Cons [simp]: "row_from ((m, v) # ps) n = (if n = m then v else row_from ps n)"
  by (simp add: row_from_def)

lemma table_rows:
  "rows_of json d ''users'' = map user_row (rows (users d))"
  "rows_of json d ''servers'' = map server_row (rows (servers d))"
  "rows_of json d ''metrics'' = map metric_row (rows (metrics d))"
  "rows_of json d ''docker_metrics'' = map docker_metric_row (rows (docker_metrics d))"
  "rows_of json d ''metric_aggregates'' = map metric_aggregate_row (rows (metric_aggregates d))"
  "rows_of json d ''docker_aggregates'' = map docker_aggregate_row (rows (docker_aggregates d))"
  "rows_of json d ''alert_rules'' = map alert_rule_row (rows (alert_rules d))"
  "rows_of json d ''alert_events'' = map alert_event_row (rows (alert_events d))"
  "rows_of json d ''audit_log'' = map (audit_row json) (rows (audit_logs d))"
  "rows_of json d ''logs'' = map log_row (rows (logs d))"
  by (simp_all add: rows_of_def)

lemmas row_defs = user_row_def server_row_def metric_row_def docker_metric_row_def
  metric_aggregate_row_def docker_aggregate_row_def alert_rule_row_def alert_event_row_def audit_row_def
  log_row_def

lemma ids_and_owners:
  "user_row u ''id'' = SqlInt (usr_id u)" "server_row s ''id'' = SqlInt (srv_id s)"
  "server_row s ''owner_id'' = SqlInt (srv_owner_id s)"
  "metric_row m ''id'' = SqlInt (met_id m)" "metric_row m ''server_id'' = SqlInt (met_server_id m)"
  "docker_metric_row q ''id'' = SqlInt (dm_id q)"
  "docker_metric_row q ''server_id'' = SqlInt (dm_server_id q)"
  "metric_aggregate_row a ''id'' = SqlInt (ma_id a)"
  "metric_aggregate_row a ''server_id'' = SqlInt (ma_server_id a)"
  "docker_aggregate_row b ''id'' = SqlInt (da_id b)"
  "docker_aggregate_row b ''server_id'' = SqlInt (da_server_id b)"
  "alert_rule_row r ''id'' = SqlInt (rule_id r)" "alert_rule_row r ''server_id'' = SqlInt (rule_server_id r)"
  "alert_rule_row r ''owner_id'' = SqlInt (rule_owner_id r)"
  "alert_event_row e ''id'' = SqlInt (ev_id e)" "alert_event_row e ''rule_id'' = SqlInt (ev_rule_id e)"
  "alert_event_row e ''server_id'' = SqlInt (ev_server_id e)"
  "audit_row json l ''id'' = SqlInt (aud_id l)" "audit_row json l ''user_id'' = sql_int (aud_user_id l)"
  "log_row g ''id'' = SqlInt (log_id g)" "log_row g ''server_id'' = SqlInt (log_server_id g)"
  by (simp_all add: row_defs)

lemma period_label_eq [simp]: "period_label p = period_label q \<longleftrightarrow> p = q"
  by (cases p; cases q; simp)

lemma unique_rows:
  "holds (rows_of json d) ''users'' (UniqueKey [''email'']) \<longleftrightarrow> distinct (map usr_email (rows (users d)))"
  "holds (rows_of json d) ''servers'' (UniqueKey [''owner_id'', ''name''])
     \<longleftrightarrow> distinct (map (\<lambda>s. (srv_owner_id s, srv_name s)) (rows (servers d)))"
  "holds (rows_of json d) ''metric_aggregates''
       (UniqueKey [''server_id'', ''period_type'', ''period_start''])
     \<longleftrightarrow> distinct (map ma_key (rows (metric_aggregates d)))"
  "holds (rows_of json d) ''docker_aggregates''
       (UniqueKey [''server_id'', ''container_name'', ''period_type'', ''period_start''])
     \<longleftrightarrow> distinct (map da_key (rows (docker_aggregates d)))"
     apply (rule holds_unique, rule table_rows; simp add: user_row_def)
    apply (rule holds_unique, rule table_rows; simp add: server_row_def)
   apply (rule holds_unique, rule table_rows; simp add: metric_aggregate_row_def ma_key_def)
  apply (rule holds_unique, rule table_rows; simp add: docker_aggregate_row_def da_key_def)
  done

lemma primary_rows:
  "holds (rows_of json d) ''users'' (PrimaryKey [''id'']) \<longleftrightarrow> distinct (map usr_id (rows (users d)))"
  "holds (rows_of json d) ''servers'' (PrimaryKey [''id'']) \<longleftrightarrow> distinct (map srv_id (rows (servers d)))"
  "holds (rows_of json d) ''metrics'' (PrimaryKey [''id'']) \<longleftrightarrow> distinct (map met_id (rows (metrics d)))"
  "holds (rows_of json d) ''docker_metrics'' (PrimaryKey [''id''])
     \<longleftrightarrow> distinct (map dm_id (rows (docker_metrics d)))"
  "holds (rows_of json d) ''metric_aggregates'' (PrimaryKey [''id''])
     \<longleftrightarrow> distinct (map ma_id (rows (metric_aggregates d)))"
  "holds (rows_of json d) ''docker_aggregates'' (PrimaryKey [''id''])
     \<longleftrightarrow> distinct (map da_id (rows (docker_aggregates d)))"
  "holds (rows_of json d) ''alert_rules'' (PrimaryKey [''id''])
     \<longleftrightarrow> distinct (map rule_id (rows (alert_rules d)))"
  "holds (rows_of json d) ''alert_events'' (PrimaryKey [''id''])
     \<longleftrightarrow> distinct (map ev_id (rows (alert_events d)))"
  "holds (rows_of json d) ''audit_log'' (PrimaryKey [''id''])
     \<longleftrightarrow> distinct (map aud_id (rows (audit_logs d)))"
  "holds (rows_of json d) ''logs'' (PrimaryKey [''id'']) \<longleftrightarrow> distinct (map log_id (rows (logs d)))"
  by (rule holds_primary, rule table_rows, rule ids_and_owners)+

lemma foreign_rows:
  "holds (rows_of json d) ''servers'' (ForeignKey [''owner_id''] ''users'' [''id''] od)
     \<longleftrightarrow> srv_owner_id ` set (rows (servers d)) \<subseteq> usr_id ` set (rows (users d))"
  "holds (rows_of json d) ''metrics'' (ForeignKey [''server_id''] ''servers'' [''id''] od)
     \<longleftrightarrow> met_server_id ` set (rows (metrics d)) \<subseteq> srv_id ` set (rows (servers d))"
  "holds (rows_of json d) ''docker_metrics'' (ForeignKey [''server_id''] ''servers'' [''id''] od)
     \<longleftrightarrow> dm_server_id ` set (rows (docker_metrics d)) \<subseteq> srv_id ` set (rows (servers d))"
  "holds (rows_of json d) ''metric_aggregates'' (ForeignKey [''server_id''] ''servers'' [''id''] od)
     \<longleftrightarrow> ma_server_id ` set (rows (metric_aggregates d)) \<subseteq> srv_id ` set (rows (servers d))"
  "holds (rows_of json d) ''docker_aggregates'' (ForeignKey [''server_id''] ''servers'' [''id''] od)
     \<longleftrightarrow> da_server_id ` set (rows (docker_aggregates d)) \<subseteq> srv_id ` set (rows (servers d))"
  "holds (rows_of json d) ''alert_rules'' (ForeignKey [''server_id''] ''servers'' [''id''] od)
     \<longleftrightarrow> rule_server_id ` set (rows (alert_rules d)) \<subseteq> srv_id ` set (rows (servers d))"
  "holds (rows_of json d) ''alert_rules'' (ForeignKey [''owner_id''] ''users'' [''id''] od)
     \<longleftrightarrow> rule_owner_id ` set (rows (alert_rules d)) \<subseteq> usr_id ` set (rows (users d))"
  "holds (rows_of json d) ''alert_events'' (ForeignKey [''rule_id''] ''alert_rules'' [''id''] od)
     \<longleftrightarrow> ev_rule_id ` set (rows (alert_events d)) \<subseteq> rule_id ` set (rows (alert_rules d))"
  "holds (rows_of json d) ''alert_events'' (ForeignKey [''server_id''] ''servers'' [''id''] od)
     \<longleftrightarrow> ev_server_id ` set (rows (alert_events d)) \<subseteq> srv_id ` set (rows (servers d))"
  "holds (rows_of json d) ''logs'' (ForeignKey [''server_id''] ''servers'' [''id''] od)
     \<longleftrightarrow> log_server_id ` set (rows (logs d)) \<subseteq> srv_id ` set (rows (servers d))"
  by (rule holds_foreign, rule table_rows, rule table_rows, rule ids_and_owners, rule ids_and_owners)+

lemma optional_reference:
  "(\<forall>r \<in> A. \<forall>i. f r = Some i \<longrightarrow> i \<in> B) \<longleftrightarrow> f ` A \<subseteq> insert None (Some ` B)"
  by (auto simp: image_subset_iff) (metis option.exhaust image_eqI)

lemma audit_rows:
  "holds (rows_of json d) ''audit_log'' (ForeignKey [''user_id''] ''users'' [''id''] od)
     \<longleftrightarrow> aud_user_id ` set (rows (audit_logs d)) \<subseteq> insert None (Some ` usr_id ` set (rows (users d)))"
  unfolding optional_reference [symmetric]
  by (rule holds_foreign_option, rule table_rows, rule table_rows, rule ids_and_owners,
      rule ids_and_owners)

text \<open>The sequences are ahead of the ids they gave out.\<close>

definition below :: "('a \<Rightarrow> int) \<Rightarrow> 'a table \<Rightarrow> bool" where
  "below k t \<longleftrightarrow> (\<forall>r \<in> set (rows t). k r < seq t)"

definition sequences_ahead :: "db \<Rightarrow> bool" where
  "sequences_ahead d \<longleftrightarrow> below usr_id (users d) \<and> below srv_id (servers d) \<and> below met_id (metrics d)
     \<and> below dm_id (docker_metrics d) \<and> below ma_id (metric_aggregates d)
     \<and> below da_id (docker_aggregates d) \<and> below rule_id (alert_rules d)
     \<and> below ev_id (alert_events d) \<and> below aud_id (audit_logs d) \<and> below log_id (logs d)"

text \<open>C29: The invariant of the store that every operation of the service keeps is, up to the
  id sequences, exactly the primary
  keys, unique keys and foreign keys that the tables of the newest migration declare, read on
  the rows of the store.
\<close>

theorem store_invariant_is_the_schema:
  "store_ok d
    \<longleftrightarrow> constraints_hold head_catalog (rows_of json d) \<and> sequences_ahead d"
proof -
  have "constraints_hold head_catalog (rows_of json d) \<longleftrightarrow>
      distinct (map usr_id (rows (users d))) \<and> distinct (map srv_id (rows (servers d)))
      \<and> distinct (map met_id (rows (metrics d))) \<and> distinct (map dm_id (rows (docker_metrics d)))
      \<and> distinct (map ma_id (rows (metric_aggregates d)))
      \<and> distinct (map da_id (rows (docker_aggregates d)))
      \<and> distinct (map rule_id (rows (alert_rules d))) \<and> distinct (map ev_id (rows (alert_events d)))
      \<and> distinct (map aud_id (rows (audit_logs d))) \<and> distinct (map log_id (rows (logs d)))
      \<and> uniques_ok d \<and> aggregates_unique d \<and> foreign_keys_ok d"
    unfolding constraints_hold_map head_constraints
    by (auto simp only: list.set ball_simps prod.case snd_conv insert_iff empty_iff simp_thms
        primary_rows unique_rows foreign_rows audit_rows uniques_ok_def aggregates_unique_def
        foreign_keys_ok_def user_ids_def server_ids_def rule_ids_def)
  then show ?thesis
    by (auto simp: store_ok_def db_ok_def keys_ok_def keyed_def sequences_ahead_def below_def)
qed

section \<open>The types of the columns\<close>

text \<open>A row the table accepts, as far as its columns are concerned.\<close>

definition storable :: "string \<Rightarrow> row \<Rightarrow> bool" where
  "storable t w \<longleftrightarrow> some_relation head_catalog t (\<lambda>r. row_ok (enum_types head_catalog) r w)"

lemma head_signatures:
  "filter (\<lambda>p. fst p \<in> {''servers'', ''users'', ''alert_rules'', ''alert_events''})
     (map (\<lambda>r. (rel_name r, signature r)) (relations head_catalog)) =
   [(''servers'', [(''id'', IntegerT, False), (''name'', VarcharT None, False),
       (''api_key_hash'', VarcharT None, False), (''created_at'', TimestamptzT, False),
       (''last_seen_at'', TimestamptzT, True), (''is_active'', BooleanT, False),
       (''owner_id'', IntegerT, False), (''agent_version'', VarcharT (Some 64), True),
       (''paused'', BooleanT, False)]),
    (''users'', [(''id'', IntegerT, False), (''email'', VarcharT None, False),
       (''password_hash'', VarcharT None, False), (''created_at'', TimestamptzT, False),
       (''is_active'', BooleanT, False), (''telegram_chat_id'', VarcharT (Some 64), True),
       (''email_alerts_enabled'', BooleanT, False), (''totp_secret'', VarcharT (Some 64), True),
       (''totp_enabled'', BooleanT, False)]),
    (''alert_rules'', [(''id'', IntegerT, False), (''server_id'', IntegerT, False),
       (''owner_id'', IntegerT, False), (''name'', VarcharT (Some 255), False),
       (''metric_type'', EnumT ''metrictype'', False),
       (''metric_field'', VarcharT (Some 100), False),
       (''operator'', EnumT ''thresholdoperator'', False), (''threshold_value'', FloatT, False),
       (''container_name'', VarcharT (Some 255), True), (''cooldown_seconds'', IntegerT, False),
       (''is_active'', BooleanT, False), (''last_triggered_at'', TimestamptzT, True),
       (''created_at'', TimestamptzT, False), (''updated_at'', TimestamptzT, False),
       (''notification_channels'', TextArrayT, False)]),
    (''alert_events'', [(''id'', IntegerT, False), (''rule_id'', IntegerT, False),
       (''server_id'', IntegerT, False), (''metric_value'', FloatT, False),
       (''threshold_value'', FloatT, False), (''message'', VarcharT (Some 500), False),
       (''created_at'', TimestamptzT, False), (''resolved_at'', TimestamptzT, True),
       (''container_name'', VarcharT (Some 255), True)])]"
  using head_evaluated by (simp only: head_catalog_def split: sum.splits) blast

lemma head_enums: "enum_types head_catalog =
  [(''metrictype'', [''system'', ''docker'']),
   (''thresholdoperator'', [''gt'', ''gte'', ''lt'', ''lte'', ''eq'', ''neq'']),
   (''periodtype'', [''fivemin'', ''hourly'', ''daily''])]"
  using head_evaluated by (simp only: head_catalog_def split: sum.splits) blast

lemma row_ok_signature:
  "row_ok E r w \<longleftrightarrow>
     (\<forall>(n, ty, null) \<in> set (signature r). if w n = SqlNull then null else of_type E ty (w n))
     \<and> (\<forall>n. n \<notin> fst ` set (signature r) \<longrightarrow> w n = SqlNull)"
  by (auto simp: row_ok_def signature_def value_ok_def column_names_def image_image)

lemma storable_signature:
  assumes "t \<in> {''servers'', ''users'', ''alert_rules'', ''alert_events''}"
  shows "storable t w \<longleftrightarrow>
    (\<exists>(u, cs) \<in> set (filter (\<lambda>p. fst p \<in> {''servers'', ''users'', ''alert_rules'', ''alert_events''})
        (map (\<lambda>r. (rel_name r, signature r)) (relations head_catalog))). u = t
      \<and> (\<forall>(n, ty, null) \<in> set cs. if w n = SqlNull then null
           else of_type (enum_types head_catalog) ty (w n))
      \<and> (\<forall>n. n \<notin> fst ` set cs \<longrightarrow> w n = SqlNull))"
  using assms unfolding storable_def some_relation_def row_ok_signature by auto

lemma text_fits_option [simp]:
  "sql_text s \<noteq> SqlNull \<Longrightarrow> of_type E (VarcharT (Some n)) (sql_text s) \<longleftrightarrow> fits n s"
  "sql_text s = SqlNull \<longleftrightarrow> s = None" "sql_timestamptz q = SqlNull \<longleftrightarrow> q = None"
  "q \<noteq> None \<Longrightarrow> of_type E TimestamptzT (sql_timestamptz q)" "fits n None"
  by (auto simp: sql_text_def sql_timestamptz_def fits_def split: option.splits)

lemma enum_values [simp]:
  "is_label (enum_types head_catalog) (EnumT ''metrictype'') (metric_type_value m)"
  "is_label (enum_types head_catalog) (EnumT ''thresholdoperator'') (operator_value q)"
   apply (cases m; simp add: head_enums)
  apply (cases q; simp add: head_enums)
  done

text \<open>A row of users, servers, alert_rules or alert_events breaks a type of its migrated table,
  and is refused by PostgreSQL with a DataError, exactly when the check the handlers of the
  model make before writing fails, or an id is wider than 32 bits.
\<close>

theorem data_errors_are_the_columns:
  "(storable ''users'' (user_row u) \<longleftrightarrow> user_fits u \<and> int32 (usr_id u))
   \<and> (storable ''servers'' (server_row s)
        \<longleftrightarrow> server_fits s \<and> int32 (srv_id s) \<and> int32 (srv_owner_id s))
   \<and> (storable ''alert_rules'' (alert_rule_row r)
        \<longleftrightarrow> rule_fits r \<and> int32 (rule_id r) \<and> int32 (rule_server_id r) \<and> int32 (rule_owner_id r))
   \<and> (storable ''alert_events'' (alert_event_row e)
        \<longleftrightarrow> event_fits e \<and> int32 (ev_id e) \<and> int32 (ev_rule_id e) \<and> int32 (ev_server_id e))"
proof (intro conjI)
  have t: "''users'' \<in> {''servers'', ''users'', ''alert_rules'', ''alert_events''}" by simp
  show "storable ''users'' (user_row u) \<longleftrightarrow> user_fits u \<and> int32 (usr_id u)"
    unfolding storable_signature [OF t] head_signatures
    by (auto simp: user_row_def user_fits_def int32_def)
next
  have t: "''servers'' \<in> {''servers'', ''users'', ''alert_rules'', ''alert_events''}" by simp
  show "storable ''servers'' (server_row s)
      \<longleftrightarrow> server_fits s \<and> int32 (srv_id s) \<and> int32 (srv_owner_id s)"
    unfolding storable_signature [OF t] head_signatures
    by (auto simp: server_row_def server_fits_def int32_def)
next
  have t: "''alert_rules'' \<in> {''servers'', ''users'', ''alert_rules'', ''alert_events''}" by simp
  show "storable ''alert_rules'' (alert_rule_row r)
      \<longleftrightarrow> rule_fits r \<and> int32 (rule_id r) \<and> int32 (rule_server_id r) \<and> int32 (rule_owner_id r)"
    unfolding storable_signature [OF t] head_signatures
    by (auto simp: alert_rule_row_def rule_fits_def int32_def simp del: is_label.simps)
next
  have t: "''alert_events'' \<in> {''servers'', ''users'', ''alert_rules'', ''alert_events''}" by simp
  show "storable ''alert_events'' (alert_event_row e)
      \<longleftrightarrow> event_fits e \<and> int32 (ev_id e) \<and> int32 (ev_rule_id e) \<and> int32 (ev_server_id e)"
    unfolding storable_signature [OF t] head_signatures
    by (auto simp: alert_event_row_def event_fits_def int32_def)
qed

end
