(* ===== verification/Spec2Isabelle.thy ===== *)
theory Spec2Isabelle
  imports PW_Live PW_Wiring PW_AgentRun PW_BotLoop PW_Responses PW_Lifecycle PW_Demo PW_StoreSchema
begin

text \<open>
  PulseWatch, a server monitoring service: a FastAPI application (\<open>app/\<close>), its Celery tasks
  (\<open>app/tasks/\<close>), its Telegram bot (\<open>app/telegram_bot.py\<close>) and the agent (\<open>agent/\<close>) that runs on
  a monitored server. Agents post metrics with an API key; the application stores them,
  evaluates the alert rules, records events, queues notifications and publishes to Redis, from
  where dashboards receive them over WebSockets. Periodic tasks aggregate the metrics, close
  events that no longer breach, mark servers that fell silent and prune logs. Users own servers
  and rules, and manage them through the API or the bot.

  This theory imports the development and says how it is laid out; the properties are in the
  theories of the components and, where they span components, in PW_Live and PW_Wiring.

  \<^bold>\<open>Shape of the model.\<close> A handler or task is a function from its arguments and the shared state
  to a result and the next state. The shared state \<open>'r app\<close> (PW_Schema) holds the database, the
  Redis store, the queued tasks and the messages published so far. A failure is a value: \<open>exc\<close>
  for Python exceptions, \<open>HTTPException\<close> with status and detail for refusals, and \<open>Unhandled\<close>
  where an exception leaves a handler and becomes a 500. \<open>env\<close> is what the outside world decides
  for one request: both clocks, the printing of floats, and which best-effort writes go
  through. Every definition that models code can be evaluated.

  \<^bold>\<open>Theories and sources.\<close>
  \<^item> PW_Prelude: instants, Python floats with their two orders, errors, and tables with an
    autoincrement key and the SQL statements the source uses. PW_Text: the string methods.
  \<^item> PW_Schema: the tables of \<open>app/models/\<close> as records, the database, its constraints (\<open>db_ok\<close>:
    keys, unique columns, foreign keys), the cascade of deleting a server, and the shared state.
  \<^item> PW_Config: the settings (\<open>app/config.py\<close>). PW_RedisClient: \<open>app/redis_client.py\<close> over the
    locale \<open>redis_service\<close>, with the locale \<open>one_time_store\<close> for its one-time secrets.
  \<^item> PW_Security: \<open>app/core/security.py\<close>, \<open>app/api/deps.py\<close>, the audit trail; the locale
    \<open>crypto_service\<close>. PW_Auth: \<open>app/api/auth.py\<close>.
  \<^item> PW_Threshold: \<open>app/services/threshold.py\<close>; the locale \<open>rule_evaluator\<close> covers both of its
    evaluations. PW_Ingest: the two upload endpoints. PW_Resolver: \<open>app/services/alert_resolver.py\<close>,
    with the locale \<open>resolver\<close> that relates the cached loop to its uncached specification.
  \<^item> PW_Aggregation: \<open>app/services/aggregation.py\<close> and its tasks; the locale \<open>upsert_table\<close>.
    PW_Heartbeat: the heartbeat task, the gauges, log retention. PW_Notifications: the Celery
    tasks that send, the two senders and the Alertmanager webhook.
  \<^item> PW_Csv, PW_AlertRules, PW_Servers: \<open>app/utils/csv_export.py\<close>, \<open>app/api/alerts.py\<close> and
    \<open>app/api/servers.py\<close> with their schemas.
  \<^item> PW_BotText, PW_BotDraft, PW_DraftCodec, PW_Bot, PW_BotProps, PW_Dialogue: the bot: what it
    reads, the steps of the rule dialogue, the stored form of a draft (the locales \<open>draft_codec\<close>
    and \<open>draft_store\<close>), the handlers, and conversations of several messages.
  \<^item> PW_LogStream: the registry of log subscribers (the locale \<open>subscriber_registry\<close>), the
    WebSocket endpoints, and the connection of an agent as a machine of its two tasks.
  \<^item> PW_Agent: the collectors, the sender and the two loops of the agent. PW_Machine: machines of
    labelled steps, with the locales \<open>machine\<close> (an invariant) and \<open>stopping_machine\<close> (bounded work
    once told to stop). PW_AgentRun: the agent as such a machine: both tasks, the main coroutine,
    signals, cancellation and the journalctl processes. PW_BotLoop: the polling bot as a machine
    over the queue of updates (the locales \<open>telegram_service\<close> and, with the expiry of updates,
    \<open>telegram_retention\<close>), with failed polls and restarts.
  \<^item> PW_Wiring: the routes of \<open>app/main.py\<close> in the order of their registration, and the beat
    schedule of \<open>app/tasks/celery_app.py\<close> with the tasks a worker registers. PW_Lifecycle: the
    lifespan of the web process (a machine again), the health check, and the retries of a
    notification task (the locale \<open>celery_retries\<close>). PW_Responses: the response models of
    \<open>app/schemas/\<close> and the answers of the reading endpoints. PW_Demo: \<open>scripts/demo.py\<close>, a user's
    way through the handlers from registration to the first alert.
  \<^item> PW_System: one state machine, \<open>operate\<close>, over every operation that writes, each behind the
    gate of its endpoint, and \<open>service_run\<close>, the states it reaches. PW_Live: what holds of them.
  \<^item> PW_Ddl: a catalogue of tables with their rows, and the data-definition statements of
    PostgreSQL over them. PW_DdlLaws: every statement keeps the catalogue well formed, the rows
    typed and the constraints true; the locale \<open>ddl_engine\<close> with its instance \<open>execute\<close>.
  \<^item> PW_Migrations: \<open>alembic/versions/\<close>, every revision with both functions, the run of
    \<open>alembic/env.py\<close>, and the tables the models declare. PW_Chain: the scripts form one chain.
    PW_Upgrade: a static check of statements against facts about the rows, and its evaluation
    on the chain. PW_Downgrade: when a statement takes another back. PW_MigrationProps: the
    properties. PW_StoreSchema: the store of PW_Schema as rows of the migrated tables.
  \<^item> PW_Fixtures: the small database and requests on which the witnesses evaluate the code.

  \<^bold>\<open>What is shown.\<close> Every reachable state keeps the constraints of the
  store. Sessions: refresh tokens rotate, reuse closes all sessions of the user, kinds of tokens
  are not interchangeable, a reset or a second factor does what it should. Alerts: which rules
  fire, the cooldown between two events of a rule over any sequence of evaluations, which events
  the resolver closes. Aggregation: one row per window that summarises it, idempotence, every
  sample in the window of exactly one run. Isolation: rules, servers, exports, dashboards and
  live streams of one user are closed to others. From nothing to an alert: on a consistent
  service, where nothing is in the way of it (\<open>demo_ready\<close>), the demo's user gets an account, a
  server, rules, and an event exactly when a posted value exceeds a threshold. No answer carries a stored secret. The bot: deletions need a confirmation
  in time, the dialogue never gets stuck and ends in the rule it asked about. Streams: the
  registry implements a relation, and log lines are neither lost silently nor duplicated nor
  reordered. Processes: the streamer loop returns exactly when a stop is seen before a
  connection hangs on a silent journal, the agent ends in boundedly many steps once told and the
  journal speaks, the bot handles every update once and in order until it restarts, and even then
  leaves none that Telegram does not let expire. Migrations: an upgrade ends in the tables of the models
  whatever rows it meets, downgrades restore tables and rows; the invariant of the store and the length checks of the handlers are the
  constraints and column types of the newest revision. The properties also pin down behaviour
  that is not what the code means to do: a server switched off by the heartbeat that never comes
  back, an endpoint that cannot be reached, one overflow or one rule that stops a task for
  everybody, one failed batch that ends a log stream, a draft that crosses accounts, an upgrade
  that fails on existing servers and a downgrade that always fails, a silent journal that holds
  the agent back from stopping, a batch of messages that a restart handles again, retries whose
  pauses add up to half a minute, and a worker that knows none of its tasks.

  \<^bold>\<open>Assumptions.\<close> Libraries and services are arguments: Redis (\<open>redis_service\<close>: expiry at the
  deadline, deletion, scan), the JWT, bcrypt and TOTP libraries (\<open>crypto_service\<close>: what was encoded
  decodes until it expires, a hash checks), the JSON codecs (\<open>draft_codec\<close>), the queue of
  Telegram's updates (\<open>telegram_service\<close>: updates stay until a higher offset is named; \<open>telegram_retention\<close>: the oldest
  may expire; their ids grow, so no week passes without one), the SQL average,
  HTTP and SMTP, Celery (\<open>celery_retries\<close>: a retry waits no longer than its backoff, and an attempt is bounded; a module found
  for a package is its submodule \<open>tasks\<close>), and PostgreSQL's data definition (\<open>ddl_engine\<close>: what a statement refuses and
  makes of the catalogue, and that it keeps the constraints). Each contract has an instance that the witnesses use. A handler is one
  atomic step, except the connection of an agent in PW_LogStream and the agent in PW_AgentRun, whose
  steps lie between two awaits, and a message of the bot in PW_BotLoop. Strings are over Latin-1, so texts in Russian are constructors. Rows with equal sort
  keys keep their order of insertion, names collate by code points, decimals of an agent's or
  user's input are not rounded to 53 bits, and naive datetimes are read as UTC. Ids are integers
  below the sequence; that a sequence runs out of 32 bits is not modelled, but an id that does
  not fit its column in a query raises as the driver does. Of texts only the length is checked
  against the column; that PostgreSQL refuses the character NUL is not modelled.

  \<^bold>\<open>Bounds and fuel.\<close> Loops over fetched rows and lists are structural
  recursions (the lineage of a revision is followed as many steps as there are scripts, which
  \<open>history_head\<close> shows to be all of it), and the two endless loops of the agent are partial functions of the whole sequence
  of rounds, where when the streamer returns is a theorem. Once the
  agent of PW_AgentRun is told to stop, at most 16 steps are left, and three per journalctl that
  still has to be closed.

  \<^bold>\<open>Not modelled.\<close> The framework: request parsing beyond the validators of the schemas, the
  printing of a response as JSON, rate limits, Prometheus counters, logging, static files. The HTTP calls by which the bot replies, which change nothing. The
  engine and the offline mode of Alembic, id sequences in the catalogue, the order of columns.
  The web front end, the example over a generated client, dashboards and tests.
\<close>

end
